(* ===== verification/Art_Prelude.thy ===== *)
theory Art_Prelude
  imports Main "HOL-Library.Word" "HOL-Library.Signed_Division"
begin

text \<open>
  The vocabulary the components share.  Machine integers are words of the width the C++ type has
  (\<open>u8\<close>, \<open>u16\<close>, \<open>u32\<close>, \<open>u64\<close>); a signed and an unsigned type of
  the same width share the word type, and \<open>sint\<close> or \<open>uint\<close> says which reading an
  operation uses.  Memory that is read and written through raw pointers is a total map from
  addresses to bytes.  The collection \<open>bits_defs\<close> holds the rewrites that turn a C++ mask
  literal into a \<open>take_bit\<close>, which is what the library's bit lemmas speak about.
\<close>

unbundle bit_operations_syntax

type_synonym u8 = "8 word"
type_synonym u16 = "16 word"
type_synonym u32 = "32 word"
type_synonym u64 = "64 word"

type_synonym memory = "nat \<Rightarrow> u8"

named_theorems bits_defs

section \<open>Masks and bit fields\<close>

lemma and_1_take_bit [bits_defs]: "(x::'a::len word) AND 1 = take_bit 1 x"
  by (simp add: take_bit_eq_mask mask_eq_exp_minus_1)

lemma and_3_take_bit [bits_defs]: "(x::'a::len word) AND 0x3 = take_bit 2 x"
  by (simp add: take_bit_eq_mask mask_eq_exp_minus_1)

lemma and_f_take_bit [bits_defs]: "(x::'a::len word) AND 0xf = take_bit 4 x"
  by (simp add: take_bit_eq_mask mask_eq_exp_minus_1)

lemma and_1f_take_bit [bits_defs]: "(x::'a::len word) AND 0x1f = take_bit 5 x"
  by (simp add: take_bit_eq_mask mask_eq_exp_minus_1)

lemma and_3f_take_bit [bits_defs]: "(x::'a::len word) AND 0x3f = take_bit 6 x"
  by (simp add: take_bit_eq_mask mask_eq_exp_minus_1)

lemma and_7f_take_bit [bits_defs]: "(x::'a::len word) AND 0x7f = take_bit 7 x"
  by (simp add: take_bit_eq_mask mask_eq_exp_minus_1)

lemma and_ff_take_bit [bits_defs]: "(x::'a::len word) AND 0xff = take_bit 8 x"
  by (simp add: take_bit_eq_mask mask_eq_exp_minus_1)

lemma and_3ff_take_bit [bits_defs]: "(x::'a::len word) AND 0x3ff = take_bit 10 x"
  by (simp add: take_bit_eq_mask mask_eq_exp_minus_1)

lemma and_ffff_take_bit [bits_defs]: "(x::'a::len word) AND 0xffff = take_bit 16 x"
  by (simp add: take_bit_eq_mask mask_eq_exp_minus_1)

section \<open>Words below a power of two have no bits above it\<close>

lemma unat_take_bit_less [simp]: "unat (take_bit n (x::'a::len word)) < 2 ^ n"
  by (simp add: unsigned_take_bit_eq)

lemma word_less_exp_take_bit:
  fixes x :: "'a::len word"
  assumes "unat x < 2 ^ n"
  shows "take_bit n x = x"
  using assms by (metis take_bit_nat_eq_self unsigned_take_bit_eq unsigned_word_eqI)

lemma not_bit_of_less:
  fixes x :: "'a::len word"
  assumes "unat x < 2 ^ n" "n \<le> m"
  shows "\<not> bit x m"
  using word_less_exp_take_bit[OF assms(1)] assms(2) by (metis bit_take_bit_iff leD)

lemma unat_less_expI:
  fixes x :: "'a::len word"
  assumes "\<And>m. n \<le> m \<Longrightarrow> \<not> bit x m"
  shows "unat x < 2 ^ n"
proof -
  have "take_bit n x = x"
    by (rule bit_eqI) (use assms in \<open>auto simp: bit_take_bit_iff not_le[symmetric]\<close>)
  then show ?thesis by (metis unat_take_bit_less)
qed

lemma unat_word_of_nat: "n < 2 ^ LENGTH('a) \<Longrightarrow> unat (word_of_nat n :: 'a::len word) = n"
  by (simp add: unsigned_of_nat take_bit_nat_eq_self)

lemma unat_plus_1:
  fixes x :: "'a::len word"
  assumes "unat x + 1 < 2 ^ LENGTH('a)"
  shows "unat (x + 1) = unat x + 1"
proof -
  have "unat (word_of_nat (unat x + 1) :: 'a word) = unat x + 1" using assms by (rule unat_word_of_nat)
  moreover have "word_of_nat (unat x + 1) = 1 + x" by simp
  ultimately show ?thesis by (metis add.commute)
qed

lemma unat_exp: "m < LENGTH('a) \<Longrightarrow> unat ((2::'a::len word) ^ m) = 2 ^ m"
  using unat_word_of_nat[of "2 ^ m", where 'a='a] by simp

lemma unat_ucast_up:
  assumes "LENGTH('a) \<le> LENGTH('b)"
  shows "unat (ucast (x::'a::len word) :: 'b::len word) = unat x"
proof -
  have "unat x < 2 ^ LENGTH('b)"
    using assms unsigned_less[of x] by (meson less_le_trans one_le_numeral power_increasing)
  then show ?thesis by (simp add: unsigned_ucast_eq take_bit_nat_eq_self)
qed

lemma word_le_mask_iff:
  assumes "k < LENGTH('a)"
  shows "(x::'a::len word) \<le> mask k \<longleftrightarrow> unat x < 2 ^ k"
proof -
  have "x \<le> mask k \<longleftrightarrow> int (unat x) < 2 ^ k"
    using assms by (simp add: word_le_def uint_mask_eq min_def) (simp add: mask_eq_exp_minus_1)
  also have "\<dots> \<longleftrightarrow> unat x < 2 ^ k" by (metis of_nat_less_iff of_nat_numeral of_nat_power)
  finally show ?thesis .
qed

lemma le_mask_bits:
  assumes "(x::'a::len word) \<le> mask k" "k < LENGTH('a)" "bit x n"
  shows "n < k"
  using assms not_bit_of_less[of x k n] by (force simp: word_le_mask_iff)

section \<open>Byte sequences in memory\<close>

text \<open>\<open>store_bytes\<close> writes a byte list from an address on; \<open>bytes_at\<close> says that a byte
  list is what memory holds from an address on.\<close>

primrec store_bytes :: "memory \<Rightarrow> nat \<Rightarrow> u8 list \<Rightarrow> memory" where
  "store_bytes m p [] = m"
| "store_bytes m p (b # bs) = store_bytes (m(p := b)) (Suc p) bs"

primrec bytes_at :: "memory \<Rightarrow> nat \<Rightarrow> u8 list \<Rightarrow> bool" where
  "bytes_at m p [] = True"
| "bytes_at m p (b # bs) = (m p = b \<and> bytes_at m (Suc p) bs)"

lemma store_bytes_below [simp]: "q < p \<Longrightarrow> store_bytes m p bs q = m q"
  by (induction bs arbitrary: m p) auto

lemma store_bytes_above [simp]: "p + length bs \<le> q \<Longrightarrow> store_bytes m p bs q = m q"
  by (induction bs arbitrary: m p) auto

lemma bytes_at_store [simp]: "bytes_at (store_bytes m p bs) p bs"
  by (induction bs arbitrary: m p) auto

lemma store_bytes_append:
  "store_bytes m p (as @ bs) = store_bytes (store_bytes m p as) (p + length as) bs"
  by (induction as arbitrary: m p) auto

lemma bytes_at_append [simp]:
  "bytes_at m p (as @ bs) \<longleftrightarrow> bytes_at m p as \<and> bytes_at m (p + length as) bs"
  by (induction as arbitrary: p) auto

lemma bytes_at_cong:
  assumes "bytes_at m p bs" "\<And>q. p \<le> q \<Longrightarrow> q < p + length bs \<Longrightarrow> m' q = m q"
  shows "bytes_at m' p bs"
  using assms by (induction bs arbitrary: p) auto

end
