(* ===== verification/Bit_Utils.thy ===== *)
theory Bit_Utils
  imports Art_Prelude
begin

text \<open>
  The integer helpers of \<open>runtime/base/bit_utils.h\<close> and the bit-field template of
  \<open>runtime/base/bit_field.h\<close>.  A template parameter \<open>T\<close> is the type variable of the word
  type, so a lemma about a helper holds at every width it names.  The compiler builtins the helpers
  call are \<open>bit_length_nat\<close>, \<open>ctz_nat\<close> and \<open>popcount_nat\<close>; the selection between the 32-bit
  and the 64-bit builtin is kept as the source writes it, so a narrower type goes through the
  64-bit builtin.
\<close>

section \<open>Counting bits\<close>

fun bit_length_nat :: "nat \<Rightarrow> nat" where
  "bit_length_nat n = (if n = 0 then 0 else Suc (bit_length_nat (n div 2)))"

fun ctz_nat :: "nat \<Rightarrow> nat" where
  "ctz_nat n = (if n = 0 \<or> odd n then 0 else Suc (ctz_nat (n div 2)))"

fun popcount_nat :: "nat \<Rightarrow> nat" where
  "popcount_nat n = (if n = 0 then 0 else n mod 2 + popcount_nat (n div 2))"

declare bit_length_nat.simps [simp del] ctz_nat.simps [simp del] popcount_nat.simps [simp del]

definition BitSizeOf :: "'a::len word \<Rightarrow> nat" where
  "BitSizeOf x = LENGTH('a)"

definition CLZ :: "'a::len word \<Rightarrow> int" where
  "CLZ x = (if LENGTH('a) = 32 then 32 - int (bit_length_nat (unat x))
            else 64 - int (bit_length_nat (unat x)))"

definition JAVASTYLE_CLZ :: "'a::len word \<Rightarrow> int" where
  "JAVASTYLE_CLZ x = (if x = 0 then int (BitSizeOf x) else CLZ x)"

definition CTZ :: "'a::len word \<Rightarrow> nat" where
  "CTZ x = ctz_nat (unat x)"

definition JAVASTYLE_CTZ :: "'a::len word \<Rightarrow> nat" where
  "JAVASTYLE_CTZ x = (if x = 0 then BitSizeOf x else CTZ x)"

definition POPCOUNT :: "'a::len word \<Rightarrow> nat" where
  "POPCOUNT x = popcount_nat (unat x)"

definition MostSignificantBit :: "'a::len word \<Rightarrow> int" where
  "MostSignificantBit v = (if v = 0 then - 1 else int LENGTH('a) - 1 - CLZ v)"

definition LeastSignificantBit :: "'a::len word \<Rightarrow> int" where
  "LeastSignificantBit v = (if v = 0 then - 1 else int (CTZ v))"

definition MinimumBitsToStore :: "'a::len word \<Rightarrow> nat" where
  "MinimumBitsToStore v = nat (MostSignificantBit v + 1)"

section \<open>Powers of two, rounding and alignment\<close>

definition RoundUpToPowerOfTwo :: "'a::len word \<Rightarrow> 'a word" where
  "RoundUpToPowerOfTwo x =
     (if x < 2 then x else push_bit (nat (int LENGTH('a) - CLZ (x - 1))) 1)"

definition IsPowerOfTwo :: "'a::len word \<Rightarrow> bool" where
  "IsPowerOfTwo x \<longleftrightarrow> x AND (x - 1) = 0"

definition WhichPowerOf2 :: "'a::len word \<Rightarrow> nat" where
  "WhichPowerOf2 x = CTZ x"

definition RoundDown :: "'a::len word \<Rightarrow> 'a word \<Rightarrow> 'a word" where
  "RoundDown x n = x AND (- n)"

definition RoundUp :: "'a::len word \<Rightarrow> 'a word \<Rightarrow> 'a word" where
  "RoundUp x n = RoundDown (x + n - 1) n"

definition IsAlignedParam :: "'a::len word \<Rightarrow> 'a word \<Rightarrow> bool" where
  "IsAlignedParam x n \<longleftrightarrow> x AND (n - 1) = 0"

definition Low16Bits :: "u32 \<Rightarrow> u16" where
  "Low16Bits v = ucast v"

definition High16Bits :: "u32 \<Rightarrow> u16" where
  "High16Bits v = ucast (drop_bit 16 v)"

definition Low32Bits :: "u64 \<Rightarrow> u32" where
  "Low32Bits v = ucast v"

definition High32Bits :: "u64 \<Rightarrow> u32" where
  "High32Bits v = ucast (drop_bit 32 v)"

section \<open>Java bit intrinsics\<close>

definition LowestOneBitValue :: "'a::len word \<Rightarrow> 'a word" where
  "LowestOneBitValue opnd = opnd AND (- opnd)"

definition HighestOneBitValue :: "'a::len word \<Rightarrow> 'a word" where
  "HighestOneBitValue opnd =
     (if opnd = 0 then 0
      else let bit_position = nat (int (BitSizeOf opnd) - (CLZ opnd + 1))
           in ucast (push_bit bit_position (1::u64)))"

definition Rot :: "bool \<Rightarrow> 'a::len word \<Rightarrow> int \<Rightarrow> 'a word" where
  "Rot left opnd distance =
     (let msk = int (BitSizeOf opnd) - 1;
          unsigned_right_shift = nat (if left then (- distance) AND msk else distance AND msk);
          signed_left_shift = nat (if left then distance AND msk else (- distance) AND msk)
      in drop_bit unsigned_right_shift opnd OR push_bit signed_left_shift opnd)"

definition ReverseBits32 :: "u32 \<Rightarrow> u32" where
  "ReverseBits32 opnd =
     (let opnd = (drop_bit 1 opnd AND 0x55555555) OR push_bit 1 (opnd AND 0x55555555);
          opnd = (drop_bit 2 opnd AND 0x33333333) OR push_bit 2 (opnd AND 0x33333333);
          opnd = (drop_bit 4 opnd AND 0x0F0F0F0F) OR push_bit 4 (opnd AND 0x0F0F0F0F);
          opnd = (drop_bit 8 opnd AND 0x00FF00FF) OR push_bit 8 (opnd AND 0x00FF00FF)
      in drop_bit 16 opnd OR push_bit 16 opnd)"

definition ReverseBits64 :: "u64 \<Rightarrow> u64" where
  "ReverseBits64 opnd =
     (let opnd = push_bit 1 (opnd AND 0x5555555555555555) OR (drop_bit 1 opnd AND 0x5555555555555555);
          opnd = push_bit 2 (opnd AND 0x3333333333333333) OR (drop_bit 2 opnd AND 0x3333333333333333);
          opnd = push_bit 4 (opnd AND 0x0f0f0f0f0f0f0f0f) OR (drop_bit 4 opnd AND 0x0f0f0f0f0f0f0f0f);
          opnd = push_bit 8 (opnd AND 0x00ff00ff00ff00ff) OR (drop_bit 8 opnd AND 0x00ff00ff00ff00ff)
      in push_bit 48 opnd OR push_bit 16 (opnd AND 0xffff0000)
         OR (drop_bit 16 opnd AND 0xffff0000) OR drop_bit 48 opnd)"

section \<open>What the counting helpers compute\<close>

lemma bit_double_word [bit_simps]: "bit (x * 2 :: 'a::len word) n \<longleftrightarrow> n < LENGTH('a) \<and> 0 < n \<and> bit x (n - 1)"
  using bit_push_bit_iff[of 1 x n] by (auto simp: mult.commute push_bit_eq_mult)
lemma all_less_numeral_rec: "(\<forall>i < numeral k. P i) \<longleftrightarrow> P (pred_numeral k) \<and> (\<forall>i < pred_numeral k. P i)"
  by (metis less_Suc_eq numeral_eq_Suc)

lemma ReverseBits32_bit_all: "\<forall>i<32. bit (ReverseBits32 x) i = bit x (31 - i)"
  by (simp add: ReverseBits32_def Let_def bit_simps all_less_numeral_rec)
    (simp add: numeral_2_eq_2)?
lemma ReverseBits64_bit_all: "\<forall>i<64. bit (ReverseBits64 x) i = bit x (63 - i)"
  by (simp add: ReverseBits64_def Let_def bit_simps all_less_numeral_rec)
    (simp add: numeral_2_eq_2)?

lemma bit_length_nat_le_iff: "bit_length_nat n \<le> k \<longleftrightarrow> n < 2 ^ k"
proof (induction n arbitrary: k rule: bit_length_nat.induct)
  case (1 n)
  show ?case
  proof (cases "n = 0")
    case False
    note IH = 1[OF False]
    show ?thesis using False IH
      by (cases k) (auto simp: bit_length_nat.simps[of n] less_mult_imp_div_less div_less_iff_less_mult mult.commute)
  qed (simp add: bit_length_nat.simps)
qed

lemma bit_length_nat_pos: "0 < n \<Longrightarrow> 0 < bit_length_nat n"
  by (simp add: bit_length_nat.simps)

lemma bit_length_nat_top:
  assumes "0 < n" shows "bit n (bit_length_nat n - 1)"
  using assms
proof (induction n rule: bit_length_nat.induct)
  case (1 n)
  show ?case
  proof (cases "n = 1")
    case False
    then have h: "0 < n div 2" using 1 by (cases n) auto
    then obtain k where k: "bit_length_nat (n div 2) = Suc k" using bit_length_nat_pos gr0_implies_Suc by blast
    from 1(1)[OF _ h] 1(2) have "bit (n div 2) k" by (simp add: k)
    with k 1(2) show ?thesis by (simp add: bit_length_nat.simps[of n] bit_Suc)
  qed (simp add: bit_length_nat.simps bit_0)
qed

lemma bit_nat_less_bit_length:
  assumes "bit n i" shows "i < bit_length_nat n"
proof -
  have "take_bit (bit_length_nat n) n = n"
    using bit_length_nat_le_iff[of n "bit_length_nat n"] by (simp add: take_bit_nat_eq_self)
  with assms show ?thesis by (metis bit_take_bit_iff)
qed

lemma bit_length_word_le: "bit_length_nat (unat (x::'a::len word)) \<le> LENGTH('a)"
  by (simp add: bit_length_nat_le_iff)

lemma bit_word_nat: "bit (x::'a::len word) i \<longleftrightarrow> bit (unat x) i"
  by (simp add: bit_unsigned_iff)

lemma MostSignificantBit_bit_length:
  assumes "LENGTH('a) = 32 \<or> LENGTH('a) = 64" 
  shows "MostSignificantBit (v::'a::len word) = int (bit_length_nat (unat v)) - 1"
  using assms by (auto simp: MostSignificantBit_def CLZ_def bit_length_nat.simps)

lemma ctz_nat_spec:
  "0 < n \<Longrightarrow> bit n (ctz_nat n) \<and> (\<forall>i < ctz_nat n. \<not> bit n i)"
proof (induction n rule: ctz_nat.induct)
  case (1 n)
  show ?case
  proof (cases "odd n")
    case False
    with 1 have h: "0 < n div 2" by auto
    with 1(1)[OF _ h] False 1(2) show ?thesis
      by (auto simp: ctz_nat.simps[of n] bit_Suc less_Suc_eq_0_disj bit_0)
  qed (simp add: ctz_nat.simps bit_0)
qed

lemma popcount_nat_card: "popcount_nat n = card {i. bit n i}"
proof (induction n rule: popcount_nat.induct)
  case (1 n)
  show ?case
  proof (cases "n = 0")
    case False
    have s: "{i. bit n i} = (if odd n then {0} else {}) \<union> Suc ` {i. bit (n div 2) i}"
      proof (rule set_eqI)
      fix i show "i \<in> {i. bit n i} \<longleftrightarrow> i \<in> (if odd n then {0} else {}) \<union> Suc ` {i. bit (n div 2) i}"
        by (cases i) (auto simp: bit_0 bit_Suc)
    qed
    have f: "finite {i. bit (n div 2) i}"
      by (rule finite_subset[of _ "{..< bit_length_nat (n div 2)}"])
         (auto simp: subset_iff dest: bit_nat_less_bit_length)
    show ?thesis using False 1 f unfolding s
      by (auto simp: popcount_nat.simps[of n] card_insert_if card_image odd_iff_mod_2_eq_one)
  qed (simp add: popcount_nat.simps)
qed

lemma POPCOUNT_card: "POPCOUNT (x::'a::len word) = card {i. bit x i}"
  by (simp add: POPCOUNT_def popcount_nat_card bit_word_nat)

lemma CTZ_spec:
  assumes "x \<noteq> (0::'a::len word)"
  shows "bit x (CTZ x)" "i < CTZ x \<Longrightarrow> \<not> bit x i"
  using ctz_nat_spec[of "unat x"] assms by (auto simp: CTZ_def bit_word_nat unat_gt_0)

lemma MostSignificantBit_spec:
  assumes "LENGTH('a) = 32 \<or> LENGTH('a) = 64" "v \<noteq> (0::'a::len word)"
  shows "0 \<le> MostSignificantBit v" "bit v (nat (MostSignificantBit v))"
    "bit v i \<Longrightarrow> int i \<le> MostSignificantBit v"
proof -
  have p: "0 < bit_length_nat (unat v)" using assms(2) by (simp add: bit_length_nat_pos unat_gt_0)
  note e = MostSignificantBit_bit_length[OF assms(1), of v]
  show "0 \<le> MostSignificantBit v" using p e by simp
  have "nat (MostSignificantBit v) = bit_length_nat (unat v) - 1" using p e by simp
  with bit_length_nat_top[of "unat v"] assms(2) show "bit v (nat (MostSignificantBit v))"
    by (simp add: bit_word_nat unat_gt_0)
  show "bit v i \<Longrightarrow> int i \<le> MostSignificantBit v"
    using bit_nat_less_bit_length[of "unat v" i] by (simp add: bit_word_nat e)
qed

lemma bit_nat_top: "2 ^ m \<le> n \<Longrightarrow> n < 2 ^ Suc m \<Longrightarrow> bit (n::nat) m"
proof -
  assume a: "2 ^ m \<le> n" "n < 2 ^ Suc m"
  have "n div 2 ^ m = 1" by (rule div_nat_eqI) (use a in auto)
  then show ?thesis by (simp add: bit_iff_odd)
qed

lemma bit_length_nat_bounds:
  assumes "0 < n"
  shows "2 ^ (bit_length_nat n - 1) \<le> n" "n < 2 ^ bit_length_nat n"
  using bit_length_nat_le_iff[of n "bit_length_nat n - 1"] bit_length_nat_le_iff[of n "bit_length_nat n"]
    bit_length_nat_pos[OF assms] by auto

lemma IsPowerOfTwo_iff: "IsPowerOfTwo (x::'a::len word) \<longleftrightarrow> x = 0 \<or> (\<exists>k < LENGTH('a). x = 2 ^ k)"
proof (cases "x = 0")
  case False
  then have n0: "0 < unat x" by (simp add: unat_gt_0)
  define m where "m = bit_length_nat (unat x) - 1"
  have b: "2 ^ m \<le> unat x" "unat x < 2 ^ Suc m"
    using bit_length_nat_bounds[OF n0] bit_length_nat_pos[OF n0] by (auto simp: m_def)
  have m: "m < LENGTH('a)" using bit_length_word_le[of x] bit_length_nat_pos[OF n0] by (simp add: m_def)
  have "x = 2 ^ m" if "x AND (x - 1) = 0"
  proof (rule ccontr)
    assume "x \<noteq> 2 ^ m"
    then have "unat x \<noteq> 2 ^ m" using m by (metis unat_exp unsigned_word_eqI)
    moreover have "unat (x - 1) = unat x - 1" using False by (simp add: unat_minus_one)
    ultimately have "bit (x - 1) m" using b by (simp add: bit_word_nat bit_nat_top)
    moreover have "bit x m" using b by (simp add: bit_word_nat bit_nat_top)
    ultimately show False using that by (metis bit_and_iff bit_0_eq bot_apply bot_bool_def)
  qed
  moreover have "(2::'a word) ^ k AND (2 ^ k - 1) = 0" for k
    by (rule bit_eqI) (auto simp: bit_simps simp flip: mask_eq_exp_minus_1)
  ultimately show ?thesis using False m by (auto simp: IsPowerOfTwo_def)
qed (simp add: IsPowerOfTwo_def)

lemma minus_exp_eq: "- (2 ^ k :: 'a::len word) = NOT (mask k)"
  by (simp add: minus_eq_not_minus_1 mask_eq_exp_minus_1)

lemma RoundDown_exp: "unat (RoundDown x (2 ^ k :: 'a::len word)) = unat x div 2 ^ k * 2 ^ k"
proof -
  have "RoundDown x (2 ^ k) = push_bit k (drop_bit k x)"
    by (rule bit_eqI) (auto simp: RoundDown_def minus_exp_eq bit_simps)
  moreover have "unat (push_bit k (drop_bit k x)) = unat x div 2 ^ k * 2 ^ k"
  proof -
    have "unat x div 2 ^ k * 2 ^ k < 2 ^ LENGTH('a)"
      by (metis div_times_less_eq_dividend le_less_trans unsigned_less)
    then show ?thesis
      by (simp only: unsigned_push_bit_eq unsigned_drop_bit_eq)
        (simp add: push_bit_eq_mult drop_bit_eq_div take_bit_nat_eq_self)
  qed
  ultimately show ?thesis by simp
qed

lemma RoundUp_exp:
  assumes "unat x + 2 ^ k - 1 < 2 ^ LENGTH('a)" "k < LENGTH('a)"
  shows "unat (RoundUp x (2 ^ k :: 'a::len word)) = (unat x + 2 ^ k - 1) div 2 ^ k * 2 ^ k"
proof -
  have "x + 2 ^ k - 1 = word_of_nat (unat x + 2 ^ k - 1)"
    by (subst of_nat_diff) (simp_all add: trans_le_add2)
  then have "unat (x + 2 ^ k - 1) = unat x + 2 ^ k - 1"
    using assms(1) by (simp add: unat_word_of_nat)
  then show ?thesis by (simp add: RoundUp_def RoundDown_exp)
qed

lemma RoundUpToPowerOfTwo_exp:
  assumes w: "LENGTH('a) = 32 \<or> LENGTH('a) = 64" and x: "2 \<le> (x::'a::len word)" "unat x \<le> 2 ^ (LENGTH('a) - 1)"
  defines "k \<equiv> bit_length_nat (unat x - 1)"
  shows "RoundUpToPowerOfTwo x = 2 ^ k" "0 < k" "k < LENGTH('a)" "2 ^ (k - 1) < unat x" "unat x \<le> 2 ^ k"
proof -
  have two: "2 \<le> unat x" using x(1) w by (auto simp: word_le_nat_alt unat_numeral)
  show 1: "0 < k" "2 ^ (k - 1) < unat x" "unat x \<le> 2 ^ k"
    using bit_length_nat_bounds[of "unat x - 1"] bit_length_nat_pos[of "unat x - 1"] two by (auto simp: k_def)
  have "k \<le> LENGTH('a) - 1"
    using x(2) two unfolding k_def bit_length_nat_le_iff by linarith
  then show l: "k < LENGTH('a)" by (simp add: Suc_le_lessD le_less_trans)
  have "unat (x - 1) = unat x - 1" using two by (intro unat_minus_one) auto
  then have "CLZ (x - 1) = int LENGTH('a) - int k" using w by (auto simp: CLZ_def k_def)
  moreover have "\<not> x < 2" using x(1) by simp
  ultimately show "RoundUpToPowerOfTwo x = 2 ^ k" by (simp add: RoundUpToPowerOfTwo_def push_bit_eq_mult)
qed

lemma and_minus_1_mod: "LENGTH('a) = 32 \<or> LENGTH('a) = 64 \<Longrightarrow> d AND (int LENGTH('a::len) - 1) = d mod int LENGTH('a)"
  using take_bit_eq_mask[of 5 d] take_bit_eq_mask[of 6 d] by (auto simp: mask_eq_exp_minus_1 take_bit_eq_mod)

lemma Rot_left_bit:
  assumes w: "LENGTH('a) = 32 \<or> LENGTH('a) = 64"
  shows "bit (Rot True (x::'a::len word) d) i \<longleftrightarrow> i < LENGTH('a) \<and> bit x (nat ((int i - d) mod int LENGTH('a)))"
proof -
  define L where "L = int LENGTH('a)"
  have L: "0 < L" by (simp add: L_def)
  define r where "r = d mod L"
  have r: "0 \<le> r" "r < L" using L by (auto simp: r_def)
  have nr: "(- d) mod L = (if r = 0 then 0 else L - r)" using L by (simp add: r_def zmod_zminus1_eq_if)
  have e: "(int i - d) mod L = (if int i < r then int i - r + L else int i - r)" if "int i < L"
  proof -
    have "(int i - d) mod L = (int i - r) mod L" by (simp add: r_def mod_simps)
    also have "\<dots> = (if int i < r then int i - r + L else int i - r)"
    proof (cases "int i < r")
      case True
      have "(int i - r) mod L = (int i - r + L) mod L" by simp
      also have "\<dots> = int i - r + L" using r True that by (intro mod_pos_pos_trivial) auto
      finally show ?thesis using True by simp
    next
      case False then show ?thesis using r that by (auto intro: mod_pos_pos_trivial)
    qed
    finally show ?thesis .
  qed
  have s: "Rot True x d = drop_bit (nat ((- d) mod L)) x OR push_bit (nat r) x"
    using and_minus_1_mod[where 'a='a, OF w] by (simp add: Rot_def BitSizeOf_def Let_def L_def r_def)
  show ?thesis
  proof (cases "i < LENGTH('a)")
    case True
    then have i: "int i < L" by (simp add: L_def)
    have "bit (Rot True x d) i \<longleftrightarrow> bit x (nat ((- d) mod L) + i) \<or> (nat r \<le> i \<and> bit x (i - nat r))"
      using True by (auto simp: s bit_simps)
    moreover have "\<not> bit x (nat ((- d) mod L) + i)" if "r \<noteq> 0" "r \<le> int i"
      using that r unfolding nr by (auto simp: L_def dest!: bit_imp_le_length)
    moreover have "nat (int i - r + L) = nat (L - r) + i" "r \<le> int i \<Longrightarrow> nat (int i - r) = i - nat r" using r by auto
    ultimately show ?thesis using True e[OF i] r unfolding L_def[symmetric] nr
      by (cases "r = 0"; cases "int i < r") (auto simp: nat_le_iff)
  next
    case False then show ?thesis by (auto dest: bit_imp_le_length)
  qed
qed

lemma HighestOneBitValue_exp:
  assumes w: "LENGTH('a) = 32 \<or> LENGTH('a) = 64" and x: "(x::'a::len word) \<noteq> 0"
  shows "HighestOneBitValue x = 2 ^ nat (MostSignificantBit x)"
proof -
  have "nat (int (BitSizeOf x) - (CLZ x + 1)) = nat (MostSignificantBit x)"
    using x by (simp add: MostSignificantBit_def BitSizeOf_def algebra_simps)
  moreover have "ucast (push_bit n (1::u64)) = (2::'a word) ^ n" if "n < LENGTH('a)" for n
    by (rule bit_eqI) (use that w in \<open>auto simp: bit_simps\<close>)
  moreover have "nat (MostSignificantBit x) < LENGTH('a)"
    using MostSignificantBit_spec(2)[OF w x] by (rule bit_imp_le_length)
  ultimately show ?thesis using x by (simp add: HighestOneBitValue_def Let_def)
qed


text \<open>C31: At both widths the runtime uses, and for every argument up to the top power of two,
  \<open>RoundUpToPowerOfTwo\<close> returns the least value not below its argument that
  \<open>IsPowerOfTwo\<close> accepts.\<close>

theorem RoundUpToPowerOfTwo_least:
  fixes x :: "'a::len word"
  assumes w: "LENGTH('a) = 32 \<or> LENGTH('a) = 64" and x: "unat x \<le> 2 ^ (LENGTH('a) - 1)"
  shows "IsPowerOfTwo (RoundUpToPowerOfTwo x) \<and> x \<le> RoundUpToPowerOfTwo x
    \<and> (\<forall>y. IsPowerOfTwo y \<and> x \<le> y \<longrightarrow> RoundUpToPowerOfTwo x \<le> y)"
proof (cases "x < 2")
  case True
  then have "unat x < 2" using w by (auto simp: word_less_nat_alt unat_numeral)
  then have "x = 0 \<or> x = 1" by (auto simp: less_2_cases_iff unat_eq_zero word_unat_eq_iff[of x 1])
  with True show ?thesis by (auto simp: RoundUpToPowerOfTwo_def IsPowerOfTwo_def)
next
  case False
  define k where "k = bit_length_nat (unat x - 1)"
  note R = RoundUpToPowerOfTwo_exp[OF w _ x, folded k_def]
  have x2: "2 \<le> x" using False by simp
  have "2 ^ k \<le> y" if y: "IsPowerOfTwo y" "x \<le> y" for y :: "'a word"
  proof -
    have "y \<noteq> 0" using x2 y(2) w by auto
    then obtain j where j: "j < LENGTH('a)" "y = 2 ^ j" using y(1) by (auto simp: IsPowerOfTwo_iff)
    have "unat x \<le> 2 ^ j" using y(2) j by (simp add: word_le_nat_alt unat_exp)
    with R(4)[OF x2] have "(2::nat) ^ (k - 1) < 2 ^ j" by linarith
    then have "k \<le> j" using R(2)[OF x2] by simp
    then show ?thesis using R(3)[OF x2] j by (simp add: word_le_nat_alt unat_exp)
  qed
  then show ?thesis using R[OF x2] by (auto simp: IsPowerOfTwo_iff word_le_nat_alt unat_exp)
qed

theorem RoundUpToPowerOfTwo_least_witness:
  "RoundUpToPowerOfTwo (1000::u32) = 1024 \<and> IsPowerOfTwo (RoundUpToPowerOfTwo (1000::u32))
    \<and> RoundUpToPowerOfTwo (1000::u32) \<le> 4096"
  using RoundUpToPowerOfTwo_least[of "1000::u32"]
  by (simp add: IsPowerOfTwo_def RoundUpToPowerOfTwo_def CLZ_def bit_length_nat.simps)

text \<open>C32: \<open>ReverseBits32\<close> and \<open>ReverseBits64\<close> move bit \<open>i\<close> to bit \<open>31 - i\<close>, and to bit
  \<open>63 - i\<close>: the five-step swaps of the source reverse the word.\<close>

theorem ReverseBits_bits:
  "(bit (ReverseBits32 x) i \<longleftrightarrow> i < 32 \<and> bit x (31 - i))
    \<and> (bit (ReverseBits64 y) i \<longleftrightarrow> i < 64 \<and> bit y (63 - i))"
  using ReverseBits32_bit_all ReverseBits64_bit_all
    bit_imp_le_length[of "ReverseBits32 x" i] bit_imp_le_length[of "ReverseBits64 y" i] by auto

end
