(* ===== verification/Leb128.thy ===== *)
theory Leb128
  imports Bit_Utils
begin

text \<open>
  The LEB128 codec of \<open>runtime/leb128.h\<close>.  A pointer is an address into a byte memory; a
  function that advances \<open>*data\<close> returns the new address beside its value, and one that writes
  through a pointer returns the new memory.  \<open>int\<close> and \<open>int32_t\<close> are 32-bit words;
  \<open>>>\<close> on a signed operand is \<open>signed_drop_bit\<close>.  The bounds-checked decoders return
  \<open>None\<close> where the source returns false.
\<close>

section \<open>Decoders\<close>

abbreviation rd :: "memory \<Rightarrow> nat \<Rightarrow> u32" where
  "rd m p \<equiv> ucast (m p)"

definition DecodeUnsignedLeb128 :: "memory \<Rightarrow> nat \<Rightarrow> u32 \<times> nat" where
  "DecodeUnsignedLeb128 m ptr =
     (let result = rd m ptr; ptr = ptr + 1 in
      if result > 0x7f then
        let cur = rd m ptr; ptr = ptr + 1;
            result = (result AND 0x7f) OR push_bit 7 (cur AND 0x7f) in
        if cur > 0x7f then
          let cur = rd m ptr; ptr = ptr + 1;
              result = result OR push_bit 14 (cur AND 0x7f) in
          if cur > 0x7f then
            let cur = rd m ptr; ptr = ptr + 1;
                result = result OR push_bit 21 (cur AND 0x7f) in
            if cur > 0x7f then
              let cur = rd m ptr; ptr = ptr + 1;
                  result = result OR push_bit 28 cur in (result, ptr)
            else (result, ptr)
          else (result, ptr)
        else (result, ptr)
      else (result, ptr))"

definition DecodeUnsignedLeb128Checked :: "memory \<Rightarrow> nat \<Rightarrow> nat \<Rightarrow> (u32 \<times> nat) option" where
  "DecodeUnsignedLeb128Checked m ptr end' =
     (if ptr \<ge> end' then None else
      let result = rd m ptr; ptr = ptr + 1 in
      if result > 0x7f then
        if ptr \<ge> end' then None else
        let cur = rd m ptr; ptr = ptr + 1;
            result = (result AND 0x7f) OR push_bit 7 (cur AND 0x7f) in
        if cur > 0x7f then
          if ptr \<ge> end' then None else
          let cur = rd m ptr; ptr = ptr + 1;
              result = result OR push_bit 14 (cur AND 0x7f) in
          if cur > 0x7f then
            if ptr \<ge> end' then None else
            let cur = rd m ptr; ptr = ptr + 1;
                result = result OR push_bit 21 (cur AND 0x7f) in
            if cur > 0x7f then
              if ptr \<ge> end' then None else
              let cur = rd m ptr; ptr = ptr + 1;
                  result = result OR push_bit 28 cur in Some (result, ptr)
            else Some (result, ptr)
          else Some (result, ptr)
        else Some (result, ptr)
      else Some (result, ptr))"

definition DecodeUnsignedLeb128P1 :: "memory \<Rightarrow> nat \<Rightarrow> u32 \<times> nat" where
  "DecodeUnsignedLeb128P1 m ptr = (let (v, ptr) = DecodeUnsignedLeb128 m ptr in (v - 1, ptr))"

definition DecodeSignedLeb128 :: "memory \<Rightarrow> nat \<Rightarrow> u32 \<times> nat" where
  "DecodeSignedLeb128 m ptr =
     (let result = rd m ptr; ptr = ptr + 1 in
      if result \<le> 0x7f then (signed_drop_bit 25 (push_bit 25 result), ptr)
      else
        let cur = rd m ptr; ptr = ptr + 1;
            result = (result AND 0x7f) OR push_bit 7 (cur AND 0x7f) in
        if cur \<le> 0x7f then (signed_drop_bit 18 (push_bit 18 result), ptr)
        else
          let cur = rd m ptr; ptr = ptr + 1;
              result = result OR push_bit 14 (cur AND 0x7f) in
          if cur \<le> 0x7f then (signed_drop_bit 11 (push_bit 11 result), ptr)
          else
            let cur = rd m ptr; ptr = ptr + 1;
                result = result OR push_bit 21 (cur AND 0x7f) in
            if cur \<le> 0x7f then (signed_drop_bit 4 (push_bit 4 result), ptr)
            else
              let cur = rd m ptr; ptr = ptr + 1;
                  result = result OR push_bit 28 cur in (result, ptr))"

definition DecodeSignedLeb128Checked :: "memory \<Rightarrow> nat \<Rightarrow> nat \<Rightarrow> (u32 \<times> nat) option" where
  "DecodeSignedLeb128Checked m ptr end' =
     (if ptr \<ge> end' then None else
      let result = rd m ptr; ptr = ptr + 1 in
      if result \<le> 0x7f then Some (signed_drop_bit 25 (push_bit 25 result), ptr)
      else
        if ptr \<ge> end' then None else
        let cur = rd m ptr; ptr = ptr + 1;
            result = (result AND 0x7f) OR push_bit 7 (cur AND 0x7f) in
        if cur \<le> 0x7f then Some (signed_drop_bit 18 (push_bit 18 result), ptr)
        else
          if ptr \<ge> end' then None else
          let cur = rd m ptr; ptr = ptr + 1;
              result = result OR push_bit 14 (cur AND 0x7f) in
          if cur \<le> 0x7f then Some (signed_drop_bit 11 (push_bit 11 result), ptr)
          else
            if ptr \<ge> end' then None else
            let cur = rd m ptr; ptr = ptr + 1;
                result = result OR push_bit 21 (cur AND 0x7f) in
            if cur \<le> 0x7f then Some (signed_drop_bit 4 (push_bit 4 result), ptr)
            else
              if ptr \<ge> end' then None else
              let cur = rd m ptr; ptr = ptr + 1;
                  result = result OR push_bit 28 cur in Some (result, ptr))"

section \<open>Sizes\<close>

definition UnsignedLeb128Size :: "u32 \<Rightarrow> u32" where
  "UnsignedLeb128Size data =
     (let x = word_of_int (6 + 32 - CLZ (data OR 1)) in drop_bit 8 (x * 37))"

definition SignedLeb128Size :: "u32 \<Rightarrow> u32" where
  "SignedLeb128Size data =
     (let data = data XOR signed_drop_bit 31 data;
          x = word_of_int (1 + 6 + 32 - CLZ (data OR 1))
      in drop_bit 8 (x * 37))"

section \<open>Encoders\<close>

text \<open>The loops stop because each turn shifts the remaining bits down by seven.\<close>

lemma drop_bit_7_less [termination_simp]:
  "v \<noteq> (0::u32) \<Longrightarrow> unat (drop_bit 7 v) < unat v"
  by (simp only: unsigned_drop_bit_eq)
     (auto simp: drop_bit_eq_div unat_gt_0 intro: le_less_trans[OF div_le_mono[OF take_bit_nat_less_eq_self]])

function EncodeUnsignedLeb128_loop :: "memory \<Rightarrow> nat \<Rightarrow> u8 \<Rightarrow> u32 \<Rightarrow> memory \<times> nat" where
  "EncodeUnsignedLeb128_loop m dest out v =
     (if v \<noteq> 0 then
        EncodeUnsignedLeb128_loop (m(dest := out OR 0x80)) (dest + 1) (ucast (v AND 0x7f)) (drop_bit 7 v)
      else (m(dest := out), dest + 1))"
  by pat_completeness auto
termination by (relation "measure (\<lambda>(m, dest, out, v). unat v)") (auto simp: drop_bit_7_less)

definition EncodeUnsignedLeb128 :: "memory \<Rightarrow> nat \<Rightarrow> u32 \<Rightarrow> memory \<times> nat" where
  "EncodeUnsignedLeb128 m dest v =
     EncodeUnsignedLeb128_loop m dest (ucast (v AND 0x7f)) (drop_bit 7 v)"

function EncodeUnsignedLeb128_vloop :: "u8 list \<Rightarrow> u8 \<Rightarrow> u32 \<Rightarrow> u8 list" where
  "EncodeUnsignedLeb128_vloop dest out v =
     (if v \<noteq> 0 then
        EncodeUnsignedLeb128_vloop (dest @ [out OR 0x80]) (ucast (v AND 0x7f)) (drop_bit 7 v)
      else dest @ [out])"
  by pat_completeness auto
termination by (relation "measure (\<lambda>(dest, out, v). unat v)") (auto simp: drop_bit_7_less)

definition EncodeUnsignedLeb128_vec :: "u8 list \<Rightarrow> u32 \<Rightarrow> u8 list" where
  "EncodeUnsignedLeb128_vec dest v =
     EncodeUnsignedLeb128_vloop dest (ucast (v AND 0x7f)) (drop_bit 7 v)"

function UpdateUnsignedLeb128_loop :: "memory \<Rightarrow> nat \<Rightarrow> nat \<Rightarrow> memory" where
  "UpdateUnsignedLeb128_loop m end' old_end =
     (if end' < old_end then
        let m = m(end' - 1 := m (end' - 1) OR 0x80); m = m(end' := 0)
        in UpdateUnsignedLeb128_loop m (end' + 1) old_end
      else m)"
  by pat_completeness auto
termination by (relation "measure (\<lambda>(m, end', old_end). old_end - end')") auto

definition UpdateUnsignedLeb128 :: "memory \<Rightarrow> nat \<Rightarrow> u32 \<Rightarrow> memory" where
  "UpdateUnsignedLeb128 m dest v =
     (let (old_value, old_end) = DecodeUnsignedLeb128 m dest;
          (m, end') = EncodeUnsignedLeb128 m dest v
      in UpdateUnsignedLeb128_loop m end' old_end)"

function EncodeSignedLeb128_loop ::
    "memory \<Rightarrow> nat \<Rightarrow> u8 \<Rightarrow> u32 \<Rightarrow> u32 \<Rightarrow> memory \<times> nat" where
  "EncodeSignedLeb128_loop m dest out v extra_bits =
     (if extra_bits \<noteq> 0 then
        let m = m(dest := out OR 0x80); v = signed_drop_bit 7 v
        in EncodeSignedLeb128_loop m (dest + 1) (ucast (v AND 0x7f)) v (drop_bit 7 extra_bits)
      else (m(dest := out), dest + 1))"
  by pat_completeness auto
termination by (relation "measure (\<lambda>(m, dest, out, v, extra). unat extra)") (auto simp: drop_bit_7_less)

definition EncodeSignedLeb128 :: "memory \<Rightarrow> nat \<Rightarrow> u32 \<Rightarrow> memory \<times> nat" where
  "EncodeSignedLeb128 m dest v =
     (let extra_bits = drop_bit 6 (v XOR signed_drop_bit 31 v)
      in EncodeSignedLeb128_loop m dest (ucast (v AND 0x7f)) v extra_bits)"

function EncodeSignedLeb128_vloop :: "u8 list \<Rightarrow> u8 \<Rightarrow> u32 \<Rightarrow> u32 \<Rightarrow> u8 list" where
  "EncodeSignedLeb128_vloop dest out v extra_bits =
     (if extra_bits \<noteq> 0 then
        let dest = dest @ [out OR 0x80]; v = signed_drop_bit 7 v
        in EncodeSignedLeb128_vloop dest (ucast (v AND 0x7f)) v (drop_bit 7 extra_bits)
      else dest @ [out])"
  by pat_completeness auto
termination by (relation "measure (\<lambda>(dest, out, v, extra). unat extra)") (auto simp: drop_bit_7_less)

definition EncodeSignedLeb128_vec :: "u8 list \<Rightarrow> u32 \<Rightarrow> u8 list" where
  "EncodeSignedLeb128_vec dest v =
     (let extra_bits = drop_bit 6 (v XOR signed_drop_bit 31 v)
      in EncodeSignedLeb128_vloop dest (ucast (v AND 0x7f)) v extra_bits)"

declare EncodeUnsignedLeb128_loop.simps [simp del] EncodeUnsignedLeb128_vloop.simps [simp del]
  UpdateUnsignedLeb128_loop.simps [simp del]
  EncodeSignedLeb128_loop.simps [simp del] EncodeSignedLeb128_vloop.simps [simp del]

section \<open>The vector encoder class\<close>

definition PushBackUnsigned :: "u8 list \<Rightarrow> u32 \<Rightarrow> u8 list" where
  "PushBackUnsigned data v = EncodeUnsignedLeb128_vec data v"

primrec InsertBackUnsigned :: "u8 list \<Rightarrow> u32 list \<Rightarrow> u8 list" where
  "InsertBackUnsigned data [] = data"
| "InsertBackUnsigned data (v # vs) = InsertBackUnsigned (PushBackUnsigned data v) vs"

definition PushBackSigned :: "u8 list \<Rightarrow> u32 \<Rightarrow> u8 list" where
  "PushBackSigned data v = EncodeSignedLeb128_vec data v"

primrec InsertBackSigned :: "u8 list \<Rightarrow> u32 list \<Rightarrow> u8 list" where
  "InsertBackSigned data [] = data"
| "InsertBackSigned data (v # vs) = InsertBackSigned (PushBackSigned data v) vs"

section \<open>The bytes an encoder appends\<close>

definition uleb :: "u32 \<Rightarrow> u8 list" where
  "uleb v = EncodeUnsignedLeb128_vec [] v"

definition sleb :: "u32 \<Rightarrow> u8 list" where
  "sleb v = EncodeSignedLeb128_vec [] v"

lemma unsigned_vloop_append:
  "EncodeUnsignedLeb128_vloop (xs @ dest) out v = xs @ EncodeUnsignedLeb128_vloop dest out v"
proof (induction dest out v rule: EncodeUnsignedLeb128_vloop.induct)
  case (1 dest out v)
  then show ?case
    by (subst (1 2) EncodeUnsignedLeb128_vloop.simps) auto
qed

lemma signed_vloop_append:
  "EncodeSignedLeb128_vloop (xs @ dest) out v e = xs @ EncodeSignedLeb128_vloop dest out v e"
proof (induction dest out v e rule: EncodeSignedLeb128_vloop.induct)
  case (1 dest out v e)
  then show ?case
    by (subst (1 2) EncodeSignedLeb128_vloop.simps) (auto simp: Let_def)
qed

lemma unsigned_vloop_Cons: "EncodeUnsignedLeb128_vloop [b] out v = b # EncodeUnsignedLeb128_vloop [] out v"
  using unsigned_vloop_append[of "[b]" "[]" out v] by simp

lemma EncodeUnsignedLeb128_vec_uleb: "EncodeUnsignedLeb128_vec dest v = dest @ uleb v"
  using unsigned_vloop_append[of dest "[]"] by (simp add: EncodeUnsignedLeb128_vec_def uleb_def)

lemma signed_vloop_Cons: "EncodeSignedLeb128_vloop [b] out v e = b # EncodeSignedLeb128_vloop [] out v e"
  using signed_vloop_append[of "[b]" "[]" out v e] by simp

lemma EncodeSignedLeb128_vec_sleb: "EncodeSignedLeb128_vec dest v = dest @ sleb v"
  using signed_vloop_append[of dest "[]"] by (simp add: EncodeSignedLeb128_vec_def sleb_def)

lemma unsigned_loop_vloop:
  "EncodeUnsignedLeb128_loop m dest out v =
     (store_bytes m dest (EncodeUnsignedLeb128_vloop [] out v),
      dest + length (EncodeUnsignedLeb128_vloop [] out v))"
proof (induction m dest out v rule: EncodeUnsignedLeb128_loop.induct)
  case (1 m dest out v)
  show ?case
  proof (cases "v = 0")
    case False
    with 1 show ?thesis
      by (simp add: fun_upd_def unsigned_vloop_Cons EncodeUnsignedLeb128_loop.simps[of m dest out v] EncodeUnsignedLeb128_vloop.simps[of "[]" out v])
  qed (simp add: fun_upd_def EncodeUnsignedLeb128_loop.simps EncodeUnsignedLeb128_vloop.simps)
qed

lemma signed_loop_vloop:
  "EncodeSignedLeb128_loop m dest out v e =
     (store_bytes m dest (EncodeSignedLeb128_vloop [] out v e),
      dest + length (EncodeSignedLeb128_vloop [] out v e))"
proof (induction m dest out v e rule: EncodeSignedLeb128_loop.induct)
  case (1 m dest out v e)
  show ?case
  proof (cases "e = 0")
    case False
    with 1 show ?thesis
      by (simp add: fun_upd_def signed_vloop_Cons EncodeSignedLeb128_loop.simps[of m dest out v e] Let_def
          EncodeSignedLeb128_vloop.simps[of "[]" out v e])
  qed (simp add: fun_upd_def EncodeSignedLeb128_loop.simps EncodeSignedLeb128_vloop.simps)
qed

lemma EncodeUnsignedLeb128_uleb:
  "EncodeUnsignedLeb128 m dest v = (store_bytes m dest (uleb v), dest + length (uleb v))"
  by (simp add: EncodeUnsignedLeb128_def unsigned_loop_vloop uleb_def EncodeUnsignedLeb128_vec_def)

lemma EncodeSignedLeb128_sleb:
  "EncodeSignedLeb128 m dest v = (store_bytes m dest (sleb v), dest + length (sleb v))"
  by (simp add: EncodeSignedLeb128_def signed_loop_vloop sleb_def EncodeSignedLeb128_vec_def Let_def)

section \<open>The bytes of a value, group by group\<close>

definition leb_group :: "nat \<Rightarrow> u32 \<Rightarrow> u8" where
  "leb_group i v = ucast (take_bit 7 (drop_bit (7 * i) v))"

lemma uleb_groups:
  "uleb v = (if drop_bit 7 v = 0 then [leb_group 0 v]
    else if drop_bit 14 v = 0 then [leb_group 0 v OR 0x80, leb_group 1 v]
    else if drop_bit 21 v = 0 then [leb_group 0 v OR 0x80, leb_group 1 v OR 0x80, leb_group 2 v]
    else if drop_bit 28 v = 0 then
      [leb_group 0 v OR 0x80, leb_group 1 v OR 0x80, leb_group 2 v OR 0x80, leb_group 3 v]
    else [leb_group 0 v OR 0x80, leb_group 1 v OR 0x80, leb_group 2 v OR 0x80,
      leb_group 3 v OR 0x80, leb_group 4 v])"
  by (simp add: uleb_def EncodeUnsignedLeb128_vec_def leb_group_def bits_defs
     EncodeUnsignedLeb128_vloop.simps[where v="drop_bit 7 v"]
     EncodeUnsignedLeb128_vloop.simps[where v="drop_bit 14 v"]
     EncodeUnsignedLeb128_vloop.simps[where v="drop_bit 21 v"]
     EncodeUnsignedLeb128_vloop.simps[where v="drop_bit 28 v"]
     EncodeUnsignedLeb128_vloop.simps[where v=0])

lemma signed_drop_bit_add:
  "signed_drop_bit a (signed_drop_bit b (v::'a::len word)) = signed_drop_bit (a + b) v"
  by (rule bit_eqI) (auto simp: bit_simps not_le add.assoc add.commute)

lemma signed_group: "k + n \<le> LENGTH('a) \<Longrightarrow> take_bit n (signed_drop_bit k (v::'a::len word)) = take_bit n (drop_bit k v)"
  by (rule bit_eqI) (auto simp: bit_simps not_le add.commute)

lemma signed_vloop_groups:
  "EncodeSignedLeb128_vloop [] (ucast (v AND 0x7f)) v (drop_bit 6 e) =
    (if drop_bit 6 e = 0 then [leb_group 0 v]
    else if drop_bit 13 e = 0 then [leb_group 0 v OR 0x80, leb_group 1 v]
    else if drop_bit 20 e = 0 then [leb_group 0 v OR 0x80, leb_group 1 v OR 0x80, leb_group 2 v]
    else if drop_bit 27 e = 0 then
      [leb_group 0 v OR 0x80, leb_group 1 v OR 0x80, leb_group 2 v OR 0x80, leb_group 3 v]
    else [leb_group 0 v OR 0x80, leb_group 1 v OR 0x80, leb_group 2 v OR 0x80,
      leb_group 3 v OR 0x80, ucast (take_bit 7 (signed_drop_bit 28 v))])"
  by (simp add: leb_group_def bits_defs Let_def
     EncodeSignedLeb128_vloop.simps[where extra_bits="drop_bit 6 e" for e]
     EncodeSignedLeb128_vloop.simps[where extra_bits="drop_bit 13 e" for e]
     EncodeSignedLeb128_vloop.simps[where extra_bits="drop_bit 20 e" for e]
     EncodeSignedLeb128_vloop.simps[where extra_bits="drop_bit 27 e" for e]
     EncodeSignedLeb128_vloop.simps[where extra_bits=0] signed_drop_bit_add signed_group)

lemmas sleb_groups = sleb_def[unfolded EncodeSignedLeb128_vec_def Let_def signed_vloop_groups]

section \<open>Reading the groups back\<close>

lemma group_cont [simp]: "0x7f < (ucast (b OR 0x80 :: u8) :: u32)" "\<not> (ucast (b OR 0x80 :: u8) :: u32) \<le> 0x7f"
proof -
  have "bit (ucast (b OR 0x80 :: u8) :: u32) 7" by (simp add: bit_simps)
  then have "\<not> unat (ucast (b OR 0x80 :: u8) :: u32) < 2 ^ 7" using not_bit_of_less by blast
  then show "0x7f < (ucast (b OR 0x80 :: u8) :: u32)" by (simp add: word_less_nat_alt)
  then show "\<not> (ucast (b OR 0x80 :: u8) :: u32) \<le> 0x7f" by simp
qed

lemma bit_0x80 [bit_simps]: "bit (0x80::int) n \<longleftrightarrow> n = 7"
  using bit_push_bit_iff[of 7 "1::int" n] by (auto simp: bit_1_iff)

lemma group_payload [simp]:
  "ucast (leb_group i v) = take_bit 7 (drop_bit (7 * i) v)"
  "take_bit 7 (ucast (leb_group i v OR 0x80) :: u32) = take_bit 7 (drop_bit (7 * i) v)"
  by (rule bit_eqI, auto simp: leb_group_def bit_simps)+

lemma group_last [simp]: "\<not> 0x7f < take_bit 7 (x::u32)" "take_bit 7 x \<le> 0x7f"
  using unat_take_bit_less[of 7 x] by (auto simp: word_less_nat_alt word_le_nat_alt)

lemma take_bit_join: "take_bit n v OR push_bit n (take_bit k (drop_bit n v)) = take_bit (n + k) (v::u32)"
  by (rule bit_eqI) (auto simp: bit_simps)

lemma take_bit_of_drop_0: "drop_bit n v = 0 \<Longrightarrow> take_bit n v = (v::u32)"
  by (simp add: take_bit_eq_self_iff_drop_bit_eq_0)

lemmas group_join = take_bit_join[of 7 v 7 for v, simplified] take_bit_join[of 14 v 7 for v, simplified]
  take_bit_join[of 21 v 7 for v, simplified] take_bit_join[of 28 v 7 for v, simplified]

lemma DecodeUnsignedLeb128_uleb:
  "bytes_at m p (uleb v) \<Longrightarrow> DecodeUnsignedLeb128 m p = (v, p + length (uleb v))"
  by (cases "drop_bit 7 v = 0"; cases "drop_bit 14 v = 0"; cases "drop_bit 21 v = 0"; cases "drop_bit 28 v = 0")
     (simp_all add: uleb_groups DecodeUnsignedLeb128_def Let_def bits_defs group_join,
      simp_all add: take_bit_of_drop_0 take_bit_word_eq_self)

lemma sign_run:
  fixes v :: u32
  assumes "drop_bit n (v XOR signed_drop_bit 31 v) = 0" "n \<le> k" "k < 32"
  shows "bit v k = bit v 31"
proof -
  have "bit (drop_bit n (v XOR signed_drop_bit 31 v)) (k - n) = (bit v k \<noteq> bit v 31)"
    using assms(2,3) by (auto simp: bit_simps Suc_le_eq)
  with assms(1) show ?thesis by auto
qed

lemma sign_extend_group:
  fixes v :: u32
  assumes "drop_bit n (v XOR signed_drop_bit 31 v) = 0" "n < 31"
  shows "signed_drop_bit (31 - n) (push_bit (31 - n) (take_bit (Suc n) v)) = v"
proof (rule bit_eqI)
  fix i assume "possible_bit TYPE(u32) i"
  then have i: "i < 32" by simp
  then show "bit (signed_drop_bit (31 - n) (push_bit (31 - n) (take_bit (Suc n) v))) i = bit v i"
    using assms sign_run[OF assms(1), of i] sign_run[OF assms(1), of n]
    by (cases "i \<le> n") (auto simp: bit_simps)
qed

lemma DecodeSignedLeb128_sleb:
  assumes "bytes_at m p (sleb v)"
  shows "DecodeSignedLeb128 m p = (v, p + length (sleb v))"
proof -
  define e where "e = v XOR signed_drop_bit 31 v"
  note x = sign_extend_group[of _ v, folded e_def]
  have last: "push_bit 28 (take_bit 7 (signed_drop_bit 28 v)) = push_bit 28 (take_bit 4 (drop_bit 28 v))"
    by (rule bit_eqI) (auto simp: bit_simps)
  have "ucast (ucast (take_bit 7 (signed_drop_bit 28 v)) :: u8) = take_bit 7 (signed_drop_bit 28 v)"
    by (rule bit_eqI) (auto simp: bit_simps)
  with assms x[of 6] x[of 13] x[of 20] x[of 27] last take_bit_join[of 28 v 4] show ?thesis
    unfolding sleb_groups e_def[symmetric]
    by (cases "drop_bit 6 e = 0"; cases "drop_bit 13 e = 0"; cases "drop_bit 20 e = 0"; cases "drop_bit 27 e = 0")
      (simp_all add: DecodeSignedLeb128_def Let_def bits_defs group_join take_bit_word_eq_self)
qed

section \<open>What a codec promises\<close>

text \<open>An encoder and a decoder agree when a value's bytes, wherever they stand in memory, decode to
  the value and to the address behind them.  Sequences of values then decode one by one.\<close>

primrec decode_seq :: "(memory \<Rightarrow> nat \<Rightarrow> u32 \<times> nat) \<Rightarrow> nat \<Rightarrow> memory \<Rightarrow> nat \<Rightarrow> u32 list \<times> nat" where
  "decode_seq dec 0 m p = ([], p)"
| "decode_seq dec (Suc n) m p =
     (let (v, p) = dec m p; (vs, p) = decode_seq dec n m p in (v # vs, p))"

locale leb_codec =
  fixes enc :: "u32 \<Rightarrow> u8 list" and dec :: "memory \<Rightarrow> nat \<Rightarrow> u32 \<times> nat"
  assumes dec_enc: "bytes_at m p (enc v) \<Longrightarrow> dec m p = (v, p + length (enc v))"
    and enc_nonempty: "enc v \<noteq> []"
begin

lemma decode_seq_enc:
  "bytes_at m p (concat (map enc vs)) \<Longrightarrow>
     decode_seq dec (length vs) m p = (vs, p + length (concat (map enc vs)))"
  by (induction vs arbitrary: p) (auto simp: dec_enc)

lemma enc_prefix_free: "enc v = enc w @ bs \<Longrightarrow> v = w \<and> bs = []"
proof -
  assume a: "enc v = enc w @ bs"
  let ?m = "store_bytes (\<lambda>_. 0) 0 (enc v)"
  have "bytes_at ?m 0 (enc v)" by simp
  then have "dec ?m 0 = (v, length (enc v))" "dec ?m 0 = (w, length (enc w))"
    using dec_enc[of ?m 0 v] dec_enc[of ?m 0 w] a by auto
  then show ?thesis using a by auto
qed

lemma length_seq: "length vs \<le> length (concat (map enc vs))"
  by (induction vs) (auto, metis enc_nonempty add_mono_thms_linordered_semiring(1) length_0_conv less_one not_less plus_1_eq_Suc)

end

interpretation unsigned: leb_codec uleb DecodeUnsignedLeb128
  by unfold_locales (simp_all add: DecodeUnsignedLeb128_uleb uleb_groups)

interpretation signed: leb_codec sleb DecodeSignedLeb128
  by unfold_locales (simp_all add: DecodeSignedLeb128_sleb sleb_groups)

lemma InsertBackUnsigned_concat: "InsertBackUnsigned data vs = data @ concat (map uleb vs)"
  by (induction vs arbitrary: data) (auto simp: PushBackUnsigned_def EncodeUnsignedLeb128_vec_uleb)

lemma InsertBackSigned_concat: "InsertBackSigned data vs = data @ concat (map sleb vs)"
  by (induction vs arbitrary: data) (auto simp: PushBackSigned_def EncodeSignedLeb128_vec_sleb)

section \<open>Checked decoders\<close>

lemma DecodeUnsignedLeb128Checked_eq:
  "DecodeUnsignedLeb128Checked m p e =
     (let (v, p') = DecodeUnsignedLeb128 m p in if p' \<le> e then Some (v, p') else None)"
  by (simp add: DecodeUnsignedLeb128Checked_def DecodeUnsignedLeb128_def Let_def)

lemma DecodeSignedLeb128Checked_eq:
  "DecodeSignedLeb128Checked m p e =
     (let (v, p') = DecodeSignedLeb128 m p in if p' \<le> e then Some (v, p') else None)"
  by (simp add: DecodeSignedLeb128Checked_def DecodeSignedLeb128_def Let_def)

section \<open>Padding\<close>

lemma byte_small_bits:
  assumes "(ucast (b::u8) :: u32) \<le> 0x7f" "7 \<le> n"
  shows "\<not> bit b n"
proof -
  have "unat b < 2 ^ 7" using assms(1) by (simp add: word_le_nat_alt unat_ucast_up)
  then show ?thesis using assms(2) by (rule not_bit_of_less)
qed

lemma byte_payload: "(ucast (b::u8) :: u32) \<le> 0x7f \<Longrightarrow> take_bit 7 (ucast (b OR 0x80) :: u32) = ucast b"
proof (rule bit_eqI)
  fix n assume "(ucast b :: u32) \<le> 0x7f"
  then show "bit (take_bit 7 (ucast (b OR 0x80) :: u32)) n = bit (ucast b :: u32) n"
    using byte_small_bits[of b n] by (cases "n < 7") (auto simp: bit_simps)
qed

lemma take_bit_small: "(x::u32) \<le> 0x7f \<Longrightarrow> take_bit 7 x = x"
  by (rule word_less_exp_take_bit) (simp add: word_le_nat_alt)

lemma decode_end_bounds: "DecodeUnsignedLeb128 m p = (v, e) \<Longrightarrow> p < e \<and> e \<le> p + 5"
  by (auto simp: DecodeUnsignedLeb128_def Let_def split: if_splits)

lemma pad_step:
  assumes "DecodeUnsignedLeb128 m p = (v, e)" "e < p + 5"
  shows "DecodeUnsignedLeb128 (m(e - 1 := m (e - 1) OR 0x80, e := 0)) p = (v, e + 1)"
  using assms
  by (auto simp: DecodeUnsignedLeb128_def Let_def bits_defs not_less byte_payload take_bit_small split: if_splits)

lemma update_loop_decode:
  assumes "DecodeUnsignedLeb128 m p = (v, e)" "e \<le> old_end" "old_end \<le> p + 5"
  shows "DecodeUnsignedLeb128 (UpdateUnsignedLeb128_loop m e old_end) p = (v, old_end)"
  using assms
proof (induction m e old_end rule: UpdateUnsignedLeb128_loop.induct)
  case (1 m e old_end)
  show ?case
  proof (cases "e < old_end")
    case True
    with 1(1)[OF True refl refl] 1(2-) pad_step[of m p v e] show ?thesis
      by (simp add: UpdateUnsignedLeb128_loop.simps[of m] Let_def fun_upd_def)
  next
    case False
    with 1(2-) show ?thesis by (simp add: UpdateUnsignedLeb128_loop.simps[of m])
  qed
qed

lemma update_loop_frame:
  assumes "p < e" "e \<le> old_end" "q < p \<or> old_end \<le> q"
  shows "UpdateUnsignedLeb128_loop m e old_end q = m q"
  using assms
proof (induction m e old_end rule: UpdateUnsignedLeb128_loop.induct)
  case (1 m e old_end)
  then show ?case by (auto simp: UpdateUnsignedLeb128_loop.simps[of m] Let_def fun_upd_def)
qed

lemma decoded_groups:
  assumes "DecodeUnsignedLeb128 m p = (w, e)" "e - p = k" "k < 5"
  shows "drop_bit (7 * k) w = 0"
  using assms
  by (auto simp: DecodeUnsignedLeb128_def Let_def bits_defs not_less split: if_splits
     intro!: bit_eqI simp: bit_simps byte_small_bits)
  

lemma length_uleb_le:
  assumes "drop_bit (7 * k) v = 0" "0 < k"
  shows "length (uleb v) \<le> k"
proof -
  have "drop_bit (7 * n) v = 0" if "k \<le> n" for n
  proof -
    have "drop_bit (7 * n) v = drop_bit (7 * n - 7 * k) (drop_bit (7 * k) v)"
      using that by (simp add: drop_bit_drop_bit)
    then show ?thesis using assms(1) by simp
  qed
  from this[of 1] this[of 2] this[of 3] this[of 4] assms(2) show ?thesis
    by (intro leI notI) (auto simp: uleb_groups split: if_splits)
qed

lemma drop_bit_mono_0: "(v::u32) \<le> w \<Longrightarrow> drop_bit n w = 0 \<Longrightarrow> drop_bit n v = 0"
  by (simp flip: take_bit_eq_self_iff_drop_bit_eq_0)
   (metis le_less_trans unat_take_bit_less word_le_nat_alt word_less_exp_take_bit)

lemma uleb_fits_old:
  assumes "DecodeUnsignedLeb128 m p = (w, e)" "v \<le> w"
  shows "p + length (uleb v) \<le> e"
proof (cases "e - p < 5")
  case True
  have "drop_bit (7 * (e - p)) v = 0"
    using decoded_groups[OF assms(1) refl True] drop_bit_mono_0[OF assms(2)] by simp
  then have "length (uleb v) \<le> e - p"
    using decode_end_bounds[OF assms(1)] by (intro length_uleb_le) auto
  then show ?thesis using decode_end_bounds[OF assms(1)] by linarith
next
  case False
  moreover have "length (uleb v) \<le> 5" by (simp add: uleb_groups)
  ultimately show ?thesis using decode_end_bounds[OF assms(1)] by simp
qed

section \<open>Sizes\<close>

lemma div_by_37:
  "\<forall>x < 86. unat (drop_bit 8 (word_of_nat x * 37 :: u32)) = x div 7"
  by (simp add: all_less_numeral_rec)

lemma bits_of_or_1: "0 < k \<Longrightarrow> bit_length_nat (unat (v OR 1 :: u32)) \<le> k \<longleftrightarrow> drop_bit k v = 0"
proof -
  assume k: "0 < k"
  have "unat (v OR 1) < 2 ^ k \<longleftrightarrow> drop_bit k (v OR 1) = 0"
    by (metis take_bit_eq_self_iff_drop_bit_eq_0 unat_take_bit_less word_less_exp_take_bit)
  moreover have "drop_bit k (1::u32) = 0" using k by (intro bit_eqI) (auto simp: bit_simps)
  ultimately show ?thesis by (simp add: bit_length_nat_le_iff)
qed

lemma or_1_nonzero [simp]: "(v OR 1 :: u32) \<noteq> 0"
proof
  assume "v OR 1 = 0"
  then have "\<not> bit (v OR 1) 0" by simp
  then show False by (simp add: bit_or_iff bit_1_iff)
qed

lemma length_uleb_size: "length (uleb v) = unat (UnsignedLeb128Size v)"
proof -
  define b where "b = bit_length_nat (unat (v OR 1))"
  have b: "b \<le> 32" "0 < b"
    using bit_length_word_le[of "v OR 1"] bit_length_nat_pos[of "unat (v OR 1)"]
    by (auto simp: b_def unat_gt_0)
  have iff: "\<And>k. 0 < k \<Longrightarrow> drop_bit k v = 0 \<longleftrightarrow> b \<le> k" by (simp add: b_def bits_of_or_1)
  have "unat (UnsignedLeb128Size v) = (6 + b) div 7"
    using div_by_37[rule_format, of "6 + b"] b by (simp add: UnsignedLeb128Size_def CLZ_def b_def)
  also have "\<dots> = length (uleb v)" using b by (simp add: uleb_groups iff) presburger
  finally show ?thesis by simp
qed

lemma length_sleb_size: "length (sleb v) = unat (SignedLeb128Size v)"
proof -
  define e where "e = v XOR signed_drop_bit 31 v"
  define b where "b = bit_length_nat (unat (e OR 1))"
  have b: "b \<le> 32" "0 < b"
    using bit_length_word_le[of "e OR 1"] bit_length_nat_pos[of "unat (e OR 1)"]
    by (auto simp: b_def unat_gt_0)
  have iff: "\<And>k. 0 < k \<Longrightarrow> drop_bit k e = 0 \<longleftrightarrow> b \<le> k" by (simp add: b_def bits_of_or_1)
  have "drop_bit 31 e = 0"
  proof (rule bit_eqI)
    fix n show "bit (drop_bit 31 e) n = bit 0 n"
      unfolding e_def by (cases n) (auto simp: bit_simps dest: bit_imp_le_length)
  qed
  then have b31: "b \<le> 31" using iff[of 31] by simp
  have "unat (SignedLeb128Size v) = (7 + b) div 7"
    using div_by_37[rule_format, of "7 + b"] b by (simp add: SignedLeb128Size_def CLZ_def b_def e_def Let_def)
  also have "\<dots> = length (sleb v)" using b31 b by (simp add: sleb_groups iff flip: e_def) presburger
  finally show ?thesis by simp
qed

section \<open>Properties\<close>

text \<open>C13: The encoders that write through a pointer, unsigned and signed, produce bytes that the
  decoders read back: the decoder returns the encoded value and the address the encoder
  returned, and the space used is what \<open>UnsignedLeb128Size\<close> and \<open>SignedLeb128Size\<close>
  compute with their multiply-and-shift division by seven.\<close>

theorem Leb128_round_trip:
  "(case EncodeUnsignedLeb128 m p v of (m', e) \<Rightarrow>
      DecodeUnsignedLeb128 m' p = (v, e) \<and> e = p + unat (UnsignedLeb128Size v))
   \<and> (case EncodeSignedLeb128 m p v of (m', e) \<Rightarrow>
      DecodeSignedLeb128 m' p = (v, e) \<and> e = p + unat (SignedLeb128Size v))"
  by (simp add: EncodeUnsignedLeb128_uleb EncodeSignedLeb128_sleb unsigned.dec_enc signed.dec_enc
      flip: length_uleb_size length_sleb_size)

text \<open>C28: A list of values appended with \<open>InsertBackUnsigned\<close> or \<open>InsertBackSigned\<close> and placed
  anywhere in memory is read back, value by value, by repeated decoding, which ends exactly behind
  the last byte.\<close>

theorem Leb128_sequence_round_trip:
  "decode_seq DecodeUnsignedLeb128 (length vs) (store_bytes m p (InsertBackUnsigned [] vs)) p
     = (vs, p + length (InsertBackUnsigned [] vs))
   \<and> decode_seq DecodeSignedLeb128 (length vs) (store_bytes m p (InsertBackSigned [] vs)) p
     = (vs, p + length (InsertBackSigned [] vs))"
  by (simp add: InsertBackUnsigned_concat InsertBackSigned_concat
      unsigned.decode_seq_enc signed.decode_seq_enc)

lemma checked_reads:
  assumes "\<And>q. p \<le> q \<Longrightarrow> q < e \<Longrightarrow> m' q = m q"
  shows "DecodeUnsignedLeb128Checked m' p e = DecodeUnsignedLeb128Checked m p e"
    "DecodeSignedLeb128Checked m' p e = DecodeSignedLeb128Checked m p e"
  using assms[of p] assms[of "Suc p"] assms[of "Suc (Suc p)"] assms[of "Suc (Suc (Suc p))"]
    assms[of "Suc (Suc (Suc (Suc p)))"]
  by (simp_all add: DecodeUnsignedLeb128Checked_def DecodeSignedLeb128Checked_def Let_def not_le cong: if_cong)

text \<open>C30: The bounds-checked decoders succeed exactly when the unchecked ones stay below the end, with
  the same value and address, and their answer depends on no byte at or behind the end (nor before
  the start).\<close>

theorem Leb128_checked_decode:
  assumes "\<And>q. p \<le> q \<Longrightarrow> q < e \<Longrightarrow> m' q = m q"
  shows "DecodeUnsignedLeb128Checked m' p e =
      (case DecodeUnsignedLeb128 m p of (v, p') \<Rightarrow> if p' \<le> e then Some (v, p') else None)
    \<and> DecodeSignedLeb128Checked m' p e =
      (case DecodeSignedLeb128 m p of (v, p') \<Rightarrow> if p' \<le> e then Some (v, p') else None)"
  using checked_reads[OF assms] by (simp add: DecodeUnsignedLeb128Checked_eq DecodeSignedLeb128Checked_eq Let_def)

theorem Leb128_checked_decode_witness:
  "DecodeUnsignedLeb128Checked ((\<lambda>q. 0xe5)(1 := 0x8e, 2 := 0x26, 3 := 0x11)) 0 3 = Some (624485, 3)
   \<and> DecodeSignedLeb128Checked ((\<lambda>q. 0xe5)(1 := 0x8e, 2 := 0x26, 3 := 0x11)) 0 2 = None"
  using Leb128_checked_decode[of 0 3 "(\<lambda>q. 0xe5)(1 := 0x8e, 2 := 0x26, 3 := 0x11)" "(\<lambda>q. 0xe5)(1 := 0x8e, 2 := 0x26)"]
    Leb128_checked_decode[of 0 2 "(\<lambda>q. 0xe5)(1 := 0x8e, 2 := 0x26, 3 := 0x11)" "(\<lambda>q. 0xe5)(1 := 0x8e, 2 := 0x26)"]
  by (simp add: DecodeUnsignedLeb128_def DecodeSignedLeb128_def Let_def)

text \<open>C29: Overwriting an encoded value in place with one that is not larger keeps the space it takes:
  decoding then yields the new value and the old end, and no byte outside the old encoding
  changes.\<close>

theorem UpdateUnsignedLeb128_in_place:
  assumes "DecodeUnsignedLeb128 m p = (old_value, old_end)" "v \<le> old_value"
  shows "DecodeUnsignedLeb128 (UpdateUnsignedLeb128 m p v) p = (v, old_end)
    \<and> (\<forall>q. q < p \<or> old_end \<le> q \<longrightarrow> UpdateUnsignedLeb128 m p v q = m q)"
proof -
  let ?m = "store_bytes m p (uleb v)" and ?e = "p + length (uleb v)"
  have fit: "?e \<le> old_end" "old_end \<le> p + 5" "p < ?e"
    using uleb_fits_old[OF assms] decode_end_bounds[OF assms(1)] unsigned.enc_nonempty[of v] by auto
  have "UpdateUnsignedLeb128 m p v = UpdateUnsignedLeb128_loop ?m ?e old_end"
    by (simp add: UpdateUnsignedLeb128_def assms(1) EncodeUnsignedLeb128_uleb)
  with update_loop_decode[of ?m p v ?e old_end] update_loop_frame[of p ?e old_end] fit show ?thesis
    by (auto simp: unsigned.dec_enc)
qed

theorem UpdateUnsignedLeb128_in_place_witness:
  "DecodeUnsignedLeb128 (UpdateUnsignedLeb128 ((\<lambda>q. 0xe5)(1 := 0x8e, 2 := 0x26)) 0 3) 0 = (3, 3)"
  using UpdateUnsignedLeb128_in_place[of "(\<lambda>q. 0xe5)(1 := 0x8e, 2 := 0x26)" 0 624485 3 3]
  by (simp add: DecodeUnsignedLeb128_def Let_def)

end
