(* ===== verification/Modified_Utf8.thy ===== *)
theory Modified_Utf8
  imports Bit_Utils
begin

text \<open>
  Modified UTF-8 (\<open>runtime/utf.cc\<close>, \<open>runtime/utf-inl.h\<close>, \<open>runtime/utf.h\<close>).  A \<open>const char*\<close>
  is an address into a byte memory; UTF-16 arrays with a length are lists of 16-bit words, and an
  output pointer that is only advanced is the list of what was written.  A loop that runs to a
  terminating zero byte, or whose length counter can wrap, is a partial function: \<open>None\<close> is
  non-termination.  Whether \<open>char\<close> is signed is a parameter of the functions that widen a
  \<open>char\<close>.
\<close>

section \<open>Decoding one character\<close>

definition char_to :: "bool \<Rightarrow> u8 \<Rightarrow> 'a::len word" where
  "char_to char_signed c = (if char_signed then scast c else ucast c)"

definition GetTrailingUtf16Char :: "u32 \<Rightarrow> u16" where
  "GetTrailingUtf16Char maybe_pair = ucast (drop_bit 16 maybe_pair)"

definition GetLeadingUtf16Char :: "u32 \<Rightarrow> u16" where
  "GetLeadingUtf16Char maybe_pair = ucast (maybe_pair AND 0xFFFF)"

definition GetUtf16FromUtf8 :: "memory \<Rightarrow> nat \<Rightarrow> u32 \<times> nat" where
  "GetUtf16FromUtf8 m p =
     (let one = ucast (m p) :: u32; p = p + 1 in
      if one AND 0x80 = 0 then (one, p) else
      let two = ucast (m p) :: u32; p = p + 1 in
      if one AND 0x20 = 0 then (push_bit 6 (one AND 0x1f) OR (two AND 0x3f), p) else
      let three = ucast (m p) :: u32; p = p + 1 in
      if one AND 0x10 = 0 then
        (push_bit 12 (one AND 0x0f) OR push_bit 6 (two AND 0x3f) OR (three AND 0x3f), p) else
      let four = ucast (m p) :: u32; p = p + 1;
          code_point = push_bit 18 (one AND 0x0f) OR push_bit 12 (two AND 0x3f)
            OR push_bit 6 (three AND 0x3f) OR (four AND 0x3f);
          surrogate_pair = (drop_bit 10 code_point + 0xd7c0) AND 0xffff;
          surrogate_pair = surrogate_pair OR push_bit 16 ((code_point AND 0x03ff) + 0xdc00)
      in (surrogate_pair, p))"

text \<open>What the converters write for one decoded value.\<close>

definition utf16_units :: "u32 \<Rightarrow> u16 list" where
  "utf16_units ch =
     (let leading = GetLeadingUtf16Char ch; trailing = GetTrailingUtf16Char ch
      in if trailing \<noteq> 0 then [leading, trailing] else [leading])"

lemma GetUtf16FromUtf8_advances: "p < snd (GetUtf16FromUtf8 m p)"
  by (simp add: GetUtf16FromUtf8_def Let_def)

section \<open>Counting and converting\<close>

function CountModifiedUtf8Chars_loop :: "memory \<Rightarrow> nat \<Rightarrow> nat \<Rightarrow> nat \<Rightarrow> nat" where
  "CountModifiedUtf8Chars_loop m p lim len =
     (if p < lim then
        let ic = ucast (m p) :: u32; len = len + 1 in
        if ic AND 0x80 = 0 then CountModifiedUtf8Chars_loop m (p + 1) lim len
        else if ic AND 0x20 = 0 then CountModifiedUtf8Chars_loop m (p + 1 + 1) lim len
        else if ic AND 0x10 = 0 then CountModifiedUtf8Chars_loop m (p + 1 + 1 + 1) lim len
        else CountModifiedUtf8Chars_loop m (p + 1 + 1 + 1 + 1) lim (len + 1)
      else len)"
  by pat_completeness auto
termination by (relation "measure (\<lambda>(m, p, lim, len). lim - p)") auto

definition CountModifiedUtf8Chars :: "memory \<Rightarrow> nat \<Rightarrow> nat \<Rightarrow> nat" where
  "CountModifiedUtf8Chars m utf8 byte_count =
     CountModifiedUtf8Chars_loop m utf8 (utf8 + byte_count) 0"

partial_function (option) ConvertModifiedUtf8ToUtf16 :: "memory \<Rightarrow> nat \<Rightarrow> u16 list \<Rightarrow> u16 list option" where
  "ConvertModifiedUtf8ToUtf16 m p out =
     (if m p \<noteq> 0 then
        case GetUtf16FromUtf8 m p of (ch, p) \<Rightarrow> ConvertModifiedUtf8ToUtf16 m p (out @ utf16_units ch)
      else Some out)"

function ConvertModifiedUtf8ToUtf16_loop :: "memory \<Rightarrow> nat \<Rightarrow> nat \<Rightarrow> u16 list" where
  "ConvertModifiedUtf8ToUtf16_loop m p in_end =
     (if p < in_end then
        utf16_units (fst (GetUtf16FromUtf8 m p))
          @ ConvertModifiedUtf8ToUtf16_loop m (snd (GetUtf16FromUtf8 m p)) in_end
      else [])"
  by pat_completeness auto
termination
  by (relation "measure (\<lambda>(m, p, in_end). in_end - p)")
     (auto intro: diff_less_mono2 simp: GetUtf16FromUtf8_advances)

definition ConvertModifiedUtf8ToUtf16_sized :: "bool \<Rightarrow> nat \<Rightarrow> memory \<Rightarrow> nat \<Rightarrow> nat \<Rightarrow> u16 list" where
  "ConvertModifiedUtf8ToUtf16_sized char_signed out_chars m p in_bytes =
     (if out_chars = in_bytes then map (\<lambda>i. char_to char_signed (m (p + i))) [0..<in_bytes]
      else ConvertModifiedUtf8ToUtf16_loop m p (p + in_bytes))"

definition surrogate_code_point :: "u16 \<Rightarrow> u16 \<Rightarrow> u32" where
  "surrogate_code_point ch ch2 = push_bit 10 (ucast ch) + ucast ch2 - 0x035fdc00"

definition is_pair :: "u16 \<Rightarrow> u16 list \<Rightarrow> bool" where
  "is_pair ch rest = (case rest of [] \<Rightarrow> False
     | ch2 # _ \<Rightarrow> 0xd800 \<le> ch \<and> ch \<le> 0xdbff \<and> 0xdc00 \<le> ch2 \<and> ch2 \<le> 0xdfff)"

fun ConvertUtf16ToModifiedUtf8_loop :: "u16 list \<Rightarrow> u8 list" where
  "ConvertUtf16ToModifiedUtf8_loop [] = []"
| "ConvertUtf16ToModifiedUtf8_loop (ch # rest) =
     (if ch > 0 \<and> ch \<le> 0x7f then ucast ch # ConvertUtf16ToModifiedUtf8_loop rest
      else if is_pair ch rest then
        let code_point = surrogate_code_point ch (hd rest) in
        [ucast (drop_bit 18 code_point OR 0xf0), ucast ((drop_bit 12 code_point AND 0x3f) OR 0x80),
         ucast ((drop_bit 6 code_point AND 0x3f) OR 0x80), ucast ((code_point AND 0x3f) OR 0x80)]
        @ ConvertUtf16ToModifiedUtf8_loop (tl rest)
      else if ch > 0x07ff then
        [ucast (drop_bit 12 ch OR 0xe0), ucast ((drop_bit 6 ch AND 0x3f) OR 0x80),
         ucast ((ch AND 0x3f) OR 0x80)] @ ConvertUtf16ToModifiedUtf8_loop rest
      else
        [ucast (drop_bit 6 ch OR 0xc0), ucast ((ch AND 0x3f) OR 0x80)]
        @ ConvertUtf16ToModifiedUtf8_loop rest)"

definition ConvertUtf16ToModifiedUtf8 :: "nat \<Rightarrow> u16 list \<Rightarrow> u8 list" where
  "ConvertUtf16ToModifiedUtf8 byte_count utf16_in =
     (if byte_count = length utf16_in then map ucast utf16_in
      else ConvertUtf16ToModifiedUtf8_loop utf16_in)"

fun CountUtf8Bytes :: "u16 list \<Rightarrow> nat" where
  "CountUtf8Bytes [] = 0"
| "CountUtf8Bytes (ch # rest) =
     (if ch \<noteq> 0 \<and> ch < 0x80 then 1 + CountUtf8Bytes rest
      else if ch < 0x800 then 2 + CountUtf8Bytes rest
      else if ch \<ge> 0xd800 \<and> ch < 0xdc00 \<and> rest \<noteq> [] \<and> hd rest \<ge> 0xdc00 \<and> hd rest < 0xe000
        then 4 + CountUtf8Bytes (tl rest)
      else 3 + CountUtf8Bytes rest)"

section \<open>Hashing and comparing\<close>

primrec ComputeUtf16Hash_loop :: "u16 list \<Rightarrow> u32 \<Rightarrow> u32" where
  "ComputeUtf16Hash_loop [] hash = hash"
| "ComputeUtf16Hash_loop (c # cs) hash = ComputeUtf16Hash_loop cs (hash * 31 + ucast c)"

definition ComputeUtf16Hash :: "u16 list \<Rightarrow> u32" where
  "ComputeUtf16Hash chars = ComputeUtf16Hash_loop chars 0"

partial_function (option) ComputeUtf16HashFromModifiedUtf8_loop ::
    "memory \<Rightarrow> nat \<Rightarrow> u64 \<Rightarrow> u32 \<Rightarrow> u32 option" where
  "ComputeUtf16HashFromModifiedUtf8_loop m p utf16_length hash =
     (if utf16_length \<noteq> 0 then
        case GetUtf16FromUtf8 m p of (pair, p) \<Rightarrow>
          let hash = hash * 31 + ucast (GetLeadingUtf16Char pair);
              utf16_length = utf16_length - 1;
              second = GetTrailingUtf16Char pair in
          if second \<noteq> 0 then
            ComputeUtf16HashFromModifiedUtf8_loop m p (utf16_length - 1) (hash * 31 + ucast second)
          else ComputeUtf16HashFromModifiedUtf8_loop m p utf16_length hash
      else Some hash)"

definition ComputeUtf16HashFromModifiedUtf8 :: "memory \<Rightarrow> nat \<Rightarrow> u64 \<Rightarrow> u32 option" where
  "ComputeUtf16HashFromModifiedUtf8 m utf8 utf16_length =
     ComputeUtf16HashFromModifiedUtf8_loop m utf8 utf16_length 0"

partial_function (option) ComputeModifiedUtf8Hash_loop ::
    "bool \<Rightarrow> memory \<Rightarrow> nat \<Rightarrow> u32 \<Rightarrow> u32 option" where
  "ComputeModifiedUtf8Hash_loop char_signed m p hash =
     (if m p \<noteq> 0 then
        ComputeModifiedUtf8Hash_loop char_signed m (p + 1)
          (hash * 31 + char_to char_signed (m p))
      else Some hash)"

definition ComputeModifiedUtf8Hash :: "bool \<Rightarrow> memory \<Rightarrow> nat \<Rightarrow> u32 option" where
  "ComputeModifiedUtf8Hash char_signed m chars = ComputeModifiedUtf8Hash_loop char_signed m chars 0"

fun CompareModifiedUtf8ToUtf16AsCodePointValues :: "memory \<Rightarrow> nat \<Rightarrow> u16 list \<Rightarrow> int" where
  "CompareModifiedUtf8ToUtf16AsCodePointValues m p utf16 =
     (if m p = 0 then (if utf16 = [] then 0 else - 1)
      else case utf16 of [] \<Rightarrow> 1
      | rhs # utf16' \<Rightarrow>
        case GetUtf16FromUtf8 m p of (pair, p) \<Rightarrow>
        let lhs = GetLeadingUtf16Char pair in
        if lhs \<noteq> rhs then (if lhs > rhs then 1 else - 1)
        else
          let lhs2 = GetTrailingUtf16Char pair in
          if lhs2 \<noteq> 0 then
            (case utf16' of [] \<Rightarrow> 1
             | rhs2 # utf16'' \<Rightarrow>
               if lhs2 \<noteq> rhs2 then (if lhs2 > rhs2 then 1 else - 1)
               else CompareModifiedUtf8ToUtf16AsCodePointValues m p utf16'')
          else CompareModifiedUtf8ToUtf16AsCodePointValues m p utf16')"

partial_function (option) CompareModifiedUtf8ToModifiedUtf8AsUtf16CodePointValues ::
    "memory \<Rightarrow> nat \<Rightarrow> nat \<Rightarrow> int option" where
  "CompareModifiedUtf8ToModifiedUtf8AsUtf16CodePointValues m p q =
     (if m p = 0 then Some (if m q = 0 then 0 else - 1)
      else if m q = 0 then Some 1
      else
        let c1 = GetUtf16FromUtf8 m p; c2 = GetUtf16FromUtf8 m q in
        if fst c1 = fst c2 then
          CompareModifiedUtf8ToModifiedUtf8AsUtf16CodePointValues m (snd c1) (snd c2)
        else
          let d = uint (GetLeadingUtf16Char (fst c1)) - uint (GetLeadingUtf16Char (fst c2)) in
          if d \<noteq> 0 then Some d
          else Some (uint (GetTrailingUtf16Char (fst c1)) - uint (GetTrailingUtf16Char (fst c2))))"

declare CountModifiedUtf8Chars_loop.simps [simp del] ConvertModifiedUtf8ToUtf16_loop.simps [simp del]
  CompareModifiedUtf8ToUtf16AsCodePointValues.simps [simp del]

section \<open>Masks the decoder tests\<close>

lemma and_0x80_eq_0 [simp]: "(x::u32) AND 0x80 = 0 \<longleftrightarrow> \<not> bit x 7"
  using and_exp_eq_0_iff_not_bit[of x 7] by simp

lemma and_0x20_eq_0 [simp]: "(x::u32) AND 0x20 = 0 \<longleftrightarrow> \<not> bit x 5"
  using and_exp_eq_0_iff_not_bit[of x 5] by simp

lemma and_0x10_eq_0 [simp]: "(x::u32) AND 0x10 = 0 \<longleftrightarrow> \<not> bit x 4"
  using and_exp_eq_0_iff_not_bit[of x 4] by simp

lemma bit_lead_bytes [bit_simps]:
  "bit (0x80::int) n \<longleftrightarrow> n = 7" "bit (0xc0::int) n \<longleftrightarrow> n = 6 \<or> n = 7"
  "bit (0xe0::int) n \<longleftrightarrow> n = 5 \<or> n = 6 \<or> n = 7" "bit (0xf0::int) n \<longleftrightarrow> n = 4 \<or> n = 5 \<or> n = 6 \<or> n = 7"
  by (auto simp: bit_numeral_rec bit_1_iff split: nat.splits)

lemma leading_trailing_bmp:
  assumes "unat x < 2 ^ 16"
  shows "GetTrailingUtf16Char x = 0" "utf16_units x = [ucast x]"
proof -
  have "\<not> bit x n" if "16 \<le> n" for n using not_bit_of_less[OF assms that] .
  then show t: "GetTrailingUtf16Char x = 0"
    by (intro bit_eqI) (simp add: GetTrailingUtf16Char_def bit_simps)
  have "GetLeadingUtf16Char x = ucast x"
    by (rule bit_eqI) (auto simp: GetLeadingUtf16Char_def bits_defs bit_simps)
  with t show "utf16_units x = [ucast x]" by (simp add: utf16_units_def Let_def)
qed

lemma word_0_or_1_7f: "0 < (ch::u16) \<and> ch \<le> 0x7f \<longleftrightarrow> ch \<noteq> 0 \<and> unat ch < 2 ^ 7"
  by (auto simp: word_le_nat_alt word_gt_0)

text \<open>\<open>decodes m p us p'\<close>: the bytes at \<open>p\<close> are one encoded character, of the units \<open>us\<close>, that
  ends at \<open>p'\<close>.\<close>

definition decodes :: "memory \<Rightarrow> nat \<Rightarrow> u16 list \<Rightarrow> nat \<Rightarrow> bool" where
  "decodes m p us p' \<longleftrightarrow> m p \<noteq> 0 \<and> snd (GetUtf16FromUtf8 m p) = p'
     \<and> utf16_units (fst (GetUtf16FromUtf8 m p)) = us"


lemma decodes_bmp:
  assumes "m p \<noteq> 0" "GetUtf16FromUtf8 m p = (ucast (ch::u16), p')"
  shows "decodes m p [ch] p'"
proof -
  have "unat (ucast ch :: u32) < 2 ^ 16" using unsigned_less[of ch] by (simp add: unat_ucast_up)
  moreover have "ucast (ucast ch :: u32) = ch" by (rule bit_eqI) (simp add: bit_simps)
  ultimately have "utf16_units (ucast ch) = [ch]" by (simp only: leading_trailing_bmp)
  with assms show ?thesis by (simp add: decodes_def)
qed

lemma decodes_1:
  assumes "ch \<noteq> 0" "unat (ch::u16) < 2 ^ 7" "m p = ucast ch"
  shows "decodes m p [ch] (Suc p)"
proof (rule decodes_bmp)
  have n: "bit ch n \<Longrightarrow> n < 7" for n using not_bit_of_less[OF assms(2), of n] by force
  have e: "ucast (ucast ch :: u8) = (ucast ch :: u32)" "ucast (ucast ch :: u8) = ch"
    by (rule bit_eqI; auto simp: bit_simps dest: n)+
  show "m p \<noteq> 0" using e(2) assms(1,3) by (metis unsigned_0)
  have "\<not> bit (ucast ch :: u32) 7" using n[of 7] by (auto simp: bit_simps)
  then show "GetUtf16FromUtf8 m p = (ucast ch, Suc p)"
    unfolding GetUtf16FromUtf8_def Let_def assms(3) e by simp
qed

lemma decodes_2:
  assumes "unat (ch::u16) < 2 ^ 11" "m p = ucast (drop_bit 6 ch OR 0xc0)"
    "m (Suc p) = ucast ((ch AND 0x3f) OR 0x80)"
  shows "decodes m p [ch] (Suc (Suc p))"
proof (rule decodes_bmp)
  have n: "bit ch n \<Longrightarrow> n < 11" for n using not_bit_of_less[OF assms(1), of n] by force
  have b: "bit (m p) 7" "\<not> bit (m p) 5" using n[of 11] by (auto simp: assms(2) bit_simps)
  show "m p \<noteq> 0" using b(1) by auto
  have "push_bit 6 (take_bit 5 (ucast (m p))) OR take_bit 6 (ucast (m (Suc p))) = (ucast ch :: u32)"
    unfolding assms(2,3) bits_defs
    by (rule bit_eqI) (auto simp: bit_simps dest: n)
  with b show "GetUtf16FromUtf8 m p = (ucast ch, Suc (Suc p))"
    by (simp add: GetUtf16FromUtf8_def Let_def bits_defs bit_simps)
qed

lemma decodes_3:
  assumes "m p = ucast (drop_bit 12 (ch::u16) OR 0xe0)" "m (Suc p) = ucast ((drop_bit 6 ch AND 0x3f) OR 0x80)"
    "m (Suc (Suc p)) = ucast ((ch AND 0x3f) OR 0x80)"
  shows "decodes m p [ch] (Suc (Suc (Suc p)))"
proof (rule decodes_bmp)
  have n: "bit ch n \<Longrightarrow> n < 16" for n using bit_imp_le_length[of ch n] by simp
  have b: "bit (m p) 7" "bit (m p) 5" "\<not> bit (m p) 4" using n[of 16] by (auto simp: assms(1) bit_simps)
  show "m p \<noteq> 0" using b(1) by auto
  have "push_bit 12 (take_bit 4 (ucast (m p))) OR push_bit 6 (take_bit 6 (ucast (m (Suc p))))
      OR take_bit 6 (ucast (m (Suc (Suc p)))) = (ucast ch :: u32)" (is "?l = ?r")
  proof (rule bit_eqI)
    fix i show "bit ?l i = bit ?r i"
      unfolding assms bits_defs
      by (cases "i < 6"; cases "i < 12") (auto simp: bit_simps dest: n)
  qed
  with b show "GetUtf16FromUtf8 m p = (ucast ch, Suc (Suc (Suc p)))"
    by (simp add: GetUtf16FromUtf8_def Let_def bits_defs bit_simps)
qed

lemma code_point_bytes:
  fixes cp :: u32 and m :: memory
  assumes "unat cp < 2 ^ 22" and b: "m p = ucast (drop_bit 18 cp OR 0xf0)"
    "m (Suc p) = ucast ((drop_bit 12 cp AND 0x3f) OR 0x80)"
    "m (Suc (Suc p)) = ucast ((drop_bit 6 cp AND 0x3f) OR 0x80)"
    "m (Suc (Suc (Suc p))) = ucast ((cp AND 0x3f) OR 0x80)"
  shows "push_bit 18 (take_bit 4 (ucast (m p))) OR push_bit 12 (take_bit 6 (ucast (m (Suc p))))
      OR push_bit 6 (take_bit 6 (ucast (m (Suc (Suc p))))) OR take_bit 6 (ucast (m (Suc (Suc (Suc p))))) = cp"
    (is "?l = ?r")
proof (rule bit_eqI)
  have n: "bit cp n \<Longrightarrow> n < 22" for n using not_bit_of_less[OF assms(1), of n] by force
  fix i show "bit ?l i = bit ?r i"
    unfolding b bits_defs
    by (cases "i < 6"; cases "i < 12"; cases "i < 18") (auto simp: bit_simps dest: n)
qed

lemma surrogate_code_point_value:
  assumes "0xd800 \<le> ch" "ch \<le> 0xdbff" "0xdc00 \<le> ch2" "ch2 \<le> 0xdfff"
  shows "unat (surrogate_code_point ch ch2) = (unat ch - 0xd800) * 1024 + (unat ch2 - 0xdc00) + 0x10000"
    "unat (surrogate_code_point ch ch2) < 2 ^ 22"
proof -
  define h l where hl: "h = unat ch - 0xd800" "l = unat ch2 - 0xdc00"
  have u: "unat ch = h + 0xd800" "unat ch2 = l + 0xdc00" "h < 1024" "l < 1024"
    using assms by (auto simp: hl word_le_nat_alt)
  have "ucast ch = (word_of_nat (unat ch) :: u32)" "ucast ch2 = (word_of_nat (unat ch2) :: u32)" by simp_all
  then have "surrogate_code_point ch ch2 = word_of_nat (h * 1024 + l + 0x10000)"
    by (simp add: surrogate_code_point_def push_bit_eq_mult u algebra_simps)
  then have e: "unat (surrogate_code_point ch ch2) = h * 1024 + l + 0x10000"
    by (simp only:) (rule unat_word_of_nat, use u in simp)
  then show "unat (surrogate_code_point ch ch2) = (unat ch - 0xd800) * 1024 + (unat ch2 - 0xdc00) + 0x10000" by (simp add: hl)
  show "unat (surrogate_code_point ch ch2) < 2 ^ 22" using e u by simp
qed

lemma surrogate_pair_units:
  fixes cp :: u32
  assumes "unat cp = h * 1024 + l + 0x10000" "h < 1024" "l < 1024"
  shows "GetLeadingUtf16Char (((drop_bit 10 cp + 0xd7c0) AND 0xffff) OR push_bit 16 ((cp AND 0x03ff) + 0xdc00)) = word_of_nat (h + 0xd800)"
    "GetTrailingUtf16Char (((drop_bit 10 cp + 0xd7c0) AND 0xffff) OR push_bit 16 ((cp AND 0x03ff) + 0xdc00)) = word_of_nat (l + 0xdc00)"
proof -
  have hi: "drop_bit 10 cp + 0xd7c0 = word_of_nat (h + 0xd800)"
  proof -
    have "drop_bit 10 cp = word_of_nat (unat (drop_bit 10 cp))" by simp
    also have "unat (drop_bit 10 cp) = unat cp div 1024" by (simp only: unat_drop_bit_eq) (simp add: drop_bit_eq_div)
    also have "\<dots> = h + 64" using assms by simp
    finally show ?thesis by simp
  qed
  have lo: "(cp AND 0x3ff) + 0xdc00 = word_of_nat (l + 0xdc00)"
  proof -
    have "take_bit 10 cp = word_of_nat (unat (take_bit 10 cp))" by simp
    also have "unat (take_bit 10 cp) = unat cp mod 1024" by (simp only: unsigned_take_bit_eq) (simp add: take_bit_eq_mod)
    also have "\<dots> = (l + (h + 64) * 1024) mod 1024" using assms(1) by (simp add: algebra_simps)
    also have "\<dots> = l" using assms(3) by (simp only: mod_mult_self1) simp
    finally show ?thesis by (simp add: bits_defs)
  qed
  define a b where ab: "a = h + 0xd800" "b = l + 0xdc00"
  have a: "bit (word_of_nat a :: u32) n \<Longrightarrow> n < 16" for n
    using not_bit_of_less[of "word_of_nat a :: u32" 16 n] unat_word_of_nat[of a, where 'a=32] assms(2)
    by (force simp: ab)
  show "GetLeadingUtf16Char (((drop_bit 10 cp + 0xd7c0) AND 0xffff) OR push_bit 16 ((cp AND 0x03ff) + 0xdc00)) = word_of_nat (h + 0xd800)"
    unfolding hi lo GetLeadingUtf16Char_def bits_defs ab[symmetric]
    by (rule bit_eqI) (auto simp: bit_simps)
  show "GetTrailingUtf16Char (((drop_bit 10 cp + 0xd7c0) AND 0xffff) OR push_bit 16 ((cp AND 0x03ff) + 0xdc00)) = word_of_nat (l + 0xdc00)"
    unfolding hi lo[unfolded bits_defs] GetTrailingUtf16Char_def bits_defs ab[symmetric]
    by (rule bit_eqI) (auto simp: bit_simps dest: a)
qed

lemma decodes_4:
  assumes pair: "0xd800 \<le> ch" "ch \<le> 0xdbff" "0xdc00 \<le> ch2" "ch2 \<le> 0xdfff"
    and cp: "cp = surrogate_code_point ch ch2" and b: "m p = ucast (drop_bit 18 cp OR 0xf0)"
    "m (Suc p) = ucast ((drop_bit 12 cp AND 0x3f) OR 0x80)"
    "m (Suc (Suc p)) = ucast ((drop_bit 6 cp AND 0x3f) OR 0x80)"
    "m (Suc (Suc (Suc p))) = ucast ((cp AND 0x3f) OR 0x80)"
  shows "decodes m p [ch, ch2] (Suc (Suc (Suc (Suc p))))"
proof -
  note v = surrogate_code_point_value[OF pair, folded cp]
  have l: "bit (m p) 7" "bit (m p) 5" "bit (m p) 4" by (auto simp: b(1) bit_simps)
  have nz: "m p \<noteq> 0" using l(1) by auto
  define pr where "pr = ((drop_bit 10 cp + 0xd7c0) AND 0xffff) OR push_bit 16 ((cp AND 0x03ff) + 0xdc00)"
  have g: "GetUtf16FromUtf8 m p = (pr, Suc (Suc (Suc (Suc p))))"
  proof -
    have "bit (ucast (m p) :: u32) 7" "bit (ucast (m p) :: u32) 5" "bit (ucast (m p) :: u32) 4"
      using l by (simp_all add: bit_simps)
    then show ?thesis
      unfolding GetUtf16FromUtf8_def Let_def
      by (simp only: and_0x80_eq_0 and_0x20_eq_0 and_0x10_eq_0 simp_thms if_False add_Suc_right add_0_right
          One_nat_def bits_defs code_point_bytes[OF v(2) b] pr_def)
  qed
  have h: "unat ch - 0xd800 < 1024" "unat ch2 - 0xdc00 < 1024" "0xd800 \<le> unat ch" "0xdc00 \<le> unat ch2"
    using pair by (auto simp: word_le_nat_alt)
  have "GetLeadingUtf16Char pr = word_of_nat (unat ch)" "GetTrailingUtf16Char pr = word_of_nat (unat ch2)"
    using surrogate_pair_units[OF v(1) h(1,2)] h(3,4) by (simp_all only: pr_def le_add_diff_inverse2)
  moreover have "ch2 \<noteq> 0" using pair by auto
  ultimately show ?thesis using nz by (simp add: decodes_def g utf16_units_def)
qed

lemma encode_step:
  assumes "s \<noteq> []"
  obtains chunk us rest where "s = us @ rest" "us \<noteq> []"
    "ConvertUtf16ToModifiedUtf8_loop s = chunk @ ConvertUtf16ToModifiedUtf8_loop rest"
    "CountUtf8Bytes s = length chunk + CountUtf8Bytes rest" "length us \<le> length chunk"
    "length us = length chunk \<Longrightarrow> \<exists>c. us = [c] \<and> c \<noteq> 0 \<and> unat c < 2 ^ 7 \<and> chunk = [ucast c]"
    "\<And>m p. bytes_at m p chunk \<Longrightarrow> decodes m p us (p + length chunk)"
proof -
  obtain ch rest where s: "s = ch # rest" using assms by (cases s) auto
  consider (1) "0 < ch \<and> ch \<le> 0x7f" | (4) "\<not> (0 < ch \<and> ch \<le> 0x7f)" "is_pair ch rest"
    | (3) "\<not> (0 < ch \<and> ch \<le> 0x7f)" "\<not> is_pair ch rest" "ch > 0x7ff"
    | (2) "\<not> (0 < ch \<and> ch \<le> 0x7f)" "\<not> is_pair ch rest" "\<not> ch > 0x7ff" by blast
  then show ?thesis
  proof cases
    case 1
    then show ?thesis
      by (intro that[of "[ch]" rest "[ucast ch]"])
         (auto simp: s word_0_or_1_7f word_less_nat_alt word_le_nat_alt intro: decodes_1)
  next
    case 2
    then have "unat ch < 2 ^ 11" "ch = 0 \<or> \<not> ch < 0x80" by (auto simp: word_less_nat_alt word_le_nat_alt word_gt_0 unat_eq_zero)
    with 2 show ?thesis
      by (intro that[of "[ch]" rest "[ucast (drop_bit 6 ch OR 0xc0), ucast ((ch AND 0x3f) OR 0x80)]"])
         (auto simp: s word_less_nat_alt word_le_nat_alt intro: decodes_2)
  next
    case 3
    moreover from 3(1,3) have "\<not> ch < 0x80" "\<not> ch < 0x800" by (auto simp: word_less_nat_alt word_le_nat_alt)
    moreover from 3(2) have "rest = [] \<or> \<not> (0xd800 \<le> ch \<and> ch < 0xdc00 \<and> 0xdc00 \<le> hd rest \<and> hd rest < 0xe000)"
      by (cases rest) (auto simp: is_pair_def word_less_nat_alt word_le_nat_alt)
    ultimately show ?thesis
      by (intro that[of "[ch]" rest "[ucast (drop_bit 12 ch OR 0xe0), ucast ((drop_bit 6 ch AND 0x3f) OR 0x80),
         ucast ((ch AND 0x3f) OR 0x80)]"]) (auto simp: s intro: decodes_3)
  next
    case 4
    then obtain ch2 rest' where r: "rest = ch2 # rest'" by (cases rest) (auto simp: is_pair_def)
    with 4 have pr: "0xd800 \<le> ch" "ch \<le> 0xdbff" "0xdc00 \<le> ch2" "ch2 \<le> 0xdfff" by (auto simp: is_pair_def)
    then have "ch < 0xdc00" "ch2 < 0xe000" "\<not> ch < 0x80" "\<not> ch < 0x800" by (auto simp: word_less_nat_alt word_le_nat_alt)
    with 4 pr show ?thesis
      by (intro that[of "[ch, ch2]" rest' "let code_point = surrogate_code_point ch ch2 in
        [ucast (drop_bit 18 code_point OR 0xf0), ucast ((drop_bit 12 code_point AND 0x3f) OR 0x80),
         ucast ((drop_bit 6 code_point AND 0x3f) OR 0x80), ucast ((code_point AND 0x3f) OR 0x80)]"])
        (auto simp: s r Let_def intro: decodes_4[OF _ _ _ _ refl])
  qed
qed

lemma length_units_bmp: "(\<And>n. bit x n \<Longrightarrow> n < 16) \<Longrightarrow> length (utf16_units x) = 1"
proof -
  assume "\<And>n. bit x n \<Longrightarrow> n < 16"
  then have "unat x < 2 ^ 16" by (intro unat_less_expI) force
  then show ?thesis by (simp only: leading_trailing_bmp) simp
qed

lemma trailing_pair: "GetTrailingUtf16Char (take_bit 16 x OR push_bit 16 (take_bit 10 y + 0xdc00)) \<noteq> 0"
proof -
  define b where "b = unat (take_bit 10 y) + 0xdc00"
  have b: "b < 2 ^ 16" "b \<noteq> 0" using unat_take_bit_less[of 10 y] by (auto simp: b_def)
  have "take_bit 10 y + 0xdc00 = word_of_nat b" by (simp add: b_def)
  moreover have "GetTrailingUtf16Char (take_bit 16 x OR push_bit 16 (word_of_nat b)) = word_of_nat b"
    by (rule bit_eqI) (auto simp: GetTrailingUtf16Char_def bit_simps)
  moreover have "unat (word_of_nat b :: u16) \<noteq> 0" using b unat_word_of_nat[of b, where 'a=16] by simp
  ultimately show ?thesis by (metis unsigned_0)
qed

lemma count_step:
  "CountModifiedUtf8Chars_loop m p lim len =
     (if p < lim then CountModifiedUtf8Chars_loop m (snd (GetUtf16FromUtf8 m p)) lim
        (len + length (utf16_units (fst (GetUtf16FromUtf8 m p)))) else len)"
proof -
  let ?o = "ucast (m p) :: u32"
  have o: "bit ?o n \<Longrightarrow> n < 8" for n using bit_imp_le_length[of "m p" n] by (simp add: bit_simps)
  have 1: "length (utf16_units ?o) = 1" by (rule length_units_bmp) (auto dest: o)
  have 2: "length (utf16_units (push_bit 6 (take_bit 5 a) OR take_bit 6 b)) = 1" for a b
    by (rule length_units_bmp) (auto simp: bit_simps)
  have 3: "length (utf16_units (push_bit 12 (take_bit 4 a) OR push_bit 6 (take_bit 6 b) OR take_bit 6 c)) = 1" for a b c
    by (rule length_units_bmp) (auto simp: bit_simps)
  have 4: "length (utf16_units (take_bit 16 a OR push_bit 16 (take_bit 10 b + 0xdc00))) = 2" for a b
    using trailing_pair[of a b] by (simp add: utf16_units_def Let_def)
  show ?thesis
    by (subst CountModifiedUtf8Chars_loop.simps)
       (simp only: GetUtf16FromUtf8_def Let_def bits_defs if_distrib[of fst] if_distrib[of snd] fst_conv snd_conv
          if_distrib[of utf16_units] if_distrib[of length] 1 2 3 4, simp)
qed

lemma utf16_units_nonempty [simp]: "utf16_units ch \<noteq> []"
  by (simp add: utf16_units_def Let_def)

text \<open>Induction over an encoded string, one character at a time.\<close>

lemma encode_induct [case_names Nil step]:
  assumes "P []"
    and "\<And>us rest chunk. us \<noteq> [] \<Longrightarrow>
      ConvertUtf16ToModifiedUtf8_loop (us @ rest) = chunk @ ConvertUtf16ToModifiedUtf8_loop rest \<Longrightarrow>
      (\<And>m p. bytes_at m p chunk \<Longrightarrow> decodes m p us (p + length chunk)) \<Longrightarrow> P rest \<Longrightarrow> P (us @ rest)"
  shows "P s"
proof (induction s rule: length_induct)
  case (1 s)
  show ?case
  proof (cases "s = []")
    case False
    from encode_step[OF this] obtain chunk us rest where e: "s = us @ rest" "us \<noteq> []"
      "ConvertUtf16ToModifiedUtf8_loop s = chunk @ ConvertUtf16ToModifiedUtf8_loop rest"
      "\<And>m p. bytes_at m p chunk \<Longrightarrow> decodes m p us (p + length chunk)" by metis
    moreover from e(1,2) have "length rest < length s" by simp
    ultimately show ?thesis using 1 assms(2)[of us rest chunk] by simp
  qed (simp add: assms(1))
qed

lemma decodes_advances: "decodes m p us p' \<Longrightarrow> p < p'"
  using GetUtf16FromUtf8_advances[of p m] by (auto simp: decodes_def)

lemma ConvertUtf16_length: "length (ConvertUtf16ToModifiedUtf8_loop s) = CountUtf8Bytes s"
proof (induction s rule: length_induct)
  case (1 s)
  show ?case
  proof (cases "s = []")
    case False
    from encode_step[OF this] obtain chunk us rest where e: "s = us @ rest" "us \<noteq> []"
      "ConvertUtf16ToModifiedUtf8_loop s = chunk @ ConvertUtf16ToModifiedUtf8_loop rest"
      "CountUtf8Bytes s = length chunk + CountUtf8Bytes rest" by metis
    then show ?thesis using 1[rule_format, of rest] by simp
  qed simp
qed

lemma fast_path_ascii:
  "length s \<le> CountUtf8Bytes s \<and> (CountUtf8Bytes s = length s \<longrightarrow>
     (\<forall>c \<in> set s. c \<noteq> 0 \<and> unat c < 2 ^ 7) \<and> ConvertUtf16ToModifiedUtf8_loop s = map ucast s)"
proof (induction s rule: length_induct)
  case (1 s)
  show ?case
  proof (cases "s = []")
    case False
    from encode_step[OF this] obtain chunk us rest where e: "s = us @ rest" "us \<noteq> []"
      "ConvertUtf16ToModifiedUtf8_loop s = chunk @ ConvertUtf16ToModifiedUtf8_loop rest"
      "CountUtf8Bytes s = length chunk + CountUtf8Bytes rest" "length us \<le> length chunk"
      "length us = length chunk \<Longrightarrow> \<exists>c. us = [c] \<and> c \<noteq> 0 \<and> unat c < 2 ^ 7 \<and> chunk = [ucast c]" by metis
    from e(1,2) have "length rest < length s" by simp
    with 1 have IH: "length rest \<le> CountUtf8Bytes rest" "CountUtf8Bytes rest = length rest \<longrightarrow>
      (\<forall>c \<in> set rest. c \<noteq> 0 \<and> unat c < 2 ^ 7) \<and> ConvertUtf16ToModifiedUtf8_loop rest = map ucast rest" by blast+
    show ?thesis
    proof (intro conjI impI)
      show "length s \<le> CountUtf8Bytes s" using e IH by simp
      assume eq: "CountUtf8Bytes s = length s"
      with e IH(1) have "length us = length chunk" "CountUtf8Bytes rest = length rest" by auto
      with e(1,3,6) IH(2) show "\<forall>c\<in>set s. c \<noteq> 0 \<and> unat c < 2 ^ 7" "ConvertUtf16ToModifiedUtf8_loop s = map ucast s"
        by fastforce+
    qed
  qed simp
qed

lemma ConvertUtf16ToModifiedUtf8_eq_loop:
  "ConvertUtf16ToModifiedUtf8 (CountUtf8Bytes s) s = ConvertUtf16ToModifiedUtf8_loop s"
  using fast_path_ascii[of s] by (auto simp: ConvertUtf16ToModifiedUtf8_def)

section \<open>The decoding loops on an encoded string\<close>

lemma convert_loop_enc:
  "bytes_at m p (ConvertUtf16ToModifiedUtf8_loop s) \<Longrightarrow>
     ConvertModifiedUtf8ToUtf16_loop m p (p + length (ConvertUtf16ToModifiedUtf8_loop s)) = s"
proof (induction s arbitrary: p rule: encode_induct)
  case Nil
  then show ?case by (simp add: ConvertModifiedUtf8ToUtf16_loop.simps)
next
  case (step us rest chunk)
  then have d: "decodes m p us (p + length chunk)" by simp
  moreover have "bytes_at m (p + length chunk) (ConvertUtf16ToModifiedUtf8_loop rest)" using step by simp
  note step(4)[OF this]
  ultimately show ?case
    using decodes_advances[OF d] step(2)
    by (simp add: ConvertModifiedUtf8ToUtf16_loop.simps[of m p] decodes_def add.assoc)
qed

lemma count_loop_length:
  "CountModifiedUtf8Chars_loop m p lim len = len + length (ConvertModifiedUtf8ToUtf16_loop m p lim)"
proof (induction m p lim arbitrary: len rule: ConvertModifiedUtf8ToUtf16_loop.induct)
  case (1 m p lim)
  show ?case
    using 1 by (subst count_step, subst ConvertModifiedUtf8ToUtf16_loop.simps) simp
qed

lemma hash_loop_enc:
  assumes "bytes_at m p (ConvertUtf16ToModifiedUtf8_loop s)" "length s < 2 ^ 64"
  shows "ComputeUtf16HashFromModifiedUtf8_loop m p (word_of_nat (length s)) hash
    = Some (ComputeUtf16Hash_loop s hash)"
  using assms
proof (induction s arbitrary: p hash rule: encode_induct)
  case Nil
  then show ?case by (simp add: ComputeUtf16HashFromModifiedUtf8_loop.simps)
next
  case (step us rest chunk)
  then have d: "decodes m p us (p + length chunk)" by simp
  have n: "(word_of_nat (length us + length rest) :: u64) \<noteq> 0"
    using step(1,6) by (auto simp: of_nat_eq_0_iff unat_word_of_nat simp flip: unat_eq_zero simp del: of_nat_add)
  have b: "bytes_at m (p + length chunk) (ConvertUtf16ToModifiedUtf8_loop rest)" "length rest < 2 ^ 64" using step by auto
  obtain pr where pr: "GetUtf16FromUtf8 m p = (pr, p + length chunk)" "utf16_units pr = us"
    using d by (cases "GetUtf16FromUtf8 m p") (auto simp: decodes_def)
  show ?case
    using pr(2) n step(4)[OF b] 
    by (subst ComputeUtf16HashFromModifiedUtf8_loop.simps)
       (auto simp: pr(1) utf16_units_def Let_def split: if_splits)
qed

lemma convert_nul_enc:
  assumes "bytes_at m p (ConvertUtf16ToModifiedUtf8_loop s @ [0])"
  shows "ConvertModifiedUtf8ToUtf16 m p out = Some (out @ s)"
  using assms
proof (induction s arbitrary: p out rule: encode_induct)
  case Nil
  then show ?case by (simp add: ConvertModifiedUtf8ToUtf16.simps)
next
  case (step us rest chunk)
  then have d: "decodes m p us (p + length chunk)" by simp
  have "bytes_at m (p + length chunk) (ConvertUtf16ToModifiedUtf8_loop rest @ [0])" using step by (simp add: add.assoc)
  from step(4)[OF this] d show ?case
    by (subst ConvertModifiedUtf8ToUtf16.simps) (auto simp: decodes_def split: prod.splits)
qed

text \<open>Lexicographic comparison, of code units or of code points, and the code points of a UTF-16 string; an unpaired surrogate
  counts as itself.\<close>

fun lex_compare :: "'a::linorder list \<Rightarrow> 'a list \<Rightarrow> int" where
  "lex_compare [] ys = (if ys = [] then 0 else - 1)"
| "lex_compare (x # xs) [] = 1"
| "lex_compare (x # xs) (y # ys) =
     (if x \<noteq> y then (if x > y then 1 else - 1) else lex_compare xs ys)"

fun code_points :: "u16 list \<Rightarrow> nat list" where
  "code_points [] = []"
| "code_points (ch # rest) =
     (if is_pair ch rest then unat (surrogate_code_point ch (hd rest)) # code_points (tl rest) else unat ch # code_points rest)"

definition no_surrogates :: "u16 list \<Rightarrow> bool" where
  "no_surrogates s \<longleftrightarrow> (\<forall>u \<in> set s. u < 0xd800 \<or> 0xdfff < u)"

lemma code_points_units: "no_surrogates s \<Longrightarrow> code_points s = map unat s"
proof (induction s)
  case (Cons ch rest)
  then have "\<not> is_pair ch rest" by (cases rest) (auto simp: no_surrogates_def is_pair_def word_le_nat_alt word_less_nat_alt)
  then show ?case using Cons by (simp add: no_surrogates_def)
qed simp

lemma lex_compare_unat: "lex_compare (map unat s) (map unat t) = lex_compare s (t :: 'a::len word list)"
  by (induction s t rule: lex_compare.induct) (auto simp: word_less_nat_alt word_unat_eq_iff)

lemma compare_enc:
  assumes "bytes_at m p (ConvertUtf16ToModifiedUtf8_loop s @ [0])"
  shows "CompareModifiedUtf8ToUtf16AsCodePointValues m p t = lex_compare s t"
  using assms
proof (induction s arbitrary: p t rule: encode_induct)
  case Nil
  then show ?case by (simp add: CompareModifiedUtf8ToUtf16AsCodePointValues.simps)
next
  case (step us rest chunk)
  then have d: "decodes m p us (p + length chunk)" by simp
  have b: "bytes_at m (p + length chunk) (ConvertUtf16ToModifiedUtf8_loop rest @ [0])" using step by (simp add: add.assoc)
  obtain pr where pr: "GetUtf16FromUtf8 m p = (pr, p + length chunk)" "utf16_units pr = us" "m p \<noteq> 0"
    using d by (cases "GetUtf16FromUtf8 m p") (auto simp: decodes_def)
  show ?case
    using pr(2,3) step(4)[OF b]
    by (subst CompareModifiedUtf8ToUtf16AsCodePointValues.simps)
       (auto simp: pr(1) utf16_units_def Let_def split: if_splits list.splits)
qed

lemma ascii_char_to:
  assumes "unat (c::u16) < 2 ^ 7"
  shows "char_to sg (ucast c :: u8) = c"
proof -
  have n: "bit c n \<Longrightarrow> n < 7" for n using not_bit_of_less[OF assms, of n] by force
  show ?thesis
  proof (rule bit_eqI)
    fix i show "bit (char_to sg (ucast c :: u8) :: u16) i = bit c i"
      by (cases "i < 7") (auto simp: char_to_def bit_simps min_def dest: n)
  qed
qed

lemma bytes_at_nth: "bytes_at m p bs \<longleftrightarrow> (\<forall>i < length bs. m (p + i) = bs ! i)"
  by (induction bs arbitrary: p) (auto simp: less_Suc_eq_0_disj nth_Cons split: nat.splits)

lemma convert_sized_enc:
  assumes "bytes_at m p (ConvertUtf16ToModifiedUtf8_loop s)"
  shows "ConvertModifiedUtf8ToUtf16_sized sg (length s) m p (CountUtf8Bytes s) = s"
proof (cases "CountUtf8Bytes s = length s")
  case True
  with fast_path_ascii[of s] have a: "\<forall>c \<in> set s. unat c < 2 ^ 7" "ConvertUtf16ToModifiedUtf8_loop s = map ucast s" by auto
  with assms have "map (\<lambda>i. char_to sg (m (p + i))) [0..<length s] = s"
    by (intro nth_equalityI) (auto simp: bytes_at_nth intro!: ascii_char_to)
  with True show ?thesis by (simp add: ConvertModifiedUtf8ToUtf16_sized_def)
next
  case False
  then show ?thesis using convert_loop_enc[OF assms] by (simp add: ConvertModifiedUtf8ToUtf16_sized_def ConvertUtf16_length)
qed

lemma lex_compare_0: "lex_compare s t = 0 \<longleftrightarrow> s = t"
  by (induction s t rule: lex_compare.induct) auto

section \<open>Properties\<close>

text \<open>C14: Every UTF-16 array, unpaired surrogates included, survives the trip through modified UTF-8:
  \<open>ConvertUtf16ToModifiedUtf8\<close>, given the byte count that \<open>CountUtf8Bytes\<close> computes, writes exactly that
  many bytes; wherever these stand in memory, \<open>CountModifiedUtf8Chars\<close> counts the original
  characters and \<open>ConvertModifiedUtf8ToUtf16\<close> gives them back, on the ASCII fast path as well, whether
  or not \<open>char\<close> is signed.\<close>

theorem modified_utf8_round_trip:
  "let n = CountUtf8Bytes s; bs = ConvertUtf16ToModifiedUtf8 n s; m = store_bytes m0 p bs in
     length bs = n \<and> CountModifiedUtf8Chars m p n = length s
     \<and> ConvertModifiedUtf8ToUtf16_sized sg (length s) m p n = s"
  using convert_loop_enc[of "store_bytes m0 p (ConvertUtf16ToModifiedUtf8_loop s)" p s]
  by (simp add: Let_def ConvertUtf16ToModifiedUtf8_eq_loop ConvertUtf16_length convert_sized_enc
      CountModifiedUtf8Chars_def count_loop_length)

text \<open>C33: On any bytes whatever, well-formed or not, \<open>CountModifiedUtf8Chars\<close> is the number of units
  that the general path of \<open>ConvertModifiedUtf8ToUtf16\<close> writes for the same range, so an output buffer
  allocated from the count is never overrun.\<close>

theorem CountModifiedUtf8Chars_sizes_output:
  "CountModifiedUtf8Chars m p n = length (ConvertModifiedUtf8ToUtf16_loop m p (p + n))"
  by (simp add: CountModifiedUtf8Chars_def count_loop_length)

text \<open>C34: A zero-terminated modified UTF-8 string and the UTF-16 string it encodes hash alike, and comparing the encoded
  string with a UTF-16 string is the lexicographic comparison of their UTF-16 code units; in particular it answers zero exactly for
  the string itself.  For strings without surrogates that is the order of the code points, which the comment on the function
  promises; for others it need not be.\<close>

theorem modified_utf8_hash_compare:
  assumes "bytes_at m p (ConvertUtf16ToModifiedUtf8 (CountUtf8Bytes s) s @ [0])" "length s < 2 ^ 64"
  shows "ComputeUtf16HashFromModifiedUtf8 m p (word_of_nat (length s)) = Some (ComputeUtf16Hash s)
    \<and> CompareModifiedUtf8ToUtf16AsCodePointValues m p t = lex_compare s t
    \<and> (CompareModifiedUtf8ToUtf16AsCodePointValues m p t = 0 \<longleftrightarrow> t = s)
    \<and> (no_surrogates s \<and> no_surrogates t \<longrightarrow>
        CompareModifiedUtf8ToUtf16AsCodePointValues m p t = lex_compare (code_points s) (code_points t))
    \<and> ConvertModifiedUtf8ToUtf16 m p [] = Some s"
  using assms hash_loop_enc[of m p s 0] compare_enc[of m p s t] convert_nul_enc[of m p s "[]"] lex_compare_0[of s t]
  by (auto simp: ConvertUtf16ToModifiedUtf8_eq_loop ComputeUtf16HashFromModifiedUtf8_def ComputeUtf16Hash_def code_points_units
      lex_compare_unat)

theorem modified_utf8_hash_compare_witness:
  "ComputeUtf16HashFromModifiedUtf8 (store_bytes (\<lambda>_. 0) 0 [0x41, 0xf0, 0x9f, 0x98, 0x80]) 0 3
     = Some (ComputeUtf16Hash [0x41, 0xd83d, 0xde00])
   \<and> CompareModifiedUtf8ToUtf16AsCodePointValues (store_bytes (\<lambda>_. 0) 0 [0x41, 0xf0, 0x9f, 0x98, 0x80]) 0
       [0x41, 0xd83d, 0xde01] = - 1"
  using modified_utf8_hash_compare[of "store_bytes (\<lambda>_. 0) 0 [0x41, 0xf0, 0x9f, 0x98, 0x80]" 0
      "[0x41, 0xd83d, 0xde00]" "[0x41, 0xd83d, 0xde01]"]
  by (simp add: ConvertUtf16ToModifiedUtf8_def is_pair_def surrogate_code_point_def Let_def)


end
