(* ===== verification/Lock_Word.thy ===== *)
theory Lock_Word
  imports Bit_Utils
begin

text \<open>
  The 32-bit lock word of \<open>runtime/lock_word.h\<close> and \<open>runtime/lock_word-inl.h\<close>: four formats told
  apart by the two top bits, with the mark bit and the read-barrier bit below them in every format
  but the forwarding address.  A \<open>CHECK\<close> that fails aborts the process and is \<open>None\<close>;
  \<open>kUseReadBarrier\<close> is the build configuration and is a parameter where the source tests it.
  A monitor is known here by its monitor id.
\<close>

type_synonym LockWord = u32

section \<open>Layout\<close>

abbreviation (input) kStateSize :: nat where "kStateSize \<equiv> 2"
abbreviation (input) kReadBarrierStateSize :: nat where "kReadBarrierStateSize \<equiv> 1"
abbreviation (input) kMarkBitStateSize :: nat where "kMarkBitStateSize \<equiv> 1"
abbreviation (input) kThinLockOwnerSize :: nat where "kThinLockOwnerSize \<equiv> 16"
abbreviation (input) kThinLockCountSize :: nat where
  "kThinLockCountSize \<equiv> 32 - kThinLockOwnerSize - kStateSize - kReadBarrierStateSize - kMarkBitStateSize"
abbreviation (input) kThinLockOwnerShift :: nat where "kThinLockOwnerShift \<equiv> 0"
abbreviation (input) kThinLockOwnerMask :: u32 where "kThinLockOwnerMask \<equiv> mask kThinLockOwnerSize"
abbreviation (input) kThinLockMaxOwner :: u32 where "kThinLockMaxOwner \<equiv> kThinLockOwnerMask"
abbreviation (input) kThinLockCountShift :: nat where "kThinLockCountShift \<equiv> kThinLockOwnerSize + kThinLockOwnerShift"
abbreviation (input) kThinLockCountMask :: u32 where "kThinLockCountMask \<equiv> mask kThinLockCountSize"
abbreviation (input) kThinLockMaxCount :: u32 where "kThinLockMaxCount \<equiv> kThinLockCountMask"
abbreviation (input) kStateShift :: nat where
  "kStateShift \<equiv> kReadBarrierStateSize + kThinLockCountSize + kThinLockCountShift + kMarkBitStateSize"
abbreviation (input) kStateMask :: u32 where "kStateMask \<equiv> mask kStateSize"
abbreviation (input) kStateThinOrUnlocked :: u32 where "kStateThinOrUnlocked \<equiv> 0"
abbreviation (input) kStateFat :: u32 where "kStateFat \<equiv> 1"
abbreviation (input) kStateHash :: u32 where "kStateHash \<equiv> 2"
abbreviation (input) kStateForwardingAddress :: u32 where "kStateForwardingAddress \<equiv> 3"
abbreviation (input) kStateForwardingAddressShifted :: u32 where
  "kStateForwardingAddressShifted \<equiv> push_bit kStateShift kStateForwardingAddress"
abbreviation (input) kReadBarrierStateShift :: nat where "kReadBarrierStateShift \<equiv> kThinLockCountSize + kThinLockCountShift"
abbreviation (input) kReadBarrierStateMask :: u32 where "kReadBarrierStateMask \<equiv> mask kReadBarrierStateSize"
abbreviation (input) kReadBarrierStateMaskShifted :: u32 where
  "kReadBarrierStateMaskShifted \<equiv> push_bit kReadBarrierStateShift kReadBarrierStateMask"
abbreviation (input) kMarkBitStateShift :: nat where "kMarkBitStateShift \<equiv> kReadBarrierStateSize + kReadBarrierStateShift"
abbreviation (input) kMarkBitStateMask :: u32 where "kMarkBitStateMask \<equiv> mask kMarkBitStateSize"
abbreviation (input) kMarkBitStateMaskShifted :: u32 where
  "kMarkBitStateMaskShifted \<equiv> push_bit kMarkBitStateShift kMarkBitStateMask"
abbreviation (input) kGCStateShift :: nat where "kGCStateShift \<equiv> kReadBarrierStateShift"
abbreviation (input) kGCStateMaskShifted :: u32 where
  "kGCStateMaskShifted \<equiv> kReadBarrierStateMaskShifted OR kMarkBitStateMaskShifted"
abbreviation (input) kGCStateMaskShiftedToggled :: u32 where "kGCStateMaskShiftedToggled \<equiv> NOT kGCStateMaskShifted"
abbreviation (input) kHashShift :: nat where "kHashShift \<equiv> 0"
abbreviation (input) kHashSize :: nat where
  "kHashSize \<equiv> 32 - kStateSize - kReadBarrierStateSize - kMarkBitStateSize"
abbreviation (input) kHashMask :: u32 where "kHashMask \<equiv> mask kHashSize"
abbreviation (input) kMaxHash :: u32 where "kMaxHash \<equiv> kHashMask"
abbreviation (input) kForwardingAddressShift :: nat where "kForwardingAddressShift \<equiv> 3"
abbreviation (input) kMonitorIdShift :: nat where "kMonitorIdShift \<equiv> kHashShift"
abbreviation (input) kMonitorIdMask :: u32 where "kMonitorIdMask \<equiv> kHashMask"
abbreviation (input) kMaxMonitorId :: u32 where "kMaxMonitorId \<equiv> kMaxHash"

datatype LockState = kUnlocked | kThinLocked | kFatLocked | kHashCode | kForwardingAddress

section \<open>Constructors\<close>

definition FromThinLockId :: "u32 \<Rightarrow> u32 \<Rightarrow> u32 \<Rightarrow> LockWord option" where
  "FromThinLockId thread_id count gc_state =
     (if \<not> thread_id \<le> kThinLockMaxOwner then None
      else if \<not> count \<le> kThinLockMaxCount then None
      else Some (push_bit kThinLockOwnerShift thread_id OR push_bit kThinLockCountShift count
        OR push_bit kGCStateShift gc_state OR push_bit kStateShift kStateThinOrUnlocked))"

definition FromForwardingAddress :: "u32 \<Rightarrow> LockWord" where
  "FromForwardingAddress target = drop_bit kForwardingAddressShift target OR kStateForwardingAddressShifted"

definition FromHashCode :: "u32 \<Rightarrow> u32 \<Rightarrow> LockWord option" where
  "FromHashCode hash_code gc_state =
     (if \<not> hash_code \<le> kMaxHash then None
      else Some (push_bit kHashShift hash_code OR push_bit kGCStateShift gc_state
        OR push_bit kStateShift kStateHash))"

definition FromDefault :: "u32 \<Rightarrow> LockWord" where
  "FromDefault gc_state = push_bit kGCStateShift gc_state"

definition LockWord_default :: LockWord where
  "LockWord_default = 0"

definition IsDefault :: "LockWord \<Rightarrow> bool" where
  "IsDefault lw \<longleftrightarrow> LockWord_default = lw"

definition LockWord_fat :: "u32 \<Rightarrow> u32 \<Rightarrow> LockWord" where
  "LockWord_fat monitor_id gc_state =
     monitor_id OR push_bit kGCStateShift gc_state OR push_bit kStateShift kStateFat"

section \<open>Accessors\<close>

definition GetState :: "bool \<Rightarrow> LockWord \<Rightarrow> LockState" where
  "GetState kUseReadBarrier v =
     (if (\<not> kUseReadBarrier \<and> v = 0) \<or> (kUseReadBarrier \<and> v AND kGCStateMaskShiftedToggled = 0)
      then kUnlocked
      else let internal_state = drop_bit kStateShift v AND kStateMask in
        if internal_state = kStateThinOrUnlocked then kThinLocked
        else if internal_state = kStateHash then kHashCode
        else if internal_state = kStateForwardingAddress then kForwardingAddress
        else kFatLocked)"

definition ReadBarrierState :: "LockWord \<Rightarrow> u32" where
  "ReadBarrierState v = drop_bit kReadBarrierStateShift v AND kReadBarrierStateMask"

definition GCState :: "LockWord \<Rightarrow> u32" where
  "GCState v = drop_bit kGCStateShift (v AND kGCStateMaskShifted)"

definition SetReadBarrierState :: "u32 \<Rightarrow> LockWord \<Rightarrow> LockWord" where
  "SetReadBarrierState rb_state v =
     (let v = v AND NOT (push_bit kReadBarrierStateShift kReadBarrierStateMask)
      in v OR push_bit kReadBarrierStateShift (rb_state AND kReadBarrierStateMask))"

definition MarkBitState :: "LockWord \<Rightarrow> u32" where
  "MarkBitState v = drop_bit kMarkBitStateShift v AND kMarkBitStateMask"

definition SetMarkBitState :: "u32 \<Rightarrow> LockWord \<Rightarrow> LockWord" where
  "SetMarkBitState mark_bit v =
     (let v = v AND NOT kMarkBitStateMaskShifted in v OR push_bit kMarkBitStateShift mark_bit)"

definition ThinLockOwner :: "LockWord \<Rightarrow> u32" where
  "ThinLockOwner v = drop_bit kThinLockOwnerShift v AND kThinLockOwnerMask"

definition ThinLockCount :: "LockWord \<Rightarrow> u32" where
  "ThinLockCount v = drop_bit kThinLockCountShift v AND kThinLockCountMask"

definition FatLockMonitor :: "LockWord \<Rightarrow> u32" where
  "FatLockMonitor v = drop_bit kMonitorIdShift v AND kMonitorIdMask"

definition ForwardingAddress :: "LockWord \<Rightarrow> u32" where
  "ForwardingAddress v = push_bit kForwardingAddressShift v"

definition LockWord_GetHashCode :: "LockWord \<Rightarrow> u32" where
  "LockWord_GetHashCode v = drop_bit kHashShift v AND kHashMask"

definition GetValueWithoutGCState :: "LockWord \<Rightarrow> u32" where
  "GetValueWithoutGCState v = v AND kGCStateMaskShiftedToggled"

definition LockWord_Equal :: "bool \<Rightarrow> LockWord \<Rightarrow> LockWord \<Rightarrow> bool" where
  "LockWord_Equal kIncludeReadBarrierState lw1 lw2 =
     (if kIncludeReadBarrierState then lw1 = lw2
      else GetValueWithoutGCState lw1 = GetValueWithoutGCState lw2)"

section \<open>Reading back what a constructor wrote\<close>

lemma gc_mask_bits: "kGCStateMaskShifted = push_bit 28 (mask 2)"
  by (simp add: mask_eq_exp_minus_1)

lemma GCState_take_bit: "GCState v = take_bit 2 (drop_bit 28 v)"
  unfolding GCState_def gc_mask_bits by (rule bit_eqI) (auto simp: bit_simps)

lemma bit_2_iff: "bit (2::int) n \<longleftrightarrow> n = 1"
  using bit_exp_iff[of 1 n, where 'a=int] by auto

lemma take_bit_2: "take_bit 2 (x::u32) = (if bit x 1 then 2 else 0) OR (if bit x 0 then 1 else 0)"
proof (rule bit_eqI)
  fix n show "bit (take_bit 2 x) n = bit ((if bit x 1 then 2 else 0) OR (if bit x 0 then 1 else 0) :: u32) n"
    by (cases "n = 0"; cases "n = 1") (auto simp: bit_take_bit_iff less_2_cases_iff bit_or_iff bit_1_iff bit_2_iff)
qed

lemma state_bits: "take_bit 2 x = (0::u32) \<longleftrightarrow> \<not> bit x 0 \<and> \<not> bit x 1"
  "take_bit 2 x = (1::u32) \<longleftrightarrow> bit x 0 \<and> \<not> bit x 1"
  "take_bit 2 x = (2::u32) \<longleftrightarrow> \<not> bit x 0 \<and> bit x 1"
  "take_bit 2 x = (3::u32) \<longleftrightarrow> bit x 0 \<and> bit x 1"
  by (cases "bit x 0"; cases "bit x 1"; simp add: take_bit_2)+

lemma GetState_bits:
  "GetState rb v = (if (if rb then v AND NOT (push_bit 28 (mask 2)) = 0 else v = 0) then kUnlocked
    else if \<not> bit v 30 \<and> \<not> bit v 31 then kThinLocked
    else if \<not> bit v 30 then kHashCode
    else if bit v 31 then kForwardingAddress else kFatLocked)"
proof -
  have m: "drop_bit 30 v AND mask 2 = take_bit 2 (drop_bit 30 v)" by (simp add: take_bit_eq_mask)
  show ?thesis
    unfolding GetState_def gc_mask_bits Let_def 
    by (simp add: m state_bits bit_simps)
qed

lemma thin_word:
  assumes "FromThinLockId t c g = Some v" "unat g < 4"
  shows "ThinLockOwner v = t" "ThinLockCount v = c" "GCState v = g"
    "t \<noteq> 0 \<Longrightarrow> GetState rb v = kThinLocked"
proof -
  have v: "v = t OR push_bit 16 c OR push_bit 28 g" and tc: "t \<le> mask 16" "c \<le> mask 12"
    using assms(1) by (auto simp: FromThinLockId_def split: if_splits)
  have b: "bit t n \<Longrightarrow> n < 16" "bit c n \<Longrightarrow> n < 12" "bit g n \<Longrightarrow> n < 2" for n
    using le_mask_bits[OF tc(1), of n] le_mask_bits[OF tc(2), of n] not_bit_of_less[of g 2 n] assms(2) by force+
  show "ThinLockOwner v = t" "ThinLockCount v = c" "GCState v = g"
    unfolding ThinLockOwner_def ThinLockCount_def GCState_take_bit v
    by (rule bit_eqI; auto simp: bit_simps dest: b)+
  assume "t \<noteq> 0"
  then obtain n where n: "bit t n" by (metis bit_eqI bit_0_eq bot_apply bot_bool_def)
  then have "bit v n" "bit (v AND NOT (push_bit 28 (mask 2))) n" using b(1)[OF n] by (auto simp: v bit_simps)
  then have "v \<noteq> 0" "v AND NOT (push_bit 28 (mask 2)) \<noteq> 0" by auto
  moreover have "\<not> bit v 30" "\<not> bit v 31" by (auto simp: v bit_simps dest: b)
  ultimately show "GetState rb v = kThinLocked" by (simp add: GetState_bits)
qed

lemma bit_3_int: "bit (3::int) m \<longleftrightarrow> m = 0 \<or> m = 1"
  by (auto simp: bit_numeral_rec bit_1_iff split: nat.splits)

lemma lock_word_masks [bit_simps]:
  "bit (2147483648::int) n \<longleftrightarrow> n = 31" "bit (1073741824::int) n \<longleftrightarrow> n = 30"
  "bit (536870912::int) n \<longleftrightarrow> n = 29" "bit (268435456::int) n \<longleftrightarrow> n = 28"
  "bit (805306368::int) n \<longleftrightarrow> n = 28 \<or> n = 29" "bit (3221225472::int) n \<longleftrightarrow> n = 30 \<or> n = 31"
  using bit_exp_iff[of 31 n, where 'a=int] bit_exp_iff[of 30 n, where 'a=int]
    bit_exp_iff[of 29 n, where 'a=int] bit_exp_iff[of 28 n, where 'a=int]
    bit_push_bit_iff[of 28 "3 :: int" n] bit_push_bit_iff[of 30 "3 :: int" n]
  by (simp_all add: bit_3_int) (safe; simp)+

lemma hash_word:
  assumes "FromHashCode h g = Some v" "unat g < 4"
  shows "LockWord_GetHashCode v = h" "GCState v = g" "GetState rb v = kHashCode"
proof -
  have v: "v = h OR push_bit 28 g OR push_bit 31 1" and h: "h \<le> mask 28"
    using assms(1) by (auto simp: FromHashCode_def split: if_splits)
  have b: "bit h n \<Longrightarrow> n < 28" "bit g n \<Longrightarrow> n < 2" for n
    using le_mask_bits[OF h, of n] not_bit_of_less[of g 2 n] assms(2) by force+
  show "LockWord_GetHashCode v = h" "GCState v = g"
    unfolding LockWord_GetHashCode_def GCState_take_bit v
    by (rule bit_eqI; auto simp: bit_simps dest: b)+
  have "bit v 31" "\<not> bit v 30" by (auto simp: v bit_simps dest: b)
  moreover from this have "bit (v AND NOT (push_bit 28 (mask 2))) 31" by (simp add: bit_simps)
  ultimately show "GetState rb v = kHashCode" by (auto simp: GetState_bits)
qed

lemma fat_word:
  assumes "i \<le> kMaxMonitorId" "unat g < 4"
  shows "FatLockMonitor (LockWord_fat i g) = i" "GCState (LockWord_fat i g) = g"
    "GetState rb (LockWord_fat i g) = kFatLocked"
proof -
  have v: "LockWord_fat i g = i OR push_bit 28 g OR push_bit 30 1" by (simp add: LockWord_fat_def)
  have i: "i \<le> mask 28" using assms(1) by simp
  have b: "bit i n \<Longrightarrow> n < 28" "bit g n \<Longrightarrow> n < 2" for n
    using le_mask_bits[OF i, of n] not_bit_of_less[of g 2 n] assms(2) by force+
  show "FatLockMonitor (LockWord_fat i g) = i" "GCState (LockWord_fat i g) = g"
    unfolding FatLockMonitor_def GCState_take_bit v
    by (rule bit_eqI; auto simp: bit_simps dest: b)+
  have "bit (LockWord_fat i g) 30" "\<not> bit (LockWord_fat i g) 31" by (auto simp: v bit_simps dest: b)
  moreover from this have "bit (LockWord_fat i g AND NOT (push_bit 28 (mask 2))) 30" by (simp add: bit_simps)
  ultimately show "GetState rb (LockWord_fat i g) = kFatLocked" by (auto simp: GetState_bits)
qed

lemma default_word:
  assumes "unat g < 4"
  shows "GCState (FromDefault g) = g" "rb \<or> g = 0 \<Longrightarrow> GetState rb (FromDefault g) = kUnlocked"
proof -
  have b: "bit g n \<Longrightarrow> n < 2" for n using not_bit_of_less[of g 2 n] assms by force
  have v: "FromDefault g = push_bit 28 g" by (simp add: FromDefault_def)
  show "GCState (FromDefault g) = g"
    unfolding GCState_take_bit v by (rule bit_eqI) (auto simp: bit_simps dest: b)
  have "FromDefault g AND NOT (push_bit 28 (mask 2)) = 0"
    unfolding v by (rule bit_eqI) (auto simp: bit_simps dest: b)
  then show "rb \<or> g = 0 \<Longrightarrow> GetState rb (FromDefault g) = kUnlocked" by (auto simp: GetState_bits v)
qed

lemma forwarding_word:
  assumes "take_bit 3 a = 0"
  shows "ForwardingAddress (FromForwardingAddress a) = a"
    "GetState rb (FromForwardingAddress a) = kForwardingAddress"
proof -
  have v: "FromForwardingAddress a = drop_bit 3 a OR push_bit 30 (mask 2)"
    by (simp add: FromForwardingAddress_def mask_eq_exp_minus_1)
  have low: "\<not> bit a n" if "n < 3" for n
    using assms that by (metis bit_take_bit_iff bit_0_eq bot_apply bot_bool_def)
  show "ForwardingAddress (FromForwardingAddress a) = a"
    unfolding ForwardingAddress_def v
  proof (rule bit_eqI)
    fix n assume "possible_bit TYPE(u32) n"
    then show "bit (push_bit kForwardingAddressShift (drop_bit 3 a OR push_bit 30 (mask 2))) n = bit a n"
      using low[of n] by (cases "n < 3") (auto simp: bit_simps)
  qed
  have b: "bit (FromForwardingAddress a) 30" "bit (FromForwardingAddress a) 31" by (auto simp: v bit_simps)
  moreover from this have "bit (FromForwardingAddress a AND NOT (push_bit 28 (mask 2))) 30" by (simp add: bit_simps)
  ultimately show "GetState rb (FromForwardingAddress a) = kForwardingAddress" by (auto simp: GetState_bits)
qed

lemma gc_bit_updates_mark:
  "GetValueWithoutGCState (SetMarkBitState b v) = GetValueWithoutGCState v" if "unat b < 2"
proof -
  have b: "bit b n \<Longrightarrow> n < 1" for n using not_bit_of_less[of b 1 n] that by force
  show ?thesis by (rule bit_eqI) (auto simp: GetValueWithoutGCState_def SetMarkBitState_def Let_def gc_mask_bits bit_simps dest: b)
qed

lemma gc_bit_updates:
  "GetValueWithoutGCState (SetReadBarrierState b v) = GetValueWithoutGCState v"
  "ReadBarrierState (SetReadBarrierState b v) = take_bit 1 b"
  "MarkBitState (SetReadBarrierState b v) = MarkBitState v"
  by (rule bit_eqI; auto simp: GetValueWithoutGCState_def SetReadBarrierState_def ReadBarrierState_def
      MarkBitState_def Let_def gc_mask_bits bit_simps bit_0)+

lemma without_gc_bits:
  assumes "GetValueWithoutGCState v = GetValueWithoutGCState w" "n \<noteq> 28" "n \<noteq> 29"
  shows "bit v n = bit w n"
proof (cases "n < 32")
  case True
  have "bit (GetValueWithoutGCState x) n = bit x n" for x
    using assms(2,3) True by (auto simp: GetValueWithoutGCState_def gc_mask_bits bit_simps)
  then show ?thesis using assms(1) by metis
qed (auto dest: bit_imp_le_length)

lemma same_without_gc:
  assumes "GetValueWithoutGCState v = GetValueWithoutGCState w"
  shows "GetState True v = GetState True w" "ThinLockOwner v = ThinLockOwner w"
    "ThinLockCount v = ThinLockCount w" "FatLockMonitor v = FatLockMonitor w"
    "LockWord_GetHashCode v = LockWord_GetHashCode w"
proof -
  have e: "v AND NOT (push_bit 28 (mask 2)) = w AND NOT (push_bit 28 (mask 2))"
    using assms by (simp only: GetValueWithoutGCState_def gc_mask_bits)
  note b = without_gc_bits[OF assms]
  show "GetState True v = GetState True w" by (simp add: GetState_bits e b)
  show "ThinLockOwner v = ThinLockOwner w" "ThinLockCount v = ThinLockCount w" "FatLockMonitor v = FatLockMonitor w"
    "LockWord_GetHashCode v = LockWord_GetHashCode w"
    by (rule bit_eqI; auto simp: ThinLockOwner_def ThinLockCount_def FatLockMonitor_def LockWord_GetHashCode_def
        bit_simps b)+
qed

section \<open>Properties\<close>

text \<open>C35: Each of the formats is recognised and read back: for values within the checked ranges the thin, hash,
  fat, forwarding and empty words are built, \<open>GetState\<close> tells them apart in both read-barrier configurations,
  and owner, count, hash code, monitor id, address and the two GC bits are what was put in.\<close>

theorem lock_word_formats:
  assumes "unat g < 4" "t \<noteq> 0" "t \<le> kThinLockMaxOwner" "c \<le> kThinLockMaxCount" "h \<le> kMaxHash"
    "i \<le> kMaxMonitorId" "take_bit 3 a = 0"
  shows "(\<exists>v. FromThinLockId t c g = Some v \<and> GetState rb v = kThinLocked \<and> ThinLockOwner v = t
      \<and> ThinLockCount v = c \<and> GCState v = g)
    \<and> (\<exists>v. FromHashCode h g = Some v \<and> GetState rb v = kHashCode \<and> LockWord_GetHashCode v = h \<and> GCState v = g)
    \<and> GetState rb (LockWord_fat i g) = kFatLocked \<and> FatLockMonitor (LockWord_fat i g) = i
    \<and> GCState (LockWord_fat i g) = g
    \<and> GetState rb (FromForwardingAddress a) = kForwardingAddress \<and> ForwardingAddress (FromForwardingAddress a) = a
    \<and> GetState True (FromDefault g) = kUnlocked \<and> GetState False LockWord_default = kUnlocked
    \<and> GCState (FromDefault g) = g"
proof -
  obtain v where v: "FromThinLockId t c g = Some v" using assms by (simp add: FromThinLockId_def)
  obtain w where w: "FromHashCode h g = Some w" using assms by (simp add: FromHashCode_def)
  have "GetState False LockWord_default = kUnlocked" by (simp add: LockWord_default_def GetState_def)
  then show ?thesis
    using thin_word[OF v assms(1)] hash_word[OF w assms(1)] fat_word[OF assms(6,1)]
      forwarding_word[OF assms(7)] default_word[OF assms(1)] assms(2) v w by blast
qed

theorem lock_word_formats_witness:
  "(\<exists>v. FromThinLockId 7 3 2 = Some v \<and> GetState True v = kThinLocked \<and> ThinLockOwner v = 7
      \<and> ThinLockCount v = 3 \<and> GCState v = 2)
    \<and> ForwardingAddress (FromForwardingAddress 0xfffffff8) = 0xfffffff8"
  using lock_word_formats[of 2 7 3 5 9 "0xfffffff8" True]
  by (simp add: mask_eq_exp_minus_1)

lemma mark_bit_updates:
  assumes "unat b < 2"
  shows "MarkBitState (SetMarkBitState b v) = b" "ReadBarrierState (SetMarkBitState b v) = ReadBarrierState v"
proof -
  have b: "bit b n \<Longrightarrow> n < 1" for n using not_bit_of_less[of b 1 n] assms by force
  show "MarkBitState (SetMarkBitState b v) = b" "ReadBarrierState (SetMarkBitState b v) = ReadBarrierState v"
    by (rule bit_eqI; auto simp: SetMarkBitState_def ReadBarrierState_def
      MarkBitState_def Let_def bit_simps bit_0 dest: b)+
qed

text \<open>C36: The collector's updates of a lock word touch nothing else: setting the mark bit or the read-barrier
  bit leaves the lock state, the owner, the count, the monitor and the hash code as they were, and leaves the
  other of the two bits.\<close>

theorem lock_word_gc_updates:
  assumes "unat b < 2"
  shows "(let w = SetMarkBitState b v in MarkBitState w = b \<and> ReadBarrierState w = ReadBarrierState v
      \<and> GetState True w = GetState True v \<and> ThinLockOwner w = ThinLockOwner v \<and> ThinLockCount w = ThinLockCount v
      \<and> FatLockMonitor w = FatLockMonitor v \<and> LockWord_GetHashCode w = LockWord_GetHashCode v)
    \<and> (let w = SetReadBarrierState b v in ReadBarrierState w = b \<and> MarkBitState w = MarkBitState v
      \<and> GetState True w = GetState True v \<and> ThinLockOwner w = ThinLockOwner v \<and> ThinLockCount w = ThinLockCount v
      \<and> FatLockMonitor w = FatLockMonitor v \<and> LockWord_GetHashCode w = LockWord_GetHashCode v)"
  using mark_bit_updates[OF assms, of v] same_without_gc[OF gc_bit_updates_mark[OF assms, of v]]
    gc_bit_updates[of b v] same_without_gc[OF gc_bit_updates(1)[of b v]] word_less_exp_take_bit[of b 1] assms
  by (simp add: Let_def)

theorem lock_word_gc_updates_witness:
  "MarkBitState (SetMarkBitState 1 0x00030007) = 1 \<and> ThinLockOwner (SetMarkBitState 1 0x00030007) = 7
    \<and> ThinLockCount (SetReadBarrierState 1 0x00030007) = 3"
  using lock_word_gc_updates[of 1 "0x00030007"]
  by (simp add: Let_def ThinLockOwner_def ThinLockCount_def mask_eq_exp_minus_1)

end
