(* ===== verification/Monitors.thy ===== *)
theory Monitors
  imports Lock_Word
begin

text \<open>
  Object monitors (\<open>runtime/monitor.cc\<close>): thin locks in the lock word, inflated monitors, waiting and
  notification, deflation, and the list of monitors.

  A thread is its thread id, a monitor its monitor id, an object an address.  The record \<open>Monitor\<close> has the
  fields of the class; \<open>wait_set\<close> is the chain of threads linked by \<open>wait_next_\<close>.  The record \<open>vm\<close> is
  what the operations share: the lock words, the monitors, the list of monitors, and per thread its
  \<open>wait_monitor_\<close>.  Each definition is one critical section under \<open>monitor_lock_\<close>, or one
  compare-and-set of a lock word; \<open>None\<close> is an abort (a \<open>CHECK\<close> that fails, \<open>LOG(FATAL)\<close>, a null
  dereference, the overflow of the \<open>int\<close> count).  The outcome of a weak compare-and-set on an unchanged word and the id of a new monitor are
  arguments.  The configuration record holds the read-barrier flag, the profiling threshold, the spin limit
  and the method a thread is executing.
\<close>

type_synonym tid = u32
type_synonym obj = nat
type_synonym mid = u32

abbreviation (input) kInvalidThreadId :: tid where "kInvalidThreadId \<equiv> 0"

record config =
  kUseReadBarrier :: bool
  lock_profiling_threshold :: nat
  max_spins :: nat
  current_method :: "tid \<Rightarrow> nat \<times> nat"

record Monitor =
  num_waiters :: nat
  owner :: "tid option"
  lock_count :: int
  mon_obj :: "obj option"
  wait_set :: "tid list"
  hash_code :: u32
  locking_method :: nat
  locking_dex_pc :: nat

record vm =
  lock_words :: "obj \<Rightarrow> LockWord"
  monitors :: "mid \<Rightarrow> Monitor option"
  monitor_list :: "mid list"
  wait_monitor :: "tid \<Rightarrow> mid option"

datatype unlock_failure = UnownedMonitor | NowUnowned | OriginallyUnowned | OwnerChanged | OwnedByOther

datatype exn = IllegalMonitorState | IllegalUnlock unlock_failure | IllegalArgument

datatype thread_state = kTimedWaiting | kWaiting | kSleeping

section \<open>One monitor\<close>

definition Monitor_new :: "(tid \<Rightarrow> bool) \<Rightarrow> tid \<Rightarrow> tid option \<Rightarrow> obj \<Rightarrow> u32 \<Rightarrow> Monitor option" where
  "Monitor_new is_suspended self own ob hash =
     (if own = None \<or> own = Some self \<or> is_suspended (the own) then
        Some \<lparr>num_waiters = 0, owner = own, lock_count = 0, mon_obj = Some ob, wait_set = [],
          hash_code = hash, locking_method = 0, locking_dex_pc = 0\<rparr>
      else None)"

definition HasHashCode :: "Monitor \<Rightarrow> bool" where
  "HasHashCode m \<longleftrightarrow> hash_code m \<noteq> 0"

definition Monitor_GetHashCode :: "u32 \<Rightarrow> Monitor \<Rightarrow> u32 \<times> Monitor" where
  "Monitor_GetHashCode generated m =
     (if HasHashCode m then (hash_code m, m) else (generated, m\<lparr>hash_code := generated\<rparr>))"

definition AppendToWaitSet :: "tid \<Rightarrow> Monitor \<Rightarrow> Monitor" where
  "AppendToWaitSet thread m = m\<lparr>wait_set := wait_set m @ [thread]\<rparr>"

definition RemoveFromWaitSet :: "tid \<Rightarrow> Monitor \<Rightarrow> Monitor" where
  "RemoveFromWaitSet thread m = m\<lparr>wait_set := remove1 thread (wait_set m)\<rparr>"

definition TryLockLocked :: "config \<Rightarrow> tid \<Rightarrow> Monitor \<Rightarrow> (bool \<times> Monitor) option" where
  "TryLockLocked cfg self m =
     (if owner m = None then
        if lock_count m \<noteq> 0 then None
        else let m = m\<lparr>owner := Some self\<rparr> in
          Some (True,
            if lock_profiling_threshold cfg \<noteq> 0 then
              m\<lparr>locking_method := fst (current_method cfg self), locking_dex_pc := snd (current_method cfg self)\<rparr>
            else m)
      else if owner m = Some self then
        if lock_count m + 1 \<ge> 2 ^ 31 then None else Some (True, m\<lparr>lock_count := lock_count m + 1\<rparr>)
      else Some (False, m))"

definition TryLock :: "config \<Rightarrow> tid \<Rightarrow> Monitor \<Rightarrow> (bool \<times> Monitor) option" where
  "TryLock cfg self m = TryLockLocked cfg self m"

text \<open>\<open>Monitor::Lock\<close> in its critical sections: the attempt that ends in the lock or in a registered contender; the
  decision to wait for the contenders' condition; the end of one turn, which leads into the next attempt.\<close>

definition Lock_attempt :: "config \<Rightarrow> tid \<Rightarrow> Monitor \<Rightarrow> (bool \<times> Monitor) option" where
  "Lock_attempt cfg self m =
     (case TryLockLocked cfg self m of
        None \<Rightarrow> None
      | Some (True, m) \<Rightarrow> Some (True, m)
      | Some (False, m) \<Rightarrow> Some (False, m\<lparr>num_waiters := num_waiters m + 1\<rparr>))"

definition Lock_must_wait :: "Monitor \<Rightarrow> bool" where
  "Lock_must_wait m \<longleftrightarrow> owner m \<noteq> None"

definition Lock_again :: "config \<Rightarrow> tid \<Rightarrow> Monitor \<Rightarrow> (bool \<times> Monitor) option" where
  "Lock_again cfg self m = Lock_attempt cfg self (m\<lparr>num_waiters := num_waiters m - 1\<rparr>)"

definition FailedUnlock :: "tid \<Rightarrow> tid \<Rightarrow> unlock_failure" where
  "FailedUnlock found_owner_thread_id current_owner_thread_id =
     (if current_owner_thread_id = 0 then
        (if found_owner_thread_id = 0 then UnownedMonitor else NowUnowned)
      else if found_owner_thread_id = 0 then OriginallyUnowned
      else if found_owner_thread_id \<noteq> current_owner_thread_id then OwnerChanged
      else OwnedByOther)"

definition GetOwnerThreadId :: "Monitor \<Rightarrow> tid" where
  "GetOwnerThreadId m = (case owner m of Some t \<Rightarrow> t | None \<Rightarrow> kInvalidThreadId)"

definition IsLocked :: "Monitor \<Rightarrow> bool" where
  "IsLocked m \<longleftrightarrow> owner m \<noteq> None"

text \<open>\<open>Unlock\<close>: the failure carries the owner found; on success the flag says whether a contender is signalled.\<close>

definition Unlock :: "tid \<Rightarrow> Monitor \<Rightarrow> tid + (bool \<times> Monitor)" where
  "Unlock self m =
     (if owner m = Some self then
        if lock_count m = 0 then
          Inr (True, m\<lparr>owner := None, locking_method := 0, locking_dex_pc := 0\<rparr>)
        else Inr (False, m\<lparr>lock_count := lock_count m - 1\<rparr>)
      else Inl (GetOwnerThreadId m))"

text \<open>\<open>Wait\<close>: up to the release of \<open>monitor_lock_\<close>, with what is saved for later; and the section after the
  lock has been taken again.\<close>

record wait_frame =
  prev_lock_count :: int
  saved_method :: nat
  saved_dex_pc :: nat
  wait_why :: thread_state

definition Wait_begin :: "tid \<Rightarrow> int \<Rightarrow> int \<Rightarrow> thread_state \<Rightarrow> Monitor \<Rightarrow> exn + (wait_frame \<times> Monitor)" where
  "Wait_begin self ms ns why m =
     (if owner m \<noteq> Some self then Inl IllegalMonitorState
      else let why = (if why = kTimedWaiting \<and> ms = 0 \<and> ns = 0 then kWaiting else why) in
        if ms < 0 \<or> ns < 0 \<or> ns > 999999 then Inl IllegalArgument
        else let m = AppendToWaitSet self m;
                 m = m\<lparr>num_waiters := num_waiters m + 1\<rparr>;
                 frame = \<lparr>prev_lock_count = lock_count m, saved_method = locking_method m,
                   saved_dex_pc = locking_dex_pc m, wait_why = why\<rparr>
             in Inr (frame, m\<lparr>lock_count := 0, owner := None, locking_method := 0, locking_dex_pc := 0\<rparr>))"

definition Wait_end :: "tid \<Rightarrow> wait_frame \<Rightarrow> Monitor \<Rightarrow> Monitor" where
  "Wait_end self frame m =
     RemoveFromWaitSet self
       (m\<lparr>owner := Some self, lock_count := prev_lock_count frame, locking_method := saved_method frame,
          locking_dex_pc := saved_dex_pc frame, num_waiters := num_waiters m - 1\<rparr>)"

primrec Notify_loop :: "(tid \<Rightarrow> mid option) \<Rightarrow> tid list \<Rightarrow> tid option \<times> tid list" where
  "Notify_loop waiting [] = (None, [])"
| "Notify_loop waiting (t # ts) = (if waiting t \<noteq> None then (Some t, ts) else Notify_loop waiting ts)"

definition Notify :: "(tid \<Rightarrow> mid option) \<Rightarrow> tid \<Rightarrow> Monitor \<Rightarrow> exn + (tid list \<times> Monitor)" where
  "Notify waiting self m =
     (if owner m \<noteq> Some self then Inl IllegalMonitorState
      else case Notify_loop waiting (wait_set m) of (woken, rest) \<Rightarrow>
        Inr (case woken of None \<Rightarrow> [] | Some t \<Rightarrow> [t], m\<lparr>wait_set := rest\<rparr>))"

definition NotifyAll :: "(tid \<Rightarrow> mid option) \<Rightarrow> tid \<Rightarrow> Monitor \<Rightarrow> exn + (tid list \<times> Monitor)" where
  "NotifyAll waiting self m =
     (if owner m \<noteq> Some self then Inl IllegalMonitorState
      else Inr (filter (\<lambda>t. waiting t \<noteq> None) (wait_set m), m\<lparr>wait_set := []\<rparr>))"

section \<open>Inflation and deflation\<close>

definition MonitorList_Add :: "mid \<Rightarrow> mid list \<Rightarrow> mid list" where
  "MonitorList_Add i xs = i # xs"

definition Install ::
    "config \<Rightarrow> (tid \<Rightarrow> bool) \<Rightarrow> tid \<Rightarrow> bool \<Rightarrow> mid \<Rightarrow> Monitor \<Rightarrow> LockWord \<Rightarrow> (bool \<times> Monitor \<times> LockWord) option" where
  "Install cfg is_suspended self cas_ok i m lw =
     (let publish = (\<lambda>m.
        if cas_ok then
          Some (True,
            if owner m \<noteq> None \<and> lock_profiling_threshold cfg \<noteq> 0 then
              m\<lparr>locking_method := fst (current_method cfg (the (owner m))),
                locking_dex_pc := snd (current_method cfg (the (owner m)))\<rparr>
            else m, LockWord_fat i (GCState lw))
        else Some (False, m, lw))
      in
      if \<not> (owner m = None \<or> owner m = Some self \<or> is_suspended (the (owner m))) then None
      else case GetState (kUseReadBarrier cfg) lw of
        kThinLocked \<Rightarrow>
          (case owner m of None \<Rightarrow> None
           | Some t \<Rightarrow> if t \<noteq> ThinLockOwner lw then None
                      else publish (m\<lparr>lock_count := int (unat (ThinLockCount lw))\<rparr>))
      | kHashCode \<Rightarrow> if hash_code m \<noteq> LockWord_GetHashCode lw then None else publish m
      | kFatLocked \<Rightarrow> Some (False, m, lw)
      | kUnlocked \<Rightarrow> None
      | kForwardingAddress \<Rightarrow> None)"

definition Inflate ::
    "config \<Rightarrow> (tid \<Rightarrow> bool) \<Rightarrow> tid \<Rightarrow> tid option \<Rightarrow> obj \<Rightarrow> u32 \<Rightarrow> mid \<Rightarrow> bool \<Rightarrow> ('a vm_scheme) \<Rightarrow> ('a vm_scheme) option" where
  "Inflate cfg is_suspended self own ob hash i cas_ok s =
     (case Monitor_new is_suspended self own ob hash of
        None \<Rightarrow> None
      | Some m \<Rightarrow>
        (case Install cfg is_suspended self cas_ok i m (lock_words s ob) of
           None \<Rightarrow> None
         | Some (True, m, lw) \<Rightarrow>
             let s = s\<lparr>lock_words := (lock_words s)(ob := lw), monitors := (monitors s)(i \<mapsto> m),
                       monitor_list := MonitorList_Add i (monitor_list s)\<rparr>
             in if GetState (kUseReadBarrier cfg) (lock_words s ob) = kFatLocked then Some s else None
         | Some (False, m, lw) \<Rightarrow> Some s))"

definition InflateThinLocked ::
    "config \<Rightarrow> tid \<Rightarrow> obj \<Rightarrow> LockWord \<Rightarrow> u32 \<Rightarrow> bool \<Rightarrow> mid \<Rightarrow> bool \<Rightarrow> ('a vm_scheme) \<Rightarrow> ('a vm_scheme) option" where
  "InflateThinLocked cfg self ob lock_word hash owner_suspended i cas_ok s =
     (let owner_thread_id = ThinLockOwner lock_word in
      if owner_thread_id = self then Inflate cfg (\<lambda>t. False) self (Some self) ob hash i cas_ok s
      else if owner_suspended then
        let lock_word = lock_words s ob in
        if GetState (kUseReadBarrier cfg) lock_word = kThinLocked \<and> ThinLockOwner lock_word = owner_thread_id
        then Inflate cfg (\<lambda>t. t = owner_thread_id) self (Some owner_thread_id) ob hash i cas_ok s
        else Some s
      else Some s)"

definition Deflate :: "config \<Rightarrow> obj \<Rightarrow> ('a vm_scheme) \<Rightarrow> (bool \<times> ('a vm_scheme)) option" where
  "Deflate cfg ob s =
     (let lw = lock_words s ob in
      if GetState (kUseReadBarrier cfg) lw = kFatLocked then
        case monitors s (FatLockMonitor lw) of
          None \<Rightarrow> None
        | Some m \<Rightarrow>
          let finish = (\<lambda>new_lw. Some (True, s\<lparr>lock_words := (lock_words s)(ob := new_lw),
                monitors := (monitors s)(FatLockMonitor lw \<mapsto> m\<lparr>mon_obj := None\<rparr>)\<rparr>)) in
          if num_waiters m > 0 then Some (False, s)
          else case owner m of
            Some t \<Rightarrow>
              if HasHashCode m then Some (False, s)
              else if word_of_int (lock_count m) > kThinLockMaxCount then Some (False, s)
              else (case FromThinLockId t (word_of_int (lock_count m)) (GCState lw) of
                      None \<Rightarrow> None | Some new_lw \<Rightarrow> finish new_lw)
          | None \<Rightarrow>
              if HasHashCode m then
                (case FromHashCode (hash_code m) (GCState lw) of None \<Rightarrow> None | Some new_lw \<Rightarrow> finish new_lw)
              else finish (FromDefault (GCState lw))
      else Some (True, s))"

section \<open>The list of monitors\<close>

text \<open>The sweep asks the visitor for the new address of each monitor's object; a monitor without one is released.
  The visitor may change the state, and carries a counter.\<close>

fun SweepMonitorList ::
    "(obj \<Rightarrow> nat \<times> ('a vm_scheme) \<Rightarrow> (obj option \<times> nat \<times> ('a vm_scheme)) option)
       \<Rightarrow> mid list \<Rightarrow> nat \<times> ('a vm_scheme) \<Rightarrow> (mid list \<times> nat \<times> ('a vm_scheme)) option" where
  "SweepMonitorList visitor [] s = Some ([], s)"
| "SweepMonitorList visitor (i # is) s =
     (case monitors (snd s) i of
        None \<Rightarrow> None
      | Some m \<Rightarrow>
        (case (case mon_obj m of None \<Rightarrow> Some (None, s) | Some ob \<Rightarrow> visitor ob s) of
           None \<Rightarrow> None
         | Some (None, n, s) \<Rightarrow>
             SweepMonitorList visitor is (n, s\<lparr>monitors := (monitors s)(i := None)\<rparr>)
         | Some (Some new_obj, n, s) \<Rightarrow>
             (case monitors s i of
                None \<Rightarrow> None
              | Some m \<Rightarrow>
                (case SweepMonitorList visitor is (n, s\<lparr>monitors := (monitors s)(i \<mapsto> m\<lparr>mon_obj := Some new_obj\<rparr>)\<rparr>) of
                   None \<Rightarrow> None
                 | Some (is, s) \<Rightarrow> Some (i # is, s)))))"

definition MonitorDeflateVisitor_IsMarked ::
    "config \<Rightarrow> obj \<Rightarrow> nat \<times> ('a vm_scheme) \<Rightarrow> (obj option \<times> nat \<times> ('a vm_scheme)) option" where
  "MonitorDeflateVisitor_IsMarked cfg ob ns =
     (case Deflate cfg ob (snd ns) of
        None \<Rightarrow> None
      | Some (True, s) \<Rightarrow> Some (None, fst ns + 1, s)
      | Some (False, s) \<Rightarrow> Some (Some ob, fst ns, s))"

definition DeflateMonitors :: "config \<Rightarrow> ('a vm_scheme) \<Rightarrow> (nat \<times> ('a vm_scheme)) option" where
  "DeflateMonitors cfg s =
     (case SweepMonitorList (MonitorDeflateVisitor_IsMarked cfg) (monitor_list s) (0, s) of
        None \<Rightarrow> None
      | Some (is, n, s) \<Rightarrow> Some (n, s\<lparr>monitor_list := is\<rparr>))"

section \<open>Queries and notification\<close>

definition DoNotify ::
    "config \<Rightarrow> tid \<Rightarrow> obj \<Rightarrow> bool \<Rightarrow> ('a vm_scheme) \<Rightarrow> (exn + (tid list \<times> ('a vm_scheme))) option" where
  "DoNotify cfg self ob notify_all s =
     (let lock_word = lock_words s ob in
      case GetState (kUseReadBarrier cfg) lock_word of
        kHashCode \<Rightarrow> Some (Inl IllegalMonitorState)
      | kUnlocked \<Rightarrow> Some (Inl IllegalMonitorState)
      | kThinLocked \<Rightarrow>
          if ThinLockOwner lock_word \<noteq> self then Some (Inl IllegalMonitorState) else Some (Inr ([], s))
      | kFatLocked \<Rightarrow>
          (case monitors s (FatLockMonitor lock_word) of
             None \<Rightarrow> None
           | Some m \<Rightarrow>
             Some (case (if notify_all then NotifyAll else Notify) (wait_monitor s) self m of
                     Inl e \<Rightarrow> Inl e
                   | Inr (woken, m) \<Rightarrow> Inr (woken, s\<lparr>monitors := (monitors s)(FatLockMonitor lock_word \<mapsto> m)\<rparr>)))
      | kForwardingAddress \<Rightarrow> None)"

definition GetLockOwnerThreadId :: "config \<Rightarrow> obj \<Rightarrow> ('a vm_scheme) \<Rightarrow> tid option" where
  "GetLockOwnerThreadId cfg ob s =
     (let lock_word = lock_words s ob in
      case GetState (kUseReadBarrier cfg) lock_word of
        kHashCode \<Rightarrow> Some kInvalidThreadId
      | kUnlocked \<Rightarrow> Some kInvalidThreadId
      | kThinLocked \<Rightarrow> Some (ThinLockOwner lock_word)
      | kFatLocked \<Rightarrow> map_option GetOwnerThreadId (monitors s (FatLockMonitor lock_word))
      | kForwardingAddress \<Rightarrow> None)"

definition IsValidLockWord :: "config \<Rightarrow> LockWord \<Rightarrow> mid list \<Rightarrow> bool option" where
  "IsValidLockWord cfg lock_word xs =
     (case GetState (kUseReadBarrier cfg) lock_word of
        kUnlocked \<Rightarrow> Some True
      | kThinLocked \<Rightarrow> Some (ThinLockOwner lock_word \<noteq> kInvalidThreadId)
      | kFatLocked \<Rightarrow> Some (FatLockMonitor lock_word \<in> set xs)
      | kHashCode \<Rightarrow> Some True
      | kForwardingAddress \<Rightarrow> None)"

record MonitorInfo =
  info_owner :: "tid option"
  entry_count :: int
  waiters :: "tid list"

definition MonitorInfo_new :: "config \<Rightarrow> obj \<Rightarrow> ('a vm_scheme) \<Rightarrow> MonitorInfo option" where
  "MonitorInfo_new cfg ob s =
     (let lock_word = lock_words s ob; empty = \<lparr>info_owner = None, entry_count = 0, waiters = []\<rparr> in
      case GetState (kUseReadBarrier cfg) lock_word of
        kUnlocked \<Rightarrow> Some empty
      | kForwardingAddress \<Rightarrow> Some empty
      | kHashCode \<Rightarrow> Some empty
      | kThinLocked \<Rightarrow>
          Some (empty\<lparr>info_owner := Some (ThinLockOwner lock_word),
            entry_count := 1 + int (unat (ThinLockCount lock_word))\<rparr>)
      | kFatLocked \<Rightarrow>
          (case monitors s (FatLockMonitor lock_word) of
             None \<Rightarrow> None
           | Some m \<Rightarrow> Some \<lparr>info_owner = owner m, entry_count = 1 + lock_count m, waiters = wait_set m\<rparr>))"

section \<open>Threads in the monitor code\<close>

text \<open>Where a thread stands.  A turn of the loops of \<open>MonitorEnter\<close> and \<open>MonitorExit\<close> first reads the lock word
  (\<open>EnterHave\<close>, \<open>ExitHave\<close> carry the word read) and then acts on it; between the two there is no suspension
  point.  A contender of \<open>Lock\<close> is about to wait, waits on the condition, or has been woken.  A thread in \<open>Wait\<close>
  waits, has been woken, has reset its \<open>wait_monitor_\<close>, and holds the lock again.  \<open>held\<close> is a ghost: how many
  times a thread has entered an object's monitor without having left it.\<close>

datatype lock_cont = InEnter | InWait wait_frame

datatype pc =
    Idle
  | EnterLoop obj bool nat
  | EnterHave obj bool nat LockWord
  | EnterInflate obj bool nat LockWord
  | LockPre obj mid lock_cont
  | LockCv obj mid lock_cont
  | LockWoken obj mid lock_cont
  | WaitLoop obj int int thread_state
  | WaitCv obj mid wait_frame
  | WaitWoken obj mid wait_frame
  | WaitReset obj mid wait_frame
  | WaitRelocked obj mid wait_frame
  | ExitLoop obj
  | ExitHave obj LockWord

record world = vm +
  pcs :: "tid \<Rightarrow> pc"
  held :: "tid \<Rightarrow> obj \<Rightarrow> nat"

definition suspendable :: "pc \<Rightarrow> bool" where
  "suspendable p = (case p of EnterHave _ _ _ _ \<Rightarrow> False | ExitHave _ _ \<Rightarrow> False | _ \<Rightarrow> True)"

definition set_pc :: "tid \<Rightarrow> pc \<Rightarrow> world \<Rightarrow> world" where
  "set_pc t p w = w\<lparr>pcs := (pcs w)(t := p)\<rparr>"

definition set_held :: "tid \<Rightarrow> obj \<Rightarrow> nat \<Rightarrow> world \<Rightarrow> world" where
  "set_held t ob n w = w\<lparr>held := (held w)(t := (held w t)(ob := n))\<rparr>"

definition set_lock_word :: "obj \<Rightarrow> LockWord \<Rightarrow> world \<Rightarrow> world" where
  "set_lock_word ob lw w = w\<lparr>lock_words := (lock_words w)(ob := lw)\<rparr>"

definition set_monitor :: "mid \<Rightarrow> Monitor \<Rightarrow> world \<Rightarrow> world" where
  "set_monitor i m w = w\<lparr>monitors := (monitors w)(i \<mapsto> m)\<rparr>"

definition entered :: "tid \<Rightarrow> obj \<Rightarrow> world \<Rightarrow> world" where
  "entered t ob w = set_pc t Idle (set_held t ob (held w t ob + 1) w)"

definition exited :: "tid \<Rightarrow> obj \<Rightarrow> world \<Rightarrow> world" where
  "exited t ob w = set_pc t Idle (set_held t ob (held w t ob - 1) w)"

text \<open>One turn of \<open>MonitorEnter\<close> on the lock word \<open>lw\<close> it has read.\<close>

definition MonitorEnter_turn ::
    "config \<Rightarrow> tid \<Rightarrow> obj \<Rightarrow> bool \<Rightarrow> nat \<Rightarrow> LockWord \<Rightarrow> bool \<Rightarrow> mid \<Rightarrow> world \<Rightarrow> world option" where
  "MonitorEnter_turn cfg self ob trylock contention_count lw cas_ok i w =
     (let again = set_pc self (EnterLoop ob trylock contention_count) w in
      case GetState (kUseReadBarrier cfg) lw of
        kUnlocked \<Rightarrow>
          (case FromThinLockId self 0 (GCState lw) of
             None \<Rightarrow> None
           | Some thin_locked \<Rightarrow>
               if cas_ok \<and> lock_words w ob = lw
               then Some (entered self ob (set_lock_word ob thin_locked w)) else Some again)
      | kThinLocked \<Rightarrow>
          if ThinLockOwner lw = self then
            let new_count = ThinLockCount lw + 1 in
            if new_count \<le> kThinLockMaxCount then
              (case FromThinLockId self new_count (GCState lw) of
                 None \<Rightarrow> None
               | Some thin_locked \<Rightarrow>
                   if \<not> kUseReadBarrier cfg then Some (entered self ob (set_lock_word ob thin_locked w))
                   else if cas_ok \<and> lock_words w ob = lw
                   then Some (entered self ob (set_lock_word ob thin_locked w)) else Some again)
            else map_option (set_pc self (EnterLoop ob trylock contention_count))
                   (InflateThinLocked cfg self ob lw 0 False i cas_ok w)
          else if trylock then Some (set_pc self Idle w)
          else if contention_count + 1 \<le> max_spins cfg
          then Some (set_pc self (EnterLoop ob trylock (contention_count + 1)) w)
          else Some (set_pc self (EnterInflate ob trylock 0 lw) w)
      | kFatLocked \<Rightarrow>
          (case monitors w (FatLockMonitor lw) of
             None \<Rightarrow> None
           | Some m \<Rightarrow>
             if trylock then
               (case TryLock cfg self m of
                  None \<Rightarrow> None
                | Some (ok, m) \<Rightarrow>
                    let w = set_monitor (FatLockMonitor lw) m w
                    in Some (if ok then entered self ob w else set_pc self Idle w))
             else
               (case Lock_attempt cfg self m of
                  None \<Rightarrow> None
                | Some (ok, m) \<Rightarrow>
                    let w = set_monitor (FatLockMonitor lw) m w
                    in Some (if ok then entered self ob w
                             else set_pc self (LockPre ob (FatLockMonitor lw) InEnter) w)))
      | kHashCode \<Rightarrow>
          map_option (set_pc self (EnterLoop ob trylock contention_count))
            (Inflate cfg (\<lambda>t. False) self None ob (LockWord_GetHashCode lw) i cas_ok w)
      | kForwardingAddress \<Rightarrow> None)"

definition signal_contender :: "tid option \<Rightarrow> mid \<Rightarrow> world \<Rightarrow> world" where
  "signal_contender c i w =
     (case c of None \<Rightarrow> w
      | Some u \<Rightarrow> (case pcs w u of
          LockCv ob j k \<Rightarrow> if j = i then set_pc u (LockWoken ob i k) w else w
        | _ \<Rightarrow> w))"

text \<open>One turn of \<open>MonitorExit\<close>, with the contender a signal would wake.\<close>

definition MonitorExit_turn ::
    "config \<Rightarrow> tid \<Rightarrow> obj \<Rightarrow> LockWord \<Rightarrow> bool \<Rightarrow> tid option \<Rightarrow> world \<Rightarrow> (exn option \<times> world) option" where
  "MonitorExit_turn cfg self ob lw cas_ok c w =
     (case GetState (kUseReadBarrier cfg) lw of
        kHashCode \<Rightarrow> Some (Some (IllegalUnlock (FailedUnlock 0 0)), set_pc self Idle w)
      | kUnlocked \<Rightarrow> Some (Some (IllegalUnlock (FailedUnlock 0 0)), set_pc self Idle w)
      | kThinLocked \<Rightarrow>
          if ThinLockOwner lw \<noteq> self
          then Some (Some (IllegalUnlock (FailedUnlock (ThinLockOwner lw) 0)), set_pc self Idle w)
          else
            (case (if ThinLockCount lw \<noteq> 0 then FromThinLockId self (ThinLockCount lw - 1) (GCState lw)
                   else Some (FromDefault (GCState lw))) of
               None \<Rightarrow> None
             | Some new_lw \<Rightarrow>
                 if \<not> kUseReadBarrier cfg then Some (None, exited self ob (set_lock_word ob new_lw w))
                 else if cas_ok \<and> lock_words w ob = lw
                 then Some (None, exited self ob (set_lock_word ob new_lw w))
                 else Some (None, set_pc self (ExitLoop ob) w))
      | kFatLocked \<Rightarrow>
          (case monitors w (FatLockMonitor lw) of
             None \<Rightarrow> None
           | Some m \<Rightarrow>
             (case Unlock self m of
                Inr (signal, m) \<Rightarrow>
                  let w = exited self ob (set_monitor (FatLockMonitor lw) m w)
                  in Some (None, if signal then signal_contender c (FatLockMonitor lw) w else w)
              | Inl found \<Rightarrow> Some (Some (IllegalUnlock (FailedUnlock found (GetOwnerThreadId m))), set_pc self Idle w)))
      | kForwardingAddress \<Rightarrow> None)"

text \<open>One turn of \<open>Monitor::Wait\<close> on an object: up to the wait itself when the lock is fat.\<close>

definition Wait_turn ::
    "config \<Rightarrow> tid \<Rightarrow> obj \<Rightarrow> int \<Rightarrow> int \<Rightarrow> thread_state \<Rightarrow> bool \<Rightarrow> mid \<Rightarrow> tid option \<Rightarrow> world \<Rightarrow> (exn option \<times> world) option" where
  "Wait_turn cfg self ob ms ns why cas_ok i c w =
     (let lw = lock_words w ob in
      case GetState (kUseReadBarrier cfg) lw of
        kHashCode \<Rightarrow> Some (Some IllegalMonitorState, set_pc self Idle w)
      | kUnlocked \<Rightarrow> Some (Some IllegalMonitorState, set_pc self Idle w)
      | kThinLocked \<Rightarrow>
          if ThinLockOwner lw \<noteq> self then Some (Some IllegalMonitorState, set_pc self Idle w)
          else map_option (Pair None) (Inflate cfg (\<lambda>t. False) self (Some self) ob 0 i cas_ok w)
      | kFatLocked \<Rightarrow>
          (case monitors w (FatLockMonitor lw) of
             None \<Rightarrow> None
           | Some m \<Rightarrow>
             (case Wait_begin self ms ns why m of
                Inl e \<Rightarrow> Some (Some e, set_pc self Idle w)
              | Inr (frame, m) \<Rightarrow>
                  let w = set_monitor (FatLockMonitor lw) m w;
                      w = w\<lparr>wait_monitor := (wait_monitor w)(self \<mapsto> FatLockMonitor lw)\<rparr>;
                      w = set_held self ob 0 (set_pc self (WaitCv ob (FatLockMonitor lw) frame) w)
                  in Some (None, signal_contender c (FatLockMonitor lw) w)))
      | kForwardingAddress \<Rightarrow> None)"

section \<open>Interleaved execution\<close>

definition valid_tid :: "tid \<Rightarrow> bool" where
  "valid_tid t \<longleftrightarrow> t \<noteq> kInvalidThreadId \<and> t \<le> kThinLockMaxOwner"

definition fresh_monitor :: "mid \<Rightarrow> world \<Rightarrow> bool" where
  "fresh_monitor i w \<longleftrightarrow> monitors w i = None \<and> i \<le> kMaxMonitorId"

text \<open>A signal wakes one of the contenders that wait on the condition, if there is one.\<close>

definition contender_choice :: "tid option \<Rightarrow> mid \<Rightarrow> world \<Rightarrow> bool" where
  "contender_choice c i w \<longleftrightarrow>
     (case c of None \<Rightarrow> \<forall>u ob k. pcs w u \<noteq> LockCv ob i k | Some u \<Rightarrow> \<exists>ob k. pcs w u = LockCv ob i k)"

definition lock_done :: "tid \<Rightarrow> obj \<Rightarrow> mid \<Rightarrow> lock_cont \<Rightarrow> world \<Rightarrow> world" where
  "lock_done t ob i k w =
     (case k of InEnter \<Rightarrow> entered t ob w
      | InWait f \<Rightarrow> set_pc t (WaitRelocked ob i f) (set_held t ob (held w t ob + 1) w))"

definition lock_result :: "tid \<Rightarrow> obj \<Rightarrow> mid \<Rightarrow> lock_cont \<Rightarrow> bool \<times> Monitor \<Rightarrow> world \<Rightarrow> world" where
  "lock_result t ob i k r w =
     (if fst r then lock_done t ob i k (set_monitor i (snd r) w)
      else set_pc t (LockPre ob i k) (set_monitor i (snd r) w))"

definition wake_waiter :: "tid \<Rightarrow> world \<Rightarrow> world" where
  "wake_waiter u w = (case pcs w u of WaitCv ob i f \<Rightarrow> set_pc u (WaitWoken ob i f) w | _ \<Rightarrow> w)"

text \<open>One step of one thread, of the collector or of \<open>Object::IdentityHashCode\<close>, which stores a new hash code in an unlocked word, in
  the monitor, or, for a thin lock, in the monitor that it inflates the lock to.  The word that it has read may be old unless the
  thread holds the lock itself.\<close>

inductive mstep :: "config \<Rightarrow> world \<Rightarrow> world \<Rightarrow> bool" for cfg :: config where
  call_enter: "valid_tid t \<Longrightarrow> pcs w t = Idle \<Longrightarrow> mstep cfg w (set_pc t (EnterLoop ob trylock 0) w)"
| enter_read: "pcs w t = EnterLoop ob trylock n \<Longrightarrow>
    mstep cfg w (set_pc t (EnterHave ob trylock n (lock_words w ob)) w)"
| enter_turn: "pcs w t = EnterHave ob trylock n lw \<Longrightarrow> fresh_monitor i w \<Longrightarrow>
    MonitorEnter_turn cfg t ob trylock n lw cas_ok i w = Some w' \<Longrightarrow> mstep cfg w w'"
| enter_inflate: "pcs w t = EnterInflate ob trylock n lw \<Longrightarrow> fresh_monitor i w \<Longrightarrow>
    (owner_suspended \<longrightarrow> suspendable (pcs w (ThinLockOwner lw))) \<Longrightarrow>
    InflateThinLocked cfg t ob lw 0 owner_suspended i cas_ok w = Some w' \<Longrightarrow>
    mstep cfg w (set_pc t (EnterLoop ob trylock n) w')"
| lock_pre: "pcs w t = LockPre ob i k \<Longrightarrow> monitors w i = Some m \<Longrightarrow>
    mstep cfg w (set_pc t (if Lock_must_wait m then LockCv ob i k else LockWoken ob i k) w)"
| lock_spurious: "pcs w t = LockCv ob i k \<Longrightarrow> mstep cfg w (set_pc t (LockWoken ob i k) w)"
| lock_again: "pcs w t = LockWoken ob i k \<Longrightarrow> monitors w i = Some m \<Longrightarrow>
    Lock_again cfg t m = Some r \<Longrightarrow> mstep cfg w (lock_result t ob i k r w)"
| call_exit: "valid_tid t \<Longrightarrow> pcs w t = Idle \<Longrightarrow> mstep cfg w (set_pc t (ExitLoop ob) w)"
| exit_read: "pcs w t = ExitLoop ob \<Longrightarrow> mstep cfg w (set_pc t (ExitHave ob (lock_words w ob)) w)"
| exit_turn: "pcs w t = ExitHave ob lw \<Longrightarrow> contender_choice c (FatLockMonitor lw) w \<Longrightarrow>
    MonitorExit_turn cfg t ob lw cas_ok c w = Some (e, w') \<Longrightarrow> mstep cfg w w'"
| call_wait: "valid_tid t \<Longrightarrow> pcs w t = Idle \<Longrightarrow> mstep cfg w (set_pc t (WaitLoop ob ms ns why) w)"
| wait_turn: "pcs w t = WaitLoop ob ms ns why \<Longrightarrow> fresh_monitor i w \<Longrightarrow>
    contender_choice c (FatLockMonitor (lock_words w ob)) w \<Longrightarrow>
    Wait_turn cfg t ob ms ns why cas_ok i c w = Some (e, w') \<Longrightarrow> mstep cfg w w'"
| wait_wake: "pcs w t = WaitCv ob i f \<Longrightarrow> mstep cfg w (set_pc t (WaitWoken ob i f) w)"
| wait_reset: "pcs w t = WaitWoken ob i f \<Longrightarrow>
    mstep cfg w (set_pc t (WaitReset ob i f) (w\<lparr>wait_monitor := (wait_monitor w)(t := None)\<rparr>))"
| wait_relock: "pcs w t = WaitReset ob i f \<Longrightarrow> monitors w i = Some m \<Longrightarrow>
    Lock_attempt cfg t m = Some r \<Longrightarrow> mstep cfg w (lock_result t ob i (InWait f) r w)"
| wait_end: "pcs w t = WaitRelocked ob i f \<Longrightarrow> monitors w i = Some m \<Longrightarrow>
    mstep cfg w (set_pc t Idle (set_held t ob (nat (prev_lock_count f) + 1) (set_monitor i (Wait_end t f m) w)))"
| notify: "valid_tid t \<Longrightarrow> pcs w t = Idle \<Longrightarrow> DoNotify cfg t ob all w = Some (Inr (woken, w')) \<Longrightarrow>
    mstep cfg w (fold wake_waiter woken w')"
| gc_bits: "kUseReadBarrier cfg \<Longrightarrow> GetValueWithoutGCState lw = GetValueWithoutGCState (lock_words w ob) \<Longrightarrow>
    mstep cfg w (set_lock_word ob lw w)"
| identity_hash: "GetState (kUseReadBarrier cfg) (lock_words w ob) = kUnlocked \<Longrightarrow> h \<noteq> 0 \<Longrightarrow>
    FromHashCode h (GCState (lock_words w ob)) = Some lw \<Longrightarrow> mstep cfg w (set_lock_word ob lw w)"
| identity_hash_thin: "pcs w t = Idle \<Longrightarrow> valid_tid t \<Longrightarrow> fresh_monitor i w \<Longrightarrow>
    GetState (kUseReadBarrier cfg) lw = kThinLocked \<Longrightarrow> (ThinLockOwner lw = t \<longrightarrow> lw = lock_words w ob) \<Longrightarrow>
    (owner_suspended \<longrightarrow> suspendable (pcs w (ThinLockOwner lw))) \<Longrightarrow> h \<noteq> 0 \<Longrightarrow> h \<le> kMaxHash \<Longrightarrow>
    InflateThinLocked cfg t ob lw h owner_suspended i cas_ok w = Some w' \<Longrightarrow> mstep cfg w w'"
| monitor_hash: "monitors w i = Some m \<Longrightarrow> h \<noteq> 0 \<Longrightarrow> h \<le> kMaxHash \<Longrightarrow>
    mstep cfg w (set_monitor i (snd (Monitor_GetHashCode h m)) w)"
| deflate: "(\<And>u. suspendable (pcs w u)) \<Longrightarrow> Deflate cfg ob w = Some (b, w') \<Longrightarrow> mstep cfg w w'"
| release: "monitors w i = Some m \<Longrightarrow> mon_obj m = None \<Longrightarrow>
    mstep cfg w (w\<lparr>monitors := (monitors w)(i := None), monitor_list := removeAll i (monitor_list w)\<rparr>)"

definition world_init :: "world \<Rightarrow> bool" where
  "world_init w \<longleftrightarrow> (\<forall>ob. lock_words w ob = LockWord_default) \<and> (\<forall>i. monitors w i = None)
     \<and> (\<forall>t. pcs w t = Idle) \<and> (\<forall>t ob. held w t ob = 0)"

inductive reachable :: "config \<Rightarrow> world \<Rightarrow> bool" for cfg :: config where
  init: "world_init w \<Longrightarrow> reachable cfg w"
| step: "reachable cfg w \<Longrightarrow> mstep cfg w w' \<Longrightarrow> reachable cfg w'"

section \<open>The invariant\<close>

text \<open>Who holds an object's monitor, and how many times beyond the first.\<close>

definition holder :: "config \<Rightarrow> ('a vm_scheme) \<Rightarrow> obj \<Rightarrow> (tid \<times> nat) option" where
  "holder cfg w ob =
     (case GetState (kUseReadBarrier cfg) (lock_words w ob) of
        kThinLocked \<Rightarrow> Some (ThinLockOwner (lock_words w ob), unat (ThinLockCount (lock_words w ob)))
      | kFatLocked \<Rightarrow>
          (case monitors w (FatLockMonitor (lock_words w ob)) of
             Some m \<Rightarrow> map_option (\<lambda>t. (t, nat (lock_count m))) (owner m) | None \<Rightarrow> None)
      | _ \<Rightarrow> None)"

definition hold_count :: "(tid \<times> nat) option \<Rightarrow> tid \<Rightarrow> nat" where
  "hold_count h t = (case h of Some (u, n) \<Rightarrow> if u = t then n + 1 else 0 | None \<Rightarrow> 0)"

definition has_monitor :: "('a vm_scheme) \<Rightarrow> mid \<Rightarrow> obj \<Rightarrow> bool" where
  "has_monitor w i ob \<longleftrightarrow> (\<exists>m. monitors w i = Some m \<and> mon_obj m = Some ob)"

definition word_wf :: "config \<Rightarrow> LockWord \<Rightarrow> bool" where
  "word_wf cfg lw \<longleftrightarrow> GetState (kUseReadBarrier cfg) lw \<noteq> kForwardingAddress
     \<and> (\<not> kUseReadBarrier cfg \<longrightarrow> GCState lw = 0)
     \<and> (GetState (kUseReadBarrier cfg) lw = kThinLocked \<longrightarrow> valid_tid (ThinLockOwner lw))"

definition word_ok :: "config \<Rightarrow> world \<Rightarrow> obj \<Rightarrow> bool" where
  "word_ok cfg w ob \<longleftrightarrow> word_wf cfg (lock_words w ob)
     \<and> (GetState (kUseReadBarrier cfg) (lock_words w ob) = kFatLocked \<longrightarrow>
          has_monitor w (FatLockMonitor (lock_words w ob)) ob)"

text \<open>How often a thread is counted among a monitor's waiters.\<close>

fun waits :: "pc \<Rightarrow> mid \<Rightarrow> nat" where
  "waits (LockPre ob j k) i = (if i = j then (case k of InEnter \<Rightarrow> 1 | InWait _ \<Rightarrow> 2) else 0)"
| "waits (LockCv ob j k) i = (if i = j then (case k of InEnter \<Rightarrow> 1 | InWait _ \<Rightarrow> 2) else 0)"
| "waits (LockWoken ob j k) i = (if i = j then (case k of InEnter \<Rightarrow> 1 | InWait _ \<Rightarrow> 2) else 0)"
| "waits (WaitCv ob j f) i = (if i = j then 1 else 0)"
| "waits (WaitWoken ob j f) i = (if i = j then 1 else 0)"
| "waits (WaitReset ob j f) i = (if i = j then 1 else 0)"
| "waits (WaitRelocked ob j f) i = (if i = j then 1 else 0)"
| "waits _ i = 0"

definition count_ok :: "int \<Rightarrow> bool" where
  "count_ok n \<longleftrightarrow> 0 \<le> n \<and> n < 2 ^ 31"

definition mon_ok :: "config \<Rightarrow> world \<Rightarrow> mid \<Rightarrow> Monitor \<Rightarrow> bool" where
  "mon_ok cfg w i m \<longleftrightarrow> i \<le> kMaxMonitorId \<and> count_ok (lock_count m) \<and> (owner m = None \<longrightarrow> lock_count m = 0)
     \<and> (\<forall>t. owner m = Some t \<longrightarrow> valid_tid t) \<and> hash_code m \<le> kMaxHash
     \<and> (\<forall>ob. mon_obj m = Some ob \<longrightarrow> GetState (kUseReadBarrier cfg) (lock_words w ob) = kFatLocked
          \<and> FatLockMonitor (lock_words w ob) = i)
     \<and> num_waiters m = (\<Sum>t\<in>UNIV. waits (pcs w t) i)"

definition read_ok :: "config \<Rightarrow> world \<Rightarrow> tid \<Rightarrow> obj \<Rightarrow> LockWord \<Rightarrow> bool" where
  "read_ok cfg w t ob lw \<longleftrightarrow> word_wf cfg lw \<and> valid_tid t
     \<and> (GetState (kUseReadBarrier cfg) lw = kFatLocked \<longrightarrow> has_monitor w (FatLockMonitor lw) ob)
     \<and> (GetState (kUseReadBarrier cfg) lw = kThinLocked \<and> ThinLockOwner lw = t \<longrightarrow>
          GetValueWithoutGCState (lock_words w ob) = GetValueWithoutGCState lw)
     \<and> (GetState (kUseReadBarrier cfg) lw = kHashCode \<longrightarrow>
          GetValueWithoutGCState (lock_words w ob) = GetValueWithoutGCState lw
          \<or> GetState (kUseReadBarrier cfg) (lock_words w ob) = kFatLocked)"

fun pc_ok :: "config \<Rightarrow> world \<Rightarrow> tid \<Rightarrow> pc \<Rightarrow> bool" where
  "pc_ok cfg w t Idle = True"
| "pc_ok cfg w t (EnterLoop ob b n) = valid_tid t"
| "pc_ok cfg w t (EnterHave ob b n lw) = read_ok cfg w t ob lw"
| "pc_ok cfg w t (EnterInflate ob b n lw) = (valid_tid t \<and> ThinLockOwner lw \<noteq> t)"
| "pc_ok cfg w t (LockPre ob i k) = (valid_tid t \<and> has_monitor w i ob \<and> (case k of InEnter \<Rightarrow> True | InWait f \<Rightarrow> count_ok (prev_lock_count f)))"
| "pc_ok cfg w t (LockCv ob i k) = (valid_tid t \<and> has_monitor w i ob \<and> (case k of InEnter \<Rightarrow> True | InWait f \<Rightarrow> count_ok (prev_lock_count f)))"
| "pc_ok cfg w t (LockWoken ob i k) = (valid_tid t \<and> has_monitor w i ob \<and> (case k of InEnter \<Rightarrow> True | InWait f \<Rightarrow> count_ok (prev_lock_count f)))"
| "pc_ok cfg w t (WaitLoop ob ms ns why) = valid_tid t"
| "pc_ok cfg w t (WaitCv ob i f) = (valid_tid t \<and> has_monitor w i ob \<and> count_ok (prev_lock_count f))"
| "pc_ok cfg w t (WaitWoken ob i f) = (valid_tid t \<and> has_monitor w i ob \<and> count_ok (prev_lock_count f))"
| "pc_ok cfg w t (WaitReset ob i f) = (valid_tid t \<and> has_monitor w i ob \<and> count_ok (prev_lock_count f))"
| "pc_ok cfg w t (WaitRelocked ob i f) =
     (valid_tid t \<and> count_ok (prev_lock_count f) \<and> (\<exists>m. monitors w i = Some m \<and> mon_obj m = Some ob \<and> owner m = Some t))"
| "pc_ok cfg w t (ExitLoop ob) = valid_tid t"
| "pc_ok cfg w t (ExitHave ob lw) = read_ok cfg w t ob lw"

definition INV :: "config \<Rightarrow> world \<Rightarrow> bool" where
  "INV cfg w \<longleftrightarrow> (\<forall>ob. word_ok cfg w ob) \<and> (\<forall>i m. monitors w i = Some m \<longrightarrow> mon_ok cfg w i m)
     \<and> (\<forall>t. pc_ok cfg w t (pcs w t)) \<and> (\<forall>t ob. held w t ob = hold_count (holder cfg w ob) t)"

end
