(* ===== verification/Monitor_Invariant.thy ===== *)
theory Monitor_Invariant
  imports Monitors
begin

text \<open>
  What holds of every interleaving of the monitor operations.  The invariant \<open>INV\<close> ties the lock words, the
  inflated monitors, the positions of the threads and the ghost hold counts together; it is shown once for each
  shape of step (one monitor changes, one lock word changes, a word becomes fat, a word stops being fat, a thread
  moves) and then for each rule of \<open>mstep\<close>.  From it follow mutual exclusion, the absence of aborts, and that a
  monitor with contenders asleep is owned or has a contender awake.
\<close>

section \<open>What the invariant depends on\<close>

named_theorems world_simps

lemmas [world_simps] = set_pc_def set_held_def set_lock_word_def set_monitor_def entered_def exited_def lock_done_def

lemma world_fields [simp]:
  "lock_words (set_pc t p w) = lock_words w" "monitors (set_pc t p w) = monitors w" "held (set_pc t p w) = held w"
  "pcs (set_pc t p w) = (pcs w)(t := p)" "wait_monitor (set_pc t p w) = wait_monitor w"
  "lock_words (set_held t ob n w) = lock_words w" "monitors (set_held t ob n w) = monitors w"
  "pcs (set_held t ob n w) = pcs w" "held (set_held t ob n w) = (held w)(t := (held w t)(ob := n))"
  "lock_words (set_lock_word ob lw w) = (lock_words w)(ob := lw)" "monitors (set_lock_word ob lw w) = monitors w"
  "pcs (set_lock_word ob lw w) = pcs w" "held (set_lock_word ob lw w) = held w"
  "lock_words (set_monitor i m w) = lock_words w" "monitors (set_monitor i m w) = (monitors w)(i \<mapsto> m)"
  "pcs (set_monitor i m w) = pcs w" "held (set_monitor i m w) = held w"
  by (simp_all add: world_simps)

lemma has_monitor_cong: "monitors w' = monitors w \<Longrightarrow> has_monitor w' i ob = has_monitor w i ob"
  by (simp add: has_monitor_def)

lemma pc_ok_cong:
  assumes "lock_words w' = lock_words w" "monitors w' = monitors w"
  shows "pc_ok cfg w' t p = pc_ok cfg w t p"
  using assms by (cases p) (simp_all add: read_ok_def has_monitor_def)

lemma holder_cong:
  assumes "lock_words w' = lock_words w" "monitors w' = monitors w"
  shows "holder cfg w' ob = holder cfg w ob"
  by (simp only: holder_def assms)

lemma waits_sum_upd:
  "(\<Sum>u\<in>UNIV. waits ((f(t := p)) u) i) + waits (f t) i = (\<Sum>u\<in>UNIV. waits (f (u::tid)) i) + waits p i"
proof -
  have fin: "finite (UNIV :: tid set)" by simp
  have "(\<Sum>u\<in>UNIV. waits ((f(t := p)) u) i) = waits p i + (\<Sum>u\<in>UNIV - {t}. waits (f u) i)"
    using sum.remove[OF fin, of t "\<lambda>u. waits ((f(t := p)) u) i"] by simp
  moreover have "(\<Sum>u\<in>UNIV. waits (f u) i) = waits (f t) i + (\<Sum>u\<in>UNIV - {t}. waits (f u) i)"
    using sum.remove[OF fin, of t "\<lambda>u. waits (f u) i"] by simp
  ultimately show ?thesis by simp
qed

lemma waits_le_sum: "waits (f t) i \<le> (\<Sum>u\<in>UNIV. waits (f (u::tid)) i)"
  by (rule member_le_sum) auto

lemma waits_has_monitor: "pc_ok cfg w t p \<Longrightarrow> 0 < waits p i \<Longrightarrow> \<exists>ob. has_monitor w i ob"
  by (cases p) (auto simp: has_monitor_def split: if_splits)

lemma word_wf_eq:
  assumes "word_wf cfg v" "word_wf cfg u" "GetValueWithoutGCState v = GetValueWithoutGCState u" "\<not> kUseReadBarrier cfg"
  shows "v = u"
proof (rule bit_eqI)
  fix n
  have g: "GCState v = 0" "GCState u = 0" using assms by (auto simp: word_wf_def)
  have z: "\<not> bit x 28 \<and> \<not> bit x 29" if "GCState x = 0" for x
  proof -
    have "bit (GCState x) 0 = bit x 28" "bit (GCState x) 1 = bit x 29"
      by (simp_all add: GCState_take_bit bit_simps)
    with that show ?thesis by simp
  qed
  show "bit v n = bit u n"
    using without_gc_bits[OF assms(3), of n] z[OF g(1)] z[OF g(2)] by (cases "n = 28 \<or> n = 29") auto
qed

lemma same_word_fields:
  assumes "word_wf cfg v" "word_wf cfg u" "GetValueWithoutGCState v = GetValueWithoutGCState u"
  shows "GetState (kUseReadBarrier cfg) v = GetState (kUseReadBarrier cfg) u" "ThinLockOwner v = ThinLockOwner u"
    "ThinLockCount v = ThinLockCount u" "FatLockMonitor v = FatLockMonitor u"
    "LockWord_GetHashCode v = LockWord_GetHashCode u"
  using same_without_gc[OF assms(3)] word_wf_eq[OF assms] by (cases "kUseReadBarrier cfg"; auto)+

lemma pc_ok_frame:
  assumes ok: "pc_ok cfg w t p" and wf: "\<And>ob. word_wf cfg (lock_words w ob)"
    and hm: "\<And>i ob. has_monitor w i ob \<Longrightarrow> \<not> suspendable p \<or> 0 < waits p i \<Longrightarrow> has_monitor w' i ob"
    and rel: "\<And>i m. monitors w i = Some m \<Longrightarrow> owner m = Some t \<Longrightarrow> 0 < waits p i \<Longrightarrow>
      \<exists>m'. monitors w' i = Some m' \<and> mon_obj m' = mon_obj m \<and> owner m' = Some t"
    and wd: "\<And>ob. \<not> suspendable p \<Longrightarrow>
      GetValueWithoutGCState (lock_words w' ob) = GetValueWithoutGCState (lock_words w ob)
      \<or> (GetState (kUseReadBarrier cfg) (lock_words w ob) = kThinLocked \<longrightarrow> ThinLockOwner (lock_words w ob) \<noteq> t)
        \<and> (GetState (kUseReadBarrier cfg) (lock_words w ob) = kHashCode \<longrightarrow>
             GetState (kUseReadBarrier cfg) (lock_words w' ob) = kFatLocked)"
    and fat: "\<And>ob. \<not> suspendable p \<Longrightarrow> GetState (kUseReadBarrier cfg) (lock_words w ob) = kFatLocked \<Longrightarrow>
       GetState (kUseReadBarrier cfg) (lock_words w' ob) = kFatLocked"
  shows "pc_ok cfg w' t p"
proof -
  have read: "read_ok cfg w' t ob lw" if r: "read_ok cfg w t ob lw" and s: "\<not> suspendable p" for ob lw
  proof -
    have lw: "word_wf cfg lw" using r by (simp add: read_ok_def)
    note e = same_word_fields[OF wf[of ob] lw]
    show ?thesis
      using r hm[of "FatLockMonitor lw" ob] s wd[OF s, of ob] fat[OF s, of ob] e(1,2)
      by (auto simp: read_ok_def)
  qed
  show ?thesis
    using ok
  proof (cases p)
    case (EnterHave ob b n lw) then show ?thesis using ok read[of ob lw] by (simp add: suspendable_def)
  next
    case (ExitHave ob lw) then show ?thesis using ok read[of ob lw] by (simp add: suspendable_def)
  next
    case (WaitRelocked ob i f)
    then show ?thesis using ok rel[of i] by (auto simp: has_monitor_def)
  next
    case (LockPre ob i k) then show ?thesis using ok hm[of i ob] by (auto split: lock_cont.splits)
  next
    case (LockCv ob i k) then show ?thesis using ok hm[of i ob] by (auto split: lock_cont.splits)
  next
    case (LockWoken ob i k) then show ?thesis using ok hm[of i ob] by (auto split: lock_cont.splits)
  qed (use ok hm in auto)
qed

definition mhold :: "Monitor \<Rightarrow> (tid \<times> nat) option" where
  "mhold m = map_option (\<lambda>t. (t, nat (lock_count m))) (owner m)"

lemma INV_D:
  assumes "INV cfg w"
  shows "word_ok cfg w ob" "word_wf cfg (lock_words w ob)" "monitors w i = Some m \<Longrightarrow> mon_ok cfg w i m"
    "pc_ok cfg w t (pcs w t)" "held w t ob = hold_count (holder cfg w ob) t"
  using assms by (auto simp: INV_def word_ok_def)

lemma INV_I:
  assumes "\<And>ob. word_ok cfg w ob" "\<And>i m. monitors w i = Some m \<Longrightarrow> mon_ok cfg w i m"
    "\<And>t. pc_ok cfg w t (pcs w t)" "\<And>t ob. held w t ob = hold_count (holder cfg w ob) t"
  shows "INV cfg w"
  using assms by (simp add: INV_def)

lemma holder_monitor:
  assumes "INV cfg w" "monitors w i = Some m" "mon_obj m = Some ob"
  shows "holder cfg w ob = mhold m" "GetState (kUseReadBarrier cfg) (lock_words w ob) = kFatLocked"
    "FatLockMonitor (lock_words w ob) = i"
  using INV_D(3)[OF assms(1,2)] assms by (auto simp: mon_ok_def holder_def mhold_def)

lemma other_monitor:
  assumes "INV cfg w" "monitors w i = Some m" "mon_obj m = Some ob" "monitors w j = Some m'" "mon_obj m' = Some ob"
  shows "j = i"
  using INV_D(3)[OF assms(1,2)] INV_D(3)[OF assms(1,4)] assms by (auto simp: mon_ok_def)

text \<open>A step on one inflated monitor, taken by thread \<open>t\<close>.\<close>

lemma INV_monitor_update:
  assumes I: "INV cfg w" and m: "monitors w i = Some m" "mon_obj m = Some ob"
    and m': "mon_obj m' = Some ob" "count_ok (lock_count m')" "owner m' = None \<longrightarrow> lock_count m' = 0"
      "\<And>u. owner m' = Some u \<Longrightarrow> valid_tid u" "hash_code m' \<le> kMaxHash"
    and nw: "num_waiters m' + waits (pcs w t) i = num_waiters m + waits p' i"
    and other: "\<And>j. j \<noteq> i \<Longrightarrow> waits p' j = waits (pcs w t) j"
    and pcok: "pc_ok cfg (set_monitor i m' w) t p'"
    and own: "\<And>u. u \<noteq> t \<Longrightarrow> owner m = Some u \<Longrightarrow> owner m' = Some u"
    and h: "\<And>u. hold_count (mhold m') u = (if u = t then n else held w u ob)"
  shows "INV cfg (set_pc t p' (set_held t ob n (set_monitor i m' w)))"
proof (rule INV_I)
  let ?w = "set_pc t p' (set_held t ob n (set_monitor i m' w))"
  have hm: "has_monitor w j x \<Longrightarrow> has_monitor ?w j x" for j x using m m'(1) by (auto simp: has_monitor_def)
  fix x show "word_ok cfg ?w x" using INV_D(1)[OF I, of x] hm by (auto simp: word_ok_def)
next
  let ?w = "set_pc t p' (set_held t ob n (set_monitor i m' w))"
  fix j mj assume j: "monitors ?w j = Some mj"
  note sum = waits_sum_upd[of "pcs w" t p' j]
  show "mon_ok cfg ?w j mj"
  proof (cases "j = i")
    case True
    with j have "mj = m'" by simp
    with True INV_D(3)[OF I m(1)] m' m(2) nw sum show ?thesis by (auto simp: mon_ok_def)
  next
    case False
    with j have "monitors w j = Some mj" by simp
    with INV_D(3)[OF I this] other[OF False] sum show ?thesis by (auto simp: mon_ok_def)
  qed
next
  let ?w = "set_pc t p' (set_held t ob n (set_monitor i m' w))"
  fix u show "pc_ok cfg ?w u (pcs ?w u)"
  proof (cases "u = t")
    case True
    then show ?thesis using pcok pc_ok_cong[of ?w "set_monitor i m' w"] by simp
  next
    case False
    have "pc_ok cfg ?w u (pcs w u)"
      by (rule pc_ok_frame[OF INV_D(4)[OF I] INV_D(2)[OF I]])
         (use m m'(1) own[OF False] in \<open>auto simp: has_monitor_def\<close>)
    then show ?thesis using False by simp
  qed
next
  let ?w = "set_pc t p' (set_held t ob n (set_monitor i m' w))"
  fix u x
  have "holder cfg ?w x = (if x = ob then mhold m' else holder cfg w x)"
  proof (cases "x = ob")
    case True
    then show ?thesis using holder_monitor[OF I m] by (simp add: holder_def mhold_def)
  next
    case False
    then have "\<not> (GetState (kUseReadBarrier cfg) (lock_words w x) = kFatLocked \<and> FatLockMonitor (lock_words w x) = i)"
      using INV_D(1)[OF I, of x] m by (auto simp: word_ok_def has_monitor_def)
    then show ?thesis using False by (auto simp: holder_def split: LockState.splits)
  qed
  then show "held ?w u x = hold_count (holder cfg ?w x) u"
    using h[of u] INV_D(5)[OF I] by auto
qed

text \<open>A step that only moves a thread.\<close>

lemma INV_pc:
  assumes I: "INV cfg w" and "\<And>i. waits p i = waits (pcs w t) i" and "pc_ok cfg w t p"
  shows "INV cfg (set_pc t p w)"
proof (rule INV_I)
  fix x show "word_ok cfg (set_pc t p w) x" using INV_D(1)[OF I, of x] by (auto simp: word_ok_def has_monitor_def)
next
  fix j mj assume j: "monitors (set_pc t p w) j = Some mj"
  then show "mon_ok cfg (set_pc t p w) j mj"
    using INV_D(3)[OF I, of j mj] waits_sum_upd[of "pcs w" t p j] assms(2)[of j] by (auto simp: mon_ok_def)
next
  fix u show "pc_ok cfg (set_pc t p w) u (pcs (set_pc t p w) u)"
    using INV_D(4)[OF I, of u] assms(3) pc_ok_cong[of "set_pc t p w" w] by simp
next
  fix u x show "held (set_pc t p w) u x = hold_count (holder cfg (set_pc t p w) x) u"
    using INV_D(5)[OF I, of u x] holder_cong[of "set_pc t p w" w] by simp
qed

text \<open>A change of a lock word that is not and does not become fat, by thread \<open>t\<close>.\<close>

lemma INV_word_update:
  assumes I: "INV cfg w" and old: "GetState (kUseReadBarrier cfg) (lock_words w ob) \<noteq> kFatLocked"
    and new: "word_wf cfg lw" "GetState (kUseReadBarrier cfg) lw \<noteq> kFatLocked"
    and wd: "\<And>u. u \<noteq> t \<Longrightarrow> (GetState (kUseReadBarrier cfg) (lock_words w ob) = kThinLocked \<longrightarrow> ThinLockOwner (lock_words w ob) \<noteq> u)
        \<and> GetState (kUseReadBarrier cfg) (lock_words w ob) \<noteq> kHashCode"
    and p: "\<And>i. waits p i = waits (pcs w t) i" "pc_ok cfg (set_lock_word ob lw w) t p"
    and h: "\<And>u. hold_count (holder cfg (set_lock_word ob lw w) ob) u = (if u = t then n else held w u ob)"
  shows "INV cfg (set_pc t p (set_held t ob n (set_lock_word ob lw w)))"
proof (rule INV_I)
  let ?w = "set_pc t p (set_held t ob n (set_lock_word ob lw w))"
  have hm: "has_monitor ?w j x = has_monitor w j x" for j x by (auto simp: has_monitor_def)
  fix x show "word_ok cfg ?w x" using INV_D(1)[OF I, of x] hm new by (auto simp: word_ok_def)
next
  let ?w = "set_pc t p (set_held t ob n (set_lock_word ob lw w))"
  fix j mj assume j: "monitors ?w j = Some mj"
  then have "monitors w j = Some mj" by simp
  note mo = INV_D(3)[OF I this]
  have "mon_obj mj \<noteq> Some ob" using mo old by (auto simp: mon_ok_def)
  with mo show "mon_ok cfg ?w j mj"
    using waits_sum_upd[of "pcs w" t p j] p(1)[of j] by (auto simp: mon_ok_def)
next
  let ?w = "set_pc t p (set_held t ob n (set_lock_word ob lw w))"
  fix u show "pc_ok cfg ?w u (pcs ?w u)"
  proof (cases "u = t")
    case True
    then show ?thesis using p(2) pc_ok_cong[of ?w "set_lock_word ob lw w"] by simp
  next
    case False
    have "pc_ok cfg ?w u (pcs w u)"
      by (rule pc_ok_frame[OF INV_D(4)[OF I] INV_D(2)[OF I]])
         (use wd[OF False] old in \<open>auto simp: has_monitor_def\<close>)
    then show ?thesis using False by simp
  qed
next
  let ?w = "set_pc t p (set_held t ob n (set_lock_word ob lw w))"
  fix u x
  have "holder cfg ?w x = holder cfg (set_lock_word ob lw w) x" by (rule holder_cong) simp_all
  moreover have "x \<noteq> ob \<Longrightarrow> holder cfg (set_lock_word ob lw w) x = holder cfg w x"
    by (auto simp: holder_def split: LockState.splits)
  ultimately have "holder cfg ?w x = (if x = ob then holder cfg (set_lock_word ob lw w) ob else holder cfg w x)"
    by simp
  then show "held ?w u x = hold_count (holder cfg ?w x) u"
    using h[of u] INV_D(5)[OF I] by auto
qed

lemma INV_word_same:
  assumes I: "INV cfg w" and rb: "kUseReadBarrier cfg"
    and same: "GetValueWithoutGCState lw = GetValueWithoutGCState (lock_words w ob)"
  shows "INV cfg (set_lock_word ob lw w)"
proof -
  let ?w = "set_lock_word ob lw w"
  note f = same_without_gc[OF same]
  have wf: "word_wf cfg lw" using INV_D(2)[OF I, of ob] f rb by (simp add: word_wf_def)
  have hm: "has_monitor ?w j x = has_monitor w j x" for j x by (auto simp: has_monitor_def)
  show ?thesis
  proof (rule INV_I)
    fix x show "word_ok cfg ?w x" using INV_D(1)[OF I, of x] hm wf f rb by (auto simp: word_ok_def)
  next
    fix j mj assume "monitors ?w j = Some mj"
    then have "mon_ok cfg w j mj" using INV_D(3)[OF I] by simp
    then show "mon_ok cfg ?w j mj" using f rb by (auto simp: mon_ok_def)
  next
    fix u
    have "pc_ok cfg ?w u (pcs w u)"
      by (rule pc_ok_frame[OF INV_D(4)[OF I] INV_D(2)[OF I]]) (use same f rb in \<open>auto simp: has_monitor_def\<close>)
    then show "pc_ok cfg ?w u (pcs ?w u)" by simp
  next
    fix u x
    have "holder cfg ?w x = holder cfg w x" using f rb by (auto simp: holder_def split: LockState.splits)
    then show "held ?w u x = hold_count (holder cfg ?w x) u" using INV_D(5)[OF I] by simp
  qed
qed

lemma GCState_less: "unat (GCState v) < 4"
  using unat_take_bit_less[of 2 "drop_bit 28 v"] by (simp add: GCState_take_bit)

lemma ThinLockCount_less: "unat (ThinLockCount v) < 2 ^ 12"
  using unat_take_bit_less[of 12 "drop_bit 16 v"] by (simp add: ThinLockCount_def take_bit_eq_mask)

lemma count_ok_thin [simp]: "count_ok (uint (ThinLockCount v))" "count_ok 0"
proof -
  have "uint (ThinLockCount v) < int (2 ^ 12)"
    using ThinLockCount_less[of v] by (metis of_nat_less_iff uint_nat)
  then show "count_ok (uint (ThinLockCount v))" by (simp add: count_ok_def)
qed (simp add: count_ok_def)

lemma waits_fresh: "INV cfg w \<Longrightarrow> monitors w i = None \<Longrightarrow> waits (pcs w u) i = 0"
  using waits_has_monitor[OF INV_D(4), of cfg w u i] by (force simp: has_monitor_def)

text \<open>The word of object \<open>ob\<close> becomes fat: inflation of a thin lock or of a hash code.\<close>

lemma INV_publish:
  assumes I: "INV cfg w" and fr: "fresh_monitor i w"
    and nf: "GetState (kUseReadBarrier cfg) (lock_words w ob) = kThinLocked \<or> GetState (kUseReadBarrier cfg) (lock_words w ob) = kHashCode"
    and m: "num_waiters m = 0" "mon_obj m = Some ob" "hash_code m \<le> kMaxHash" "count_ok (lock_count m)"
      "owner m = None \<longrightarrow> lock_count m = 0" "mhold m = holder cfg w ob"
    and susp: "\<And>u. u \<noteq> t \<Longrightarrow> owner m = Some u \<Longrightarrow> suspendable (pcs w u)"
    and p: "\<And>j. waits p j = 0" "\<And>j. waits (pcs w t) j = 0" "\<And>w. pc_ok cfg w t p"
    and w': "lock_words w' = (lock_words w)(ob := LockWord_fat i (GCState (lock_words w ob)))"
      "monitors w' = (monitors w)(i \<mapsto> m)" "pcs w' = (pcs w)(t := p)" "held w' = held w"
  shows "INV cfg w'"
proof -
  let ?lw = "LockWord_fat i (GCState (lock_words w ob))"
  have i: "i \<le> kMaxMonitorId" "monitors w i = None" using fr by (auto simp: fresh_monitor_def)
  note fat = fat_word[OF i(1) GCState_less[of "lock_words w ob"]]
  have wf: "word_wf cfg ?lw" using INV_D(2)[OF I, of ob] unfolding word_wf_def fat by simp
  have hm: "has_monitor w j x \<Longrightarrow> has_monitor w' j x" for j x using i(2) by (auto simp: has_monitor_def w')
  have thin: "GetState (kUseReadBarrier cfg) (lock_words w ob) = kThinLocked \<Longrightarrow> owner m = Some (ThinLockOwner (lock_words w ob))"
    using m(6) by (auto simp: mhold_def holder_def)
  have none: "GetState (kUseReadBarrier cfg) (lock_words w ob) = kHashCode \<Longrightarrow> owner m = None"
    using m(6) by (auto simp: mhold_def holder_def)
  show ?thesis
  proof (rule INV_I)
    fix x show "word_ok cfg w' x"
      using INV_D(1)[OF I, of x] hm wf fat m(2) by (auto simp: word_ok_def w' has_monitor_def)
  next
    fix j mj assume j: "monitors w' j = Some mj"
    show "mon_ok cfg w' j mj"
    proof (cases "j = i")
      case True
      with j have "mj = m" by (simp add: w')
      moreover have "(\<Sum>u\<in>UNIV. waits (pcs w' u) i) = 0" using waits_fresh[OF I i(2)] p(1) by (simp add: w')
      moreover have "valid_tid u" if "owner m = Some u" for u
        using INV_D(2)[OF I, of ob] thin none that nf by (auto simp: word_wf_def)
      ultimately show ?thesis using True m i(1) fat by (simp add: mon_ok_def w')
    next
      case False
      with j have "monitors w j = Some mj" by (simp add: w')
      with INV_D(3)[OF I this] False waits_sum_upd[of "pcs w" t p j] p(1,2) nf show ?thesis by (auto simp: mon_ok_def w')
    qed
  next
    fix u show "pc_ok cfg w' u (pcs w' u)"
    proof (cases "u = t")
      case True
      then show ?thesis using p(3) by (simp add: w')
    next
      case False
      have "pc_ok cfg w' u (pcs w u)"
      proof (rule pc_ok_frame[OF INV_D(4)[OF I] INV_D(2)[OF I]])
        fix x assume ns: "\<not> suspendable (pcs w u)"
        with susp[OF False] have "owner m \<noteq> Some u" by auto
        with thin fat show "GetValueWithoutGCState (lock_words w' x) = GetValueWithoutGCState (lock_words w x)
          \<or> (GetState (kUseReadBarrier cfg) (lock_words w x) = kThinLocked \<longrightarrow> ThinLockOwner (lock_words w x) \<noteq> u)
          \<and> (GetState (kUseReadBarrier cfg) (lock_words w x) = kHashCode \<longrightarrow> GetState (kUseReadBarrier cfg) (lock_words w' x) = kFatLocked)"
          by (auto simp: w')
      qed (use hm i(2) fat in \<open>auto simp: w'\<close>)
      then show ?thesis using False by (simp add: w')
    qed
  next
    fix u x
    have "holder cfg w' x = holder cfg w x"
    proof (cases "x = ob")
      case True
      then show ?thesis using m(6) fat by (simp add: holder_def[of cfg w'] w' mhold_def)
    next
      case False
      have "GetState (kUseReadBarrier cfg) (lock_words w x) = kFatLocked \<Longrightarrow> FatLockMonitor (lock_words w x) \<noteq> i"
        using INV_D(1)[OF I, of x] i(2) by (auto simp: word_ok_def has_monitor_def)
      with False show ?thesis by (auto simp: holder_def w' split: LockState.splits)
    qed
    then show "held w' u x = hold_count (holder cfg w' x) u" using INV_D(5)[OF I] by (simp add: w')
  qed
qed

lemma INV_inflate:
  assumes I: "INV cfg w" and fr: "fresh_monitor i w"
    and inf: "Inflate cfg sus t own ob hash i cas_ok w = Some w'"
    and own: "own \<noteq> None \<Longrightarrow> GetState (kUseReadBarrier cfg) (lock_words w ob) \<noteq> kHashCode"
    and hash: "hash \<le> kMaxHash"
    and susp: "\<And>u. u \<noteq> t \<Longrightarrow> own = Some u \<Longrightarrow> suspendable (pcs w u)"
    and p: "\<And>j. waits p j = 0" "\<And>j. waits (pcs w t) j = 0" "\<And>w. pc_ok cfg w t p"
  shows "INV cfg (set_pc t p w')"
proof -
  obtain m where m: "Monitor_new sus t own ob hash = Some m" using inf by (auto simp: Inflate_def split: option.splits)
  then have mf: "num_waiters m = 0" "owner m = own" "lock_count m = 0" "mon_obj m = Some ob" "hash_code m = hash"
    by (auto simp: Monitor_new_def split: if_splits)
  obtain b m' lw where inst: "Install cfg sus t cas_ok i m (lock_words w ob) = Some (b, m', lw)"
    using inf m by (auto simp: Inflate_def split: option.splits)
  show ?thesis
  proof (cases b)
    case False
    then have "w' = w" using inf m inst by (simp add: Inflate_def)
    then show ?thesis using INV_pc[OF I, of p t] p by simp
  next
    case True
    then have w': "w' = w\<lparr>lock_words := (lock_words w)(ob := lw), monitors := (monitors w)(i \<mapsto> m'),
        monitor_list := MonitorList_Add i (monitor_list w)\<rparr>"
      using inf m inst by (auto simp: Inflate_def Let_def split: if_splits)
    have st: "GetState (kUseReadBarrier cfg) (lock_words w ob) = kThinLocked \<and> own = Some (ThinLockOwner (lock_words w ob))
          \<and> lock_count m' = int (unat (ThinLockCount (lock_words w ob)))
        \<or> GetState (kUseReadBarrier cfg) (lock_words w ob) = kHashCode \<and> lock_count m' = 0"
      and lw: "lw = LockWord_fat i (GCState (lock_words w ob))"
      and m': "num_waiters m' = 0" "owner m' = own" "mon_obj m' = Some ob" "hash_code m' = hash"
      using inst True mf by (auto simp: Install_def Let_def split: LockState.splits if_splits option.splits)
    have "mhold m' = holder cfg w ob"
      using st m' own by (cases own) (auto simp: mhold_def holder_def)
    with st m' lw hash susp p w' show ?thesis
      by (intro INV_publish[OF I fr, where m=m' and ob=ob and t=t and p=p]) auto
  qed
qed

text \<open>The word of object \<open>ob\<close> stops being fat while every thread is suspended.\<close>

lemma INV_unpublish:
  assumes I: "INV cfg w" and m: "monitors w i = Some m" "mon_obj m = Some ob" "num_waiters m = 0"
    and lw: "word_wf cfg lw" "GetState (kUseReadBarrier cfg) lw \<noteq> kFatLocked"
    and susp: "\<And>u. suspendable (pcs w u)"
    and h: "holder cfg (w\<lparr>lock_words := (lock_words w)(ob := lw)\<rparr>) ob = mhold m"
  shows "INV cfg (w\<lparr>lock_words := (lock_words w)(ob := lw), monitors := (monitors w)(i \<mapsto> m\<lparr>mon_obj := None\<rparr>)\<rparr>)"
    (is "INV cfg ?w")
proof (rule INV_I)
  note hm = holder_monitor[OF I m(1,2)]
  have nw: "waits (pcs w u) i = 0" for u
    using INV_D(3)[OF I m(1)] m(3) waits_le_sum[of "pcs w" u i] by (simp add: mon_ok_def)
  have has: "has_monitor w j x \<Longrightarrow> j \<noteq> i \<Longrightarrow> has_monitor ?w j x" for j x by (auto simp: has_monitor_def)
  fix x show "word_ok cfg ?w x"
    using INV_D(1)[OF I, of x] lw m by (auto simp: word_ok_def has_monitor_def)
next
  note hm = holder_monitor[OF I m(1,2)]
  fix j mj assume j: "monitors ?w j = Some mj"
  show "mon_ok cfg ?w j mj"
  proof (cases "j = i")
    case True
    with j have "mj = m\<lparr>mon_obj := None\<rparr>" by simp
    then show ?thesis using INV_D(3)[OF I m(1)] True by (simp add: mon_ok_def)
  next
    case False
    with j have mj: "monitors w j = Some mj" by simp
    with other_monitor[OF I m(1,2) mj] False have "mon_obj mj \<noteq> Some ob" by auto
    then show ?thesis using INV_D(3)[OF I mj] by (auto simp: mon_ok_def)
  qed
next
  have nw: "waits (pcs w u) i = 0" for u
    using INV_D(3)[OF I m(1)] m(3) waits_le_sum[of "pcs w" u i] by (simp add: mon_ok_def)
  fix u
  have "pc_ok cfg ?w u (pcs w u)"
    by (rule pc_ok_frame[OF INV_D(4)[OF I] INV_D(2)[OF I]])
       (use susp[of u] nw[of u] in \<open>auto simp: has_monitor_def\<close>)
  then show "pc_ok cfg ?w u (pcs ?w u)" by simp
next
  fix u x
  have "holder cfg ?w x = holder cfg w x"
  proof (cases "x = ob")
    case True
    then show ?thesis using h holder_monitor(1)[OF I m(1,2)] lw(2) by (auto simp: holder_def split: LockState.splits)
  next
    case False
    then have "GetState (kUseReadBarrier cfg) (lock_words w x) = kFatLocked \<Longrightarrow> FatLockMonitor (lock_words w x) \<noteq> i"
      using INV_D(1)[OF I, of x] m by (auto simp: word_ok_def has_monitor_def)
    with False show ?thesis by (auto simp: holder_def split: LockState.splits)
  qed
  then show "held ?w u x = hold_count (holder cfg ?w x) u" using INV_D(5)[OF I] by simp
qed

lemma INV_deflate:
  assumes I: "INV cfg w" and susp: "\<And>u. suspendable (pcs w u)" and d: "Deflate cfg ob w = Some (b, w')"
  shows "INV cfg w'"
proof (cases "GetState (kUseReadBarrier cfg) (lock_words w ob) = kFatLocked")
  case False
  then have "w' = w" using d by (simp add: Deflate_def Let_def)
  then show ?thesis using I by simp
next
  case fat: True
  let ?i = "FatLockMonitor (lock_words w ob)" and ?g = "GCState (lock_words w ob)"
  obtain m where m: "monitors w ?i = Some m" "mon_obj m = Some ob"
    using INV_D(1)[OF I, of ob] fat by (auto simp: word_ok_def has_monitor_def)
  note mo = INV_D(3)[OF I m(1)]
  have g: "kUseReadBarrier cfg \<or> ?g = 0" using INV_D(2)[OF I, of ob] by (auto simp: word_wf_def)
  show ?thesis
  proof (cases "w' = w")
    case changed: False
    then have nw: "num_waiters m = 0" using d fat m by (auto simp: Deflate_def Let_def split: if_splits)
    have up: "INV cfg w'" if "w' = w\<lparr>lock_words := (lock_words w)(ob := lw), monitors := (monitors w)(?i \<mapsto> m\<lparr>mon_obj := None\<rparr>)\<rparr>"
      "word_wf cfg lw" "GetState (kUseReadBarrier cfg) lw \<noteq> kFatLocked"
      "holder cfg (w\<lparr>lock_words := (lock_words w)(ob := lw)\<rparr>) ob = mhold m" for lw
      using INV_unpublish[OF I m nw that(2,3) susp that(4)] that(1) by simp
    show ?thesis
    proof (cases "owner m")
      case None
      show ?thesis
      proof (cases "HasHashCode m")
        case True
        with None d fat m nw changed obtain lw where lw: "FromHashCode (hash_code m) ?g = Some lw"
          "w' = w\<lparr>lock_words := (lock_words w)(ob := lw), monitors := (monitors w)(?i \<mapsto> m\<lparr>mon_obj := None\<rparr>)\<rparr>"
          by (auto simp: Deflate_def Let_def split: option.splits)
        note hw = hash_word[OF lw(1) GCState_less]
        show ?thesis by (rule up[OF lw(2)]) (use hw g None in \<open>auto simp: word_wf_def holder_def mhold_def\<close>)
      next
        case False
        with None d fat m nw changed have
          "w' = w\<lparr>lock_words := (lock_words w)(ob := FromDefault ?g), monitors := (monitors w)(?i \<mapsto> m\<lparr>mon_obj := None\<rparr>)\<rparr>"
          by (auto simp: Deflate_def Let_def split: option.splits)
        note w = this and dw = default_word(1)[OF GCState_less] default_word(2)[OF GCState_less g]
        show ?thesis by (rule up[OF w]) (use dw g None in \<open>auto simp: word_wf_def holder_def mhold_def\<close>)
      qed
    next
      case (Some t)
      let ?c = "word_of_int (lock_count m) :: u32"
      from Some d fat m nw changed obtain lw where lw: "FromThinLockId t ?c ?g = Some lw"
          "w' = w\<lparr>lock_words := (lock_words w)(ob := lw), monitors := (monitors w)(?i \<mapsto> m\<lparr>mon_obj := None\<rparr>)\<rparr>"
        by (auto simp: Deflate_def Let_def split: option.splits if_splits)
      have c: "uint ?c = lock_count m" using mo by (simp add: mon_ok_def count_ok_def uint_word_of_int)
      have v: "valid_tid t" using mo Some by (simp add: mon_ok_def)
      note tw = thin_word[OF lw(1) GCState_less]
      have "t \<noteq> 0" using v by (simp add: valid_tid_def)
      note st = tw(4)[OF this]
      have "nat (uint ?c) = unat ?c" by simp
      then have "nat (lock_count m) = unat ?c" using c by simp
      then show ?thesis by (intro up[OF lw(2)]) (use tw(1-3) st g Some v in \<open>auto simp: word_wf_def holder_def mhold_def\<close>)
    qed
  qed (use I in simp)
qed

section \<open>The turns preserve the invariant\<close>

lemma TryLockLocked_Some:
  assumes "TryLockLocked cfg t m = Some (ok, m')"
  shows "mon_obj m' = mon_obj m" "num_waiters m' = num_waiters m" "hash_code m' = hash_code m" "wait_set m' = wait_set m"
    "ok \<Longrightarrow> owner m' = Some t \<and> (owner m = None \<and> lock_count m' = 0 \<and> lock_count m = 0
       \<or> owner m = Some t \<and> lock_count m' = lock_count m + 1 \<and> lock_count m + 1 < 2 ^ 31)"
    "\<not> ok \<Longrightarrow> m' = m \<and> (\<exists>u. owner m = Some u \<and> u \<noteq> t)"
  using assms by (auto simp: TryLockLocked_def Let_def split: if_splits)

lemma Lock_attempt_Some:
  assumes "Lock_attempt cfg t m = Some (ok, m')"
  shows "mon_obj m' = mon_obj m" "num_waiters m' = num_waiters m + (if ok then 0 else 1)" "hash_code m' = hash_code m"
    "ok \<Longrightarrow> owner m' = Some t \<and> (owner m = None \<and> lock_count m' = 0 \<and> lock_count m = 0
       \<or> owner m = Some t \<and> lock_count m' = lock_count m + 1 \<and> lock_count m + 1 < 2 ^ 31)"
    "\<not> ok \<Longrightarrow> owner m' = owner m \<and> lock_count m' = lock_count m \<and> (\<exists>u. owner m = Some u \<and> u \<noteq> t)"
proof -
  obtain ok1 m1 where t: "TryLockLocked cfg t m = Some (ok1, m1)" using assms by (auto simp: Lock_attempt_def split: option.splits)
  then have e: "ok = ok1" "m' = (if ok1 then m1 else m1\<lparr>num_waiters := num_waiters m1 + 1\<rparr>)"
    using assms by (auto simp: Lock_attempt_def split: bool.splits)
  note s = TryLockLocked_Some[OF t]
  show "mon_obj m' = mon_obj m" "num_waiters m' = num_waiters m + (if ok then 0 else 1)" "hash_code m' = hash_code m"
    "ok \<Longrightarrow> owner m' = Some t \<and> (owner m = None \<and> lock_count m' = 0 \<and> lock_count m = 0
       \<or> owner m = Some t \<and> lock_count m' = lock_count m + 1 \<and> lock_count m + 1 < 2 ^ 31)"
    "\<not> ok \<Longrightarrow> owner m' = owner m \<and> lock_count m' = lock_count m \<and> (\<exists>u. owner m = Some u \<and> u \<noteq> t)"
    using s e by auto
qed

definition cont_waits :: "lock_cont \<Rightarrow> nat" where
  "cont_waits k = (case k of InEnter \<Rightarrow> 0 | InWait f \<Rightarrow> 1)"

definition cont_ok :: "lock_cont \<Rightarrow> bool" where
  "cont_ok k = (case k of InEnter \<Rightarrow> True | InWait f \<Rightarrow> count_ok (prev_lock_count f))"

lemma hold_count_inc:
  assumes "count_ok (lock_count m)"
    "owner m' = Some t \<and> (owner m = None \<and> lock_count m' = 0 \<or> owner m = Some t \<and> lock_count m' = lock_count m + 1)"
  shows "hold_count (mhold m') u = (if u = t then hold_count (mhold m) t + 1 else hold_count (mhold m) u)"
  using assms by (auto simp: hold_count_def mhold_def count_ok_def nat_add_distrib)

lemma INV_lock_result:
  assumes I: "INV cfg w" and m: "monitors w i = Some m" "mon_obj m = Some ob"
    and r: "Lock_attempt cfg t (m\<lparr>num_waiters := n\<rparr>) = Some r"
    and n: "n + waits (pcs w t) i = num_waiters m + cont_waits k" "\<And>j. j \<noteq> i \<Longrightarrow> waits (pcs w t) j = 0"
    and v: "valid_tid t" "cont_ok k"
  shows "INV cfg (lock_result t ob i k r w)"
proof -
  obtain ok m' where rr: "r = (ok, m')" by (cases r)
  note s = Lock_attempt_Some[OF r[unfolded rr]]
  note mo = INV_D(3)[OF I m(1), unfolded mon_ok_def]
  have held: "held w u ob = hold_count (mhold m) u" for u using INV_D(5)[OF I] holder_monitor(1)[OF I m] by simp
  show ?thesis
  proof (cases ok)
    case True
    let ?p = "case k of InEnter \<Rightarrow> Idle | InWait f \<Rightarrow> WaitRelocked ob i f"
    have e: "lock_result t ob i k r w = set_pc t ?p (set_held t ob (held w t ob + 1) (set_monitor i m' w))"
      using True by (simp add: lock_result_def rr lock_done_def entered_def split: lock_cont.splits)
    have "waits ?p i = cont_waits k" "\<And>j. j \<noteq> i \<Longrightarrow> waits ?p j = 0" by (auto simp: cont_waits_def split: lock_cont.splits)
    moreover have "pc_ok cfg (set_monitor i m' w) t ?p"
      using s(1,4) True m v by (auto simp: cont_ok_def split: lock_cont.splits)
    moreover have "hold_count (mhold m') u = (if u = t then held w t ob + 1 else held w u ob)" for u
      unfolding held by (rule hold_count_inc) (use s(4) True mo in auto)
    ultimately show ?thesis
      unfolding e using s True m mo v n
      by (intro INV_monitor_update[OF I m]) (auto simp: count_ok_def)
  next
    case False
    have e: "lock_result t ob i k r w = set_pc t (LockPre ob i k) (set_held t ob (held w t ob) (set_monitor i m' w))"
      using False by (simp add: lock_result_def rr world_simps)
    have "waits (LockPre ob i k) i = cont_waits k + 1" by (simp add: cont_waits_def split: lock_cont.splits)
    moreover have "pc_ok cfg (set_monitor i m' w) t (LockPre ob i k)"
      using s(1) m v by (auto simp: cont_ok_def has_monitor_def split: lock_cont.splits)
    moreover have "hold_count (mhold m') u = (if u = t then held w t ob else held w u ob)" for u
      unfolding held using s(5) False by (simp add: mhold_def)
    ultimately show ?thesis
      unfolding e using s False m mo v n
      by (intro INV_monitor_update[OF I m]) auto
  qed
qed

lemma thin_word_wf:
  assumes "FromThinLockId t c (GCState lw) = Some v" "valid_tid t" "word_wf cfg lw"
  shows "word_wf cfg v" "GetState (kUseReadBarrier cfg) v = kThinLocked" "ThinLockOwner v = t" "ThinLockCount v = c"
  using thin_word[OF assms(1) GCState_less] assms(2,3) by (auto simp: word_wf_def valid_tid_def)

lemma default_word_wf:
  assumes "word_wf cfg lw"
  shows "word_wf cfg (FromDefault (GCState lw))" "GetState (kUseReadBarrier cfg) (FromDefault (GCState lw)) = kUnlocked"
  using default_word(2)[OF GCState_less[of lw], of "kUseReadBarrier cfg"] assms default_word(1)[OF GCState_less[of lw]]
  by (auto simp: word_wf_def)

text \<open>The word is unlocked or is the thread's own thin lock, and the thread writes a thin or an empty word.\<close>

lemma INV_own_word:
  assumes I: "INV cfg w" and pc: "pcs w t = EnterHave ob b k lw \<or> pcs w t = ExitHave ob lw"
    and cur: "lock_words w ob = lw"
    and st: "GetState (kUseReadBarrier cfg) lw = kUnlocked
      \<or> GetState (kUseReadBarrier cfg) lw = kThinLocked \<and> ThinLockOwner lw = t"
    and new: "word_wf cfg lw'" "GetState (kUseReadBarrier cfg) lw' = kThinLocked \<and> ThinLockOwner lw' = t \<and> n = unat (ThinLockCount lw') + 1
      \<or> GetState (kUseReadBarrier cfg) lw' = kUnlocked \<and> n = 0"
  shows "INV cfg (set_pc t Idle (set_held t ob n (set_lock_word ob lw' w)))"
proof (rule INV_word_update[OF I])
  show "hold_count (holder cfg (set_lock_word ob lw' w) ob) u = (if u = t then n else held w u ob)" for u
  proof -
    have "u \<noteq> t \<Longrightarrow> held w u ob = 0" using INV_D(5)[OF I, of u ob] st cur by (auto simp: holder_def hold_count_def)
    moreover have "holder cfg (set_lock_word ob lw' w) ob = (if n = 0 then None else Some (t, n - 1))"
      using new(2) by (auto simp: holder_def)
    ultimately show ?thesis by (auto simp: hold_count_def)
  qed
qed (use assms in auto)

lemma current_word:
  assumes "INV cfg w" "read_ok cfg w t ob lw" "GetState (kUseReadBarrier cfg) lw = kThinLocked" "ThinLockOwner lw = t"
    "\<not> kUseReadBarrier cfg"
  shows "lock_words w ob = lw"
  using assms word_wf_eq[OF INV_D(2)[OF assms(1), of ob], of lw] by (auto simp: read_ok_def)

lemma INV_enter_turn:
  assumes I: "INV cfg w" and pc: "pcs w t = EnterHave ob b k lw" and fr: "fresh_monitor i w"
    and turn: "MonitorEnter_turn cfg t ob b k lw cas_ok i w = Some w'"
  shows "INV cfg w'"
proof -
  have r: "read_ok cfg w t ob lw" and v: "valid_tid t" and wf: "word_wf cfg lw"
    using INV_D(4)[OF I, of t] pc by (auto simp: read_ok_def)
  have nowait: "waits (pcs w t) j = 0" for j by (simp add: pc)
  have again: "INV cfg (set_pc t (EnterLoop ob b' n) w)" for b' n using INV_pc[OF I] v pc by simp
  have idle: "INV cfg (set_pc t Idle w)" using INV_pc[OF I] pc by simp
  show ?thesis
  proof (cases "GetState (kUseReadBarrier cfg) lw")
    case kUnlocked
    then obtain v0 where v0: "FromThinLockId t 0 (GCState lw) = Some v0"
      using turn by (auto simp: MonitorEnter_turn_def split: option.splits)
    note tw = thin_word_wf[OF v0 v wf]
    have "INV cfg (entered t ob (set_lock_word ob v0 w))" if c: "lock_words w ob = lw"
    proof -
      have "held w t ob = 0" using INV_D(5)[OF I, of t ob] kUnlocked c by (simp add: holder_def hold_count_def)
      then show ?thesis using INV_own_word[OF I disjI1[OF pc] c, of v0 1] kUnlocked tw by (simp add: entered_def)
    qed
    with again turn v0 kUnlocked show ?thesis by (auto simp: MonitorEnter_turn_def split: if_splits)
  next
    case kThinLocked
    show ?thesis
    proof (cases "ThinLockOwner lw = t")
      case own: True
      show ?thesis
      proof (cases "ThinLockCount lw + 1 \<le> kThinLockMaxCount")
        case le: True
        then obtain v1 where v1: "FromThinLockId t (ThinLockCount lw + 1) (GCState lw) = Some v1"
          using turn kThinLocked own by (auto simp: MonitorEnter_turn_def split: option.splits)
        note tw = thin_word_wf[OF v1 v wf]
        have c1: "unat (ThinLockCount lw + 1) = unat (ThinLockCount lw) + 1"
          using ThinLockCount_less[of lw] by (intro unat_plus_1) simp
        have "INV cfg (entered t ob (set_lock_word ob v1 w))" if c: "lock_words w ob = lw"
        proof -
          have "held w t ob = unat (ThinLockCount lw) + 1"
            using INV_D(5)[OF I, of t ob] kThinLocked own c by (simp add: holder_def hold_count_def)
          then show ?thesis
            using INV_own_word[OF I disjI1[OF pc] c, of v1 "unat (ThinLockCount lw) + 1 + 1"] kThinLocked own tw c1
            by (simp add: entered_def)
        qed
        with again turn v1 kThinLocked own le current_word[OF I r kThinLocked own] show ?thesis
          by (auto simp: MonitorEnter_turn_def Let_def split: if_splits)
      next
        case False
        then obtain w1 where w1: "InflateThinLocked cfg t ob lw 0 False i cas_ok w = Some w1" "w' = set_pc t (EnterLoop ob b k) w1"
          using turn kThinLocked own by (auto simp: MonitorEnter_turn_def Let_def)
        have "GetState (kUseReadBarrier cfg) (lock_words w ob) = kThinLocked"
          using same_word_fields(1)[OF INV_D(2)[OF I, of ob] wf] r kThinLocked own by (auto simp: read_ok_def)
        then show ?thesis unfolding w1(2)
          using w1(1) own v nowait by (intro INV_inflate[OF I fr]) (auto simp: InflateThinLocked_def Let_def)
      qed
    next
      case False
      then show ?thesis using turn kThinLocked again idle INV_pc[OF I, of "EnterInflate ob b 0 lw" t] v pc
        by (auto simp: MonitorEnter_turn_def Let_def split: if_splits)
    qed
  next
    case kFatLocked
    let ?i = "FatLockMonitor lw"
    obtain m where m: "monitors w ?i = Some m" "mon_obj m = Some ob" using r kFatLocked by (auto simp: read_ok_def has_monitor_def)
    note mo = INV_D(3)[OF I m(1), unfolded mon_ok_def]
    have held: "held w u ob = hold_count (mhold m) u" for u using INV_D(5)[OF I] holder_monitor(1)[OF I m] by simp
    show ?thesis
    proof (cases b)
      case True
      then obtain ok m' where tl: "TryLockLocked cfg t m = Some (ok, m')"
        and w': "w' = (if ok then entered t ob (set_monitor ?i m' w) else set_pc t Idle (set_monitor ?i m' w))"
        using turn kFatLocked m by (auto simp: MonitorEnter_turn_def TryLock_def Let_def split: option.splits)
      note s = TryLockLocked_Some[OF tl]
      have "set_monitor ?i m w = w" using m by (simp add: set_monitor_def fun_upd_idem)
      moreover have "INV cfg (entered t ob (set_monitor ?i m' w))" if ok
      proof -
        have "hold_count (mhold m') u = (if u = t then held w t ob + 1 else held w u ob)" for u
          unfolding held by (rule hold_count_inc) (use s(5) that mo in auto)
        then have "INV cfg (set_pc t Idle (set_held t ob (held w t ob + 1) (set_monitor ?i m' w)))"
          using s that m mo v nowait by (intro INV_monitor_update[OF I m]) (auto simp: count_ok_def)
        then show ?thesis by (simp add: entered_def)
      qed
      ultimately show ?thesis using w' s(6) idle by auto
    next
      case False
      then obtain r where r: "Lock_attempt cfg t m = Some r" "w' = lock_result t ob ?i InEnter r w"
        using turn kFatLocked m by (auto simp: MonitorEnter_turn_def lock_result_def lock_done_def Let_def split: option.splits)
      show ?thesis unfolding r(2)
        by (rule INV_lock_result[OF I m, where n="num_waiters m"]) (use r v nowait in \<open>auto simp: cont_waits_def cont_ok_def\<close>)
    qed
  next
    case kHashCode
    then obtain w1 where w1: "Inflate cfg (\<lambda>t. False) t None ob (LockWord_GetHashCode lw) i cas_ok w = Some w1"
        "w' = set_pc t (EnterLoop ob b k) w1"
      using turn by (auto simp: MonitorEnter_turn_def)
    have "LockWord_GetHashCode lw \<le> kMaxHash"
      using unat_take_bit_less[of 28 lw] by (simp add: LockWord_GetHashCode_def word_le_mask_iff take_bit_eq_mask)
    then show ?thesis unfolding w1(2) using w1(1) v nowait by (intro INV_inflate[OF I fr]) auto
  next
    case kForwardingAddress
    then show ?thesis using turn by (simp add: MonitorEnter_turn_def)
  qed
qed

lemma INV_signal:
  assumes I: "INV cfg w" shows "INV cfg (signal_contender c i w)"
proof (cases "\<exists>u ob k. c = Some u \<and> pcs w u = LockCv ob i k")
  case True
  then obtain u ob k where u: "c = Some u" "pcs w u = LockCv ob i k" by blast
  then show ?thesis using INV_pc[OF I, of "LockWoken ob i k" u] INV_D(4)[OF I, of u]
    by (simp add: signal_contender_def)
next
  case False
  then have "signal_contender c i w = w" by (auto simp: signal_contender_def split: option.splits pc.splits)
  then show ?thesis using I by simp
qed

lemma INV_wake: "INV cfg w \<Longrightarrow> INV cfg (wake_waiter u w)"
  using INV_pc[of cfg w _ u] INV_D(4)[of cfg w u] by (auto simp: wake_waiter_def split: pc.splits)

lemma INV_wake_all: "INV cfg w \<Longrightarrow> INV cfg (fold wake_waiter us w)"
  by (induction us arbitrary: w) (auto intro: INV_wake)

lemma INV_wait_monitor: "INV cfg w \<Longrightarrow> INV cfg (w\<lparr>wait_monitor := x\<rparr>)"
  using pc_ok_cong[of "w\<lparr>wait_monitor := x\<rparr>" w] holder_cong[of "w\<lparr>wait_monitor := x\<rparr>" w]
  by (auto simp: INV_def word_ok_def mon_ok_def has_monitor_def)

lemma INV_exit_turn:
  assumes I: "INV cfg w" and pc: "pcs w t = ExitHave ob lw"
    and turn: "MonitorExit_turn cfg t ob lw cas_ok c w = Some (e, w')"
  shows "INV cfg w'"
proof -
  have r: "read_ok cfg w t ob lw" and v: "valid_tid t" and wf: "word_wf cfg lw"
    using INV_D(4)[OF I, of t] pc by (auto simp: read_ok_def)
  have nowait: "waits (pcs w t) j = 0" for j by (simp add: pc)
  have idle: "INV cfg (set_pc t Idle w)" using INV_pc[OF I] pc by simp
  have again: "INV cfg (set_pc t (ExitLoop ob) w)" using INV_pc[OF I] v pc by simp
  show ?thesis
  proof (cases "GetState (kUseReadBarrier cfg) lw")
    case kThinLocked
    show ?thesis
    proof (cases "ThinLockOwner lw = t")
      case own: True
      obtain v1 where v1: "(if ThinLockCount lw \<noteq> 0 then FromThinLockId t (ThinLockCount lw - 1) (GCState lw)
                   else Some (FromDefault (GCState lw))) = Some v1"
        using turn kThinLocked own by (auto simp: MonitorExit_turn_def split: option.splits)
      have "INV cfg (exited t ob (set_lock_word ob v1 w))" if c: "lock_words w ob = lw"
      proof -
        have h: "held w t ob = unat (ThinLockCount lw) + 1"
          using INV_D(5)[OF I, of t ob] kThinLocked own c by (simp add: holder_def hold_count_def)
        have n: "word_wf cfg v1" "GetState (kUseReadBarrier cfg) v1 = kThinLocked \<and> ThinLockOwner v1 = t
             \<and> unat (ThinLockCount lw) = unat (ThinLockCount v1) + 1
          \<or> GetState (kUseReadBarrier cfg) v1 = kUnlocked \<and> unat (ThinLockCount lw) = 0"
          using v1 thin_word_wf[of t "ThinLockCount lw - 1" lw v1 cfg] default_word_wf[OF wf] v wf
          by (auto simp: unat_minus_one unat_gt_0 split: if_splits)
        show ?thesis
          using INV_own_word[OF I disjI2[OF pc] c, of v1 "unat (ThinLockCount lw)"] kThinLocked own n h
          by (simp add: exited_def)
      qed
      with again turn v1 kThinLocked own current_word[OF I r kThinLocked own] show ?thesis
        by (auto simp: MonitorExit_turn_def split: if_splits)
    next
      case False
      then show ?thesis using turn kThinLocked idle by (auto simp: MonitorExit_turn_def)
    qed
  next
    case kFatLocked
    let ?i = "FatLockMonitor lw"
    obtain m where m: "monitors w ?i = Some m" "mon_obj m = Some ob" using r kFatLocked by (auto simp: read_ok_def has_monitor_def)
    note mo = INV_D(3)[OF I m(1), unfolded mon_ok_def]
    have held: "held w u ob = hold_count (mhold m) u" for u using INV_D(5)[OF I] holder_monitor(1)[OF I m] by simp
    show ?thesis
    proof (cases "owner m = Some t")
      case own: True
      then obtain sg m' where u: "Unlock t m = Inr (sg, m')" by (cases "lock_count m = 0") (auto simp: Unlock_def)
      have f: "mon_obj m' = mon_obj m" "num_waiters m' = num_waiters m" "hash_code m' = hash_code m"
        "owner m' = None \<and> lock_count m = 0 \<and> lock_count m' = 0 \<or> owner m' = Some t \<and> lock_count m' = lock_count m - 1 \<and> lock_count m \<noteq> 0"
        using u own mo by (auto simp: Unlock_def split: if_splits)
      have hc: "hold_count (mhold m') u = (if u = t then held w t ob - 1 else held w u ob)" for u
        unfolding held using f(4) own mo by (auto simp: hold_count_def mhold_def count_ok_def)
      have "INV cfg (set_pc t Idle (set_held t ob (held w t ob - 1) (set_monitor ?i m' w)))"
        by (rule INV_monitor_update[OF I m]) (use f own mo nowait m v hc in \<open>auto simp: count_ok_def\<close>)
      then have "INV cfg (exited t ob (set_monitor ?i m' w))" by (simp add: exited_def)
      then show ?thesis using turn kFatLocked m u INV_signal
        by (auto simp: MonitorExit_turn_def Let_def split: if_splits)
    next
      case False
      then show ?thesis using turn kFatLocked m idle by (auto simp: MonitorExit_turn_def Unlock_def)
    qed
  qed (use turn idle in \<open>auto simp: MonitorExit_turn_def\<close>)
qed

lemma INV_wait_turn:
  assumes I: "INV cfg w" and pc: "pcs w t = WaitLoop ob ms ns why" and fr: "fresh_monitor i w"
    and turn: "Wait_turn cfg t ob ms ns why cas_ok i c w = Some (e, w')"
  shows "INV cfg w'"
proof -
  let ?lw = "lock_words w ob"
  have v: "valid_tid t" using INV_D(4)[OF I, of t] pc by simp
  have nowait: "waits (pcs w t) j = 0" for j by (simp add: pc)
  have idle: "INV cfg (set_pc t Idle w)" using INV_pc[OF I] pc by simp
  show ?thesis
  proof (cases "GetState (kUseReadBarrier cfg) ?lw")
    case kThinLocked
    show ?thesis
    proof (cases "ThinLockOwner ?lw = t")
      case True
      then have inf: "Inflate cfg (\<lambda>t. False) t (Some t) ob 0 i cas_ok w = Some w'"
        using turn kThinLocked by (auto simp: Wait_turn_def)
      have "pcs w' t = pcs w t" using inf by (auto simp: Inflate_def Let_def split: option.splits bool.splits if_splits)
      then have "set_pc t (WaitLoop ob ms ns why) w' = w'" using pc by (simp add: set_pc_def fun_upd_idem)
      moreover have "INV cfg (set_pc t (WaitLoop ob ms ns why) w')"
        by (rule INV_inflate[OF I fr inf]) (use kThinLocked v nowait in auto)
      ultimately show ?thesis by simp
    qed (use turn kThinLocked idle in \<open>auto simp: Wait_turn_def\<close>)
  next
    case kFatLocked
    define i' where i': "i' = FatLockMonitor ?lw"
    obtain m where m: "monitors w i' = Some m" "mon_obj m = Some ob"
      using INV_D(1)[OF I, of ob] kFatLocked by (auto simp: word_ok_def has_monitor_def i')
    note mo = INV_D(3)[OF I m(1), unfolded mon_ok_def]
    have held: "held w u ob = hold_count (mhold m) u" for u using INV_D(5)[OF I] holder_monitor(1)[OF I m] by simp
    show ?thesis
    proof (cases "Wait_begin t ms ns why m")
      case (Inl e')
      then show ?thesis using turn kFatLocked m idle by (auto simp: Wait_turn_def i')
    next
      case (Inr fm)
      obtain f m' where fm: "fm = (f, m')" by (cases fm)
      have b: "owner m = Some t" "mon_obj m' = mon_obj m" "num_waiters m' = num_waiters m + 1" "hash_code m' = hash_code m"
        "owner m' = None" "lock_count m' = 0" "prev_lock_count f = lock_count m"
        using Inr fm by (auto simp: Wait_begin_def Let_def AppendToWaitSet_def split: if_splits)
      have hc: "hold_count (mhold m') u = (if u = t then 0 else held w u ob)" for u
        unfolding held using b by (auto simp: hold_count_def mhold_def)
      have inv: "INV cfg (set_pc t (WaitCv ob i' f) (set_held t ob 0 (set_monitor i' m' w)))"
      proof (rule INV_monitor_update[OF I m])
        show "pc_ok cfg (set_monitor i' m' w) t (WaitCv ob i' f)" using b m mo v by (simp add: has_monitor_def)
      qed (use b mo nowait m(2) hc in simp_all)
      have "w' = signal_contender c i' (set_held t ob 0 (set_pc t (WaitCv ob i' f)
          ((set_monitor i' m' w)\<lparr>wait_monitor := (wait_monitor w)(t \<mapsto> i')\<rparr>)))"
        using turn kFatLocked m Inr fm by (simp add: Wait_turn_def Let_def set_monitor_def i')
      also have "set_held t ob 0 (set_pc t (WaitCv ob i' f) ((set_monitor i' m' w)\<lparr>wait_monitor := (wait_monitor w)(t \<mapsto> i')\<rparr>))
          = (set_pc t (WaitCv ob i' f) (set_held t ob 0 (set_monitor i' m' w)))\<lparr>wait_monitor := (wait_monitor w)(t \<mapsto> i')\<rparr>"
        by (rule world.equality) (simp_all add: world_simps)
      finally show ?thesis using INV_signal[OF INV_wait_monitor[OF inv]] by simp
    qed
  qed (use turn idle in \<open>auto simp: Wait_turn_def\<close>)
qed

lemma INV_wait_end:
  assumes I: "INV cfg w" and pc: "pcs w t = WaitRelocked ob i f" and m0: "monitors w i = Some m"
  shows "INV cfg (set_pc t Idle (set_held t ob (nat (prev_lock_count f) + 1) (set_monitor i (Wait_end t f m) w)))"
proof -
  have p: "valid_tid t" "count_ok (prev_lock_count f)" "mon_obj m = Some ob" "owner m = Some t"
    using INV_D(4)[OF I, of t] pc m0 by auto
  note mo = INV_D(3)[OF I m0, unfolded mon_ok_def]
  have nw: "1 \<le> num_waiters m" using mo waits_le_sum[of "pcs w" t i] pc by simp
  have held: "held w u ob = hold_count (mhold m) u" for u using INV_D(5)[OF I] holder_monitor(1)[OF I m0 p(3)] by simp
  have hc: "hold_count (mhold (Wait_end t f m)) u = (if u = t then nat (prev_lock_count f) + 1 else held w u ob)" for u
    unfolding held using p by (auto simp: hold_count_def mhold_def Wait_end_def RemoveFromWaitSet_def)
  show ?thesis
    by (rule INV_monitor_update[OF I m0 p(3)])
       (use p mo nw pc hc in \<open>auto simp: Wait_end_def RemoveFromWaitSet_def\<close>)
qed

lemma INV_notify:
  assumes I: "INV cfg w" and d: "DoNotify cfg t ob all w = Some (Inr (woken, w'))"
  shows "INV cfg w'"
proof (cases "w' = w")
  case False
  define i' where i': "i' = FatLockMonitor (lock_words w ob)"
  obtain m m' where fat: "GetState (kUseReadBarrier cfg) (lock_words w ob) = kFatLocked" and m: "monitors w i' = Some m"
    and n: "(if all then NotifyAll else Notify) (wait_monitor w) t m = Inr (woken, m')"
    and w': "w' = w\<lparr>monitors := (monitors w)(i' \<mapsto> m')\<rparr>"
    using d False unfolding i' by (auto simp: DoNotify_def Let_def split: LockState.splits option.splits sum.splits if_splits)
  have mobj: "mon_obj m = Some ob" using INV_D(1)[OF I, of ob] fat m by (auto simp: word_ok_def has_monitor_def i')
  have f: "mon_obj m' = mon_obj m" "num_waiters m' = num_waiters m" "hash_code m' = hash_code m" "owner m' = owner m" "lock_count m' = lock_count m"
    using n by (auto simp: NotifyAll_def Notify_def split: if_splits prod.splits)
  note mo = INV_D(3)[OF I m, unfolded mon_ok_def]
  have held: "held w u ob = hold_count (mhold m) u" for u using INV_D(5)[OF I] holder_monitor(1)[OF I m mobj] by simp
  have pcok: "pc_ok cfg (set_monitor i' m' w) t (pcs w t)"
    by (rule pc_ok_frame[OF INV_D(4)[OF I] INV_D(2)[OF I]]) (use m f in \<open>auto simp: has_monitor_def\<close>)
  have "INV cfg (set_pc t (pcs w t) (set_held t ob (held w t ob) (set_monitor i' m' w)))"
  proof (rule INV_monitor_update[OF I m mobj])
    show "hold_count (mhold m') u = (if u = t then held w t ob else held w u ob)" for u
      using held[of u] f(4,5) by (cases "u = t") (simp_all add: mhold_def)
  qed (use f mo mobj pcok in simp_all)
  moreover have "set_pc t (pcs w t) (set_held t ob (held w t ob) (set_monitor i' m' w)) = w'"
    by (simp add: world_simps w' fun_upd_idem)
  ultimately show ?thesis by simp
qed (use I in simp)

lemma INV_init: "world_init w \<Longrightarrow> INV cfg w"
  by (auto simp: world_init_def INV_def word_ok_def word_wf_def LockWord_default_def GetState_def GCState_def
      holder_def hold_count_def)

lemma INV_hash_word:
  assumes I: "INV cfg w" and u: "GetState (kUseReadBarrier cfg) (lock_words w ob) = kUnlocked"
    and h: "FromHashCode h (GCState (lock_words w ob)) = Some lw"
  shows "INV cfg (set_lock_word ob lw w)"
proof -
  note hw = hash_word[OF h GCState_less]
  have wf: "word_wf cfg lw" using INV_D(2)[OF I, of ob] hw by (simp add: word_wf_def)
  have pcok: "pc_ok cfg (set_lock_word ob lw w) 0 (pcs w 0)"
    by (rule pc_ok_frame[OF INV_D(4)[OF I] INV_D(2)[OF I]]) (use u in \<open>auto simp: has_monitor_def\<close>)
  have "INV cfg (set_pc 0 (pcs w 0) (set_held 0 ob (held w 0 ob) (set_lock_word ob lw w)))"
  proof (rule INV_word_update[OF I])
    show "hold_count (holder cfg (set_lock_word ob lw w) ob) v = (if v = 0 then held w 0 ob else held w v ob)" for v
      using INV_D(5)[OF I, of v ob] u hw by (cases "v = 0") (simp_all add: holder_def hold_count_def)
  qed (use u hw wf pcok in simp_all)
  moreover have "set_pc 0 (pcs w 0) (set_held 0 ob (held w 0 ob) (set_lock_word ob lw w)) = set_lock_word ob lw w"
    by (simp add: world_simps fun_upd_idem)
  ultimately show ?thesis by simp
qed

lemma INV_monitor_hash:
  assumes I: "INV cfg w" and m: "monitors w i = Some m" and h: "h \<le> kMaxHash"
  shows "INV cfg (set_monitor i (snd (Monitor_GetHashCode h m)) w)"
proof (rule INV_I)
  let ?m = "snd (Monitor_GetHashCode h m)" and ?w = "set_monitor i (snd (Monitor_GetHashCode h m)) w"
  have f: "mon_obj ?m = mon_obj m" "owner ?m = owner m" "lock_count ?m = lock_count m" "num_waiters ?m = num_waiters m"
    "hash_code ?m \<le> kMaxHash"
    using h INV_D(3)[OF I m] by (auto simp: Monitor_GetHashCode_def mon_ok_def)
  have hm: "has_monitor ?w j x = has_monitor w j x" for j x using m f by (auto simp: has_monitor_def)
  { fix x show "word_ok cfg ?w x" using INV_D(1)[OF I, of x] hm by (simp add: word_ok_def) }
  { fix j mj assume "monitors ?w j = Some mj"
    then show "mon_ok cfg ?w j mj" using INV_D(3)[OF I, of j] INV_D(3)[OF I m] f by (cases "j = i") (auto simp: mon_ok_def) }
  { fix u have "pc_ok cfg ?w u (pcs w u)"
      by (rule pc_ok_frame[OF INV_D(4)[OF I] INV_D(2)[OF I]]) (use hm m f in auto)
    then show "pc_ok cfg ?w u (pcs ?w u)" by simp }
  fix u x
  have "holder cfg ?w x = holder cfg w x" using m f by (auto simp: holder_def split: LockState.splits)
  then show "held ?w u x = hold_count (holder cfg ?w x) u" using INV_D(5)[OF I, of u x] by simp
qed

lemma INV_release:
  assumes I: "INV cfg w" and m: "monitors w i = Some m" "mon_obj m = None"
  shows "INV cfg (w\<lparr>monitors := (monitors w)(i := None), monitor_list := xs\<rparr>)" (is "INV cfg ?w")
proof (rule INV_I)
  have hm: "has_monitor ?w j x = has_monitor w j x" for j x using m by (auto simp: has_monitor_def)
  { fix x show "word_ok cfg ?w x" using INV_D(1)[OF I, of x] hm by (simp add: word_ok_def) }
  { fix j mj assume "monitors ?w j = Some mj"
    then show "mon_ok cfg ?w j mj" using INV_D(3)[OF I, of j] by (auto simp: mon_ok_def split: if_splits) }
  { fix u
    have w0: "waits (pcs w u) i = 0" using waits_has_monitor[OF INV_D(4)[OF I], of u i] m by (force simp: has_monitor_def)
    have "pc_ok cfg ?w u (pcs w u)"
      by (rule pc_ok_frame[OF INV_D(4)[OF I] INV_D(2)[OF I]]) (use hm w0 in auto)
    then show "pc_ok cfg ?w u (pcs ?w u)" by simp }
  fix u x
  have "GetState (kUseReadBarrier cfg) (lock_words w x) = kFatLocked \<Longrightarrow> FatLockMonitor (lock_words w x) \<noteq> i"
    using INV_D(1)[OF I, of x] m by (auto simp: word_ok_def has_monitor_def)
  then have "holder cfg ?w x = holder cfg w x" by (auto simp: holder_def split: LockState.splits)
  then show "held ?w u x = hold_count (holder cfg ?w x) u" using INV_D(5)[OF I, of u x] by simp
qed

lemma read_ok_now: "INV cfg w \<Longrightarrow> valid_tid t \<Longrightarrow> read_ok cfg w t ob (lock_words w ob)"
  using INV_D(1)[of cfg w ob] by (simp add: read_ok_def word_ok_def)

lemma INV_enter_inflate:
  assumes I: "INV cfg w" and pc: "pcs w t = EnterInflate ob b k lw" and fr: "fresh_monitor i w"
    and s: "sus \<longrightarrow> suspendable (pcs w (ThinLockOwner lw))"
    and r: "InflateThinLocked cfg t ob lw 0 sus i cas_ok w = Some w'"
  shows "INV cfg (set_pc t (EnterLoop ob b k) w')"
proof -
  have v: "valid_tid t" "ThinLockOwner lw \<noteq> t" using INV_D(4)[OF I, of t] pc by auto
  show ?thesis
  proof (cases "w' = w")
    case True
    then show ?thesis using INV_pc[OF I, of "EnterLoop ob b k" t] pc v by simp
  next
    case False
    then have "sus" "GetState (kUseReadBarrier cfg) (lock_words w ob) = kThinLocked"
      "Inflate cfg (\<lambda>t. t = ThinLockOwner lw) t (Some (ThinLockOwner lw)) ob 0 i cas_ok w = Some w'"
      using r v by (auto simp: InflateThinLocked_def Let_def split: if_splits)
    then show ?thesis using s v pc by (intro INV_inflate[OF I fr]) auto
  qed
qed

lemma InflateThin_pcs: "InflateThinLocked cfg t ob lw hash sus i cas_ok w = Some w' \<Longrightarrow> pcs w' = pcs w"
  by (auto simp: InflateThinLocked_def Inflate_def Let_def split: option.splits bool.splits if_splits)

text \<open>The hash code of an object with a thin lock: the thread inflates its own lock, or that of a suspended thread after
  reading the word again.\<close>

lemma INV_hash_inflate:
  assumes I: "INV cfg w" and pc: "pcs w t = Idle" and fr: "fresh_monitor i w" and h: "h \<le> kMaxHash"
    and st: "GetState (kUseReadBarrier cfg) lw = kThinLocked" "ThinLockOwner lw = t \<longrightarrow> lw = lock_words w ob"
    and s: "sus \<longrightarrow> suspendable (pcs w (ThinLockOwner lw))"
    and r: "InflateThinLocked cfg t ob lw h sus i cas_ok w = Some w'"
  shows "INV cfg w'"
proof (cases "w' = w")
  case False
  then obtain q where "GetState (kUseReadBarrier cfg) (lock_words w ob) = kThinLocked"
    "Inflate cfg q t (Some (ThinLockOwner lw)) ob h i cas_ok w = Some w'" "ThinLockOwner lw \<noteq> t \<longrightarrow> sus"
    using r st by (auto simp: InflateThinLocked_def Let_def split: if_splits)
  then have "INV cfg (set_pc t Idle w')" using s pc h by (intro INV_inflate[OF I fr]) auto
  moreover have "set_pc t Idle w' = w'" using pc InflateThin_pcs[OF r] by (simp add: set_pc_def fun_upd_idem)
  ultimately show ?thesis by simp
qed (use I in simp)

lemma lock_pre_ok:
  "INV cfg w \<Longrightarrow> pcs w t = LockPre ob i k \<or> pcs w t = LockCv ob i k \<or> pcs w t = LockWoken ob i k \<Longrightarrow>
     valid_tid t \<and> cont_ok k \<and> has_monitor w i ob"
  using INV_D(4)[of cfg w t] by (auto simp: cont_ok_def split: lock_cont.splits)

lemma INV_step:
  assumes "mstep cfg w w'" and I: "INV cfg w"
  shows "INV cfg w'"
  using assms(1)
proof cases
  case (call_enter t ob b) then show ?thesis using INV_pc[OF I] by simp
next
  case (enter_read t ob b n) then show ?thesis using INV_pc[OF I] read_ok_now[OF I] INV_D(4)[OF I, of t] by simp
next
  case (enter_turn t ob b n lw i c) then show ?thesis using INV_enter_turn[OF I] by simp
next
  case (enter_inflate t ob b n lw i s c w1) then show ?thesis using INV_enter_inflate[OF I] by simp
next
  case (lock_pre t ob i k m)
  then show ?thesis using INV_pc[OF I, of _ t] INV_D(4)[OF I, of t] by simp
next
  case (lock_spurious t ob i k) then show ?thesis using INV_pc[OF I, of _ t] INV_D(4)[OF I, of t] by simp
next
  case (lock_again t ob i k m r)
  have ok: "valid_tid t" "cont_ok k" "mon_obj m = Some ob"
    using lock_pre_ok[OF I, of t ob i k] lock_again by (auto simp: has_monitor_def)
  have wt: "waits (pcs w t) i = cont_waits k + 1" using lock_again by (simp add: cont_waits_def split: lock_cont.splits)
  then have "cont_waits k + 1 \<le> num_waiters m"
    using INV_D(3)[OF I lock_again(3)] waits_le_sum[of "pcs w" t i] by (simp add: mon_ok_def)
  then show ?thesis unfolding lock_again(1)
    by (intro INV_lock_result[OF I lock_again(3) ok(3), where n="num_waiters m - 1"])
       (use lock_again ok wt in \<open>auto simp: Lock_again_def\<close>)
next
  case (call_exit t ob) then show ?thesis using INV_pc[OF I] by simp
next
  case (exit_read t ob) then show ?thesis using INV_pc[OF I] read_ok_now[OF I] INV_D(4)[OF I, of t] by simp
next
  case (exit_turn t ob lw c cas e) then show ?thesis using INV_exit_turn[OF I] by blast
next
  case (call_wait t ob ms ns why) then show ?thesis using INV_pc[OF I] by simp
next
  case (wait_turn t ob ms ns why i c cas e) then show ?thesis using INV_wait_turn[OF I] by blast
next
  case (wait_wake t ob i f) then show ?thesis using INV_pc[OF I, of _ t] INV_D(4)[OF I, of t] by simp
next
  case (wait_reset t ob i f)
  have "INV cfg (set_pc t (WaitReset ob i f) w)" using wait_reset INV_pc[OF I, of _ t] INV_D(4)[OF I, of t] by simp
  then have "INV cfg ((set_pc t (WaitReset ob i f) w)\<lparr>wait_monitor := (wait_monitor w)(t := None)\<rparr>)" by (rule INV_wait_monitor)
  moreover have "w' = (set_pc t (WaitReset ob i f) w)\<lparr>wait_monitor := (wait_monitor w)(t := None)\<rparr>"
    unfolding wait_reset(1) by (rule world.equality) (simp_all add: world_simps)
  ultimately show ?thesis by simp
next
  case (wait_relock t ob i f m r)
  have ok: "valid_tid t" "cont_ok (InWait f)" "mon_obj m = Some ob"
    using INV_D(4)[OF I, of t] wait_relock by (auto simp: has_monitor_def cont_ok_def)
  show ?thesis unfolding wait_relock(1)
    by (rule INV_lock_result[OF I wait_relock(3) ok(3), where n="num_waiters m"])
       (use wait_relock ok in \<open>auto simp: cont_waits_def\<close>)
next
  case (wait_end t ob i f m) then show ?thesis using INV_wait_end[OF I] by blast
next
  case (notify t ob all woken w1) then show ?thesis using INV_wake_all[OF INV_notify[OF I]] by blast
next
  case (gc_bits lw ob) then show ?thesis using INV_word_same[OF I] by blast
next
  case (identity_hash ob h lw) then show ?thesis using INV_hash_word[OF I] by blast
next
  case (identity_hash_thin t i lw ob s h c) then show ?thesis using INV_hash_inflate[OF I] by blast
next
  case (monitor_hash i m h) then show ?thesis using INV_monitor_hash[OF I] by blast
next
  case (deflate ob b) then show ?thesis using INV_deflate[OF I] by blast
next
  case (release i m) then show ?thesis using INV_release[OF I] by blast
qed

lemma INV_reachable: "reachable cfg w \<Longrightarrow> INV cfg w"
  by (induction rule: reachable.induct) (auto intro: INV_init INV_step)

end
