(* ===== verification/Monitor_Progress.thy ===== *)
theory Monitor_Progress
  imports Monitor_Invariant
begin

text \<open>Two consequences of the invariant of the monitor code, for every interleaving: no turn of a thread fails a
  check of the code, and no wakeup of a contender is lost.\<close>

section \<open>No step aborts\<close>

lemma valid_thin_Some: "valid_tid t \<Longrightarrow> c \<le> kThinLockMaxCount \<Longrightarrow> \<exists>v. FromThinLockId t c g = Some v"
  by (simp add: FromThinLockId_def valid_tid_def)

lemma Inflate_not_None:
  assumes I: "INV cfg w" and fr: "fresh_monitor i w"
    and own: "own = Some t \<and> GetState (kUseReadBarrier cfg) (lock_words w ob) = kThinLocked \<and> ThinLockOwner (lock_words w ob) = t
      \<or> own = None \<and> (GetState (kUseReadBarrier cfg) (lock_words w ob) = kFatLocked
          \<or> GetState (kUseReadBarrier cfg) (lock_words w ob) = kHashCode \<and> LockWord_GetHashCode (lock_words w ob) = hash)"
  shows "Inflate cfg sus t own ob hash i cas_ok w \<noteq> None"
proof -
  have "GetState (kUseReadBarrier cfg) (LockWord_fat i (GCState (lock_words w ob))) = kFatLocked"
    using fat_word(3)[OF _ GCState_less] fr by (simp add: fresh_monitor_def)
  then show ?thesis using own
    by (auto simp: Inflate_def Monitor_new_def Install_def Let_def split: if_splits)
qed

lemma TryLockLocked_not_None:
  assumes "INV cfg w" "monitors w i = Some m" "owner m = Some t \<Longrightarrow> lock_count m + 1 < 2 ^ 31"
  shows "TryLockLocked cfg t (m\<lparr>num_waiters := n\<rparr>) \<noteq> None"
  using INV_D(3)[OF assms(1,2)] assms(3) by (auto simp: TryLockLocked_def mon_ok_def Let_def)

lemma held_bound:
  assumes I: "INV cfg w" and m: "monitors w j = Some m" "mon_obj m = Some ob" "owner m = Some t" and h: "held w t ob < 2 ^ 31"
  shows "lock_count m + 1 < 2 ^ 31"
  using INV_D(5)[OF I, of t ob] INV_D(3)[OF I m(1)] h holder_monitor(1)[OF I m(1,2)] m(3)
  by (simp add: hold_count_def mhold_def mon_ok_def count_ok_def)

lemma Lock_attempt_not_None: "TryLockLocked cfg t m \<noteq> None \<Longrightarrow> Lock_attempt cfg t m \<noteq> None"
  by (auto simp: Lock_attempt_def split: bool.splits)

lemma enter_not_None:
  assumes I: "INV cfg w" and fr: "fresh_monitor i w" and pc: "pcs w t = EnterHave ob b n lw"
    and bnd: "\<And>ob. held w t ob < 2 ^ 31"
  shows "MonitorEnter_turn cfg t ob b n lw cas_ok i w \<noteq> None"
proof -
  have r: "read_ok cfg w t ob lw" and v: "valid_tid t" and wf: "word_wf cfg lw"
    using INV_D(4)[OF I, of t] pc by (auto simp: read_ok_def)
  note same = same_word_fields[OF INV_D(2)[OF I, of ob] wf]
  show ?thesis
  proof (cases "GetState (kUseReadBarrier cfg) lw")
    case kUnlocked
    then show ?thesis using valid_thin_Some[OF v, of 0 "GCState lw"] by (auto simp: MonitorEnter_turn_def Let_def)
  next
    case kThinLocked
    then show ?thesis
      using valid_thin_Some[OF v, of "ThinLockCount lw + 1" "GCState lw"] same r Inflate_not_None[OF I fr, of "Some t" t ob]
      by (auto simp: MonitorEnter_turn_def Let_def InflateThinLocked_def read_ok_def)
  next
    case kFatLocked
    then obtain m where m: "monitors w (FatLockMonitor lw) = Some m" "mon_obj m = Some ob"
      using r by (auto simp: read_ok_def has_monitor_def)
    have "TryLockLocked cfg t (m\<lparr>num_waiters := num_waiters m\<rparr>) \<noteq> None"
      using TryLockLocked_not_None[OF I m(1) held_bound[OF I m _ bnd]] .
    then have "TryLockLocked cfg t m \<noteq> None" by simp
    with Lock_attempt_not_None[OF this] m(1) kFatLocked show ?thesis
      by (auto simp: MonitorEnter_turn_def TryLock_def Let_def)
  next
    case kHashCode
    then show ?thesis using r same Inflate_not_None[OF I fr, of None t ob "LockWord_GetHashCode lw"]
      by (auto simp: MonitorEnter_turn_def read_ok_def)
  next
    case kForwardingAddress
    then show ?thesis using wf by (simp add: word_wf_def)
  qed
qed

lemma exit_not_None:
  assumes I: "INV cfg w" and pc: "pcs w t = ExitHave ob lw"
  shows "MonitorExit_turn cfg t ob lw cas_ok c w \<noteq> None"
proof -
  have r: "read_ok cfg w t ob lw" and v: "valid_tid t" and wf: "word_wf cfg lw"
    using INV_D(4)[OF I, of t] pc by (auto simp: read_ok_def)
  have "ThinLockCount lw - 1 \<le> kThinLockMaxCount" if "ThinLockCount lw \<noteq> 0"
    using ThinLockCount_less[of lw] that by (simp add: word_le_mask_iff unat_minus_one)
  note c = valid_thin_Some[OF v this, of "GCState lw"]
  show ?thesis
  proof (cases "GetState (kUseReadBarrier cfg) lw")
    case kThinLocked
    then show ?thesis using c by (cases "ThinLockCount lw = 0") (auto simp: MonitorExit_turn_def)
  next
    case kFatLocked
    then show ?thesis using r by (auto simp: MonitorExit_turn_def read_ok_def has_monitor_def Let_def split: sum.splits)
  qed (use wf in \<open>auto simp: MonitorExit_turn_def word_wf_def\<close>)
qed

lemma wait_not_None:
  assumes I: "INV cfg w" and fr: "fresh_monitor i w" and pc: "pcs w t = WaitLoop ob ms ns why"
  shows "Wait_turn cfg t ob ms ns why cas_ok i c w \<noteq> None"
proof (cases "GetState (kUseReadBarrier cfg) (lock_words w ob)")
  case kThinLocked
  then show ?thesis using Inflate_not_None[OF I fr, of "Some t" t ob] by (auto simp: Wait_turn_def)
next
  case kFatLocked
  then show ?thesis using INV_D(1)[OF I, of ob]
    by (auto simp: Wait_turn_def word_ok_def has_monitor_def Let_def split: sum.splits)
qed (use INV_D(2)[OF I, of ob] in \<open>auto simp: Wait_turn_def word_wf_def\<close>)

lemma deflate_not_None:
  assumes I: "INV cfg w"
  shows "Deflate cfg ob w \<noteq> None"
proof (cases "GetState (kUseReadBarrier cfg) (lock_words w ob) = kFatLocked")
  case True
  then obtain m where m: "monitors w (FatLockMonitor (lock_words w ob)) = Some m"
    using INV_D(1)[OF I, of ob] by (auto simp: word_ok_def has_monitor_def)
  note mo = INV_D(3)[OF I m, unfolded mon_ok_def]
  have "\<exists>v. FromHashCode (hash_code m) (GCState (lock_words w ob)) = Some v" using mo by (simp add: FromHashCode_def)
  moreover have "\<exists>v. FromThinLockId t (word_of_int (lock_count m)) (GCState (lock_words w ob)) = Some v"
    if "owner m = Some t" "word_of_int (lock_count m) \<le> kThinLockMaxCount" for t
    using valid_thin_Some that mo by blast
  ultimately show ?thesis using True m
    by (auto simp: Deflate_def Let_def not_less[symmetric] split: option.splits)
qed (simp add: Deflate_def Let_def)

section \<open>No wakeup is lost\<close>

definition asleep :: "world \<Rightarrow> mid \<Rightarrow> bool" where
  "asleep w i \<longleftrightarrow> (\<exists>u ob k. pcs w u = LockCv ob i k)"

definition awake :: "world \<Rightarrow> mid \<Rightarrow> bool" where
  "awake w i \<longleftrightarrow> (\<exists>u ob k. pcs w u = LockWoken ob i k)"

definition WAKE :: "world \<Rightarrow> bool" where
  "WAKE w \<longleftrightarrow> (\<forall>i m. monitors w i = Some m \<and> owner m = None \<and> asleep w i \<longrightarrow> awake w i)"

definition is_cv :: "pc \<Rightarrow> bool" where
  "is_cv p \<longleftrightarrow> (\<exists>ob i k. p = LockCv ob i k)"

definition is_woken :: "pc \<Rightarrow> bool" where
  "is_woken p \<longleftrightarrow> (\<exists>ob i k. p = LockWoken ob i k)"

lemma cv_simps [simp]: "is_cv (LockCv ob i k)" "\<not> is_cv Idle" "\<not> is_cv (EnterLoop ob b n)" "\<not> is_cv (EnterHave ob b n lw)"
  "\<not> is_cv (EnterInflate ob b n lw)" "\<not> is_cv (LockPre ob i k)" "\<not> is_cv (LockWoken ob i k)" "\<not> is_cv (WaitLoop ob ms ns why)"
  "\<not> is_cv (WaitCv ob i f)" "\<not> is_cv (WaitWoken ob i f)" "\<not> is_cv (WaitReset ob i f)" "\<not> is_cv (WaitRelocked ob i f)"
  "\<not> is_cv (ExitLoop ob)" "\<not> is_cv (ExitHave ob lw)"
  "is_woken (LockWoken ob i k)" "\<not> is_woken Idle" "\<not> is_woken (EnterLoop ob b n)" "\<not> is_woken (EnterHave ob b n lw)"
  "\<not> is_woken (EnterInflate ob b n lw)" "\<not> is_woken (LockPre ob i k)" "\<not> is_woken (LockCv ob i k)" "\<not> is_woken (WaitLoop ob ms ns why)"
  "\<not> is_woken (WaitCv ob i f)" "\<not> is_woken (WaitWoken ob i f)" "\<not> is_woken (WaitReset ob i f)" "\<not> is_woken (WaitRelocked ob i f)"
  "\<not> is_woken (ExitLoop ob)" "\<not> is_woken (ExitHave ob lw)"
  by (auto simp: is_cv_def is_woken_def)

text \<open>A step of a thread that is not awake and does not fall asleep, and that disowns no monitor.\<close>

lemma WAKE_move:
  assumes W: "WAKE w" and "pcs w' = (pcs w)(t := p)" "\<not> is_cv p" "\<not> is_woken (pcs w t)"
    and own: "\<And>i m. monitors w' i = Some m \<Longrightarrow> owner m = None \<Longrightarrow>
      (\<exists>m. monitors w i = Some m \<and> owner m = None) \<or> \<not> asleep w i"
  shows "WAKE w'"
  unfolding WAKE_def
proof (intro allI impI)
  fix i m assume a: "monitors w' i = Some m \<and> owner m = None \<and> asleep w' i"
  then have "asleep w i" using assms(2,3) by (auto simp: asleep_def is_cv_def split: if_splits)
  with own[of i m] a W have "awake w i" by (auto simp: WAKE_def)
  then obtain u ob k where u: "pcs w u = LockWoken ob i k" by (auto simp: awake_def)
  with assms(4) have "u \<noteq> t" by auto
  with u assms(2) show "awake w' i" unfolding awake_def by (intro exI[of _ u]) simp
qed

lemma asleep_monitor: "INV cfg w \<Longrightarrow> asleep w i \<Longrightarrow> \<exists>m ob. monitors w i = Some m \<and> mon_obj m = Some ob"
proof -
  assume I: "INV cfg w" and "asleep w i"
  then obtain u ob k where "pcs w u = LockCv ob i k" by (auto simp: asleep_def)
  with INV_D(4)[OF I, of u] show ?thesis by (auto simp: has_monitor_def)
qed

lemma Inflate_effect:
  assumes "Inflate cfg sus t own ob hash i cas_ok w = Some w'"
  shows "pcs w' = pcs w" "j \<noteq> i \<Longrightarrow> monitors w' j = monitors w j"
  using assms by (auto simp: Inflate_def Let_def split: option.splits bool.splits if_splits)

lemma InflateThin_effect:
  assumes "InflateThinLocked cfg t ob lw hash sus i cas_ok w = Some w'"
  shows "pcs w' = pcs w" "j \<noteq> i \<Longrightarrow> monitors w' j = monitors w j"
  using assms Inflate_effect by (auto simp: InflateThinLocked_def Let_def split: if_splits)

lemma WAKE_inflate:
  assumes W: "WAKE w" and I: "INV cfg w" and fr: "fresh_monitor i w" and "\<not> is_cv p" "\<not> is_woken (pcs w t)"
    and "pcs w' = pcs w" "\<And>j. j \<noteq> i \<Longrightarrow> monitors w' j = monitors w j"
  shows "WAKE (set_pc t p w')"
proof (rule WAKE_move[OF W])
  fix j m assume "monitors (set_pc t p w') j = Some m" "owner m = None"
  then show "(\<exists>m. monitors w j = Some m \<and> owner m = None) \<or> \<not> asleep w j"
    using assms(7)[of j] asleep_monitor[OF I, of j] fr by (cases "j = i") (auto simp: fresh_monitor_def)
qed (use assms in auto)

lemma enter_turn_effect:
  assumes "MonitorEnter_turn cfg t ob b n lw cas_ok i w = Some w'"
  shows "(\<exists>w1 k. w' = set_pc t (EnterLoop ob b k) w1 \<and> pcs w1 = pcs w \<and> (\<forall>j. j \<noteq> i \<longrightarrow> monitors w1 j = monitors w j))
    \<or> (\<exists>p. pcs w' = (pcs w)(t := p) \<and> \<not> is_cv p \<and> (\<forall>j m. monitors w' j = Some m \<and> owner m = None \<longrightarrow> monitors w j = Some m))"
proof (cases "GetState (kUseReadBarrier cfg) lw")
  case kFatLocked
  show ?thesis
  proof (cases b)
    case True
    then obtain m ok m' where m: "monitors w (FatLockMonitor lw) = Some m" "TryLockLocked cfg t m = Some (ok, m')"
      "w' = (if ok then entered t ob (set_monitor (FatLockMonitor lw) m' w) else set_pc t Idle (set_monitor (FatLockMonitor lw) m' w))"
      using assms kFatLocked by (auto simp: MonitorEnter_turn_def TryLock_def Let_def split: option.splits)
    then show ?thesis using TryLockLocked_Some(5,6)[OF m(2)]
      by (intro disjI2 exI[of _ Idle], cases ok) (auto simp: entered_def)
  next
    case False
    then obtain m ok m' where m: "monitors w (FatLockMonitor lw) = Some m" "Lock_attempt cfg t m = Some (ok, m')"
      "w' = (if ok then entered t ob (set_monitor (FatLockMonitor lw) m' w)
             else set_pc t (LockPre ob (FatLockMonitor lw) InEnter) (set_monitor (FatLockMonitor lw) m' w))"
      using assms kFatLocked by (auto simp: MonitorEnter_turn_def Let_def split: option.splits)
    then show ?thesis using Lock_attempt_Some(4,5)[OF m(2)]
      by (intro disjI2 exI[of _ "if ok then Idle else LockPre ob (FatLockMonitor lw) InEnter"], cases ok)
         (auto simp: entered_def)
  qed
next
  case kHashCode
  then obtain w1 where w1: "Inflate cfg (\<lambda>t. False) t None ob (LockWord_GetHashCode lw) i cas_ok w = Some w1"
    "w' = set_pc t (EnterLoop ob b n) w1"
    using assms by (auto simp: MonitorEnter_turn_def)
  show ?thesis by (intro disjI1 exI[of _ w1] exI[of _ n]) (simp add: w1(2) Inflate_effect[OF w1(1)])
next
  case kThinLocked
  show ?thesis
  proof (cases "ThinLockOwner lw = t \<and> \<not> ThinLockCount lw + 1 \<le> kThinLockMaxCount")
    case True
    then obtain w1 where w1: "InflateThinLocked cfg t ob lw 0 False i cas_ok w = Some w1" "w' = set_pc t (EnterLoop ob b n) w1"
      using assms kThinLocked by (auto simp: MonitorEnter_turn_def Let_def)
    show ?thesis by (intro disjI1 exI[of _ w1] exI[of _ n]) (simp add: w1(2) InflateThin_effect[OF w1(1)])
  next
    case False
    with assms kThinLocked have "monitors w' = monitors w \<and> (\<exists>p. pcs w' = (pcs w)(t := p) \<and> \<not> is_cv p)"
      by (auto simp: MonitorEnter_turn_def Let_def entered_def split: if_splits option.splits)
    then show ?thesis by auto
  qed
next
  case kUnlocked
  then show ?thesis using assms
    by (auto simp: MonitorEnter_turn_def Let_def entered_def split: if_splits option.splits)
qed (use assms in \<open>auto simp: MonitorEnter_turn_def\<close>)

lemma WAKE_signal:
  assumes W: "WAKE w" and c: "contender_choice c i w" and w1: "pcs w1 = (pcs w)(t := p)" "\<not> is_cv p" "\<not> is_cv (pcs w t)" "\<not> is_woken (pcs w t)"
    and own: "\<And>j. j \<noteq> i \<Longrightarrow> monitors w1 j = monitors w j"
  shows "WAKE (signal_contender c i w1)"
proof (cases c)
  case None
  then have "\<not> asleep w i" using c by (simp add: contender_choice_def asleep_def)
  moreover have "WAKE w1"
    by (rule WAKE_move[OF W w1(1,2,4)]) (use own calculation in metis)
  ultimately show ?thesis using None by (simp add: signal_contender_def)
next
  case (Some u)
  then obtain ob k where u: "pcs w u = LockCv ob i k" using c by (auto simp: contender_choice_def)
  then have ut: "u \<noteq> t" using w1(3) by auto
  then have e: "signal_contender c i w1 = set_pc u (LockWoken ob i k) w1" using Some u w1(1) by (simp add: signal_contender_def)
  show ?thesis unfolding e WAKE_def
  proof (intro allI impI)
    fix j m assume a: "monitors (set_pc u (LockWoken ob i k) w1) j = Some m \<and> owner m = None \<and> asleep (set_pc u (LockWoken ob i k) w1) j"
    show "awake (set_pc u (LockWoken ob i k) w1) j"
    proof (cases "j = i")
      case True
      then show ?thesis by (auto simp: awake_def intro!: exI[of _ u])
    next
      case False
      obtain v ob' k' where v: "pcs (set_pc u (LockWoken ob i k) w1) v = LockCv ob' j k'" using a by (auto simp: asleep_def)
      then have "pcs w v = LockCv ob' j k'" using w1 ut by (auto simp: is_cv_def split: if_splits)
      then have "asleep w j" by (auto simp: asleep_def)
      then have "awake w j" using W a own[OF False] by (simp add: WAKE_def)
      then obtain x ob' k' where x: "pcs w x = LockWoken ob' j k'" by (auto simp: awake_def)
      then have "x \<noteq> t" "x \<noteq> u" using w1(4) u by auto
      then show ?thesis using x w1(1) unfolding awake_def by (intro exI[of _ x]) simp
    qed
  qed
qed

lemma WAKE_cong: "WAKE w \<Longrightarrow> pcs w' = pcs w \<Longrightarrow>
    (\<And>i m. monitors w' i = Some m \<Longrightarrow> owner m = None \<Longrightarrow> \<exists>m. monitors w i = Some m \<and> owner m = None) \<Longrightarrow> WAKE w'"
  unfolding WAKE_def asleep_def awake_def by metis

lemma WAKE_wake: "WAKE w \<Longrightarrow> WAKE (wake_waiter u w)"
  using WAKE_move[of w "wake_waiter u w" u] by (auto simp: wake_waiter_def split: pc.splits)

lemma WAKE_wake_all: "WAKE w \<Longrightarrow> WAKE (fold wake_waiter us w)"
  by (induction us arbitrary: w) (auto intro: WAKE_wake)

text \<open>A contender that is awake tries the lock: afterwards the monitor is owned.\<close>

lemma WAKE_lock_result:
  assumes W: "WAKE w" and m: "monitors w i = Some m" and r: "Lock_attempt cfg t (m\<lparr>num_waiters := n\<rparr>) = Some r"
    and pc: "pcs w t = LockWoken ob i k \<or> \<not> is_woken (pcs w t)"
  shows "WAKE (lock_result t ob i k r w)"
proof -
  obtain ok m' where rr: "r = (ok, m')" by (cases r)
  have o: "owner m' \<noteq> None" using Lock_attempt_Some(4,5)[OF r[unfolded rr]] by (cases ok) auto
  obtain p where p: "pcs (lock_result t ob i k r w) = (pcs w)(t := p)" "\<not> is_cv p"
    by (cases ok; cases k) (auto simp: lock_result_def rr lock_done_def entered_def)
  have mon: "monitors (lock_result t ob i k r w) = (monitors w)(i \<mapsto> m')"
    by (simp add: lock_result_def rr lock_done_def entered_def split: lock_cont.splits)
  show ?thesis unfolding WAKE_def
  proof (intro allI impI)
    fix j mj assume a: "monitors (lock_result t ob i k r w) j = Some mj \<and> owner mj = None \<and> asleep (lock_result t ob i k r w) j"
    then have j: "j \<noteq> i" "monitors w j = Some mj" using mon o by (auto split: if_splits)
    have "asleep w j" using a p by (auto simp: asleep_def is_cv_def split: if_splits)
    then obtain x ob' k' where x: "pcs w x = LockWoken ob' j k'" using W j a by (auto simp: WAKE_def awake_def)
    then have "x \<noteq> t" using pc j(1) by auto
    then show "awake (lock_result t ob i k r w) j" using x p(1) unfolding awake_def by (intro exI[of _ x]) simp
  qed
qed

lemma exit_turn_effect:
  assumes "MonitorExit_turn cfg t ob lw cas_ok c w = Some (e, w')"
  shows "(\<exists>p. pcs w' = (pcs w)(t := p) \<and> \<not> is_cv p \<and> (\<forall>j m. monitors w' j = Some m \<and> owner m = None \<longrightarrow> monitors w j = Some m))
    \<or> (\<exists>w1. w' = signal_contender c (FatLockMonitor lw) w1 \<and> pcs w1 = (pcs w)(t := Idle) \<and> (\<forall>j. j \<noteq> FatLockMonitor lw \<longrightarrow> monitors w1 j = monitors w j))"
proof (cases "GetState (kUseReadBarrier cfg) lw")
  case kFatLocked
  then obtain m where m: "monitors w (FatLockMonitor lw) = Some m" using assms by (auto simp: MonitorExit_turn_def split: option.splits)
  show ?thesis
  proof (cases "owner m = Some t \<and> lock_count m = 0")
    case True
    then show ?thesis using assms kFatLocked m
      by (intro disjI2) (auto simp: MonitorExit_turn_def Unlock_def exited_def Let_def)
  next
    case False
    then show ?thesis using assms kFatLocked m
      by (intro disjI1 exI[of _ Idle]) (auto simp: MonitorExit_turn_def Unlock_def exited_def Let_def split: if_splits)
  qed
qed (use assms in \<open>auto simp: MonitorExit_turn_def exited_def split: if_splits option.splits\<close>)

lemma wait_turn_effect:
  assumes "Wait_turn cfg t ob ms ns why cas_ok i c w = Some (e, w')"
  shows "(\<exists>p. pcs w' = (pcs w)(t := p) \<and> p \<in> {Idle, pcs w t} \<and> (\<forall>j. j \<noteq> i \<longrightarrow> monitors w' j = monitors w j))
    \<or> (\<exists>w1 f. w' = signal_contender c (FatLockMonitor (lock_words w ob)) w1
        \<and> pcs w1 = (pcs w)(t := WaitCv ob (FatLockMonitor (lock_words w ob)) f)
        \<and> (\<forall>j. j \<noteq> FatLockMonitor (lock_words w ob) \<longrightarrow> monitors w1 j = monitors w j))"
proof (cases "GetState (kUseReadBarrier cfg) (lock_words w ob)")
  case kThinLocked
  show ?thesis
  proof (cases "ThinLockOwner (lock_words w ob) = t")
    case True
    then have "Inflate cfg (\<lambda>t. False) t (Some t) ob 0 i cas_ok w = Some w'"
      using assms kThinLocked by (auto simp: Wait_turn_def)
    from Inflate_effect[OF this] show ?thesis by (intro disjI1 exI[of _ "pcs w t"]) (simp add: fun_upd_idem)
  qed (use assms kThinLocked in \<open>auto simp: Wait_turn_def\<close>)
next
  case kFatLocked
  then obtain m where m: "monitors w (FatLockMonitor (lock_words w ob)) = Some m" using assms by (auto simp: Wait_turn_def Let_def split: option.splits)
  show ?thesis
  proof (cases "Wait_begin t ms ns why m")
    case (Inl x) then show ?thesis using assms kFatLocked m by (auto simp: Wait_turn_def)
  next
    case (Inr fm)
    define j where "j = FatLockMonitor (lock_words w ob)"
    define w0 where "w0 = set_monitor j (snd fm) w"
    define w1 where "w1 = set_held t ob 0 (set_pc t (WaitCv ob j (fst fm)) (w0\<lparr>wait_monitor := (wait_monitor w0)(t \<mapsto> j)\<rparr>))"
    have "w' = signal_contender c j w1" using assms kFatLocked m Inr
      by (auto simp: Wait_turn_def Let_def w1_def w0_def j_def split: prod.splits)
    moreover have "pcs w1 = (pcs w)(t := WaitCv ob j (fst fm))" "\<forall>l. l \<noteq> j \<longrightarrow> monitors w1 l = monitors w l"
      by (simp_all add: w1_def w0_def)
    ultimately show ?thesis unfolding j_def by blast
  qed
qed (use assms in \<open>auto simp: Wait_turn_def\<close>)

lemma WAKE_pc: "WAKE w \<Longrightarrow> \<not> is_cv p \<Longrightarrow> \<not> is_woken (pcs w t) \<Longrightarrow> WAKE (set_pc t p w)"
  by (rule WAKE_move[of w _ t p]) auto

lemma WAKE_wait_monitor: "WAKE w \<Longrightarrow> WAKE (w\<lparr>wait_monitor := x\<rparr>)"
  by (rule WAKE_cong) auto

lemma WAKE_pre:
  assumes W: "WAKE w" and pc: "pcs w t = LockPre ob i k" and m: "monitors w i = Some m" "Lock_must_wait m"
  shows "WAKE (set_pc t (LockCv ob i k) w)"
  unfolding WAKE_def
proof (intro allI impI)
  fix j mj assume a: "monitors (set_pc t (LockCv ob i k) w) j = Some mj \<and> owner mj = None \<and> asleep (set_pc t (LockCv ob i k) w) j"
  then have j: "j \<noteq> i" using m by (auto simp: Lock_must_wait_def)
  have "asleep w j" using a j by (auto simp: asleep_def split: if_splits)
  then obtain x ob' k' where x: "pcs w x = LockWoken ob' j k'" using W a by (auto simp: WAKE_def awake_def)
  then have "x \<noteq> t" using pc by auto
  then show "awake (set_pc t (LockCv ob i k) w) j" using x unfolding awake_def by (intro exI[of _ x]) simp
qed

lemma notify_owner:
  assumes "(if all then NotifyAll else Notify) wt t m = Inr (woken, m')"
  shows "owner m' = owner m"
  using assms by (auto simp: NotifyAll_def Notify_def split: if_splits prod.splits)

lemma DoNotify_effect:
  assumes d: "DoNotify cfg t ob all w = Some (Inr (woken, w'))"
  shows "pcs w' = pcs w \<and> (\<forall>i m. monitors w' i = Some m \<and> owner m = None \<longrightarrow> (\<exists>m. monitors w i = Some m \<and> owner m = None))"
proof (cases "GetState (kUseReadBarrier cfg) (lock_words w ob)")
  case kFatLocked
  define j where "j = FatLockMonitor (lock_words w ob)"
  obtain m m' where m: "monitors w j = Some m" "(if all then NotifyAll else Notify) (wait_monitor w) t m = Inr (woken, m')"
    "w' = w\<lparr>monitors := (monitors w)(j \<mapsto> m')\<rparr>"
    using d kFatLocked unfolding j_def DoNotify_def Let_def
    by (cases "monitors w (FatLockMonitor (lock_words w ob))") (auto split: sum.splits prod.splits)
  then show ?thesis using notify_owner[OF m(2)] by (auto split: if_splits)
qed (use d in \<open>auto simp: DoNotify_def Let_def split: if_splits\<close>)

lemma Deflate_effect:
  assumes d: "Deflate cfg ob w = Some (b, w')"
  shows "pcs w' = pcs w \<and> (\<forall>i m. monitors w' i = Some m \<and> owner m = None \<longrightarrow> (\<exists>m. monitors w i = Some m \<and> owner m = None))"
  using d by (auto simp: Deflate_def Let_def split: if_splits option.splits)

lemma WAKE_step:
  assumes "mstep cfg w w'" and I: "INV cfg w" and W: "WAKE w"
  shows "WAKE w'"
  using assms(1)
proof cases
  case (enter_turn t ob b n lw i c)
  from enter_turn_effect[OF enter_turn(3)] show ?thesis
  proof (elim disjE exE conjE)
    fix w1 k assume "w' = set_pc t (EnterLoop ob b k) w1" "pcs w1 = pcs w" "\<forall>j. j \<noteq> i \<longrightarrow> monitors w1 j = monitors w j"
    then show ?thesis using WAKE_inflate[OF W I enter_turn(2), of "EnterLoop ob b k" t w1] enter_turn(1) by simp
  next
    fix p assume "pcs w' = (pcs w)(t := p)" "\<not> is_cv p"
      "\<forall>j m. monitors w' j = Some m \<and> owner m = None \<longrightarrow> monitors w j = Some m"
    then show ?thesis by (intro WAKE_move[OF W]) (use enter_turn(1) in auto)
  qed
next
  case (enter_inflate t ob b n lw i s c w1)
  then show ?thesis using WAKE_inflate[OF W I enter_inflate(3), of _ t w1] InflateThin_effect[OF enter_inflate(5)] by simp
next
  case (lock_pre t ob i k m)
  then show ?thesis using WAKE_pre[OF W] WAKE_move[OF W, of w' t "LockWoken ob i k"] by auto
next
  case (lock_again t ob i k m r)
  show ?thesis unfolding lock_again(1)
    by (rule WAKE_lock_result[OF W lock_again(3), of cfg t "num_waiters m - 1"]) (use lock_again in \<open>auto simp: Lock_again_def\<close>)
next
  case (exit_turn t ob lw c cas e)
  from exit_turn_effect[OF exit_turn(3)] show ?thesis
  proof (elim disjE exE conjE)
    fix p assume "pcs w' = (pcs w)(t := p)" "\<not> is_cv p"
      "\<forall>j m. monitors w' j = Some m \<and> owner m = None \<longrightarrow> monitors w j = Some m"
    then show ?thesis by (intro WAKE_move[OF W]) (use exit_turn(1) in auto)
  next
    fix w1 assume "w' = signal_contender c (FatLockMonitor lw) w1" "pcs w1 = (pcs w)(t := Idle)"
      "\<forall>j. j \<noteq> FatLockMonitor lw \<longrightarrow> monitors w1 j = monitors w j"
    then show ?thesis using WAKE_signal[OF W exit_turn(2), of w1 t Idle] exit_turn(1) by simp
  qed
next
  case (wait_turn t ob ms ns why i c cas e)
  from wait_turn_effect[OF wait_turn(4)] show ?thesis
  proof (elim disjE exE conjE)
    fix p assume a: "pcs w' = (pcs w)(t := p)" "p \<in> {Idle, pcs w t}" "\<forall>j. j \<noteq> i \<longrightarrow> monitors w' j = monitors w j"
    show ?thesis
    proof (rule WAKE_move[OF W a(1)])
      fix j m assume "monitors w' j = Some m" "owner m = None"
      then show "(\<exists>m. monitors w j = Some m \<and> owner m = None) \<or> \<not> asleep w j"
        using a(3) asleep_monitor[OF I, of j] wait_turn(2) by (cases "j = i") (auto simp: fresh_monitor_def)
    qed (use a wait_turn(1) in auto)
  next
    fix w1 f assume "w' = signal_contender c (FatLockMonitor (lock_words w ob)) w1"
      "pcs w1 = (pcs w)(t := WaitCv ob (FatLockMonitor (lock_words w ob)) f)"
      "\<forall>j. j \<noteq> FatLockMonitor (lock_words w ob) \<longrightarrow> monitors w1 j = monitors w j"
    then show ?thesis using WAKE_signal[OF W wait_turn(3), of w1 t] wait_turn(1) by simp
  qed
next
  case (wait_relock t ob i f m r)
  show ?thesis unfolding wait_relock(1)
    by (rule WAKE_lock_result[OF W wait_relock(3), of cfg t "num_waiters m"]) (use wait_relock in auto)
next
  case (wait_end t ob i f m)
  have "owner (Wait_end t f m) \<noteq> None" by (simp add: Wait_end_def RemoveFromWaitSet_def)
  then show ?thesis by (intro WAKE_move[OF W, of _ t Idle]) (use wait_end in \<open>auto split: if_splits\<close>)
next
  case (notify t ob all woken w1)
  show ?thesis unfolding notify(1)
    by (intro WAKE_wake_all WAKE_cong[OF W]) (use DoNotify_effect[OF notify(4)] in auto)
next
  case (identity_hash_thin t i lw ob s h c)
  note e = InflateThin_effect[OF identity_hash_thin(9)]
  have "set_pc t Idle w' = w'" using identity_hash_thin(1) e(1) by (simp add: set_pc_def fun_upd_idem)
  then show ?thesis
    using WAKE_inflate[OF W I identity_hash_thin(3), of Idle t w'] identity_hash_thin(1) e by simp
next
  case (monitor_hash i m h)
  then show ?thesis by (intro WAKE_cong[OF W]) (auto simp: Monitor_GetHashCode_def split: if_splits)
next
  case (deflate ob b) show ?thesis by (rule WAKE_cong[OF W]) (use Deflate_effect[OF deflate(2)] in auto)
next
  case (release i m) then show ?thesis by (intro WAKE_cong[OF W]) (auto split: if_splits)
next
  case (gc_bits lw ob) then show ?thesis by (intro WAKE_cong[OF W]) auto
next
  case (identity_hash ob h lw) then show ?thesis by (intro WAKE_cong[OF W]) auto
qed (use W WAKE_wait_monitor[OF W] in \<open>auto intro!: WAKE_pc\<close>)

lemma WAKE_reachable: "reachable cfg w \<Longrightarrow> WAKE w"
proof (induction rule: reachable.induct)
  case (init w) then show ?case by (simp add: world_init_def WAKE_def)
next
  case (step w w') then show ?case using WAKE_step INV_reachable by blast
qed

lemma enter_inflate_not_None:
  assumes I: "INV cfg w" and fr: "fresh_monitor i w" and pc: "pcs w t = EnterInflate ob b n lw"
  shows "InflateThinLocked cfg t ob lw 0 sus i cas_ok w \<noteq> None"
proof -
  have ne: "ThinLockOwner lw \<noteq> t" using INV_D(4)[OF I, of t] pc by simp
  have "GetState (kUseReadBarrier cfg) (LockWord_fat i (GCState (lock_words w ob))) = kFatLocked"
    using fat_word(3)[OF _ GCState_less] fr by (simp add: fresh_monitor_def)
  then show ?thesis using ne
    by (auto simp: InflateThinLocked_def Inflate_def Monitor_new_def Install_def Let_def)
qed

lemma hash_inflate_not_None:
  assumes fr: "fresh_monitor i w" and st: "GetState (kUseReadBarrier cfg) lw = kThinLocked" "ThinLockOwner lw = t \<longrightarrow> lw = lock_words w ob"
  shows "InflateThinLocked cfg t ob lw h sus i cas_ok w \<noteq> None"
proof -
  have "GetState (kUseReadBarrier cfg) (LockWord_fat i (GCState (lock_words w ob))) = kFatLocked"
    using fat_word(3)[OF _ GCState_less] fr by (simp add: fresh_monitor_def)
  then show ?thesis using st by (auto simp: InflateThinLocked_def Inflate_def Monitor_new_def Install_def Let_def)
qed

lemma notify_not_None: "INV cfg w \<Longrightarrow> DoNotify cfg t ob all w \<noteq> None"
  using INV_D(1,2)[of cfg w ob]
  by (auto simp: DoNotify_def Let_def word_ok_def word_wf_def has_monitor_def split: LockState.splits)

text \<open>Whether the next action of thread \<open>t\<close> fails one of the \<open>CHECK\<close>s of the code or reads a monitor that is gone.\<close>

definition turn_aborts :: "config \<Rightarrow> world \<Rightarrow> tid \<Rightarrow> bool \<Rightarrow> bool \<Rightarrow> mid \<Rightarrow> tid option \<Rightarrow> bool" where
  "turn_aborts cfg w t sus cas_ok i c =
     (case pcs w t of
        EnterHave ob b n lw \<Rightarrow> MonitorEnter_turn cfg t ob b n lw cas_ok i w = None
      | EnterInflate ob b n lw \<Rightarrow> InflateThinLocked cfg t ob lw 0 sus i cas_ok w = None
      | LockPre ob j k \<Rightarrow> monitors w j = None
      | LockWoken ob j k \<Rightarrow> (case monitors w j of None \<Rightarrow> True | Some m \<Rightarrow> Lock_again cfg t m = None)
      | ExitHave ob lw \<Rightarrow> MonitorExit_turn cfg t ob lw cas_ok c w = None
      | WaitLoop ob ms ns why \<Rightarrow> Wait_turn cfg t ob ms ns why cas_ok i c w = None
      | WaitReset ob j f \<Rightarrow> (case monitors w j of None \<Rightarrow> True | Some m \<Rightarrow> Lock_attempt cfg t m = None)
      | WaitRelocked ob j f \<Rightarrow> monitors w j = None
      | _ \<Rightarrow> False)"

lemma lock_not_None:
  assumes "INV cfg w" "monitors w j = Some m" "owner m = Some t \<Longrightarrow> lock_count m + 1 < 2 ^ 31"
  shows "Lock_again cfg t m \<noteq> None" "Lock_attempt cfg t m \<noteq> None"
  using Lock_attempt_not_None TryLockLocked_not_None[OF assms(1,2), of t "num_waiters m - 1"]
    TryLockLocked_not_None[OF assms(1,2), of t "num_waiters m"] assms(3)
  by (auto simp: Lock_again_def)

lemma no_turn_aborts:
  assumes I: "INV cfg w" and fr: "fresh_monitor i w"
    and bnd: "\<And>ob. held w t ob < 2 ^ 31"
  shows "\<not> turn_aborts cfg w t sus cas_ok i c"
proof (cases "pcs w t")
  case EnterHave then show ?thesis using enter_not_None[OF I fr _ bnd] by (simp add: turn_aborts_def)
next
  case EnterInflate then show ?thesis using enter_inflate_not_None[OF I fr] by (simp add: turn_aborts_def)
next
  case ExitHave then show ?thesis using exit_not_None[OF I] by (simp add: turn_aborts_def)
next
  case WaitLoop then show ?thesis using wait_not_None[OF I fr] by (simp add: turn_aborts_def)
next
  case (LockPre ob j k) then show ?thesis using INV_D(4)[OF I, of t] by (auto simp: turn_aborts_def has_monitor_def)
next
  case (LockWoken ob j k)
  then obtain m where m: "monitors w j = Some m" "mon_obj m = Some ob" using INV_D(4)[OF I, of t] by (auto simp: has_monitor_def)
  then show ?thesis using lock_not_None(1)[OF I m(1) held_bound[OF I m _ bnd]] LockWoken by (simp add: turn_aborts_def)
next
  case (WaitReset ob j f)
  then obtain m where m: "monitors w j = Some m" "mon_obj m = Some ob" using INV_D(4)[OF I, of t] by (auto simp: has_monitor_def)
  then show ?thesis using lock_not_None(2)[OF I m(1) held_bound[OF I m _ bnd]] WaitReset by (simp add: turn_aborts_def)
next
  case (WaitRelocked ob j f) then show ?thesis using INV_D(4)[OF I, of t] by (auto simp: turn_aborts_def)
qed (simp_all add: turn_aborts_def)

lemma held_owner:
  assumes I: "INV cfg w" and h: "held w t ob \<noteq> 0"
  shows "GetLockOwnerThreadId cfg ob w = Some t"
proof -
  have "hold_count (holder cfg w ob) t \<noteq> 0" using INV_D(5)[OF I, of t ob] h by simp
  then obtain n where n: "holder cfg w ob = Some (t, n)"
    by (auto simp: hold_count_def split: option.splits prod.splits if_splits)
  then show ?thesis
    by (auto simp: holder_def GetLockOwnerThreadId_def GetOwnerThreadId_def Let_def split: LockState.splits option.splits)
qed

end
