(* ===== verification/Monitor_Properties.thy ===== *)
theory Monitor_Properties
  imports Monitor_Progress
begin

text \<open>The properties of the monitor code, and a run of three threads at which they are evaluated.\<close>

lemma holder_determined:
  assumes "INV cfg w" "INV cfg w'" "held w' = held w"
  shows "holder cfg w' ob = holder cfg w ob"
proof -
  have e: "hold_count (holder cfg w' ob) t = hold_count (holder cfg w ob) t" for t
    using INV_D(5)[OF assms(1), of t ob] INV_D(5)[OF assms(2), of t ob] assms(3) by simp
  show ?thesis
  proof (cases "holder cfg w ob")
    case None
    show ?thesis
    proof (cases "holder cfg w' ob")
      case (Some h) then show ?thesis using e[of "fst h"] None by (simp add: hold_count_def split: prod.splits)
    qed (simp add: None)
  next
    case (Some h)
    then show ?thesis using e[of "fst h"]
      by (cases "holder cfg w' ob") (auto simp: hold_count_def split: if_splits prod.splits)
  qed
qed

lemma Deflate_result:
  assumes "Deflate cfg ob w = Some (b, w')"
  shows "held w' = held w" "\<not> b \<Longrightarrow> w' = w"
  using assms by (auto simp: Deflate_def Let_def split: if_splits option.splits)

section \<open>A run: two threads queue behind a third\<close>

text \<open>Thread 1 enters the monitor of object 0, whose identity hash has been taken, so the monitor is inflated;
  threads 2 and 3 wait for it; thread 1 leaves, and thread 2 is woken.\<close>

definition run_cfg :: config where
  "run_cfg = \<lparr>kUseReadBarrier = True, lock_profiling_threshold = 0, max_spins = 50, current_method = (\<lambda>t. (0, 0))\<rparr>"

definition run_start :: world where
  "run_start = \<lparr>lock_words = (\<lambda>ob. LockWord_default), monitors = (\<lambda>i. None), monitor_list = [],
     wait_monitor = (\<lambda>t. None), pcs = (\<lambda>t. Idle), held = (\<lambda>t ob. 0)\<rparr>"

definition run_call :: "tid \<Rightarrow> world \<Rightarrow> world" where
  "run_call t w = set_pc t (EnterLoop 0 False 0) w"

definition run_turn :: "mid \<Rightarrow> tid \<Rightarrow> world \<Rightarrow> world option" where
  "run_turn i t w = MonitorEnter_turn run_cfg t 0 False 0 (lock_words w 0) True i
     (set_pc t (EnterHave 0 False 0 (lock_words w 0)) w)"

definition run_locked :: world where
  "run_locked = the (run_turn 2 1 (the (run_turn 1 1 (run_call 1 (set_lock_word 0 0x80000007 run_start)))))"

definition run_queue :: "tid \<Rightarrow> world \<Rightarrow> world" where
  "run_queue t w = set_pc t (LockCv 0 1 InEnter) (the (run_turn 2 t (run_call t w)))"

definition run_queued :: world where
  "run_queued = run_queue 3 (run_queue 2 run_locked)"

definition run_left :: "(exn option \<times> world) option" where
  "run_left = MonitorExit_turn run_cfg 1 0 (lock_words run_queued 0) True (Some 2)
     (set_pc 1 (ExitHave 0 (lock_words run_queued 0)) run_queued)"

lemma run_ids: "valid_tid 1" "valid_tid 2" "valid_tid 3" "(1 :: mid) \<le> kMaxMonitorId" "(2 :: mid) \<le> kMaxMonitorId"
  by code_simp+

lemma run_fresh: "fresh_monitor 1 w \<longleftrightarrow> monitors w 1 = None" "fresh_monitor 2 w \<longleftrightarrow> monitors w 2 = None"
  using run_ids by (simp_all only: fresh_monitor_def simp_thms)

lemma reach_call: "reachable cfg w \<Longrightarrow> valid_tid t \<Longrightarrow> pcs w t = Idle \<Longrightarrow> reachable cfg (run_call t w)"
  unfolding run_call_def by (rule reachable.step, assumption, rule mstep.call_enter)

lemma reach_turn:
  assumes "reachable run_cfg w" "pcs w t = EnterLoop 0 False 0" "fresh_monitor i w" "run_turn i t w \<noteq> None"
  shows "reachable run_cfg (the (run_turn i t w))"
proof -
  have "reachable run_cfg (set_pc t (EnterHave 0 False 0 (lock_words w 0)) w)"
    using assms(1,2) by (blast intro: reachable.step mstep.enter_read)
  then show ?thesis
    by (rule reachable.step, intro mstep.enter_turn[where i=i and t=t]) (use assms in \<open>auto simp: run_turn_def fresh_monitor_def\<close>)
qed

lemma reach_queue:
  assumes "reachable run_cfg w" "pcs w t = Idle" "valid_tid t" "monitors w 2 = None"
    and r: "run_turn 2 t (run_call t w) = Some w'" "pcs w' t = LockPre 0 1 InEnter" "monitors w' 1 = Some m" "Lock_must_wait m"
  shows "reachable run_cfg (run_queue t w)"
proof -
  have "reachable run_cfg w'"
    using reach_turn[OF reach_call[OF assms(1,3,2)], of t 2] assms(4) r(1) by (simp add: run_call_def run_fresh)
  then have "reachable run_cfg (set_pc t (if Lock_must_wait m then LockCv 0 1 InEnter else LockWoken 0 1 InEnter) w')"
    by (rule reachable.step, intro mstep.lock_pre) (use r in auto)
  then show ?thesis using r by (simp add: run_queue_def)
qed

text \<open>The facts of the run that the steps need, each by evaluation.\<close>

definition run_ok :: "world option \<Rightarrow> (world \<Rightarrow> bool) \<Rightarrow> bool" where
  "run_ok r P = (case r of None \<Rightarrow> False | Some w \<Rightarrow> P w)"

lemma run_okD: "run_ok r P \<Longrightarrow> \<exists>w. r = Some w \<and> P w"
  by (simp add: run_ok_def split: option.splits)

definition queue_ok :: "tid \<Rightarrow> world \<Rightarrow> bool" where
  "queue_ok t w \<longleftrightarrow> pcs w t = Idle \<and> monitors w 2 = None \<and> run_ok (run_turn 2 t (run_call t w))
     (\<lambda>w. pcs w t = LockPre 0 1 InEnter \<and> (case monitors w 1 of None \<Rightarrow> False | Some m \<Rightarrow> Lock_must_wait m))"

lemma queue_okD: "queue_ok t w \<Longrightarrow> valid_tid t \<Longrightarrow> reachable run_cfg w \<Longrightarrow> reachable run_cfg (run_queue t w)"
  by (auto simp: queue_ok_def dest!: run_okD split: option.splits intro: reach_queue)

lemma run_inflate: "run_ok (run_turn 1 1 (run_call 1 (set_lock_word 0 0x80000007 run_start)))
    (\<lambda>w. pcs w 1 = EnterLoop 0 False 0 \<and> monitors w 2 = None \<and> run_ok (run_turn 2 1 w) (\<lambda>w. True))"
  by code_simp

lemma run_queue_2: "queue_ok 2 run_locked" and run_queue_3: "queue_ok 3 (run_queue 2 run_locked)"
  by code_simp+

lemma run_locked_facts: "pcs run_locked 1 = Idle" "held run_locked 1 0 = 1" "GetLockOwnerThreadId run_cfg 0 run_locked = Some 1"
  by code_simp+

lemma run_left_facts: "pcs run_queued 1 = Idle" "pcs run_queued 2 = LockCv 0 1 InEnter"
  "FatLockMonitor (lock_words run_queued 0) = 1" "run_ok (map_option snd run_left) (\<lambda>w. pcs w 2 = LockWoken 0 1 InEnter
     \<and> pcs w 3 = LockCv 0 1 InEnter \<and> (case monitors w 1 of None \<Rightarrow> False | Some m \<Rightarrow> owner m = None))"
  by code_simp+

lemma run_hash: "FromHashCode 7 (GCState LockWord_default) = Some 0x80000007" "GetState True LockWord_default = kUnlocked"
  by code_simp+

lemma reachable_run_locked: "reachable run_cfg run_locked"
proof -
  have w0: "reachable run_cfg run_start" by (intro reachable.init) (simp add: run_start_def world_init_def)
  have lw: "lock_words run_start 0 = LockWord_default" "kUseReadBarrier run_cfg" by (simp_all add: run_start_def run_cfg_def)
  have "mstep run_cfg run_start (set_lock_word 0 0x80000007 run_start)"
    by (rule mstep.identity_hash[where h=7]) (simp_all add: lw run_hash)
  with w0 have w1: "reachable run_cfg (set_lock_word 0 0x80000007 run_start)" by (rule reachable.step)
  have w2: "reachable run_cfg (run_call 1 (set_lock_word 0 0x80000007 run_start))"
    by (rule reach_call[OF w1]) (simp_all add: run_ids run_start_def)
  obtain w where w: "run_turn 1 1 (run_call 1 (set_lock_word 0 0x80000007 run_start)) = Some w"
    "pcs w 1 = EnterLoop 0 False 0" "monitors w 2 = None" "run_turn 2 1 w \<noteq> None"
    using run_okD[OF run_inflate] by (auto dest!: run_okD)
  have "reachable run_cfg w" using reach_turn[OF w2, of 1 1] w(1) by (simp add: run_call_def run_fresh run_start_def)
  from reach_turn[OF this w(2) _ w(4)] show ?thesis using w(1,3) by (simp add: run_locked_def run_fresh)
qed

lemma reachable_run_queued: "reachable run_cfg run_queued"
  unfolding run_queued_def
  by (intro queue_okD[OF run_queue_3] queue_okD[OF run_queue_2] reachable_run_locked) (simp_all add: run_ids)

lemma reachable_run_left:
  obtains w m where "run_left = Some (None, w) \<or> (\<exists>e. run_left = Some (Some e, w))" "reachable run_cfg w" "monitors w 1 = Some m" "owner m = None"
    "pcs w 3 = LockCv 0 1 InEnter" "pcs w 2 = LockWoken 0 1 InEnter"
proof -
  obtain e w m where w: "run_left = Some (e, w)" "pcs w 2 = LockWoken 0 1 InEnter" "pcs w 3 = LockCv 0 1 InEnter"
    "monitors w 1 = Some m" "owner m = None"
    using run_okD[OF run_left_facts(4)] by (auto split: option.splits)
  define w1 where "w1 = set_pc 1 (ExitHave 0 (lock_words run_queued 0)) run_queued"
  have "mstep run_cfg run_queued (set_pc 1 (ExitLoop 0) run_queued)"
    by (rule mstep.call_exit) (simp_all add: run_ids run_left_facts)
  moreover have "mstep run_cfg (set_pc 1 (ExitLoop 0) run_queued) w1"
    using mstep.exit_read[of "set_pc 1 (ExitLoop 0) run_queued" 1 0 run_cfg] by (simp add: w1_def set_pc_def)
  moreover have "mstep run_cfg w1 w"
    by (rule mstep.exit_turn[where c="Some 2" and t=1])
       (use w(1) in \<open>auto simp: w1_def run_left_def contender_choice_def run_left_facts\<close>)
  ultimately have "reachable run_cfg w" using reachable_run_queued by (meson reachable.step)
  with w that show thesis by (cases e) auto
qed

lemma run_info: "case MonitorInfo_new run_cfg 0 run_locked of None \<Rightarrow> False | Some x \<Rightarrow> info_owner x = Some 1 \<and> entry_count x = 1"
  by code_simp

text \<open>Thread 1 leaves with no contender, and the monitor can be deflated to the hash code.\<close>

definition run_exited :: "(exn option \<times> world) option" where
  "run_exited = MonitorExit_turn run_cfg 1 0 (lock_words run_locked 0) True None
     (set_pc 1 (ExitHave 0 (lock_words run_locked 0)) run_locked)"

lemma run_exited_facts:
  "run_ok (map_option snd run_exited) (\<lambda>w. pcs w 1 = Idle \<and> (case Deflate run_cfg 0 w of None \<Rightarrow> False
     | Some (b, w') \<Rightarrow> b \<and> lock_words w' 0 = 0x80000007) \<and> Option.is_none (holder run_cfg w 0))"
  by code_simp

lemma run_turn_pcs: "run_turn i t w = Some w' \<Longrightarrow> u \<noteq> t \<Longrightarrow> pcs w' u = pcs w u"
  using enter_turn_effect[of run_cfg t 0 False 0 "lock_words w 0" True i "set_pc t (EnterHave 0 False 0 (lock_words w 0)) w" w']
  by (auto simp: run_turn_def)

lemma run_locked_idle: "pcs run_locked u = Idle"
proof (cases "u = 1")
  case False
  obtain w where w: "run_turn 1 1 (run_call 1 (set_lock_word 0 0x80000007 run_start)) = Some w" "run_turn 2 1 w \<noteq> None"
    using run_okD[OF run_inflate] by (auto dest!: run_okD)
  then show ?thesis using run_turn_pcs[OF w(1) False] run_turn_pcs[of 2 1 w, OF _ False] False
    by (auto simp: run_locked_def run_call_def run_start_def)
qed (simp add: run_locked_facts)

lemma reachable_run_exited:
  obtains w w' where "reachable run_cfg w" "\<And>u. suspendable (pcs w u)" "Deflate run_cfg 0 w = Some (True, w')"
    "lock_words w' 0 = 0x80000007" "holder run_cfg w 0 = None"
proof -
  obtain e w w' where w: "run_exited = Some (e, w)" "pcs w 1 = Idle" "Deflate run_cfg 0 w = Some (True, w')"
    "lock_words w' 0 = 0x80000007" "Option.is_none (holder run_cfg w 0)"
    using run_okD[OF run_exited_facts] by (auto split: option.splits prod.splits)
  define w1 where "w1 = set_pc 1 (ExitHave 0 (lock_words run_locked 0)) run_locked"
  have "mstep run_cfg run_locked (set_pc 1 (ExitLoop 0) run_locked)"
    by (rule mstep.call_exit) (simp_all add: run_ids run_locked_facts)
  moreover have "mstep run_cfg (set_pc 1 (ExitLoop 0) run_locked) w1"
    using mstep.exit_read[of "set_pc 1 (ExitLoop 0) run_locked" 1 0 run_cfg] by (simp add: w1_def set_pc_def)
  moreover have t: "MonitorExit_turn run_cfg 1 0 (lock_words run_locked 0) True None w1 = Some (e, w)"
    using w(1) by (simp add: run_exited_def w1_def)
  have "mstep run_cfg w1 w"
    by (rule mstep.exit_turn[where c=None and t=1, OF _ _ t]) (auto simp: w1_def contender_choice_def run_locked_idle)
  ultimately have r: "reachable run_cfg w" using reachable_run_locked by (meson reachable.step)
  have "pcs w u = Idle" for u
    using exit_turn_effect[OF t] w(2) by (cases "u = 1") (auto simp: w1_def signal_contender_def run_locked_idle)
  then show thesis using that[OF r _ w(3,4)] w(5) by (simp add: suspendable_def Option.is_none_def)
qed

section \<open>Properties\<close>

text \<open>C3: In every reachable state of any number of threads running \<open>MonitorEnter\<close>, \<open>MonitorExit\<close>, \<open>Wait\<close>
  and \<open>Notify\<close> interleaved with inflation, deflation and hashing, at most one thread is inside the monitor of an
  object; \<open>GetLockOwnerThreadId\<close> names it, and the count that the lock word or the fat monitor stores is the
  number of its entries without an exit.\<close>

theorem monitor_mutual_exclusion:
  assumes "reachable cfg w" "held w t ob > 0" "held w u ob > 0"
  shows "t = u \<and> GetLockOwnerThreadId cfg ob w = Some t \<and> holder cfg w ob = Some (t, held w t ob - 1)"
proof -
  note I = INV_reachable[OF assms(1)]
  have o: "GetLockOwnerThreadId cfg ob w = Some t" "GetLockOwnerThreadId cfg ob w = Some u"
    using held_owner[OF I, of t ob] held_owner[OF I, of u ob] assms by auto
  have "hold_count (holder cfg w ob) t = held w t ob" using INV_D(5)[OF I, of t ob] by simp
  then have "holder cfg w ob = Some (t, held w t ob - 1)"
    using assms(2) by (auto simp: hold_count_def split: option.splits prod.splits if_splits)
  then show ?thesis using o by auto
qed

theorem monitor_mutual_exclusion_witness:
  "reachable run_cfg run_locked \<and> held run_locked 1 0 > 0 \<and> GetLockOwnerThreadId run_cfg 0 run_locked = Some 1
   \<and> holder run_cfg run_locked 0 = Some (1, 0)"
  using monitor_mutual_exclusion[OF reachable_run_locked, of 1 0 1] reachable_run_locked by (simp add: run_locked_facts)

text \<open>C8: No thread fails a \<open>CHECK\<close> of the monitor code or uses a monitor that was freed, whatever the
  interleaving, as long as it has entered no monitor \<open>2 ^ 31\<close> times; \<open>Deflate\<close> and \<open>DoNotify\<close> never abort, nor does the
  inflation of a thin lock for the hash code of its object.\<close>

theorem monitor_no_abort:
  assumes "reachable cfg w" "fresh_monitor i w" "\<And>ob. held w t ob < 2 ^ 31"
  shows "\<not> turn_aborts cfg w t owner_suspended cas_ok i c \<and> Deflate cfg ob w \<noteq> None \<and> DoNotify cfg t ob all w \<noteq> None
    \<and> (GetState (kUseReadBarrier cfg) lw = kThinLocked \<and> (ThinLockOwner lw = t \<longrightarrow> lw = lock_words w ob) \<longrightarrow>
        InflateThinLocked cfg t ob lw h owner_suspended i cas_ok w \<noteq> None)"
  using no_turn_aborts[OF INV_reachable[OF assms(1)] assms(2,3)] deflate_not_None[OF INV_reachable[OF assms(1)]]
    notify_not_None[OF INV_reachable[OF assms(1)]] hash_inflate_not_None[OF assms(2)] by auto

theorem monitor_no_abort_witness:
  "reachable run_cfg (run_call 1 run_start) \<and> fresh_monitor 1 (run_call 1 run_start)
   \<and> \<not> turn_aborts run_cfg (run_call 1 run_start) 1 False True 1 None \<and> DoNotify run_cfg 1 0 True (run_call 1 run_start) \<noteq> None
   \<and> InflateThinLocked run_cfg 1 0 2 7 True 1 True (run_call 1 run_start) \<noteq> None"
proof -
  have r: "reachable run_cfg (run_call 1 run_start)"
    by (intro reach_call reachable.init) (simp_all add: world_init_def run_ids run_start_def)
  moreover have "GetState (kUseReadBarrier run_cfg) 2 = kThinLocked" "ThinLockOwner 2 \<noteq> 1"
    by (simp_all add: GetState_def ThinLockOwner_def run_cfg_def mask_eq_exp_minus_1)
  moreover have "fresh_monitor 1 (run_call 1 run_start)" by (simp add: run_fresh run_call_def run_start_def)
  moreover have "held (run_call 1 run_start) 1 ob < 2 ^ 31" for ob by (simp add: run_call_def run_start_def)
  ultimately show ?thesis using monitor_no_abort[OF r, of 1 1, where lw=2] by blast
qed

text \<open>C7: No wakeup is lost: while a monitor is free and a thread sleeps on its contenders' condition, some
  contender is awake and about to try the lock.\<close>

theorem monitor_no_lost_wakeup:
  assumes "reachable cfg w" "monitors w i = Some m" "\<not> IsLocked m" "pcs w t = LockCv ob i k"
  shows "\<exists>u ob' k'. pcs w u = LockWoken ob' i k'"
proof -
  have "asleep w i" "owner m = None" using assms by (auto simp: asleep_def IsLocked_def)
  then have "awake w i" using WAKE_reachable[OF assms(1)] assms(2) by (simp add: WAKE_def)
  then show ?thesis by (auto simp: awake_def)
qed

theorem monitor_no_lost_wakeup_witness:
  "\<exists>w m. reachable run_cfg w \<and> monitors w 1 = Some m \<and> \<not> IsLocked m \<and> pcs w 3 = LockCv 0 1 InEnter
     \<and> (\<exists>u ob' k'. pcs w u = LockWoken ob' 1 k')"
  by (rule reachable_run_left) (use monitor_no_lost_wakeup in \<open>fastforce simp: IsLocked_def\<close>)

text \<open>C22: \<open>Deflate\<close> with every thread suspended changes neither who holds any object's monitor nor the count, and
  when it reports failure it has changed nothing.\<close>

theorem Deflate_transparent:
  assumes "reachable cfg w" "\<And>u. suspendable (pcs w u)" "Deflate cfg ob w = Some (b, w')"
  shows "holder cfg w' x = holder cfg w x \<and> reachable cfg w' \<and> (b \<or> w' = w)"
proof -
  have r: "reachable cfg w'" using assms by (blast intro: reachable.step mstep.deflate)
  show ?thesis
    using holder_determined[OF INV_reachable[OF assms(1)] INV_reachable[OF r] Deflate_result(1)[OF assms(3)]] r
      Deflate_result(2)[OF assms(3)] by blast
qed

theorem Deflate_transparent_witness:
  "\<exists>w w'. reachable run_cfg w \<and> Deflate run_cfg 0 w = Some (True, w') \<and> lock_words w' 0 = 0x80000007
     \<and> holder run_cfg w' 0 = None \<and> reachable run_cfg w'"
proof (rule reachable_run_exited)
  fix w w' assume a: "reachable run_cfg w" "\<And>u. suspendable (pcs w u)" "Deflate run_cfg 0 w = Some (True, w')"
    "lock_words w' 0 = 0x80000007" "holder run_cfg w 0 = None"
  from Deflate_transparent[OF a(1,2,3), of 0] a show ?thesis by auto
qed

text \<open>C37: \<open>MonitorInfo\<close> reports, for an owned monitor, its owner and the number of the owner's entries; for an
  inflated monitor without an owner it reports an entry count of 1 instead of 0.\<close>

theorem MonitorInfo_counts:
  assumes "reachable cfg w" "MonitorInfo_new cfg ob w = Some info"
  shows "case info_owner info of
       Some t \<Rightarrow> entry_count info = int (held w t ob) \<and> held w t ob > 0
     | None \<Rightarrow> entry_count info = (if GetState (kUseReadBarrier cfg) (lock_words w ob) = kFatLocked then 1 else 0)"
proof -
  note I = INV_reachable[OF assms(1)]
  have h: "held w t ob = hold_count (holder cfg w ob) t" for t using INV_D(5)[OF I] .
  show ?thesis
  proof (cases "GetState (kUseReadBarrier cfg) (lock_words w ob)")
    case kFatLocked
    then obtain m where m: "monitors w (FatLockMonitor (lock_words w ob)) = Some m"
      using assms(2) by (auto simp: MonitorInfo_new_def Let_def split: option.splits)
    then show ?thesis using assms(2) kFatLocked INV_D(3)[OF I m]
      by (auto simp: MonitorInfo_new_def Let_def h holder_def hold_count_def mon_ok_def count_ok_def split: option.splits)
  qed (use assms(2) in \<open>auto simp: MonitorInfo_new_def Let_def h holder_def hold_count_def\<close>)
qed

theorem MonitorInfo_counts_witness:
  "\<exists>info. MonitorInfo_new run_cfg 0 run_locked = Some info \<and> info_owner info = Some 1 \<and> entry_count info = int (held run_locked 1 0)"
proof -
  obtain info where "MonitorInfo_new run_cfg 0 run_locked = Some info" "info_owner info = Some 1"
    using run_info by (auto split: option.splits)
  with MonitorInfo_counts[OF reachable_run_locked this(1)] show ?thesis by auto
qed

end
