(* ===== verification/Shadow_Frame.thy ===== *)
theory Shadow_Frame
  imports Art_Prelude "HOL-Library.Monad_Syntax"
begin

text \<open>
  The frame of an interpreted method (\<open>interpreter/shadow_frame.h\<close>): one array that holds the raw registers in its
  first half and copies of the registers that are references in its second half.  An access that a
  \<open>DCHECK\<close> of the code rejects, or that lies outside the array, is \<open>None\<close>.  The visit of the frame by
  the garbage collector (\<open>thread.cc\<close>) and the copying of arguments between frames are here too.
\<close>

section \<open>The frame\<close>

text \<open>A compressed reference; null is 0.\<close>

type_synonym ref = u32

record ShadowFrame =
  number_of_vregs :: nat
  vregs :: "u32 list"
  dex_pc :: u32
  dex_pc_ptr :: "int option"
  sf_method :: nat
  monitors :: "ref list option"

definition kMovingCollector :: bool where
  "kMovingCollector = True"

definition ShadowFrame_new :: "nat \<Rightarrow> nat \<Rightarrow> u32 \<Rightarrow> ShadowFrame" where
  "ShadowFrame_new num_vregs method pc =
     \<lparr>number_of_vregs = num_vregs, vregs = replicate (num_vregs * 2) 0, dex_pc = pc, dex_pc_ptr = None, sf_method = method,
      monitors = None\<rparr>"

text \<open>A pointer into the instructions is the distance from \<open>code_item_->insns_\<close>.\<close>

definition GetDexPC :: "ShadowFrame \<Rightarrow> u32" where
  "GetDexPC f = (case dex_pc_ptr f of None \<Rightarrow> dex_pc f | Some p \<Rightarrow> word_of_int p)"

definition SetDexPC :: "u32 \<Rightarrow> ShadowFrame \<Rightarrow> ShadowFrame" where
  "SetDexPC pc f = f\<lparr>dex_pc := pc, dex_pc_ptr := None\<rparr>"

section \<open>Reading registers\<close>

definition vreg_at :: "ShadowFrame \<Rightarrow> nat \<Rightarrow> u32 option" where
  "vreg_at f i = (if i < length (vregs f) then Some (vregs f ! i) else None)"

definition GetVReg :: "ShadowFrame \<Rightarrow> nat \<Rightarrow> u32 option" where
  "GetVReg f i = (if i < number_of_vregs f then vreg_at f i else None)"

definition GetVRegShort :: "ShadowFrame \<Rightarrow> nat \<Rightarrow> u16 option" where
  "GetVRegShort f i = map_option ucast (GetVReg f i)"

definition GetVRegFloat :: "ShadowFrame \<Rightarrow> nat \<Rightarrow> u32 option" where
  "GetVRegFloat f i = (if i < number_of_vregs f then vreg_at f i else None)"

text \<open>Eight bytes are read at the address of register \<open>i\<close>, the low word first.\<close>

definition GetVRegLong :: "ShadowFrame \<Rightarrow> nat \<Rightarrow> u64 option" where
  "GetVRegLong f i =
     (if i < number_of_vregs f then do {
        lo \<leftarrow> vreg_at f i;
        hi \<leftarrow> vreg_at f (i + 1);
        Some (ucast lo OR push_bit 32 (ucast hi))
      } else None)"

definition GetVRegDouble :: "ShadowFrame \<Rightarrow> nat \<Rightarrow> u64 option" where
  "GetVRegDouble f i =
     (if i < number_of_vregs f then do {
        lo \<leftarrow> vreg_at f i;
        hi \<leftarrow> vreg_at f (i + 1);
        Some (ucast lo OR push_bit 32 (ucast hi))
      } else None)"

text \<open>\<open>References()\<close> starts behind the registers.\<close>

definition References_at :: "ShadowFrame \<Rightarrow> nat \<Rightarrow> ref option" where
  "References_at f i = vreg_at f (number_of_vregs f + i)"

definition GetVRegReference :: "ShadowFrame \<Rightarrow> nat \<Rightarrow> ref option" where
  "GetVRegReference f i = (if i < number_of_vregs f then References_at f i else None)"

section \<open>Writing registers\<close>

definition set_vreg_at :: "nat \<Rightarrow> u32 \<Rightarrow> ShadowFrame \<Rightarrow> ShadowFrame option" where
  "set_vreg_at i val f = (if i < length (vregs f) then Some (f\<lparr>vregs := (vregs f)[i := val]\<rparr>) else None)"

definition References_set :: "nat \<Rightarrow> ref \<Rightarrow> ShadowFrame \<Rightarrow> ShadowFrame option" where
  "References_set i val f = set_vreg_at (number_of_vregs f + i) val f"

definition SetVReg :: "ShadowFrame \<Rightarrow> nat \<Rightarrow> u32 \<Rightarrow> ShadowFrame option" where
  "SetVReg f i val =
     (if i < number_of_vregs f then do {
        f \<leftarrow> set_vreg_at i val f;
        if kMovingCollector then References_set i 0 f else Some f
      } else None)"

definition SetVRegFloat :: "ShadowFrame \<Rightarrow> nat \<Rightarrow> u32 \<Rightarrow> ShadowFrame option" where
  "SetVRegFloat f i val =
     (if i < number_of_vregs f then do {
        f \<leftarrow> set_vreg_at i val f;
        if kMovingCollector then References_set i 0 f else Some f
      } else None)"

definition SetVRegLong :: "ShadowFrame \<Rightarrow> nat \<Rightarrow> u64 \<Rightarrow> ShadowFrame option" where
  "SetVRegLong f i val =
     (if i < number_of_vregs f then do {
        f \<leftarrow> set_vreg_at i (ucast val) f;
        f \<leftarrow> set_vreg_at (i + 1) (ucast (drop_bit 32 val)) f;
        if kMovingCollector then do {
          f \<leftarrow> References_set i 0 f;
          References_set (i + 1) 0 f
        } else Some f
      } else None)"

definition SetVRegDouble :: "ShadowFrame \<Rightarrow> nat \<Rightarrow> u64 \<Rightarrow> ShadowFrame option" where
  "SetVRegDouble f i val =
     (if i < number_of_vregs f then do {
        f \<leftarrow> set_vreg_at i (ucast val) f;
        f \<leftarrow> set_vreg_at (i + 1) (ucast (drop_bit 32 val)) f;
        if kMovingCollector then do {
          f \<leftarrow> References_set i 0 f;
          References_set (i + 1) 0 f
        } else Some f
      } else None)"

definition SetVRegReference :: "ShadowFrame \<Rightarrow> nat \<Rightarrow> ref \<Rightarrow> ShadowFrame option" where
  "SetVRegReference f i val =
     (if i < number_of_vregs f then do {
        f \<leftarrow> set_vreg_at i val f;
        References_set i val f
      } else None)"

section \<open>Visiting and copying\<close>

text \<open>The collector's visit: every reference register is offered to the visitor, and both copies follow the object.
  The locked objects that the frame counts (\<open>monitors_\<close> of its \<open>LockCountData\<close>) are visited too.\<close>

function VisitShadowFrame_loop :: "(ref \<Rightarrow> ref) \<Rightarrow> nat \<Rightarrow> nat \<Rightarrow> ShadowFrame \<Rightarrow> ShadowFrame option" where
  "VisitShadowFrame_loop visitor num_regs reg f =
     (if reg < num_regs then do {
        ref \<leftarrow> GetVRegReference f reg;
        f \<leftarrow> (if ref \<noteq> 0 \<and> visitor ref \<noteq> ref then SetVRegReference f reg (visitor ref) else Some f);
        VisitShadowFrame_loop visitor num_regs (reg + 1) f
      } else Some f)"
  by pat_completeness auto
termination
  by (relation "measure (\<lambda>(v, num_regs, reg, f). num_regs - reg)") auto

declare VisitShadowFrame_loop.simps [simp del]

definition VisitMonitors :: "(ref \<Rightarrow> ref) \<Rightarrow> ShadowFrame \<Rightarrow> ShadowFrame" where
  "VisitMonitors visitor f = f\<lparr>monitors := map_option (map visitor) (monitors f)\<rparr>"

definition VisitShadowFrame :: "(ref \<Rightarrow> ref) \<Rightarrow> ShadowFrame \<Rightarrow> ShadowFrame option" where
  "VisitShadowFrame visitor f = map_option (VisitMonitors visitor) (VisitShadowFrame_loop visitor (number_of_vregs f) 0 f)"

definition AssignRegister :: "ShadowFrame \<Rightarrow> ShadowFrame \<Rightarrow> nat \<Rightarrow> nat \<Rightarrow> ShadowFrame option" where
  "AssignRegister new_shadow_frame shadow_frame dest_reg src_reg = do {
     src_value \<leftarrow> GetVReg shadow_frame src_reg;
     ref \<leftarrow> GetVRegReference shadow_frame src_reg;
     if src_value = ref then SetVRegReference new_shadow_frame dest_reg ref
     else SetVReg new_shadow_frame dest_reg src_value
   }"

section \<open>The invariant of a frame\<close>

text \<open>A register whose reference half is not null holds that reference.\<close>

definition frame_ok :: "ShadowFrame \<Rightarrow> bool" where
  "frame_ok f \<longleftrightarrow> length (vregs f) = number_of_vregs f * 2
     \<and> (\<forall>i<number_of_vregs f. vregs f ! (number_of_vregs f + i) \<in> {0, vregs f ! i})"

lemma frame_ok_length: "frame_ok f \<Longrightarrow> length (vregs f) = number_of_vregs f * 2"
  by (simp add: frame_ok_def)

lemma frame_okD: "frame_ok f \<Longrightarrow> i < number_of_vregs f \<Longrightarrow>
    vregs f ! (number_of_vregs f + i) = 0 \<or> vregs f ! (number_of_vregs f + i) = vregs f ! i"
  by (auto simp: frame_ok_def)

named_theorems frame_defs

lemmas frame_access [frame_defs] = vreg_at_def set_vreg_at_def References_at_def References_set_def GetVReg_def
  GetVRegFloat_def GetVRegLong_def GetVRegDouble_def GetVRegReference_def SetVReg_def SetVRegFloat_def SetVRegLong_def
  SetVRegDouble_def SetVRegReference_def kMovingCollector_def

text \<open>What a successful write does to the array.\<close>

lemma SetVReg_Some:
  assumes "frame_ok f" "SetVReg f i v = Some f'"
  shows "i < number_of_vregs f" "f' = f\<lparr>vregs := (vregs f)[i := v, number_of_vregs f + i := 0]\<rparr>"
  using assms by (auto simp: frame_defs frame_ok_length split: if_splits)

lemma SetVRegFloat_eq: "SetVRegFloat = SetVReg" "GetVRegFloat = GetVReg" "SetVRegDouble = SetVRegLong" "GetVRegDouble = GetVRegLong"
  by (intro ext, simp add: frame_defs)+

lemma SetVRegReference_Some:
  assumes "frame_ok f" "SetVRegReference f i v = Some f'"
  shows "i < number_of_vregs f" "f' = f\<lparr>vregs := (vregs f)[i := v, number_of_vregs f + i := v]\<rparr>"
  using assms by (auto simp: frame_defs frame_ok_length split: if_splits)

lemma SetVRegLong_Some:
  assumes "frame_ok f" "SetVRegLong f i v = Some f'"
  shows "i + 1 < number_of_vregs f"
    "f' = f\<lparr>vregs := (vregs f)[i := ucast v, i + 1 := ucast (drop_bit 32 v), number_of_vregs f + i := 0, number_of_vregs f + i + 1 := 0]\<rparr>"
  using assms by (auto simp: frame_defs frame_ok_length split: if_splits)

lemma frame_ok_new: "frame_ok (ShadowFrame_new n m pc)"
  by (simp add: frame_ok_def ShadowFrame_new_def)

lemma frame_ok_SetVReg: "frame_ok f \<Longrightarrow> SetVReg f i v = Some f' \<Longrightarrow> frame_ok f'"
  using SetVReg_Some[of f i v f'] frame_okD[of f]
  by (auto simp: frame_ok_def nth_list_update)

lemma frame_ok_SetVRegReference: "frame_ok f \<Longrightarrow> SetVRegReference f i v = Some f' \<Longrightarrow> frame_ok f'"
  using SetVRegReference_Some[of f i v f'] frame_okD[of f]
  by (auto simp: frame_ok_def nth_list_update)

lemma frame_ok_SetVRegLong: "frame_ok f \<Longrightarrow> SetVRegLong f i v = Some f' \<Longrightarrow> frame_ok f'"
  using SetVRegLong_Some[of f i v f'] frame_okD[of f]
  by (auto simp: frame_ok_def nth_list_update)

lemma frame_ok_monitors [simp]: "frame_ok (f\<lparr>monitors := m\<rparr>) = frame_ok f" "frame_ok (VisitMonitors visitor f) = frame_ok f"
  by (simp_all add: frame_ok_def VisitMonitors_def)

lemma frame_ok_SetDexPC [simp]: "frame_ok (SetDexPC pc f) = frame_ok f"
  by (simp add: frame_ok_def SetDexPC_def)

lemma AssignRegister_ok: "frame_ok g \<Longrightarrow> AssignRegister g f d s = Some g' \<Longrightarrow> frame_ok g'"
  by (auto simp: AssignRegister_def bind_eq_Some_conv intro: frame_ok_SetVReg frame_ok_SetVRegReference split: if_splits)

section \<open>The contract of typed register access\<close>

text \<open>Registers of one type, \<open>width\<close> words wide: a write in range succeeds, is read back, keeps the invariant,
  and changes no register that does not overlap.\<close>

locale vreg_access =
  fixes get :: "ShadowFrame \<Rightarrow> nat \<Rightarrow> 'v option" and set :: "ShadowFrame \<Rightarrow> nat \<Rightarrow> 'v \<Rightarrow> ShadowFrame option" and width :: nat
  assumes set_in_range: "frame_ok f \<Longrightarrow> i + width \<le> number_of_vregs f \<Longrightarrow> set f i v \<noteq> None"
    and set_ok: "frame_ok f \<Longrightarrow> set f i v = Some f' \<Longrightarrow> frame_ok f' \<and> number_of_vregs f' = number_of_vregs f"
    and get_set: "frame_ok f \<Longrightarrow> set f i v = Some f' \<Longrightarrow> get f' i = Some v"
    and set_other: "frame_ok f \<Longrightarrow> set f i v = Some f' \<Longrightarrow> j < i \<or> i + width \<le> j \<Longrightarrow> j < number_of_vregs f \<Longrightarrow>
        GetVReg f' j = GetVReg f j \<and> GetVRegReference f' j = GetVRegReference f j"
    and get_local: "frame_ok f \<Longrightarrow> frame_ok f' \<Longrightarrow> number_of_vregs f' = number_of_vregs f \<Longrightarrow> i + width \<le> number_of_vregs f \<Longrightarrow>
        (\<And>j. i \<le> j \<Longrightarrow> j < i + width \<Longrightarrow> GetVReg f' j = GetVReg f j \<and> GetVRegReference f' j = GetVRegReference f j) \<Longrightarrow>
        get f' i = get f i"
begin

lemma set_disjoint:
  assumes "frame_ok f" "set f i v = Some f'" "j + width \<le> i \<or> i + width \<le> j" "j + width \<le> number_of_vregs f"
  shows "get f' j = get f j"
proof (rule get_local)
  show "frame_ok f" "frame_ok f'" "number_of_vregs f' = number_of_vregs f" using assms set_ok by blast+
  fix l assume "j \<le> l" "l < j + width"
  then show "GetVReg f' l = GetVReg f l \<and> GetVRegReference f' l = GetVRegReference f l"
    using assms by (intro set_other[OF assms(1,2)]) auto
qed (rule assms(4))

text \<open>Copying a register and copying it back restores it.\<close>

lemma copy_back:
  assumes "frame_ok f" "get f i = Some v" "set f j v = Some f1" "get f1 j = Some w" "set f1 i w = Some f2"
  shows "w = v \<and> get f2 i = Some v"
  using get_set[OF assms(1,3)] set_ok[OF assms(1,3)] assms(4) get_set[of f1 i w f2] assms(5) by simp

end

lemma word_halves: "ucast (ucast (v::u64) :: u32) OR push_bit 32 (ucast (ucast (drop_bit 32 v) :: u32)) = v"
  by (rule bit_eqI) (auto simp: bit_simps)

lemma get_eqs:
  assumes "frame_ok f"
  shows "GetVReg f i = (if i < number_of_vregs f then Some (vregs f ! i) else None)"
    "GetVRegReference f i = (if i < number_of_vregs f then Some (vregs f ! (number_of_vregs f + i)) else None)"
    "GetVRegLong f i = (if i < number_of_vregs f then Some (ucast (vregs f ! i) OR push_bit 32 (ucast (vregs f ! (i + 1)))) else None)"
  using assms by (auto simp: frame_defs frame_ok_length)

lemma write_in_range:
  assumes "frame_ok f"
  shows "i < number_of_vregs f \<Longrightarrow> SetVReg f i v \<noteq> None" "i < number_of_vregs f \<Longrightarrow> SetVRegReference f i v \<noteq> None"
    "i + 1 < number_of_vregs f \<Longrightarrow> SetVRegLong f i x \<noteq> None"
  using assms by (auto simp: frame_defs frame_ok_length)

lemma set_reads:
  assumes f: "frame_ok f" and s: "SetVReg f i v = Some f'"
  shows "number_of_vregs f' = number_of_vregs f" "j < number_of_vregs f \<Longrightarrow> vregs f' ! j = (if j = i then v else vregs f ! j)"
    "j < number_of_vregs f \<Longrightarrow> vregs f' ! (number_of_vregs f + j) = (if j = i then 0 else vregs f ! (number_of_vregs f + j))"
  using SetVReg_Some[OF f s] frame_ok_length[OF f] by (auto simp: nth_list_update)

lemma set_ref_reads:
  assumes f: "frame_ok f" and s: "SetVRegReference f i v = Some f'"
  shows "number_of_vregs f' = number_of_vregs f" "j < number_of_vregs f \<Longrightarrow> vregs f' ! j = (if j = i then v else vregs f ! j)"
    "j < number_of_vregs f \<Longrightarrow> vregs f' ! (number_of_vregs f + j) = (if j = i then v else vregs f ! (number_of_vregs f + j))"
  using SetVRegReference_Some[OF f s] frame_ok_length[OF f] by (auto simp: nth_list_update)

lemma set_long_reads:
  assumes f: "frame_ok f" and s: "SetVRegLong f i v = Some f'"
  shows "number_of_vregs f' = number_of_vregs f"
    "j < number_of_vregs f \<Longrightarrow> vregs f' ! j = (if j = i then ucast v else if j = i + 1 then ucast (drop_bit 32 v) else vregs f ! j)"
    "j < number_of_vregs f \<Longrightarrow> vregs f' ! (number_of_vregs f + j) = (if j = i \<or> j = i + 1 then 0 else vregs f ! (number_of_vregs f + j))"
  using SetVRegLong_Some[OF f s] frame_ok_length[OF f] by (auto simp: nth_list_update)

interpretation int_reg: vreg_access GetVReg SetVReg 1
proof
  fix f f' i j and v :: u32
  assume f: "frame_ok f" and s: "SetVReg f i v = Some f'"
  note ok = frame_ok_SetVReg[OF f s] and r = set_reads[OF f s] and i = SetVReg_Some(1)[OF f s]
  show "frame_ok f' \<and> number_of_vregs f' = number_of_vregs f" using ok r by simp
  show "GetVReg f' i = Some v" using get_eqs(1)[OF ok] r i by simp
  show "j < i \<or> i + 1 \<le> j \<Longrightarrow> j < number_of_vregs f \<Longrightarrow> GetVReg f' j = GetVReg f j \<and> GetVRegReference f' j = GetVRegReference f j"
    using get_eqs[OF ok] get_eqs[OF f] r by auto
qed (auto simp: write_in_range)

interpretation reference_reg: vreg_access GetVRegReference SetVRegReference 1
proof
  fix f f' i j and v :: u32
  assume f: "frame_ok f" and s: "SetVRegReference f i v = Some f'"
  note ok = frame_ok_SetVRegReference[OF f s] and r = set_ref_reads[OF f s] and i = SetVRegReference_Some(1)[OF f s]
  show "frame_ok f' \<and> number_of_vregs f' = number_of_vregs f" using ok r by simp
  show "GetVRegReference f' i = Some v" using get_eqs(2)[OF ok] r i by simp
  show "j < i \<or> i + 1 \<le> j \<Longrightarrow> j < number_of_vregs f \<Longrightarrow> GetVReg f' j = GetVReg f j \<and> GetVRegReference f' j = GetVRegReference f j"
    using get_eqs[OF ok] get_eqs[OF f] r by auto
qed (auto simp: write_in_range)

interpretation long_reg: vreg_access GetVRegLong SetVRegLong 2
proof
  fix f f' i j and v :: u64
  assume f: "frame_ok f" and s: "SetVRegLong f i v = Some f'"
  note ok = frame_ok_SetVRegLong[OF f s] and r = set_long_reads[OF f s] and i = SetVRegLong_Some(1)[OF f s]
  show "frame_ok f' \<and> number_of_vregs f' = number_of_vregs f" using ok r by simp
  show "GetVRegLong f' i = Some v" using get_eqs(3)[OF ok, of i] r(2)[of i] r(2)[of "i + 1"] r(1) i word_halves[of v] by simp
  show "j < i \<or> i + 2 \<le> j \<Longrightarrow> j < number_of_vregs f \<Longrightarrow> GetVReg f' j = GetVReg f j \<and> GetVRegReference f' j = GetVRegReference f j"
    using get_eqs[OF ok] get_eqs[OF f] r by auto
next
  fix f f' i
  assume "frame_ok f" "frame_ok f'" "number_of_vregs f' = number_of_vregs f" "i + 2 \<le> number_of_vregs f"
    and e: "\<And>j. i \<le> j \<Longrightarrow> j < i + 2 \<Longrightarrow> GetVReg f' j = GetVReg f j \<and> GetVRegReference f' j = GetVRegReference f j"
  then show "GetVRegLong f' i = GetVRegLong f i" using e[of i] e[of "i + 1"] by (simp add: get_eqs)
qed (auto simp: write_in_range)

interpretation float_reg: vreg_access GetVRegFloat SetVRegFloat 1
  unfolding SetVRegFloat_eq by (rule int_reg.vreg_access_axioms)

interpretation double_reg: vreg_access GetVRegDouble SetVRegDouble 2
  unfolding SetVRegFloat_eq by (rule long_reg.vreg_access_axioms)

section \<open>The collector's visit\<close>

text \<open>What the visit makes of register \<open>i\<close>: the raw word and its reference half.\<close>

definition visited :: "(ref \<Rightarrow> ref) \<Rightarrow> ShadowFrame \<Rightarrow> nat \<Rightarrow> u32 \<times> ref" where
  "visited visitor f i =
     (let ref = vregs f ! (number_of_vregs f + i) in if ref = 0 then (vregs f ! i, 0) else (visitor ref, visitor ref))"

lemma VisitShadowFrame_step:
  assumes f: "frame_ok f" and reg: "reg < number_of_vregs f"
  shows "\<exists>f'. (do { ref \<leftarrow> GetVRegReference f reg;
        if ref \<noteq> 0 \<and> visitor ref \<noteq> ref then SetVRegReference f reg (visitor ref) else Some f }) = Some f'
      \<and> frame_ok f' \<and> number_of_vregs f' = number_of_vregs f \<and> monitors f' = monitors f
      \<and> (\<forall>i<number_of_vregs f. (vregs f' ! i, vregs f' ! (number_of_vregs f + i)) =
          (if i = reg then visited visitor f reg else (vregs f ! i, vregs f ! (number_of_vregs f + i))))"
proof -
  define ref where "ref = vregs f ! (number_of_vregs f + reg)"
  have g: "GetVRegReference f reg = Some ref" using get_eqs(2)[OF f] reg by (simp add: ref_def)
  show ?thesis
  proof (cases "ref \<noteq> 0 \<and> visitor ref \<noteq> ref")
    case True
    obtain f' where s: "SetVRegReference f reg (visitor ref) = Some f'" using write_in_range(2)[OF f reg] by blast
    then show ?thesis using g True set_ref_reads[OF f s] frame_ok_SetVRegReference[OF f s] SetVRegReference_Some(2)[OF f s]
      by (auto simp: visited_def ref_def Let_def)
  next
    case False
    then show ?thesis using g f frame_okD[OF f reg] by (auto simp: visited_def ref_def Let_def)
  qed
qed

lemma VisitShadowFrame_loop_ok:
  assumes "frame_ok f" "reg \<le> number_of_vregs f"
  shows "\<exists>f'. VisitShadowFrame_loop visitor (number_of_vregs f) reg f = Some f' \<and> frame_ok f' \<and> number_of_vregs f' = number_of_vregs f
      \<and> monitors f' = monitors f \<and> (\<forall>i<number_of_vregs f. (vregs f' ! i, vregs f' ! (number_of_vregs f + i)) =
          (if reg \<le> i then visited visitor f i else (vregs f ! i, vregs f ! (number_of_vregs f + i))))"
  using assms
proof (induction "number_of_vregs f - reg" arbitrary: reg f)
  case 0
  then show ?case by (simp add: VisitShadowFrame_loop.simps)
next
  case (Suc k)
  then have reg: "reg < number_of_vregs f" by simp
  from VisitShadowFrame_step[OF Suc.prems(1) reg, of visitor] obtain f1 where
    f1: "(do { ref \<leftarrow> GetVRegReference f reg;
        if ref \<noteq> 0 \<and> visitor ref \<noteq> ref then SetVRegReference f reg (visitor ref) else Some f }) = Some f1"
      "frame_ok f1" "number_of_vregs f1 = number_of_vregs f"
      and m1: "monitors f1 = monitors f" and u1:
      "\<And>i. i < number_of_vregs f \<Longrightarrow> (vregs f1 ! i, vregs f1 ! (number_of_vregs f + i)) =
          (if i = reg then visited visitor f reg else (vregs f ! i, vregs f ! (number_of_vregs f + i)))" by blast
  have k: "k = number_of_vregs f1 - (reg + 1)" "reg + 1 \<le> number_of_vregs f1" using Suc reg f1(3) by auto
  from Suc.hyps(1)[OF k(1) f1(2) k(2)] obtain f2 where
    f2: "VisitShadowFrame_loop visitor (number_of_vregs f1) (reg + 1) f1 = Some f2" "frame_ok f2" "number_of_vregs f2 = number_of_vregs f1"
      "monitors f2 = monitors f1"
      "\<And>i. i < number_of_vregs f1 \<Longrightarrow> (vregs f2 ! i, vregs f2 ! (number_of_vregs f1 + i)) =
          (if reg + 1 \<le> i then visited visitor f1 i else (vregs f1 ! i, vregs f1 ! (number_of_vregs f1 + i)))" by blast
  have "VisitShadowFrame_loop visitor (number_of_vregs f) reg f = Some f2"
  proof -
    obtain ref where ref: "GetVRegReference f reg = Some ref"
      "(if ref \<noteq> 0 \<and> visitor ref \<noteq> ref then SetVRegReference f reg (visitor ref) else Some f) = Some f1"
      using f1(1) by (auto simp only: bind_eq_Some_conv)
    have "VisitShadowFrame_loop visitor (number_of_vregs f) reg f = VisitShadowFrame_loop visitor (number_of_vregs f) (reg + 1) f1"
      by (subst VisitShadowFrame_loop.simps) (simp only: reg ref if_True bind.bind_lunit)
    then show ?thesis using f2(1) f1(3) by simp
  qed
  moreover have "(vregs f2 ! i, vregs f2 ! (number_of_vregs f + i)) =
      (if reg \<le> i then visited visitor f i else (vregs f ! i, vregs f ! (number_of_vregs f + i)))" if "i < number_of_vregs f" for i
    using f2(5)[of i] u1[of i] f1(3) that by (cases "i = reg") (auto simp: visited_def Let_def)
  ultimately show ?case using f2(2-4) f1(3) m1 by auto
qed

section \<open>Properties\<close>

text \<open>A write that changes the registers in \<open>R\<close> only: the other registers keep both halves, the other fields of the frame
  their values.\<close>

definition changes_only :: "nat set \<Rightarrow> ShadowFrame \<Rightarrow> ShadowFrame \<Rightarrow> bool" where
  "changes_only R f f' \<longleftrightarrow> frame_ok f' \<and> f' = f\<lparr>vregs := vregs f'\<rparr>
     \<and> (\<forall>j < number_of_vregs f. j \<notin> R \<longrightarrow> GetVReg f' j = GetVReg f j \<and> GetVRegReference f' j = GetVRegReference f j)"

lemma changes_onlyI:
  assumes "frame_ok f" "frame_ok f'" "f' = f\<lparr>vregs := xs\<rparr>" "\<And>j. j < number_of_vregs f \<Longrightarrow> j \<notin> R \<Longrightarrow> vregs f' ! j = vregs f ! j"
    "\<And>j. j < number_of_vregs f \<Longrightarrow> j \<notin> R \<Longrightarrow> vregs f' ! (number_of_vregs f + j) = vregs f ! (number_of_vregs f + j)"
  shows "changes_only R f f'"
proof -
  have "number_of_vregs f' = number_of_vregs f" using assms(3) by simp
  then show ?thesis using assms by (simp add: changes_only_def get_eqs)
qed

lemma set_changes_only:
  assumes f: "frame_ok f"
  shows "SetVReg f i v = Some f' \<Longrightarrow> changes_only {i} f f'" "SetVRegReference f i v = Some f' \<Longrightarrow> changes_only {i} f f'"
    "SetVRegLong f i x = Some f' \<Longrightarrow> changes_only {i, i + 1} f f'"
proof -
  show "SetVReg f i v = Some f' \<Longrightarrow> changes_only {i} f f'"
    by (rule changes_onlyI[OF f frame_ok_SetVReg[OF f] SetVReg_Some(2)[OF f]]) (auto simp: set_reads[OF f])
  show "SetVRegReference f i v = Some f' \<Longrightarrow> changes_only {i} f f'"
    by (rule changes_onlyI[OF f frame_ok_SetVRegReference[OF f] SetVRegReference_Some(2)[OF f]]) (auto simp: set_ref_reads[OF f])
  show "SetVRegLong f i x = Some f' \<Longrightarrow> changes_only {i, i + 1} f f'"
    by (rule changes_onlyI[OF f frame_ok_SetVRegLong[OF f] SetVRegLong_Some(2)[OF f]]) (auto simp: set_long_reads[OF f])
qed

lemma set_reference_half:
  assumes f: "frame_ok f"
  shows "SetVReg f i v = Some f' \<Longrightarrow> GetVRegReference f' i = Some 0" "SetVRegReference f i v = Some f' \<Longrightarrow> GetVReg f' i = Some v"
    "SetVRegLong f i x = Some f' \<Longrightarrow> GetVRegReference f' i = Some 0 \<and> GetVRegReference f' (i + 1) = Some 0"
proof -
  show "SetVReg f i v = Some f' \<Longrightarrow> GetVRegReference f' i = Some 0"
    using set_reads(1,3)[OF f] SetVReg_Some(1)[OF f] by (simp add: get_eqs frame_ok_SetVReg[OF f])
  show "SetVRegReference f i v = Some f' \<Longrightarrow> GetVReg f' i = Some v"
    using set_ref_reads(1,2)[OF f] SetVRegReference_Some(1)[OF f] by (simp add: get_eqs frame_ok_SetVRegReference[OF f])
  assume l: "SetVRegLong f i x = Some f'"
  have "i < number_of_vregs f" "i + 1 < number_of_vregs f" using SetVRegLong_Some(1)[OF f l] by simp_all
  then show "GetVRegReference f' i = Some 0 \<and> GetVRegReference f' (i + 1) = Some 0"
    using set_long_reads(1)[OF f l] set_long_reads(3)[OF f l, of i] set_long_reads(3)[OF f l, of "i + 1"]
    by (simp add: get_eqs frame_ok_SetVRegLong[OF f l])
qed

text \<open>C21: A write to a register of any type, in range, succeeds; reading the register then returns the value, its
  reference half is null after an integer, a float, a long or a double is stored and the reference itself after a reference is, and
  the write keeps the frame invariant, every other register in both halves and the other fields of the frame.\<close>

theorem shadow_frame_access:
  assumes "frame_ok f"
  shows "(SetVReg f i v = Some f1 \<longrightarrow> changes_only {i} f f1 \<and> GetVReg f1 i = Some v \<and> GetVRegReference f1 i = Some 0)
    \<and> (SetVRegFloat f i v = Some f2 \<longrightarrow> changes_only {i} f f2 \<and> GetVRegFloat f2 i = Some v \<and> GetVRegReference f2 i = Some 0)
    \<and> (SetVRegReference f i v = Some f3 \<longrightarrow> changes_only {i} f f3 \<and> GetVReg f3 i = Some v \<and> GetVRegReference f3 i = Some v)
    \<and> (SetVRegLong f i x = Some f4 \<longrightarrow> changes_only {i, i + 1} f f4 \<and> GetVRegLong f4 i = Some x \<and> GetVRegReference f4 i = Some 0
        \<and> GetVRegReference f4 (i + 1) = Some 0)
    \<and> (SetVRegDouble f i x = Some f5 \<longrightarrow> changes_only {i, i + 1} f f5 \<and> GetVRegDouble f5 i = Some x \<and> GetVRegReference f5 i = Some 0
        \<and> GetVRegReference f5 (i + 1) = Some 0)
    \<and> (i < number_of_vregs f \<longrightarrow> SetVReg f i v \<noteq> None \<and> SetVRegFloat f i v \<noteq> None \<and> SetVRegReference f i v \<noteq> None)
    \<and> (i + 1 < number_of_vregs f \<longrightarrow> SetVRegLong f i x \<noteq> None \<and> SetVRegDouble f i x \<noteq> None)"
  unfolding SetVRegFloat_eq
  by (intro conjI impI)
    (simp_all add: set_changes_only[OF assms, simplified] set_reference_half[OF assms, simplified] int_reg.get_set[OF assms] reference_reg.get_set[OF assms]
      long_reg.get_set[OF assms] write_in_range[OF assms])

theorem shadow_frame_access_witness:
  "let f = the (SetVRegLong (ShadowFrame_new 3 0 0) 1 0x123456789)
   in GetVRegLong f 1 = Some 0x123456789 \<and> changes_only {1, 2} (ShadowFrame_new 3 0 0) f"
proof -
  obtain f where f: "SetVRegLong (ShadowFrame_new 3 0 0) 1 0x123456789 = Some f"
    using write_in_range(3)[OF frame_ok_new[of 3 0 0], of 1 "0x123456789"] by (auto simp: ShadowFrame_new_def)
  then show ?thesis
    using shadow_frame_access[OF frame_ok_new[of 3 0 0], of 1 0 f f f "0x123456789" f f] by (simp add: numeral_2_eq_2)
qed

text \<open>C20: The collector's visit always completes; it changes both halves of every register that holds a reference to
  where the object went, leaves every primitive register alone, and forwards the locks that the frame counts.\<close>

theorem VisitShadowFrame_forwards:
  assumes "frame_ok f"
  shows "\<exists>f'. VisitShadowFrame visitor f = Some f' \<and> frame_ok f' \<and> number_of_vregs f' = number_of_vregs f
    \<and> monitors f' = map_option (map visitor) (monitors f)
    \<and> (\<forall>i<number_of_vregs f. if GetVRegReference f i = Some 0 then GetVReg f' i = GetVReg f i \<and> GetVRegReference f' i = Some 0
        else GetVReg f' i = map_option visitor (GetVReg f i) \<and> GetVRegReference f' i = map_option visitor (GetVRegReference f i))"
proof -
  from VisitShadowFrame_loop_ok[OF assms, of 0 visitor] obtain g where
    g: "VisitShadowFrame_loop visitor (number_of_vregs f) 0 f = Some g" "frame_ok g" "number_of_vregs g = number_of_vregs f"
      "monitors g = monitors f" "\<And>i. i < number_of_vregs f \<Longrightarrow> (vregs g ! i, vregs g ! (number_of_vregs f + i)) = visited visitor f i"
    by auto
  then obtain f' where
    f': "VisitShadowFrame visitor f = Some f'" "frame_ok f'" "number_of_vregs f' = number_of_vregs f"
      and m: "monitors f' = map_option (map visitor) (monitors f)" and u:
      "\<And>i. i < number_of_vregs f \<Longrightarrow> (vregs f' ! i, vregs f' ! (number_of_vregs f + i)) = visited visitor f i"
    using g by (auto simp: VisitShadowFrame_def VisitMonitors_def frame_ok_def)
  have "if GetVRegReference f i = Some 0 then GetVReg f' i = GetVReg f i \<and> GetVRegReference f' i = Some 0
        else GetVReg f' i = map_option visitor (GetVReg f i) \<and> GetVRegReference f' i = map_option visitor (GetVRegReference f i)"
    if "i < number_of_vregs f" for i
    using u[OF that] frame_okD[OF assms that] that f'(3) by (auto simp: get_eqs assms f'(2) visited_def Let_def)
  with f' m show ?thesis by blast
qed

theorem VisitShadowFrame_forwards_witness:
  "frame_ok (the (SetVRegReference (ShadowFrame_new 2 0 0) 1 8))
   \<and> (\<exists>f'. VisitShadowFrame (\<lambda>r. r + 32) (the (SetVRegReference (ShadowFrame_new 2 0 0) 1 8)) = Some f' \<and> GetVReg f' 1 = Some 40)"
proof -
  obtain f where f: "SetVRegReference (ShadowFrame_new 2 0 0) 1 8 = Some f"
    using write_in_range(2)[OF frame_ok_new[of 2 0 0], of 1 8] by (auto simp: ShadowFrame_new_def)
  note ok = frame_ok_SetVRegReference[OF frame_ok_new f]
  have r: "GetVRegReference f 1 = Some 8" "GetVReg f 1 = Some 8" "1 < number_of_vregs f"
    using set_ref_reads(1)[OF frame_ok_new f] set_ref_reads(2,3)[OF frame_ok_new f, of 1]
    by (auto simp: get_eqs ok) (simp_all add: ShadowFrame_new_def)
  obtain f' where f': "VisitShadowFrame (\<lambda>r. r + 32) f = Some f'" "GetVReg f' 1 = map_option (\<lambda>r. r + 32) (GetVReg f 1)"
    using VisitShadowFrame_forwards[OF ok, of "\<lambda>r. r + 32"] r by auto
  have "GetVReg f' 1 = Some 40" using f'(2) unfolding r(2) by simp
  then show ?thesis using f f'(1) ok by auto
qed

end
