(* ===== verification/Dex_Instruction_List.thy ===== *)
theory Dex_Instruction_List
  imports Art_Prelude
begin

text \<open>The formats, flags and opcodes of Dex instructions and the table of \<open>dex_instruction_list.h\<close>.  An
  \<open>Instruction*\<close> is the stream of 16-bit code units from its address on; an opcode is its number.\<close>

section \<open>Formats, flags and the descriptor table\<close>

type_synonym Instruction = "nat \<Rightarrow> u16"

type_synonym Code = u8

datatype Format = k10x | k12x | k11n | k11x | k10t | k20t | k22x | k21t | k21s
  | k21h | k21c | k23x | k22b | k22t | k22s | k22c | k32x | k30t
  | k31t | k31i | k31c | k35c | k3rc | k45cc | k4rcc | k51l

text \<open>The enumerators are numbered in this order, and the code compares them.\<close>

fun Format_value :: "Format \<Rightarrow> nat" where
  "Format_value k10x = 0"
| "Format_value k12x = 1"
| "Format_value k11n = 2"
| "Format_value k11x = 3"
| "Format_value k10t = 4"
| "Format_value k20t = 5"
| "Format_value k22x = 6"
| "Format_value k21t = 7"
| "Format_value k21s = 8"
| "Format_value k21h = 9"
| "Format_value k21c = 10"
| "Format_value k23x = 11"
| "Format_value k22b = 12"
| "Format_value k22t = 13"
| "Format_value k22s = 14"
| "Format_value k22c = 15"
| "Format_value k32x = 16"
| "Format_value k30t = 17"
| "Format_value k31t = 18"
| "Format_value k31i = 19"
| "Format_value k31c = 20"
| "Format_value k35c = 21"
| "Format_value k3rc = 22"
| "Format_value k45cc = 23"
| "Format_value k4rcc = 24"
| "Format_value k51l = 25"

instantiation Format :: linorder
begin

definition less_eq_Format :: "Format \<Rightarrow> Format \<Rightarrow> bool" where
  "less_eq_Format f g \<longleftrightarrow> Format_value f \<le> Format_value g"

definition less_Format :: "Format \<Rightarrow> Format \<Rightarrow> bool" where
  "less_Format f g \<longleftrightarrow> Format_value f < Format_value g"

instance
proof
  fix f g :: Format
  show "f \<le> g \<Longrightarrow> g \<le> f \<Longrightarrow> f = g"
    by (cases f; cases g) (simp_all add: less_eq_Format_def)
qed (auto simp: less_eq_Format_def less_Format_def)

end

datatype IndexType = kIndexUnknown | kIndexNone | kIndexTypeRef | kIndexStringRef
  | kIndexMethodRef | kIndexFieldRef | kIndexFieldOffset | kIndexVtableOffset
  | kIndexMethodAndProtoRef | kIndexCallSiteRef

abbreviation (input) kBranch :: u8 where "kBranch \<equiv> 0x01"
abbreviation (input) kContinue :: u8 where "kContinue \<equiv> 0x02"
abbreviation (input) kSwitch :: u8 where "kSwitch \<equiv> 0x04"
abbreviation (input) kThrow :: u8 where "kThrow \<equiv> 0x08"
abbreviation (input) kReturn :: u8 where "kReturn \<equiv> 0x10"
abbreviation (input) kInvoke :: u8 where "kInvoke \<equiv> 0x20"
abbreviation (input) kUnconditional :: u8 where "kUnconditional \<equiv> 0x40"
abbreviation (input) kExperimental :: u8 where "kExperimental \<equiv> 0x80"

abbreviation (input) kVerifyNone :: u32 where "kVerifyNone \<equiv> 0x0000000"
abbreviation (input) kVerifyRegA :: u32 where "kVerifyRegA \<equiv> 0x0000001"
abbreviation (input) kVerifyRegAWide :: u32 where "kVerifyRegAWide \<equiv> 0x0000002"
abbreviation (input) kVerifyRegB :: u32 where "kVerifyRegB \<equiv> 0x0000004"
abbreviation (input) kVerifyRegBField :: u32 where "kVerifyRegBField \<equiv> 0x0000008"
abbreviation (input) kVerifyRegBMethod :: u32 where "kVerifyRegBMethod \<equiv> 0x0000010"
abbreviation (input) kVerifyRegBNewInstance :: u32 where "kVerifyRegBNewInstance \<equiv> 0x0000020"
abbreviation (input) kVerifyRegBString :: u32 where "kVerifyRegBString \<equiv> 0x0000040"
abbreviation (input) kVerifyRegBType :: u32 where "kVerifyRegBType \<equiv> 0x0000080"
abbreviation (input) kVerifyRegBWide :: u32 where "kVerifyRegBWide \<equiv> 0x0000100"
abbreviation (input) kVerifyRegC :: u32 where "kVerifyRegC \<equiv> 0x0000200"
abbreviation (input) kVerifyRegCField :: u32 where "kVerifyRegCField \<equiv> 0x0000400"
abbreviation (input) kVerifyRegCNewArray :: u32 where "kVerifyRegCNewArray \<equiv> 0x0000800"
abbreviation (input) kVerifyRegCType :: u32 where "kVerifyRegCType \<equiv> 0x0001000"
abbreviation (input) kVerifyRegCWide :: u32 where "kVerifyRegCWide \<equiv> 0x0002000"
abbreviation (input) kVerifyArrayData :: u32 where "kVerifyArrayData \<equiv> 0x0004000"
abbreviation (input) kVerifyBranchTarget :: u32 where "kVerifyBranchTarget \<equiv> 0x0008000"
abbreviation (input) kVerifySwitchTargets :: u32 where "kVerifySwitchTargets \<equiv> 0x0010000"
abbreviation (input) kVerifyVarArg :: u32 where "kVerifyVarArg \<equiv> 0x0020000"
abbreviation (input) kVerifyVarArgNonZero :: u32 where "kVerifyVarArgNonZero \<equiv> 0x0040000"
abbreviation (input) kVerifyVarArgRange :: u32 where "kVerifyVarArgRange \<equiv> 0x0080000"
abbreviation (input) kVerifyVarArgRangeNonZero :: u32 where "kVerifyVarArgRangeNonZero \<equiv> 0x0100000"
abbreviation (input) kVerifyRuntimeOnly :: u32 where "kVerifyRuntimeOnly \<equiv> 0x0200000"
abbreviation (input) kVerifyError :: u32 where "kVerifyError \<equiv> 0x0400000"
abbreviation (input) kVerifyRegHPrototype :: u32 where "kVerifyRegHPrototype \<equiv> 0x0800000"
abbreviation (input) kVerifyRegBCallSite :: u32 where "kVerifyRegBCallSite \<equiv> 0x1000000"

text \<open>A row: verify flags, format, index type and flags.\<close>

type_synonym InstructionRow = "u32 \<times> Format \<times> IndexType \<times> u8"

definition DEX_INSTRUCTION_LIST_00 :: "InstructionRow list" where
  "DEX_INSTRUCTION_LIST_00 = [(kVerifyNone, k10x, kIndexNone, kContinue),
     (kVerifyRegA OR kVerifyRegB, k12x, kIndexNone, kContinue),
     (kVerifyRegA OR kVerifyRegB, k22x, kIndexNone, kContinue),
     (kVerifyRegA OR kVerifyRegB, k32x, kIndexNone, kContinue),
     (kVerifyRegAWide OR kVerifyRegBWide, k12x, kIndexNone, kContinue),
     (kVerifyRegAWide OR kVerifyRegBWide, k22x, kIndexNone, kContinue),
     (kVerifyRegAWide OR kVerifyRegBWide, k32x, kIndexNone, kContinue),
     (kVerifyRegA OR kVerifyRegB, k12x, kIndexNone, kContinue),
     (kVerifyRegA OR kVerifyRegB, k22x, kIndexNone, kContinue),
     (kVerifyRegA OR kVerifyRegB, k32x, kIndexNone, kContinue),
     (kVerifyRegA, k11x, kIndexNone, kContinue),
     (kVerifyRegAWide, k11x, kIndexNone, kContinue),
     (kVerifyRegA, k11x, kIndexNone, kContinue),
     (kVerifyRegA, k11x, kIndexNone, kContinue),
     (kVerifyNone, k10x, kIndexNone, kReturn),
     (kVerifyRegA, k11x, kIndexNone, kReturn),
     (kVerifyRegAWide, k11x, kIndexNone, kReturn),
     (kVerifyRegA, k11x, kIndexNone, kReturn),
     (kVerifyRegA, k11n, kIndexNone, kContinue),
     (kVerifyRegA, k21s, kIndexNone, kContinue),
     (kVerifyRegA, k31i, kIndexNone, kContinue),
     (kVerifyRegA, k21h, kIndexNone, kContinue),
     (kVerifyRegAWide, k21s, kIndexNone, kContinue),
     (kVerifyRegAWide, k31i, kIndexNone, kContinue),
     (kVerifyRegAWide, k51l, kIndexNone, kContinue),
     (kVerifyRegAWide, k21h, kIndexNone, kContinue),
     (kVerifyRegA OR kVerifyRegBString, k21c, kIndexStringRef, kContinue OR kThrow),
     (kVerifyRegA OR kVerifyRegBString, k31c, kIndexStringRef, kContinue OR kThrow),
     (kVerifyRegA OR kVerifyRegBType, k21c, kIndexTypeRef, kContinue OR kThrow),
     (kVerifyRegA, k11x, kIndexNone, kContinue OR kThrow),
     (kVerifyRegA, k11x, kIndexNone, kContinue OR kThrow),
     (kVerifyRegA OR kVerifyRegBType, k21c, kIndexTypeRef, kContinue OR kThrow),
     (kVerifyRegA OR kVerifyRegB OR kVerifyRegCType, k22c, kIndexTypeRef, kContinue OR kThrow),
     (kVerifyRegA OR kVerifyRegB, k12x, kIndexNone, kContinue OR kThrow),
     (kVerifyRegA OR kVerifyRegBNewInstance, k21c, kIndexTypeRef, kContinue OR kThrow),
     (kVerifyRegA OR kVerifyRegB OR kVerifyRegCNewArray, k22c, kIndexTypeRef, kContinue OR kThrow),
     (kVerifyRegBType OR kVerifyVarArg, k35c, kIndexTypeRef, kContinue OR kThrow),
     (kVerifyRegBType OR kVerifyVarArgRange, k3rc, kIndexTypeRef, kContinue OR kThrow),
     (kVerifyRegA OR kVerifyArrayData, k31t, kIndexNone, kContinue OR kThrow),
     (kVerifyRegA, k11x, kIndexNone, kThrow),
     (kVerifyBranchTarget, k10t, kIndexNone, kBranch OR kUnconditional),
     (kVerifyBranchTarget, k20t, kIndexNone, kBranch OR kUnconditional),
     (kVerifyBranchTarget, k30t, kIndexNone, kBranch OR kUnconditional),
     (kVerifyRegA OR kVerifySwitchTargets, k31t, kIndexNone, kContinue OR kSwitch),
     (kVerifyRegA OR kVerifySwitchTargets, k31t, kIndexNone, kContinue OR kSwitch),
     (kVerifyRegA OR kVerifyRegB OR kVerifyRegC, k23x, kIndexNone, kContinue),
     (kVerifyRegA OR kVerifyRegB OR kVerifyRegC, k23x, kIndexNone, kContinue),
     (kVerifyRegA OR kVerifyRegBWide OR kVerifyRegCWide, k23x, kIndexNone, kContinue),
     (kVerifyRegA OR kVerifyRegBWide OR kVerifyRegCWide, k23x, kIndexNone, kContinue),
     (kVerifyRegA OR kVerifyRegBWide OR kVerifyRegCWide, k23x, kIndexNone, kContinue),
     (kVerifyRegA OR kVerifyRegB OR kVerifyBranchTarget, k22t, kIndexNone, kContinue OR kBranch),
     (kVerifyRegA OR kVerifyRegB OR kVerifyBranchTarget, k22t, kIndexNone, kContinue OR kBranch),
     (kVerifyRegA OR kVerifyRegB OR kVerifyBranchTarget, k22t, kIndexNone, kContinue OR kBranch),
     (kVerifyRegA OR kVerifyRegB OR kVerifyBranchTarget, k22t, kIndexNone, kContinue OR kBranch),
     (kVerifyRegA OR kVerifyRegB OR kVerifyBranchTarget, k22t, kIndexNone, kContinue OR kBranch),
     (kVerifyRegA OR kVerifyRegB OR kVerifyBranchTarget, k22t, kIndexNone, kContinue OR kBranch),
     (kVerifyRegA OR kVerifyBranchTarget, k21t, kIndexNone, kContinue OR kBranch),
     (kVerifyRegA OR kVerifyBranchTarget, k21t, kIndexNone, kContinue OR kBranch),
     (kVerifyRegA OR kVerifyBranchTarget, k21t, kIndexNone, kContinue OR kBranch),
     (kVerifyRegA OR kVerifyBranchTarget, k21t, kIndexNone, kContinue OR kBranch),
     (kVerifyRegA OR kVerifyBranchTarget, k21t, kIndexNone, kContinue OR kBranch),
     (kVerifyRegA OR kVerifyBranchTarget, k21t, kIndexNone, kContinue OR kBranch),
     (kVerifyError, k10x, kIndexUnknown, 0),
     (kVerifyError, k10x, kIndexUnknown, 0)]"

definition DEX_INSTRUCTION_LIST_40 :: "InstructionRow list" where
  "DEX_INSTRUCTION_LIST_40 = [(kVerifyError, k10x, kIndexUnknown, 0),
     (kVerifyError, k10x, kIndexUnknown, 0),
     (kVerifyError, k10x, kIndexUnknown, 0),
     (kVerifyError, k10x, kIndexUnknown, 0),
     (kVerifyRegA OR kVerifyRegB OR kVerifyRegC, k23x, kIndexNone, kContinue OR kThrow),
     (kVerifyRegAWide OR kVerifyRegB OR kVerifyRegC, k23x, kIndexNone, kContinue OR kThrow),
     (kVerifyRegA OR kVerifyRegB OR kVerifyRegC, k23x, kIndexNone, kContinue OR kThrow),
     (kVerifyRegA OR kVerifyRegB OR kVerifyRegC, k23x, kIndexNone, kContinue OR kThrow),
     (kVerifyRegA OR kVerifyRegB OR kVerifyRegC, k23x, kIndexNone, kContinue OR kThrow),
     (kVerifyRegA OR kVerifyRegB OR kVerifyRegC, k23x, kIndexNone, kContinue OR kThrow),
     (kVerifyRegA OR kVerifyRegB OR kVerifyRegC, k23x, kIndexNone, kContinue OR kThrow),
     (kVerifyRegA OR kVerifyRegB OR kVerifyRegC, k23x, kIndexNone, kContinue OR kThrow),
     (kVerifyRegAWide OR kVerifyRegB OR kVerifyRegC, k23x, kIndexNone, kContinue OR kThrow),
     (kVerifyRegA OR kVerifyRegB OR kVerifyRegC, k23x, kIndexNone, kContinue OR kThrow),
     (kVerifyRegA OR kVerifyRegB OR kVerifyRegC, k23x, kIndexNone, kContinue OR kThrow),
     (kVerifyRegA OR kVerifyRegB OR kVerifyRegC, k23x, kIndexNone, kContinue OR kThrow),
     (kVerifyRegA OR kVerifyRegB OR kVerifyRegC, k23x, kIndexNone, kContinue OR kThrow),
     (kVerifyRegA OR kVerifyRegB OR kVerifyRegC, k23x, kIndexNone, kContinue OR kThrow),
     (kVerifyRegA OR kVerifyRegB OR kVerifyRegCField, k22c, kIndexFieldRef, kContinue OR kThrow),
     (kVerifyRegAWide OR kVerifyRegB OR kVerifyRegCField, k22c, kIndexFieldRef, kContinue OR kThrow),
     (kVerifyRegA OR kVerifyRegB OR kVerifyRegCField, k22c, kIndexFieldRef, kContinue OR kThrow),
     (kVerifyRegA OR kVerifyRegB OR kVerifyRegCField, k22c, kIndexFieldRef, kContinue OR kThrow),
     (kVerifyRegA OR kVerifyRegB OR kVerifyRegCField, k22c, kIndexFieldRef, kContinue OR kThrow),
     (kVerifyRegA OR kVerifyRegB OR kVerifyRegCField, k22c, kIndexFieldRef, kContinue OR kThrow),
     (kVerifyRegA OR kVerifyRegB OR kVerifyRegCField, k22c, kIndexFieldRef, kContinue OR kThrow),
     (kVerifyRegA OR kVerifyRegB OR kVerifyRegCField, k22c, kIndexFieldRef, kContinue OR kThrow),
     (kVerifyRegAWide OR kVerifyRegB OR kVerifyRegCField, k22c, kIndexFieldRef, kContinue OR kThrow),
     (kVerifyRegA OR kVerifyRegB OR kVerifyRegCField, k22c, kIndexFieldRef, kContinue OR kThrow),
     (kVerifyRegA OR kVerifyRegB OR kVerifyRegCField, k22c, kIndexFieldRef, kContinue OR kThrow),
     (kVerifyRegA OR kVerifyRegB OR kVerifyRegCField, k22c, kIndexFieldRef, kContinue OR kThrow),
     (kVerifyRegA OR kVerifyRegB OR kVerifyRegCField, k22c, kIndexFieldRef, kContinue OR kThrow),
     (kVerifyRegA OR kVerifyRegB OR kVerifyRegCField, k22c, kIndexFieldRef, kContinue OR kThrow),
     (kVerifyRegA OR kVerifyRegBField, k21c, kIndexFieldRef, kContinue OR kThrow),
     (kVerifyRegAWide OR kVerifyRegBField, k21c, kIndexFieldRef, kContinue OR kThrow),
     (kVerifyRegA OR kVerifyRegBField, k21c, kIndexFieldRef, kContinue OR kThrow),
     (kVerifyRegA OR kVerifyRegBField, k21c, kIndexFieldRef, kContinue OR kThrow),
     (kVerifyRegA OR kVerifyRegBField, k21c, kIndexFieldRef, kContinue OR kThrow),
     (kVerifyRegA OR kVerifyRegBField, k21c, kIndexFieldRef, kContinue OR kThrow),
     (kVerifyRegA OR kVerifyRegBField, k21c, kIndexFieldRef, kContinue OR kThrow),
     (kVerifyRegA OR kVerifyRegBField, k21c, kIndexFieldRef, kContinue OR kThrow),
     (kVerifyRegAWide OR kVerifyRegBField, k21c, kIndexFieldRef, kContinue OR kThrow),
     (kVerifyRegA OR kVerifyRegBField, k21c, kIndexFieldRef, kContinue OR kThrow),
     (kVerifyRegA OR kVerifyRegBField, k21c, kIndexFieldRef, kContinue OR kThrow),
     (kVerifyRegA OR kVerifyRegBField, k21c, kIndexFieldRef, kContinue OR kThrow),
     (kVerifyRegA OR kVerifyRegBField, k21c, kIndexFieldRef, kContinue OR kThrow),
     (kVerifyRegA OR kVerifyRegBField, k21c, kIndexFieldRef, kContinue OR kThrow),
     (kVerifyRegBMethod OR kVerifyVarArgNonZero, k35c, kIndexMethodRef, kContinue OR kThrow OR kInvoke),
     (kVerifyRegBMethod OR kVerifyVarArgNonZero, k35c, kIndexMethodRef, kContinue OR kThrow OR kInvoke),
     (kVerifyRegBMethod OR kVerifyVarArgNonZero, k35c, kIndexMethodRef, kContinue OR kThrow OR kInvoke),
     (kVerifyRegBMethod OR kVerifyVarArg, k35c, kIndexMethodRef, kContinue OR kThrow OR kInvoke),
     (kVerifyRegBMethod OR kVerifyVarArgNonZero, k35c, kIndexMethodRef, kContinue OR kThrow OR kInvoke),
     (kVerifyNone, k10x, kIndexNone, kReturn),
     (kVerifyRegBMethod OR kVerifyVarArgRangeNonZero, k3rc, kIndexMethodRef, kContinue OR kThrow OR kInvoke),
     (kVerifyRegBMethod OR kVerifyVarArgRangeNonZero, k3rc, kIndexMethodRef, kContinue OR kThrow OR kInvoke),
     (kVerifyRegBMethod OR kVerifyVarArgRangeNonZero, k3rc, kIndexMethodRef, kContinue OR kThrow OR kInvoke),
     (kVerifyRegBMethod OR kVerifyVarArgRange, k3rc, kIndexMethodRef, kContinue OR kThrow OR kInvoke),
     (kVerifyRegBMethod OR kVerifyVarArgRangeNonZero, k3rc, kIndexMethodRef, kContinue OR kThrow OR kInvoke),
     (kVerifyError, k10x, kIndexUnknown, 0),
     (kVerifyError, k10x, kIndexUnknown, 0),
     (kVerifyRegA OR kVerifyRegB, k12x, kIndexNone, kContinue),
     (kVerifyRegA OR kVerifyRegB, k12x, kIndexNone, kContinue),
     (kVerifyRegAWide OR kVerifyRegBWide, k12x, kIndexNone, kContinue),
     (kVerifyRegAWide OR kVerifyRegBWide, k12x, kIndexNone, kContinue),
     (kVerifyRegA OR kVerifyRegB, k12x, kIndexNone, kContinue)]"

definition DEX_INSTRUCTION_LIST_80 :: "InstructionRow list" where
  "DEX_INSTRUCTION_LIST_80 = [(kVerifyRegAWide OR kVerifyRegBWide, k12x, kIndexNone, kContinue),
     (kVerifyRegAWide OR kVerifyRegB, k12x, kIndexNone, kContinue),
     (kVerifyRegA OR kVerifyRegB, k12x, kIndexNone, kContinue),
     (kVerifyRegAWide OR kVerifyRegB, k12x, kIndexNone, kContinue),
     (kVerifyRegA OR kVerifyRegBWide, k12x, kIndexNone, kContinue),
     (kVerifyRegA OR kVerifyRegBWide, k12x, kIndexNone, kContinue),
     (kVerifyRegAWide OR kVerifyRegBWide, k12x, kIndexNone, kContinue),
     (kVerifyRegA OR kVerifyRegB, k12x, kIndexNone, kContinue),
     (kVerifyRegAWide OR kVerifyRegB, k12x, kIndexNone, kContinue),
     (kVerifyRegAWide OR kVerifyRegB, k12x, kIndexNone, kContinue),
     (kVerifyRegA OR kVerifyRegBWide, k12x, kIndexNone, kContinue),
     (kVerifyRegAWide OR kVerifyRegBWide, k12x, kIndexNone, kContinue),
     (kVerifyRegA OR kVerifyRegBWide, k12x, kIndexNone, kContinue),
     (kVerifyRegA OR kVerifyRegB, k12x, kIndexNone, kContinue),
     (kVerifyRegA OR kVerifyRegB, k12x, kIndexNone, kContinue),
     (kVerifyRegA OR kVerifyRegB, k12x, kIndexNone, kContinue),
     (kVerifyRegA OR kVerifyRegB OR kVerifyRegC, k23x, kIndexNone, kContinue),
     (kVerifyRegA OR kVerifyRegB OR kVerifyRegC, k23x, kIndexNone, kContinue),
     (kVerifyRegA OR kVerifyRegB OR kVerifyRegC, k23x, kIndexNone, kContinue),
     (kVerifyRegA OR kVerifyRegB OR kVerifyRegC, k23x, kIndexNone, kContinue OR kThrow),
     (kVerifyRegA OR kVerifyRegB OR kVerifyRegC, k23x, kIndexNone, kContinue OR kThrow),
     (kVerifyRegA OR kVerifyRegB OR kVerifyRegC, k23x, kIndexNone, kContinue),
     (kVerifyRegA OR kVerifyRegB OR kVerifyRegC, k23x, kIndexNone, kContinue),
     (kVerifyRegA OR kVerifyRegB OR kVerifyRegC, k23x, kIndexNone, kContinue),
     (kVerifyRegA OR kVerifyRegB OR kVerifyRegC, k23x, kIndexNone, kContinue),
     (kVerifyRegA OR kVerifyRegB OR kVerifyRegC, k23x, kIndexNone, kContinue),
     (kVerifyRegA OR kVerifyRegB OR kVerifyRegC, k23x, kIndexNone, kContinue),
     (kVerifyRegAWide OR kVerifyRegBWide OR kVerifyRegCWide, k23x, kIndexNone, kContinue),
     (kVerifyRegAWide OR kVerifyRegBWide OR kVerifyRegCWide, k23x, kIndexNone, kContinue),
     (kVerifyRegAWide OR kVerifyRegBWide OR kVerifyRegCWide, k23x, kIndexNone, kContinue),
     (kVerifyRegAWide OR kVerifyRegBWide OR kVerifyRegCWide, k23x, kIndexNone, kContinue OR kThrow),
     (kVerifyRegAWide OR kVerifyRegBWide OR kVerifyRegCWide, k23x, kIndexNone, kContinue OR kThrow),
     (kVerifyRegAWide OR kVerifyRegBWide OR kVerifyRegCWide, k23x, kIndexNone, kContinue),
     (kVerifyRegAWide OR kVerifyRegBWide OR kVerifyRegCWide, k23x, kIndexNone, kContinue),
     (kVerifyRegAWide OR kVerifyRegBWide OR kVerifyRegCWide, k23x, kIndexNone, kContinue),
     (kVerifyRegAWide OR kVerifyRegBWide OR kVerifyRegC, k23x, kIndexNone, kContinue),
     (kVerifyRegAWide OR kVerifyRegBWide OR kVerifyRegC, k23x, kIndexNone, kContinue),
     (kVerifyRegAWide OR kVerifyRegBWide OR kVerifyRegC, k23x, kIndexNone, kContinue),
     (kVerifyRegA OR kVerifyRegB OR kVerifyRegC, k23x, kIndexNone, kContinue),
     (kVerifyRegA OR kVerifyRegB OR kVerifyRegC, k23x, kIndexNone, kContinue),
     (kVerifyRegA OR kVerifyRegB OR kVerifyRegC, k23x, kIndexNone, kContinue),
     (kVerifyRegA OR kVerifyRegB OR kVerifyRegC, k23x, kIndexNone, kContinue),
     (kVerifyRegA OR kVerifyRegB OR kVerifyRegC, k23x, kIndexNone, kContinue),
     (kVerifyRegAWide OR kVerifyRegBWide OR kVerifyRegCWide, k23x, kIndexNone, kContinue),
     (kVerifyRegAWide OR kVerifyRegBWide OR kVerifyRegCWide, k23x, kIndexNone, kContinue),
     (kVerifyRegAWide OR kVerifyRegBWide OR kVerifyRegCWide, k23x, kIndexNone, kContinue),
     (kVerifyRegAWide OR kVerifyRegBWide OR kVerifyRegCWide, k23x, kIndexNone, kContinue),
     (kVerifyRegAWide OR kVerifyRegBWide OR kVerifyRegCWide, k23x, kIndexNone, kContinue),
     (kVerifyRegA OR kVerifyRegB, k12x, kIndexNone, kContinue),
     (kVerifyRegA OR kVerifyRegB, k12x, kIndexNone, kContinue),
     (kVerifyRegA OR kVerifyRegB, k12x, kIndexNone, kContinue),
     (kVerifyRegA OR kVerifyRegB, k12x, kIndexNone, kContinue OR kThrow),
     (kVerifyRegA OR kVerifyRegB, k12x, kIndexNone, kContinue OR kThrow),
     (kVerifyRegA OR kVerifyRegB, k12x, kIndexNone, kContinue),
     (kVerifyRegA OR kVerifyRegB, k12x, kIndexNone, kContinue),
     (kVerifyRegA OR kVerifyRegB, k12x, kIndexNone, kContinue),
     (kVerifyRegA OR kVerifyRegB, k12x, kIndexNone, kContinue),
     (kVerifyRegA OR kVerifyRegB, k12x, kIndexNone, kContinue),
     (kVerifyRegA OR kVerifyRegB, k12x, kIndexNone, kContinue),
     (kVerifyRegAWide OR kVerifyRegBWide, k12x, kIndexNone, kContinue),
     (kVerifyRegAWide OR kVerifyRegBWide, k12x, kIndexNone, kContinue),
     (kVerifyRegAWide OR kVerifyRegBWide, k12x, kIndexNone, kContinue),
     (kVerifyRegAWide OR kVerifyRegBWide, k12x, kIndexNone, kContinue OR kThrow),
     (kVerifyRegAWide OR kVerifyRegBWide, k12x, kIndexNone, kContinue OR kThrow)]"

definition DEX_INSTRUCTION_LIST_C0 :: "InstructionRow list" where
  "DEX_INSTRUCTION_LIST_C0 = [(kVerifyRegAWide OR kVerifyRegBWide, k12x, kIndexNone, kContinue),
     (kVerifyRegAWide OR kVerifyRegBWide, k12x, kIndexNone, kContinue),
     (kVerifyRegAWide OR kVerifyRegBWide, k12x, kIndexNone, kContinue),
     (kVerifyRegAWide OR kVerifyRegB, k12x, kIndexNone, kContinue),
     (kVerifyRegAWide OR kVerifyRegB, k12x, kIndexNone, kContinue),
     (kVerifyRegAWide OR kVerifyRegB, k12x, kIndexNone, kContinue),
     (kVerifyRegA OR kVerifyRegB, k12x, kIndexNone, kContinue),
     (kVerifyRegA OR kVerifyRegB, k12x, kIndexNone, kContinue),
     (kVerifyRegA OR kVerifyRegB, k12x, kIndexNone, kContinue),
     (kVerifyRegA OR kVerifyRegB, k12x, kIndexNone, kContinue),
     (kVerifyRegA OR kVerifyRegB, k12x, kIndexNone, kContinue),
     (kVerifyRegAWide OR kVerifyRegBWide, k12x, kIndexNone, kContinue),
     (kVerifyRegAWide OR kVerifyRegBWide, k12x, kIndexNone, kContinue),
     (kVerifyRegAWide OR kVerifyRegBWide, k12x, kIndexNone, kContinue),
     (kVerifyRegAWide OR kVerifyRegBWide, k12x, kIndexNone, kContinue),
     (kVerifyRegAWide OR kVerifyRegBWide, k12x, kIndexNone, kContinue),
     (kVerifyRegA OR kVerifyRegB, k22s, kIndexNone, kContinue),
     (kVerifyRegA OR kVerifyRegB, k22s, kIndexNone, kContinue),
     (kVerifyRegA OR kVerifyRegB, k22s, kIndexNone, kContinue),
     (kVerifyRegA OR kVerifyRegB, k22s, kIndexNone, kContinue OR kThrow),
     (kVerifyRegA OR kVerifyRegB, k22s, kIndexNone, kContinue OR kThrow),
     (kVerifyRegA OR kVerifyRegB, k22s, kIndexNone, kContinue),
     (kVerifyRegA OR kVerifyRegB, k22s, kIndexNone, kContinue),
     (kVerifyRegA OR kVerifyRegB, k22s, kIndexNone, kContinue),
     (kVerifyRegA OR kVerifyRegB, k22b, kIndexNone, kContinue),
     (kVerifyRegA OR kVerifyRegB, k22b, kIndexNone, kContinue),
     (kVerifyRegA OR kVerifyRegB, k22b, kIndexNone, kContinue),
     (kVerifyRegA OR kVerifyRegB, k22b, kIndexNone, kContinue OR kThrow),
     (kVerifyRegA OR kVerifyRegB, k22b, kIndexNone, kContinue OR kThrow),
     (kVerifyRegA OR kVerifyRegB, k22b, kIndexNone, kContinue),
     (kVerifyRegA OR kVerifyRegB, k22b, kIndexNone, kContinue),
     (kVerifyRegA OR kVerifyRegB, k22b, kIndexNone, kContinue),
     (kVerifyRegA OR kVerifyRegB, k22b, kIndexNone, kContinue),
     (kVerifyRegA OR kVerifyRegB, k22b, kIndexNone, kContinue),
     (kVerifyRegA OR kVerifyRegB, k22b, kIndexNone, kContinue),
     (kVerifyRegA OR kVerifyRegB OR kVerifyRuntimeOnly, k22c, kIndexFieldOffset, kContinue OR kThrow),
     (kVerifyRegAWide OR kVerifyRegB OR kVerifyRuntimeOnly, k22c, kIndexFieldOffset, kContinue OR kThrow),
     (kVerifyRegA OR kVerifyRegB OR kVerifyRuntimeOnly, k22c, kIndexFieldOffset, kContinue OR kThrow),
     (kVerifyRegA OR kVerifyRegB OR kVerifyRuntimeOnly, k22c, kIndexFieldOffset, kContinue OR kThrow),
     (kVerifyRegAWide OR kVerifyRegB OR kVerifyRuntimeOnly, k22c, kIndexFieldOffset, kContinue OR kThrow),
     (kVerifyRegA OR kVerifyRegB OR kVerifyRuntimeOnly, k22c, kIndexFieldOffset, kContinue OR kThrow),
     (kVerifyVarArgNonZero OR kVerifyRuntimeOnly, k35c, kIndexVtableOffset, kContinue OR kThrow OR kInvoke),
     (kVerifyVarArgRangeNonZero OR kVerifyRuntimeOnly, k3rc, kIndexVtableOffset, kContinue OR kThrow OR kInvoke),
     (kVerifyRegA OR kVerifyRegB OR kVerifyRuntimeOnly, k22c, kIndexFieldOffset, kContinue OR kThrow),
     (kVerifyRegA OR kVerifyRegB OR kVerifyRuntimeOnly, k22c, kIndexFieldOffset, kContinue OR kThrow),
     (kVerifyRegA OR kVerifyRegB OR kVerifyRuntimeOnly, k22c, kIndexFieldOffset, kContinue OR kThrow),
     (kVerifyRegA OR kVerifyRegB OR kVerifyRuntimeOnly, k22c, kIndexFieldOffset, kContinue OR kThrow),
     (kVerifyRegA OR kVerifyRegB OR kVerifyRuntimeOnly, k22c, kIndexFieldOffset, kContinue OR kThrow),
     (kVerifyRegA OR kVerifyRegB OR kVerifyRuntimeOnly, k22c, kIndexFieldOffset, kContinue OR kThrow),
     (kVerifyRegA OR kVerifyRegB OR kVerifyRuntimeOnly, k22c, kIndexFieldOffset, kContinue OR kThrow),
     (kVerifyRegA OR kVerifyRegB OR kVerifyRuntimeOnly, k22c, kIndexFieldOffset, kContinue OR kThrow),
     (kVerifyError, k10x, kIndexUnknown, 0),
     (kVerifyError, k10x, kIndexUnknown, 0),
     (kVerifyError, k10x, kIndexUnknown, 0),
     (kVerifyError, k10x, kIndexUnknown, 0),
     (kVerifyError, k10x, kIndexUnknown, 0),
     (kVerifyError, k10x, kIndexUnknown, 0),
     (kVerifyError, k10x, kIndexUnknown, 0),
     (kVerifyRegBMethod OR kVerifyVarArgNonZero OR kVerifyRegHPrototype, k45cc, kIndexMethodAndProtoRef, kContinue OR kThrow OR kInvoke),
     (kVerifyRegBMethod OR kVerifyVarArgRangeNonZero OR kVerifyRegHPrototype, k4rcc, kIndexMethodAndProtoRef, kContinue OR kThrow OR kInvoke),
     (kVerifyRegBCallSite OR kVerifyVarArg, k35c, kIndexCallSiteRef, kContinue OR kThrow),
     (kVerifyRegBCallSite OR kVerifyVarArgRange, k3rc, kIndexCallSiteRef, kContinue OR kThrow),
     (kVerifyError, k10x, kIndexUnknown, 0),
     (kVerifyError, k10x, kIndexUnknown, 0)]"

definition DEX_INSTRUCTION_LIST :: "InstructionRow list" where
  "DEX_INSTRUCTION_LIST =
     DEX_INSTRUCTION_LIST_00 @ DEX_INSTRUCTION_LIST_40 @ DEX_INSTRUCTION_LIST_80 @ DEX_INSTRUCTION_LIST_C0"

section \<open>Opcode names\<close>

abbreviation (input) NOP :: Code where "NOP \<equiv> 0x00"
abbreviation (input) MOVE :: Code where "MOVE \<equiv> 0x01"
abbreviation (input) MOVE_FROM16 :: Code where "MOVE_FROM16 \<equiv> 0x02"
abbreviation (input) MOVE_16 :: Code where "MOVE_16 \<equiv> 0x03"
abbreviation (input) MOVE_WIDE :: Code where "MOVE_WIDE \<equiv> 0x04"
abbreviation (input) MOVE_WIDE_FROM16 :: Code where "MOVE_WIDE_FROM16 \<equiv> 0x05"
abbreviation (input) MOVE_WIDE_16 :: Code where "MOVE_WIDE_16 \<equiv> 0x06"
abbreviation (input) MOVE_OBJECT :: Code where "MOVE_OBJECT \<equiv> 0x07"
abbreviation (input) MOVE_OBJECT_FROM16 :: Code where "MOVE_OBJECT_FROM16 \<equiv> 0x08"
abbreviation (input) MOVE_OBJECT_16 :: Code where "MOVE_OBJECT_16 \<equiv> 0x09"
abbreviation (input) MOVE_RESULT :: Code where "MOVE_RESULT \<equiv> 0x0A"
abbreviation (input) MOVE_RESULT_WIDE :: Code where "MOVE_RESULT_WIDE \<equiv> 0x0B"
abbreviation (input) MOVE_RESULT_OBJECT :: Code where "MOVE_RESULT_OBJECT \<equiv> 0x0C"
abbreviation (input) MOVE_EXCEPTION :: Code where "MOVE_EXCEPTION \<equiv> 0x0D"
abbreviation (input) RETURN_VOID :: Code where "RETURN_VOID \<equiv> 0x0E"
abbreviation (input) RETURN :: Code where "RETURN \<equiv> 0x0F"
abbreviation (input) RETURN_WIDE :: Code where "RETURN_WIDE \<equiv> 0x10"
abbreviation (input) RETURN_OBJECT :: Code where "RETURN_OBJECT \<equiv> 0x11"
abbreviation (input) CONST_4 :: Code where "CONST_4 \<equiv> 0x12"
abbreviation (input) CONST_16 :: Code where "CONST_16 \<equiv> 0x13"
abbreviation (input) CONST_insn :: Code where "CONST_insn \<equiv> 0x14"
abbreviation (input) CONST_HIGH16 :: Code where "CONST_HIGH16 \<equiv> 0x15"
abbreviation (input) CONST_WIDE_16 :: Code where "CONST_WIDE_16 \<equiv> 0x16"
abbreviation (input) CONST_WIDE_32 :: Code where "CONST_WIDE_32 \<equiv> 0x17"
abbreviation (input) CONST_WIDE :: Code where "CONST_WIDE \<equiv> 0x18"
abbreviation (input) CONST_WIDE_HIGH16 :: Code where "CONST_WIDE_HIGH16 \<equiv> 0x19"
abbreviation (input) CONST_STRING :: Code where "CONST_STRING \<equiv> 0x1A"
abbreviation (input) CONST_STRING_JUMBO :: Code where "CONST_STRING_JUMBO \<equiv> 0x1B"
abbreviation (input) CONST_CLASS :: Code where "CONST_CLASS \<equiv> 0x1C"
abbreviation (input) MONITOR_ENTER :: Code where "MONITOR_ENTER \<equiv> 0x1D"
abbreviation (input) MONITOR_EXIT :: Code where "MONITOR_EXIT \<equiv> 0x1E"
abbreviation (input) CHECK_CAST :: Code where "CHECK_CAST \<equiv> 0x1F"
abbreviation (input) INSTANCE_OF :: Code where "INSTANCE_OF \<equiv> 0x20"
abbreviation (input) ARRAY_LENGTH :: Code where "ARRAY_LENGTH \<equiv> 0x21"
abbreviation (input) NEW_INSTANCE :: Code where "NEW_INSTANCE \<equiv> 0x22"
abbreviation (input) NEW_ARRAY :: Code where "NEW_ARRAY \<equiv> 0x23"
abbreviation (input) FILLED_NEW_ARRAY :: Code where "FILLED_NEW_ARRAY \<equiv> 0x24"
abbreviation (input) FILLED_NEW_ARRAY_RANGE :: Code where "FILLED_NEW_ARRAY_RANGE \<equiv> 0x25"
abbreviation (input) FILL_ARRAY_DATA :: Code where "FILL_ARRAY_DATA \<equiv> 0x26"
abbreviation (input) THROW :: Code where "THROW \<equiv> 0x27"
abbreviation (input) GOTO :: Code where "GOTO \<equiv> 0x28"
abbreviation (input) GOTO_16 :: Code where "GOTO_16 \<equiv> 0x29"
abbreviation (input) GOTO_32 :: Code where "GOTO_32 \<equiv> 0x2A"
abbreviation (input) PACKED_SWITCH :: Code where "PACKED_SWITCH \<equiv> 0x2B"
abbreviation (input) SPARSE_SWITCH :: Code where "SPARSE_SWITCH \<equiv> 0x2C"
abbreviation (input) CMPL_FLOAT :: Code where "CMPL_FLOAT \<equiv> 0x2D"
abbreviation (input) CMPG_FLOAT :: Code where "CMPG_FLOAT \<equiv> 0x2E"
abbreviation (input) CMPL_DOUBLE :: Code where "CMPL_DOUBLE \<equiv> 0x2F"
abbreviation (input) CMPG_DOUBLE :: Code where "CMPG_DOUBLE \<equiv> 0x30"
abbreviation (input) CMP_LONG :: Code where "CMP_LONG \<equiv> 0x31"
abbreviation (input) IF_EQ :: Code where "IF_EQ \<equiv> 0x32"
abbreviation (input) IF_NE :: Code where "IF_NE \<equiv> 0x33"
abbreviation (input) IF_LT :: Code where "IF_LT \<equiv> 0x34"
abbreviation (input) IF_GE :: Code where "IF_GE \<equiv> 0x35"
abbreviation (input) IF_GT :: Code where "IF_GT \<equiv> 0x36"
abbreviation (input) IF_LE :: Code where "IF_LE \<equiv> 0x37"
abbreviation (input) IF_EQZ :: Code where "IF_EQZ \<equiv> 0x38"
abbreviation (input) IF_NEZ :: Code where "IF_NEZ \<equiv> 0x39"
abbreviation (input) IF_LTZ :: Code where "IF_LTZ \<equiv> 0x3A"
abbreviation (input) IF_GEZ :: Code where "IF_GEZ \<equiv> 0x3B"
abbreviation (input) IF_GTZ :: Code where "IF_GTZ \<equiv> 0x3C"
abbreviation (input) IF_LEZ :: Code where "IF_LEZ \<equiv> 0x3D"
abbreviation (input) UNUSED_3E :: Code where "UNUSED_3E \<equiv> 0x3E"
abbreviation (input) UNUSED_3F :: Code where "UNUSED_3F \<equiv> 0x3F"
abbreviation (input) UNUSED_40 :: Code where "UNUSED_40 \<equiv> 0x40"
abbreviation (input) UNUSED_41 :: Code where "UNUSED_41 \<equiv> 0x41"
abbreviation (input) UNUSED_42 :: Code where "UNUSED_42 \<equiv> 0x42"
abbreviation (input) UNUSED_43 :: Code where "UNUSED_43 \<equiv> 0x43"
abbreviation (input) AGET :: Code where "AGET \<equiv> 0x44"
abbreviation (input) AGET_WIDE :: Code where "AGET_WIDE \<equiv> 0x45"
abbreviation (input) AGET_OBJECT :: Code where "AGET_OBJECT \<equiv> 0x46"
abbreviation (input) AGET_BOOLEAN :: Code where "AGET_BOOLEAN \<equiv> 0x47"
abbreviation (input) AGET_BYTE :: Code where "AGET_BYTE \<equiv> 0x48"
abbreviation (input) AGET_CHAR :: Code where "AGET_CHAR \<equiv> 0x49"
abbreviation (input) AGET_SHORT :: Code where "AGET_SHORT \<equiv> 0x4A"
abbreviation (input) APUT :: Code where "APUT \<equiv> 0x4B"
abbreviation (input) APUT_WIDE :: Code where "APUT_WIDE \<equiv> 0x4C"
abbreviation (input) APUT_OBJECT :: Code where "APUT_OBJECT \<equiv> 0x4D"
abbreviation (input) APUT_BOOLEAN :: Code where "APUT_BOOLEAN \<equiv> 0x4E"
abbreviation (input) APUT_BYTE :: Code where "APUT_BYTE \<equiv> 0x4F"
abbreviation (input) APUT_CHAR :: Code where "APUT_CHAR \<equiv> 0x50"
abbreviation (input) APUT_SHORT :: Code where "APUT_SHORT \<equiv> 0x51"
abbreviation (input) IGET :: Code where "IGET \<equiv> 0x52"
abbreviation (input) IGET_WIDE :: Code where "IGET_WIDE \<equiv> 0x53"
abbreviation (input) IGET_OBJECT :: Code where "IGET_OBJECT \<equiv> 0x54"
abbreviation (input) IGET_BOOLEAN :: Code where "IGET_BOOLEAN \<equiv> 0x55"
abbreviation (input) IGET_BYTE :: Code where "IGET_BYTE \<equiv> 0x56"
abbreviation (input) IGET_CHAR :: Code where "IGET_CHAR \<equiv> 0x57"
abbreviation (input) IGET_SHORT :: Code where "IGET_SHORT \<equiv> 0x58"
abbreviation (input) IPUT :: Code where "IPUT \<equiv> 0x59"
abbreviation (input) IPUT_WIDE :: Code where "IPUT_WIDE \<equiv> 0x5A"
abbreviation (input) IPUT_OBJECT :: Code where "IPUT_OBJECT \<equiv> 0x5B"
abbreviation (input) IPUT_BOOLEAN :: Code where "IPUT_BOOLEAN \<equiv> 0x5C"
abbreviation (input) IPUT_BYTE :: Code where "IPUT_BYTE \<equiv> 0x5D"
abbreviation (input) IPUT_CHAR :: Code where "IPUT_CHAR \<equiv> 0x5E"
abbreviation (input) IPUT_SHORT :: Code where "IPUT_SHORT \<equiv> 0x5F"
abbreviation (input) SGET :: Code where "SGET \<equiv> 0x60"
abbreviation (input) SGET_WIDE :: Code where "SGET_WIDE \<equiv> 0x61"
abbreviation (input) SGET_OBJECT :: Code where "SGET_OBJECT \<equiv> 0x62"
abbreviation (input) SGET_BOOLEAN :: Code where "SGET_BOOLEAN \<equiv> 0x63"
abbreviation (input) SGET_BYTE :: Code where "SGET_BYTE \<equiv> 0x64"
abbreviation (input) SGET_CHAR :: Code where "SGET_CHAR \<equiv> 0x65"
abbreviation (input) SGET_SHORT :: Code where "SGET_SHORT \<equiv> 0x66"
abbreviation (input) SPUT :: Code where "SPUT \<equiv> 0x67"
abbreviation (input) SPUT_WIDE :: Code where "SPUT_WIDE \<equiv> 0x68"
abbreviation (input) SPUT_OBJECT :: Code where "SPUT_OBJECT \<equiv> 0x69"
abbreviation (input) SPUT_BOOLEAN :: Code where "SPUT_BOOLEAN \<equiv> 0x6A"
abbreviation (input) SPUT_BYTE :: Code where "SPUT_BYTE \<equiv> 0x6B"
abbreviation (input) SPUT_CHAR :: Code where "SPUT_CHAR \<equiv> 0x6C"
abbreviation (input) SPUT_SHORT :: Code where "SPUT_SHORT \<equiv> 0x6D"
abbreviation (input) INVOKE_VIRTUAL :: Code where "INVOKE_VIRTUAL \<equiv> 0x6E"
abbreviation (input) INVOKE_SUPER :: Code where "INVOKE_SUPER \<equiv> 0x6F"
abbreviation (input) INVOKE_DIRECT :: Code where "INVOKE_DIRECT \<equiv> 0x70"
abbreviation (input) INVOKE_STATIC :: Code where "INVOKE_STATIC \<equiv> 0x71"
abbreviation (input) INVOKE_INTERFACE :: Code where "INVOKE_INTERFACE \<equiv> 0x72"
abbreviation (input) RETURN_VOID_NO_BARRIER :: Code where "RETURN_VOID_NO_BARRIER \<equiv> 0x73"
abbreviation (input) INVOKE_VIRTUAL_RANGE :: Code where "INVOKE_VIRTUAL_RANGE \<equiv> 0x74"
abbreviation (input) INVOKE_SUPER_RANGE :: Code where "INVOKE_SUPER_RANGE \<equiv> 0x75"
abbreviation (input) INVOKE_DIRECT_RANGE :: Code where "INVOKE_DIRECT_RANGE \<equiv> 0x76"
abbreviation (input) INVOKE_STATIC_RANGE :: Code where "INVOKE_STATIC_RANGE \<equiv> 0x77"
abbreviation (input) INVOKE_INTERFACE_RANGE :: Code where "INVOKE_INTERFACE_RANGE \<equiv> 0x78"
abbreviation (input) UNUSED_79 :: Code where "UNUSED_79 \<equiv> 0x79"
abbreviation (input) UNUSED_7A :: Code where "UNUSED_7A \<equiv> 0x7A"
abbreviation (input) NEG_INT :: Code where "NEG_INT \<equiv> 0x7B"
abbreviation (input) NOT_INT :: Code where "NOT_INT \<equiv> 0x7C"
abbreviation (input) NEG_LONG :: Code where "NEG_LONG \<equiv> 0x7D"
abbreviation (input) NOT_LONG :: Code where "NOT_LONG \<equiv> 0x7E"
abbreviation (input) NEG_FLOAT :: Code where "NEG_FLOAT \<equiv> 0x7F"
abbreviation (input) NEG_DOUBLE :: Code where "NEG_DOUBLE \<equiv> 0x80"
abbreviation (input) INT_TO_LONG :: Code where "INT_TO_LONG \<equiv> 0x81"
abbreviation (input) INT_TO_FLOAT :: Code where "INT_TO_FLOAT \<equiv> 0x82"
abbreviation (input) INT_TO_DOUBLE :: Code where "INT_TO_DOUBLE \<equiv> 0x83"
abbreviation (input) LONG_TO_INT :: Code where "LONG_TO_INT \<equiv> 0x84"
abbreviation (input) LONG_TO_FLOAT :: Code where "LONG_TO_FLOAT \<equiv> 0x85"
abbreviation (input) LONG_TO_DOUBLE :: Code where "LONG_TO_DOUBLE \<equiv> 0x86"
abbreviation (input) FLOAT_TO_INT :: Code where "FLOAT_TO_INT \<equiv> 0x87"
abbreviation (input) FLOAT_TO_LONG :: Code where "FLOAT_TO_LONG \<equiv> 0x88"
abbreviation (input) FLOAT_TO_DOUBLE :: Code where "FLOAT_TO_DOUBLE \<equiv> 0x89"
abbreviation (input) DOUBLE_TO_INT :: Code where "DOUBLE_TO_INT \<equiv> 0x8A"
abbreviation (input) DOUBLE_TO_LONG :: Code where "DOUBLE_TO_LONG \<equiv> 0x8B"
abbreviation (input) DOUBLE_TO_FLOAT :: Code where "DOUBLE_TO_FLOAT \<equiv> 0x8C"
abbreviation (input) INT_TO_BYTE :: Code where "INT_TO_BYTE \<equiv> 0x8D"
abbreviation (input) INT_TO_CHAR :: Code where "INT_TO_CHAR \<equiv> 0x8E"
abbreviation (input) INT_TO_SHORT :: Code where "INT_TO_SHORT \<equiv> 0x8F"
abbreviation (input) ADD_INT :: Code where "ADD_INT \<equiv> 0x90"
abbreviation (input) SUB_INT :: Code where "SUB_INT \<equiv> 0x91"
abbreviation (input) MUL_INT :: Code where "MUL_INT \<equiv> 0x92"
abbreviation (input) DIV_INT :: Code where "DIV_INT \<equiv> 0x93"
abbreviation (input) REM_INT :: Code where "REM_INT \<equiv> 0x94"
abbreviation (input) AND_INT :: Code where "AND_INT \<equiv> 0x95"
abbreviation (input) OR_INT :: Code where "OR_INT \<equiv> 0x96"
abbreviation (input) XOR_INT :: Code where "XOR_INT \<equiv> 0x97"
abbreviation (input) SHL_INT :: Code where "SHL_INT \<equiv> 0x98"
abbreviation (input) SHR_INT :: Code where "SHR_INT \<equiv> 0x99"
abbreviation (input) USHR_INT :: Code where "USHR_INT \<equiv> 0x9A"
abbreviation (input) ADD_LONG :: Code where "ADD_LONG \<equiv> 0x9B"
abbreviation (input) SUB_LONG :: Code where "SUB_LONG \<equiv> 0x9C"
abbreviation (input) MUL_LONG :: Code where "MUL_LONG \<equiv> 0x9D"
abbreviation (input) DIV_LONG :: Code where "DIV_LONG \<equiv> 0x9E"
abbreviation (input) REM_LONG :: Code where "REM_LONG \<equiv> 0x9F"
abbreviation (input) AND_LONG :: Code where "AND_LONG \<equiv> 0xA0"
abbreviation (input) OR_LONG :: Code where "OR_LONG \<equiv> 0xA1"
abbreviation (input) XOR_LONG :: Code where "XOR_LONG \<equiv> 0xA2"
abbreviation (input) SHL_LONG :: Code where "SHL_LONG \<equiv> 0xA3"
abbreviation (input) SHR_LONG :: Code where "SHR_LONG \<equiv> 0xA4"
abbreviation (input) USHR_LONG :: Code where "USHR_LONG \<equiv> 0xA5"
abbreviation (input) ADD_FLOAT :: Code where "ADD_FLOAT \<equiv> 0xA6"
abbreviation (input) SUB_FLOAT :: Code where "SUB_FLOAT \<equiv> 0xA7"
abbreviation (input) MUL_FLOAT :: Code where "MUL_FLOAT \<equiv> 0xA8"
abbreviation (input) DIV_FLOAT :: Code where "DIV_FLOAT \<equiv> 0xA9"
abbreviation (input) REM_FLOAT :: Code where "REM_FLOAT \<equiv> 0xAA"
abbreviation (input) ADD_DOUBLE :: Code where "ADD_DOUBLE \<equiv> 0xAB"
abbreviation (input) SUB_DOUBLE :: Code where "SUB_DOUBLE \<equiv> 0xAC"
abbreviation (input) MUL_DOUBLE :: Code where "MUL_DOUBLE \<equiv> 0xAD"
abbreviation (input) DIV_DOUBLE :: Code where "DIV_DOUBLE \<equiv> 0xAE"
abbreviation (input) REM_DOUBLE :: Code where "REM_DOUBLE \<equiv> 0xAF"
abbreviation (input) ADD_INT_2ADDR :: Code where "ADD_INT_2ADDR \<equiv> 0xB0"
abbreviation (input) SUB_INT_2ADDR :: Code where "SUB_INT_2ADDR \<equiv> 0xB1"
abbreviation (input) MUL_INT_2ADDR :: Code where "MUL_INT_2ADDR \<equiv> 0xB2"
abbreviation (input) DIV_INT_2ADDR :: Code where "DIV_INT_2ADDR \<equiv> 0xB3"
abbreviation (input) REM_INT_2ADDR :: Code where "REM_INT_2ADDR \<equiv> 0xB4"
abbreviation (input) AND_INT_2ADDR :: Code where "AND_INT_2ADDR \<equiv> 0xB5"
abbreviation (input) OR_INT_2ADDR :: Code where "OR_INT_2ADDR \<equiv> 0xB6"
abbreviation (input) XOR_INT_2ADDR :: Code where "XOR_INT_2ADDR \<equiv> 0xB7"
abbreviation (input) SHL_INT_2ADDR :: Code where "SHL_INT_2ADDR \<equiv> 0xB8"
abbreviation (input) SHR_INT_2ADDR :: Code where "SHR_INT_2ADDR \<equiv> 0xB9"
abbreviation (input) USHR_INT_2ADDR :: Code where "USHR_INT_2ADDR \<equiv> 0xBA"
abbreviation (input) ADD_LONG_2ADDR :: Code where "ADD_LONG_2ADDR \<equiv> 0xBB"
abbreviation (input) SUB_LONG_2ADDR :: Code where "SUB_LONG_2ADDR \<equiv> 0xBC"
abbreviation (input) MUL_LONG_2ADDR :: Code where "MUL_LONG_2ADDR \<equiv> 0xBD"
abbreviation (input) DIV_LONG_2ADDR :: Code where "DIV_LONG_2ADDR \<equiv> 0xBE"
abbreviation (input) REM_LONG_2ADDR :: Code where "REM_LONG_2ADDR \<equiv> 0xBF"
abbreviation (input) AND_LONG_2ADDR :: Code where "AND_LONG_2ADDR \<equiv> 0xC0"
abbreviation (input) OR_LONG_2ADDR :: Code where "OR_LONG_2ADDR \<equiv> 0xC1"
abbreviation (input) XOR_LONG_2ADDR :: Code where "XOR_LONG_2ADDR \<equiv> 0xC2"
abbreviation (input) SHL_LONG_2ADDR :: Code where "SHL_LONG_2ADDR \<equiv> 0xC3"
abbreviation (input) SHR_LONG_2ADDR :: Code where "SHR_LONG_2ADDR \<equiv> 0xC4"
abbreviation (input) USHR_LONG_2ADDR :: Code where "USHR_LONG_2ADDR \<equiv> 0xC5"
abbreviation (input) ADD_FLOAT_2ADDR :: Code where "ADD_FLOAT_2ADDR \<equiv> 0xC6"
abbreviation (input) SUB_FLOAT_2ADDR :: Code where "SUB_FLOAT_2ADDR \<equiv> 0xC7"
abbreviation (input) MUL_FLOAT_2ADDR :: Code where "MUL_FLOAT_2ADDR \<equiv> 0xC8"
abbreviation (input) DIV_FLOAT_2ADDR :: Code where "DIV_FLOAT_2ADDR \<equiv> 0xC9"
abbreviation (input) REM_FLOAT_2ADDR :: Code where "REM_FLOAT_2ADDR \<equiv> 0xCA"
abbreviation (input) ADD_DOUBLE_2ADDR :: Code where "ADD_DOUBLE_2ADDR \<equiv> 0xCB"
abbreviation (input) SUB_DOUBLE_2ADDR :: Code where "SUB_DOUBLE_2ADDR \<equiv> 0xCC"
abbreviation (input) MUL_DOUBLE_2ADDR :: Code where "MUL_DOUBLE_2ADDR \<equiv> 0xCD"
abbreviation (input) DIV_DOUBLE_2ADDR :: Code where "DIV_DOUBLE_2ADDR \<equiv> 0xCE"
abbreviation (input) REM_DOUBLE_2ADDR :: Code where "REM_DOUBLE_2ADDR \<equiv> 0xCF"
abbreviation (input) ADD_INT_LIT16 :: Code where "ADD_INT_LIT16 \<equiv> 0xD0"
abbreviation (input) RSUB_INT :: Code where "RSUB_INT \<equiv> 0xD1"
abbreviation (input) MUL_INT_LIT16 :: Code where "MUL_INT_LIT16 \<equiv> 0xD2"
abbreviation (input) DIV_INT_LIT16 :: Code where "DIV_INT_LIT16 \<equiv> 0xD3"
abbreviation (input) REM_INT_LIT16 :: Code where "REM_INT_LIT16 \<equiv> 0xD4"
abbreviation (input) AND_INT_LIT16 :: Code where "AND_INT_LIT16 \<equiv> 0xD5"
abbreviation (input) OR_INT_LIT16 :: Code where "OR_INT_LIT16 \<equiv> 0xD6"
abbreviation (input) XOR_INT_LIT16 :: Code where "XOR_INT_LIT16 \<equiv> 0xD7"
abbreviation (input) ADD_INT_LIT8 :: Code where "ADD_INT_LIT8 \<equiv> 0xD8"
abbreviation (input) RSUB_INT_LIT8 :: Code where "RSUB_INT_LIT8 \<equiv> 0xD9"
abbreviation (input) MUL_INT_LIT8 :: Code where "MUL_INT_LIT8 \<equiv> 0xDA"
abbreviation (input) DIV_INT_LIT8 :: Code where "DIV_INT_LIT8 \<equiv> 0xDB"
abbreviation (input) REM_INT_LIT8 :: Code where "REM_INT_LIT8 \<equiv> 0xDC"
abbreviation (input) AND_INT_LIT8 :: Code where "AND_INT_LIT8 \<equiv> 0xDD"
abbreviation (input) OR_INT_LIT8 :: Code where "OR_INT_LIT8 \<equiv> 0xDE"
abbreviation (input) XOR_INT_LIT8 :: Code where "XOR_INT_LIT8 \<equiv> 0xDF"
abbreviation (input) SHL_INT_LIT8 :: Code where "SHL_INT_LIT8 \<equiv> 0xE0"
abbreviation (input) SHR_INT_LIT8 :: Code where "SHR_INT_LIT8 \<equiv> 0xE1"
abbreviation (input) USHR_INT_LIT8 :: Code where "USHR_INT_LIT8 \<equiv> 0xE2"
abbreviation (input) IGET_QUICK :: Code where "IGET_QUICK \<equiv> 0xE3"
abbreviation (input) IGET_WIDE_QUICK :: Code where "IGET_WIDE_QUICK \<equiv> 0xE4"
abbreviation (input) IGET_OBJECT_QUICK :: Code where "IGET_OBJECT_QUICK \<equiv> 0xE5"
abbreviation (input) IPUT_QUICK :: Code where "IPUT_QUICK \<equiv> 0xE6"
abbreviation (input) IPUT_WIDE_QUICK :: Code where "IPUT_WIDE_QUICK \<equiv> 0xE7"
abbreviation (input) IPUT_OBJECT_QUICK :: Code where "IPUT_OBJECT_QUICK \<equiv> 0xE8"
abbreviation (input) INVOKE_VIRTUAL_QUICK :: Code where "INVOKE_VIRTUAL_QUICK \<equiv> 0xE9"
abbreviation (input) INVOKE_VIRTUAL_RANGE_QUICK :: Code where "INVOKE_VIRTUAL_RANGE_QUICK \<equiv> 0xEA"
abbreviation (input) IPUT_BOOLEAN_QUICK :: Code where "IPUT_BOOLEAN_QUICK \<equiv> 0xEB"
abbreviation (input) IPUT_BYTE_QUICK :: Code where "IPUT_BYTE_QUICK \<equiv> 0xEC"
abbreviation (input) IPUT_CHAR_QUICK :: Code where "IPUT_CHAR_QUICK \<equiv> 0xED"
abbreviation (input) IPUT_SHORT_QUICK :: Code where "IPUT_SHORT_QUICK \<equiv> 0xEE"
abbreviation (input) IGET_BOOLEAN_QUICK :: Code where "IGET_BOOLEAN_QUICK \<equiv> 0xEF"
abbreviation (input) IGET_BYTE_QUICK :: Code where "IGET_BYTE_QUICK \<equiv> 0xF0"
abbreviation (input) IGET_CHAR_QUICK :: Code where "IGET_CHAR_QUICK \<equiv> 0xF1"
abbreviation (input) IGET_SHORT_QUICK :: Code where "IGET_SHORT_QUICK \<equiv> 0xF2"
abbreviation (input) UNUSED_F3 :: Code where "UNUSED_F3 \<equiv> 0xF3"
abbreviation (input) UNUSED_F4 :: Code where "UNUSED_F4 \<equiv> 0xF4"
abbreviation (input) UNUSED_F5 :: Code where "UNUSED_F5 \<equiv> 0xF5"
abbreviation (input) UNUSED_F6 :: Code where "UNUSED_F6 \<equiv> 0xF6"
abbreviation (input) UNUSED_F7 :: Code where "UNUSED_F7 \<equiv> 0xF7"
abbreviation (input) UNUSED_F8 :: Code where "UNUSED_F8 \<equiv> 0xF8"
abbreviation (input) UNUSED_F9 :: Code where "UNUSED_F9 \<equiv> 0xF9"
abbreviation (input) INVOKE_POLYMORPHIC :: Code where "INVOKE_POLYMORPHIC \<equiv> 0xFA"
abbreviation (input) INVOKE_POLYMORPHIC_RANGE :: Code where "INVOKE_POLYMORPHIC_RANGE \<equiv> 0xFB"
abbreviation (input) INVOKE_CUSTOM :: Code where "INVOKE_CUSTOM \<equiv> 0xFC"
abbreviation (input) INVOKE_CUSTOM_RANGE :: Code where "INVOKE_CUSTOM_RANGE \<equiv> 0xFD"
abbreviation (input) UNUSED_FE :: Code where "UNUSED_FE \<equiv> 0xFE"
abbreviation (input) UNUSED_FF :: Code where "UNUSED_FF \<equiv> 0xFF"
abbreviation (input) RSUB_INT_LIT16 :: Code where "RSUB_INT_LIT16 \<equiv> RSUB_INT"

end
