(* ===== verification/Dex_Instruction.thy ===== *)
theory Dex_Instruction
  imports Dex_Instruction_List
begin

text \<open>
  Dex instructions: the operand accessors of \<open>dex_instruction-inl.h\<close>, sizes and the in-place setters of
  \<open>dex_instruction.h\<close>, and the flag queries.  An operand the format does not have, which the code answers
  with \<open>LOG(FATAL)\<close>, is \<open>None\<close>.
\<close>

section \<open>Code units and descriptors\<close>

definition Fetch16 :: "Instruction \<Rightarrow> nat \<Rightarrow> u16" where
  "Fetch16 inst offset = inst offset"

definition Fetch32 :: "Instruction \<Rightarrow> nat \<Rightarrow> u32" where
  "Fetch32 inst offset = ucast (Fetch16 inst offset) OR push_bit 16 (ucast (Fetch16 inst (offset + 1)))"

definition InstA :: "u16 \<Rightarrow> u8" where
  "InstA inst_data = ucast (drop_bit 8 inst_data AND 0x0f)"

definition InstB :: "u16 \<Rightarrow> u8" where
  "InstB inst_data = ucast (drop_bit 12 inst_data)"

definition InstAA :: "u16 \<Rightarrow> u8" where
  "InstAA inst_data = ucast (drop_bit 8 inst_data)"

definition Opcode :: "Instruction \<Rightarrow> Code" where
  "Opcode inst = ucast (Fetch16 inst 0 AND 0xff)"

definition FormatOf :: "Code \<Rightarrow> Format" where
  "FormatOf opcode = fst (snd (DEX_INSTRUCTION_LIST ! unat opcode))"

definition IndexTypeOf :: "Code \<Rightarrow> IndexType" where
  "IndexTypeOf opcode = fst (snd (snd (DEX_INSTRUCTION_LIST ! unat opcode)))"

definition FlagsOf :: "Code \<Rightarrow> u8" where
  "FlagsOf opcode = snd (snd (snd (DEX_INSTRUCTION_LIST ! unat opcode)))"

definition VerifyFlagsOf :: "Code \<Rightarrow> u32" where
  "VerifyFlagsOf opcode = fst (DEX_INSTRUCTION_LIST ! unat opcode)"

section \<open>Sizes\<close>

definition InstructionSizeInCodeUnitsByOpcode :: "Code \<Rightarrow> Format \<Rightarrow> int" where
  "InstructionSizeInCodeUnitsByOpcode opcode format =
     (if opcode = NOP then -1
      else if format \<ge> k10x \<and> format \<le> k10t then 1
      else if format \<ge> k20t \<and> format \<le> k22c then 2
      else if format \<ge> k32x \<and> format \<le> k3rc then 3
      else if format \<ge> k45cc \<and> format \<le> k4rcc then 4
      else if format = k51l then 5
      else -1)"

definition kPackedSwitchSignature :: u16 where "kPackedSwitchSignature = 0x0100"
definition kSparseSwitchSignature :: u16 where "kSparseSwitchSignature = 0x0200"
definition kArrayDataSignature :: u16 where "kArrayDataSignature = 0x0300"

text \<open>The arithmetic on \<open>insns[1]\<close> is done in \<open>int\<close> and cannot overflow; the size of an array payload
  is computed in \<open>uint32_t\<close> and wraps.\<close>

definition SizeInCodeUnitsComplexOpcode :: "Instruction \<Rightarrow> nat option" where
  "SizeInCodeUnitsComplexOpcode insns =
     (if insns 0 = kPackedSwitchSignature then Some (4 + unat (insns 1) * 2)
      else if insns 0 = kSparseSwitchSignature then Some (2 + unat (insns 1) * 4)
      else if insns 0 = kArrayDataSignature then
        let element_size = insns 1;
            len = ucast (insns 2) OR push_bit 16 (ucast (insns 3) :: u32)
        in Some (unat (4 + (ucast element_size * len + 1) div 2 :: u32))
      else if insns 0 AND 0xff = 0 then Some 1
      else None)"

definition SizeInCodeUnits :: "Instruction \<Rightarrow> nat option" where
  "SizeInCodeUnits inst =
     (let result = InstructionSizeInCodeUnitsByOpcode (Opcode inst) (FormatOf (Opcode inst)) in
      if result < 0 then SizeInCodeUnitsComplexOpcode inst else Some (nat result))"

definition RelativeAt :: "(int \<Rightarrow> u16) \<Rightarrow> int \<Rightarrow> Instruction" where
  "RelativeAt code pc = (\<lambda>i. code (pc + int i))"

section \<open>Operands\<close>

subsection \<open>A\<close>

definition VRegA_10t :: "u16 \<Rightarrow> u8" where
  "VRegA_10t inst_data = InstAA inst_data"

definition VRegA_10x :: "u16 \<Rightarrow> u8" where
  "VRegA_10x inst_data = InstAA inst_data"

definition VRegA_11n :: "u16 \<Rightarrow> u8" where
  "VRegA_11n inst_data = InstA inst_data"

definition VRegA_11x :: "u16 \<Rightarrow> u8" where
  "VRegA_11x inst_data = InstAA inst_data"

definition VRegA_12x :: "u16 \<Rightarrow> u8" where
  "VRegA_12x inst_data = InstA inst_data"

definition VRegA_20t :: "Instruction \<Rightarrow> u16" where
  "VRegA_20t inst = Fetch16 inst 1"

definition VRegA_21c :: "u16 \<Rightarrow> u8" where
  "VRegA_21c inst_data = InstAA inst_data"

definition VRegA_21h :: "u16 \<Rightarrow> u8" where
  "VRegA_21h inst_data = InstAA inst_data"

definition VRegA_21s :: "u16 \<Rightarrow> u8" where
  "VRegA_21s inst_data = InstAA inst_data"

definition VRegA_21t :: "u16 \<Rightarrow> u8" where
  "VRegA_21t inst_data = InstAA inst_data"

definition VRegA_22b :: "u16 \<Rightarrow> u8" where
  "VRegA_22b inst_data = InstAA inst_data"

definition VRegA_22c :: "u16 \<Rightarrow> u8" where
  "VRegA_22c inst_data = InstA inst_data"

definition VRegA_22s :: "u16 \<Rightarrow> u8" where
  "VRegA_22s inst_data = InstA inst_data"

definition VRegA_22t :: "u16 \<Rightarrow> u8" where
  "VRegA_22t inst_data = InstA inst_data"

definition VRegA_22x :: "u16 \<Rightarrow> u8" where
  "VRegA_22x inst_data = InstAA inst_data"

definition VRegA_23x :: "u16 \<Rightarrow> u8" where
  "VRegA_23x inst_data = InstAA inst_data"

definition VRegA_30t :: "Instruction \<Rightarrow> u32" where
  "VRegA_30t inst = Fetch32 inst 1"

definition VRegA_31c :: "u16 \<Rightarrow> u8" where
  "VRegA_31c inst_data = InstAA inst_data"

definition VRegA_31i :: "u16 \<Rightarrow> u8" where
  "VRegA_31i inst_data = InstAA inst_data"

definition VRegA_31t :: "u16 \<Rightarrow> u8" where
  "VRegA_31t inst_data = InstAA inst_data"

definition VRegA_32x :: "Instruction \<Rightarrow> u16" where
  "VRegA_32x inst = Fetch16 inst 1"

definition VRegA_35c :: "u16 \<Rightarrow> u8" where
  "VRegA_35c inst_data = InstB inst_data"

definition VRegA_3rc :: "u16 \<Rightarrow> u8" where
  "VRegA_3rc inst_data = InstAA inst_data"

definition VRegA_51l :: "u16 \<Rightarrow> u8" where
  "VRegA_51l inst_data = InstAA inst_data"

definition VRegA_45cc :: "u16 \<Rightarrow> u8" where
  "VRegA_45cc inst_data = InstB inst_data"

definition VRegA_4rcc :: "u16 \<Rightarrow> u8" where
  "VRegA_4rcc inst_data = InstAA inst_data"

definition HasVRegA :: "Instruction \<Rightarrow> bool" where
  "HasVRegA inst =
     (case FormatOf (Opcode inst) of
        k10t \<Rightarrow> True | k10x \<Rightarrow> True | k11n \<Rightarrow> True | k11x \<Rightarrow> True | k12x \<Rightarrow> True
      | k20t \<Rightarrow> True | k21c \<Rightarrow> True | k21h \<Rightarrow> True | k21s \<Rightarrow> True | k21t \<Rightarrow> True
      | k22b \<Rightarrow> True | k22c \<Rightarrow> True | k22s \<Rightarrow> True | k22t \<Rightarrow> True | k22x \<Rightarrow> True
      | k23x \<Rightarrow> True | k30t \<Rightarrow> True | k31c \<Rightarrow> True | k31i \<Rightarrow> True | k31t \<Rightarrow> True
      | k32x \<Rightarrow> True | k35c \<Rightarrow> True | k3rc \<Rightarrow> True | k45cc \<Rightarrow> True | k4rcc \<Rightarrow> True
      | k51l \<Rightarrow> True)"

definition VRegA :: "Instruction \<Rightarrow> u32 option" where
  "VRegA inst =
     (case FormatOf (Opcode inst) of
        k10t \<Rightarrow> Some (scast (VRegA_10t (Fetch16 inst 0)))
      | k10x \<Rightarrow> Some (ucast (VRegA_10x (Fetch16 inst 0)))
      | k11n \<Rightarrow> Some (ucast (VRegA_11n (Fetch16 inst 0)))
      | k11x \<Rightarrow> Some (ucast (VRegA_11x (Fetch16 inst 0)))
      | k12x \<Rightarrow> Some (ucast (VRegA_12x (Fetch16 inst 0)))
      | k20t \<Rightarrow> Some (scast (VRegA_20t inst))
      | k21c \<Rightarrow> Some (ucast (VRegA_21c (Fetch16 inst 0)))
      | k21h \<Rightarrow> Some (ucast (VRegA_21h (Fetch16 inst 0)))
      | k21s \<Rightarrow> Some (ucast (VRegA_21s (Fetch16 inst 0)))
      | k21t \<Rightarrow> Some (ucast (VRegA_21t (Fetch16 inst 0)))
      | k22b \<Rightarrow> Some (ucast (VRegA_22b (Fetch16 inst 0)))
      | k22c \<Rightarrow> Some (ucast (VRegA_22c (Fetch16 inst 0)))
      | k22s \<Rightarrow> Some (ucast (VRegA_22s (Fetch16 inst 0)))
      | k22t \<Rightarrow> Some (ucast (VRegA_22t (Fetch16 inst 0)))
      | k22x \<Rightarrow> Some (ucast (VRegA_22x (Fetch16 inst 0)))
      | k23x \<Rightarrow> Some (ucast (VRegA_23x (Fetch16 inst 0)))
      | k30t \<Rightarrow> Some (VRegA_30t inst)
      | k31c \<Rightarrow> Some (ucast (VRegA_31c (Fetch16 inst 0)))
      | k31i \<Rightarrow> Some (ucast (VRegA_31i (Fetch16 inst 0)))
      | k31t \<Rightarrow> Some (ucast (VRegA_31t (Fetch16 inst 0)))
      | k32x \<Rightarrow> Some (ucast (VRegA_32x inst))
      | k35c \<Rightarrow> Some (ucast (VRegA_35c (Fetch16 inst 0)))
      | k3rc \<Rightarrow> Some (ucast (VRegA_3rc (Fetch16 inst 0)))
      | k45cc \<Rightarrow> Some (ucast (VRegA_45cc (Fetch16 inst 0)))
      | k4rcc \<Rightarrow> Some (ucast (VRegA_4rcc (Fetch16 inst 0)))
      | k51l \<Rightarrow> Some (ucast (VRegA_51l (Fetch16 inst 0))))"

subsection \<open>B\<close>

definition VRegB_11n :: "u16 \<Rightarrow> u8" where
  "VRegB_11n inst_data = ucast (signed_drop_bit 28 (push_bit 28 (ucast (InstB inst_data) :: u32)))"

definition VRegB_12x :: "u16 \<Rightarrow> u8" where
  "VRegB_12x inst_data = InstB inst_data"

definition VRegB_21c :: "Instruction \<Rightarrow> u16" where
  "VRegB_21c inst = Fetch16 inst 1"

definition VRegB_21h :: "Instruction \<Rightarrow> u16" where
  "VRegB_21h inst = Fetch16 inst 1"

definition VRegB_21s :: "Instruction \<Rightarrow> u16" where
  "VRegB_21s inst = Fetch16 inst 1"

definition VRegB_21t :: "Instruction \<Rightarrow> u16" where
  "VRegB_21t inst = Fetch16 inst 1"

definition VRegB_22b :: "Instruction \<Rightarrow> u8" where
  "VRegB_22b inst = ucast (Fetch16 inst 1 AND 0xff)"

definition VRegB_22c :: "u16 \<Rightarrow> u8" where
  "VRegB_22c inst_data = InstB inst_data"

definition VRegB_22s :: "u16 \<Rightarrow> u8" where
  "VRegB_22s inst_data = InstB inst_data"

definition VRegB_22t :: "u16 \<Rightarrow> u8" where
  "VRegB_22t inst_data = InstB inst_data"

definition VRegB_22x :: "Instruction \<Rightarrow> u16" where
  "VRegB_22x inst = Fetch16 inst 1"

definition VRegB_23x :: "Instruction \<Rightarrow> u8" where
  "VRegB_23x inst = ucast (Fetch16 inst 1 AND 0xff)"

definition VRegB_31c :: "Instruction \<Rightarrow> u32" where
  "VRegB_31c inst = Fetch32 inst 1"

definition VRegB_31i :: "Instruction \<Rightarrow> u32" where
  "VRegB_31i inst = Fetch32 inst 1"

definition VRegB_31t :: "Instruction \<Rightarrow> u32" where
  "VRegB_31t inst = Fetch32 inst 1"

definition VRegB_32x :: "Instruction \<Rightarrow> u16" where
  "VRegB_32x inst = Fetch16 inst 2"

definition VRegB_35c :: "Instruction \<Rightarrow> u16" where
  "VRegB_35c inst = Fetch16 inst 1"

definition VRegB_3rc :: "Instruction \<Rightarrow> u16" where
  "VRegB_3rc inst = Fetch16 inst 1"

definition VRegB_45cc :: "Instruction \<Rightarrow> u16" where
  "VRegB_45cc inst = Fetch16 inst 1"

definition VRegB_4rcc :: "Instruction \<Rightarrow> u16" where
  "VRegB_4rcc inst = Fetch16 inst 1"

definition VRegB_51l :: "Instruction \<Rightarrow> u64" where
  "VRegB_51l inst = ucast (Fetch32 inst 1) OR push_bit 32 (ucast (Fetch32 inst 3))"

definition HasVRegB :: "Instruction \<Rightarrow> bool" where
  "HasVRegB inst =
     (case FormatOf (Opcode inst) of
        k11n \<Rightarrow> True | k12x \<Rightarrow> True | k21c \<Rightarrow> True | k21h \<Rightarrow> True | k21s \<Rightarrow> True
      | k21t \<Rightarrow> True | k22b \<Rightarrow> True | k22c \<Rightarrow> True | k22s \<Rightarrow> True | k22t \<Rightarrow> True
      | k22x \<Rightarrow> True | k23x \<Rightarrow> True | k31c \<Rightarrow> True | k31i \<Rightarrow> True | k31t \<Rightarrow> True
      | k32x \<Rightarrow> True | k35c \<Rightarrow> True | k3rc \<Rightarrow> True | k45cc \<Rightarrow> True | k4rcc \<Rightarrow> True
      | k51l \<Rightarrow> True
      | _ \<Rightarrow> False)"

definition HasWideVRegB :: "Instruction \<Rightarrow> bool" where
  "HasWideVRegB inst \<longleftrightarrow> FormatOf (Opcode inst) = k51l"

definition VRegB :: "Instruction \<Rightarrow> u32 option" where
  "VRegB inst =
     (case FormatOf (Opcode inst) of
        k11n \<Rightarrow> Some (scast (VRegB_11n (Fetch16 inst 0)))
      | k12x \<Rightarrow> Some (ucast (VRegB_12x (Fetch16 inst 0)))
      | k21c \<Rightarrow> Some (ucast (VRegB_21c inst))
      | k21h \<Rightarrow> Some (ucast (VRegB_21h inst))
      | k21s \<Rightarrow> Some (scast (VRegB_21s inst))
      | k21t \<Rightarrow> Some (scast (VRegB_21t inst))
      | k22b \<Rightarrow> Some (ucast (VRegB_22b inst))
      | k22c \<Rightarrow> Some (ucast (VRegB_22c (Fetch16 inst 0)))
      | k22s \<Rightarrow> Some (ucast (VRegB_22s (Fetch16 inst 0)))
      | k22t \<Rightarrow> Some (ucast (VRegB_22t (Fetch16 inst 0)))
      | k22x \<Rightarrow> Some (ucast (VRegB_22x inst))
      | k23x \<Rightarrow> Some (ucast (VRegB_23x inst))
      | k31c \<Rightarrow> Some (VRegB_31c inst)
      | k31i \<Rightarrow> Some (VRegB_31i inst)
      | k31t \<Rightarrow> Some (VRegB_31t inst)
      | k32x \<Rightarrow> Some (ucast (VRegB_32x inst))
      | k35c \<Rightarrow> Some (ucast (VRegB_35c inst))
      | k3rc \<Rightarrow> Some (ucast (VRegB_3rc inst))
      | k45cc \<Rightarrow> Some (ucast (VRegB_45cc inst))
      | k4rcc \<Rightarrow> Some (ucast (VRegB_4rcc inst))
      | k51l \<Rightarrow> Some (ucast (VRegB_51l inst))
      | _ \<Rightarrow> None)"

definition WideVRegB :: "Instruction \<Rightarrow> u64" where
  "WideVRegB inst = VRegB_51l inst"

subsection \<open>C and H\<close>

definition VRegC_22b :: "Instruction \<Rightarrow> u8" where
  "VRegC_22b inst = ucast (drop_bit 8 (Fetch16 inst 1))"

definition VRegC_22c :: "Instruction \<Rightarrow> u16" where
  "VRegC_22c inst = Fetch16 inst 1"

definition VRegC_22s :: "Instruction \<Rightarrow> u16" where
  "VRegC_22s inst = Fetch16 inst 1"

definition VRegC_22t :: "Instruction \<Rightarrow> u16" where
  "VRegC_22t inst = Fetch16 inst 1"

definition VRegC_23x :: "Instruction \<Rightarrow> u8" where
  "VRegC_23x inst = ucast (drop_bit 8 (Fetch16 inst 1))"

definition VRegC_35c :: "Instruction \<Rightarrow> u8" where
  "VRegC_35c inst = ucast (Fetch16 inst 2 AND 0x0f)"

definition VRegC_3rc :: "Instruction \<Rightarrow> u16" where
  "VRegC_3rc inst = Fetch16 inst 2"

definition VRegC_45cc :: "Instruction \<Rightarrow> u8" where
  "VRegC_45cc inst = ucast (Fetch16 inst 2 AND 0x0f)"

definition VRegC_4rcc :: "Instruction \<Rightarrow> u16" where
  "VRegC_4rcc inst = Fetch16 inst 2"

definition HasVRegC :: "Instruction \<Rightarrow> bool" where
  "HasVRegC inst =
     (case FormatOf (Opcode inst) of
        k22b \<Rightarrow> True | k22c \<Rightarrow> True | k22s \<Rightarrow> True | k22t \<Rightarrow> True | k23x \<Rightarrow> True
      | k35c \<Rightarrow> True | k3rc \<Rightarrow> True | k45cc \<Rightarrow> True | k4rcc \<Rightarrow> True
      | _ \<Rightarrow> False)"

definition VRegC :: "Instruction \<Rightarrow> u32 option" where
  "VRegC inst =
     (case FormatOf (Opcode inst) of
        k22b \<Rightarrow> Some (scast (VRegC_22b inst))
      | k22c \<Rightarrow> Some (ucast (VRegC_22c inst))
      | k22s \<Rightarrow> Some (scast (VRegC_22s inst))
      | k22t \<Rightarrow> Some (scast (VRegC_22t inst))
      | k23x \<Rightarrow> Some (ucast (VRegC_23x inst))
      | k35c \<Rightarrow> Some (ucast (VRegC_35c inst))
      | k3rc \<Rightarrow> Some (ucast (VRegC_3rc inst))
      | k45cc \<Rightarrow> Some (ucast (VRegC_45cc inst))
      | k4rcc \<Rightarrow> Some (ucast (VRegC_4rcc inst))
      | _ \<Rightarrow> None)"

definition VRegH_45cc :: "Instruction \<Rightarrow> u16" where
  "VRegH_45cc inst = Fetch16 inst 3"

definition VRegH_4rcc :: "Instruction \<Rightarrow> u16" where
  "VRegH_4rcc inst = Fetch16 inst 3"

definition HasVRegH :: "Instruction \<Rightarrow> bool" where
  "HasVRegH inst =
     (case FormatOf (Opcode inst) of
        k45cc \<Rightarrow> True | k4rcc \<Rightarrow> True
      | _ \<Rightarrow> False)"

definition VRegH :: "Instruction \<Rightarrow> u32 option" where
  "VRegH inst =
     (case FormatOf (Opcode inst) of
        k45cc \<Rightarrow> Some (ucast (VRegH_45cc inst))
      | k4rcc \<Rightarrow> Some (ucast (VRegH_4rcc inst))
      | _ \<Rightarrow> None)"

subsection \<open>Variable arguments\<close>

definition HasVarArgs :: "Instruction \<Rightarrow> bool" where
  "HasVarArgs inst \<longleftrightarrow> FormatOf (Opcode inst) = k35c \<or> FormatOf (Opcode inst) = k45cc"

definition GetVarArgs :: "Instruction \<Rightarrow> u16 \<Rightarrow> u32 list \<Rightarrow> u32 list" where
  "GetVarArgs inst inst_data arg =
     (let regList = Fetch16 inst 2;
          count = InstB inst_data;
          n = (if count \<le> 5 then unat count else 0);
          arg = (if 5 \<le> n then arg[4 := ucast (InstA inst_data)] else arg);
          arg = (if 4 \<le> n then arg[3 := ucast (drop_bit 12 regList AND 0x0f)] else arg);
          arg = (if 3 \<le> n then arg[2 := ucast (drop_bit 8 regList AND 0x0f)] else arg);
          arg = (if 2 \<le> n then arg[1 := ucast (drop_bit 4 regList AND 0x0f)] else arg)
      in if 1 \<le> n then arg[0 := ucast (regList AND 0x0f)] else arg)"

section \<open>Setters\<close>

definition SetOpcode :: "Code \<Rightarrow> Instruction \<Rightarrow> Instruction" where
  "SetOpcode opcode insns = insns(0 := (insns 0 AND 0xff00) OR ucast opcode)"

definition SetVRegA_10x :: "u8 \<Rightarrow> Instruction \<Rightarrow> Instruction" where
  "SetVRegA_10x val insns = insns(0 := push_bit 8 (ucast val) OR (insns 0 AND 0x00ff))"

definition SetVRegB_3rc :: "u16 \<Rightarrow> Instruction \<Rightarrow> Instruction" where
  "SetVRegB_3rc val insns = insns(1 := val)"

definition SetVRegB_35c :: "u16 \<Rightarrow> Instruction \<Rightarrow> Instruction" where
  "SetVRegB_35c val insns = insns(1 := val)"

definition SetVRegC_22c :: "u16 \<Rightarrow> Instruction \<Rightarrow> Instruction" where
  "SetVRegC_22c val insns = insns(1 := val)"

definition SetVRegA_21c :: "u8 \<Rightarrow> Instruction \<Rightarrow> Instruction" where
  "SetVRegA_21c val insns = insns(0 := push_bit 8 (ucast val) OR (insns 0 AND 0x00ff))"

definition SetVRegB_21c :: "u16 \<Rightarrow> Instruction \<Rightarrow> Instruction" where
  "SetVRegB_21c val insns = insns(1 := val)"

section \<open>Flag queries\<close>

definition IsBranch :: "Instruction \<Rightarrow> bool" where
  "IsBranch inst \<longleftrightarrow> FlagsOf (Opcode inst) AND kBranch \<noteq> 0"

definition IsUnconditional :: "Instruction \<Rightarrow> bool" where
  "IsUnconditional inst \<longleftrightarrow> FlagsOf (Opcode inst) AND kUnconditional \<noteq> 0"

definition GetTargetOffset :: "Instruction \<Rightarrow> u32 option" where
  "GetTargetOffset inst =
     (case FormatOf (Opcode inst) of
        k22t \<Rightarrow> Some (scast (VRegC_22t inst))
      | k21t \<Rightarrow> Some (scast (VRegB_21t inst))
      | k10t \<Rightarrow> Some (scast (VRegA_10t (Fetch16 inst 0)))
      | k20t \<Rightarrow> Some (scast (VRegA_20t inst))
      | k30t \<Rightarrow> Some (VRegA_30t inst)
      | _ \<Rightarrow> None)"

definition CanFlowThrough :: "Instruction \<Rightarrow> bool" where
  "CanFlowThrough inst \<longleftrightarrow> FlagsOf (ucast (inst 0 AND 0xff)) AND kContinue \<noteq> 0"

definition IsQuickened :: "Instruction \<Rightarrow> bool" where
  "IsQuickened inst \<longleftrightarrow> IndexTypeOf (Opcode inst) = kIndexFieldOffset \<or> IndexTypeOf (Opcode inst) = kIndexVtableOffset"

definition IsSwitch :: "Instruction \<Rightarrow> bool" where
  "IsSwitch inst \<longleftrightarrow> FlagsOf (Opcode inst) AND kSwitch \<noteq> 0"

definition IsThrow :: "Instruction \<Rightarrow> bool" where
  "IsThrow inst \<longleftrightarrow> FlagsOf (Opcode inst) AND kThrow \<noteq> 0"

definition IsReturn :: "Instruction \<Rightarrow> bool" where
  "IsReturn inst \<longleftrightarrow> FlagsOf (Opcode inst) AND kReturn \<noteq> 0"

definition IsBasicBlockEnd :: "Instruction \<Rightarrow> bool" where
  "IsBasicBlockEnd inst \<longleftrightarrow> IsBranch inst \<or> IsReturn inst \<or> Opcode inst = THROW"

definition IsInvoke :: "Instruction \<Rightarrow> bool" where
  "IsInvoke inst \<longleftrightarrow> FlagsOf (Opcode inst) AND kInvoke \<noteq> 0"

definition IsExperimental :: "Instruction \<Rightarrow> bool" where
  "IsExperimental inst \<longleftrightarrow> FlagsOf (Opcode inst) AND kExperimental \<noteq> 0"

definition GetVerifyTypeArgumentA :: "Instruction \<Rightarrow> u32" where
  "GetVerifyTypeArgumentA inst = VerifyFlagsOf (Opcode inst) AND (kVerifyRegA OR kVerifyRegAWide)"

definition GetVerifyTypeArgumentB :: "Instruction \<Rightarrow> u32" where
  "GetVerifyTypeArgumentB inst = VerifyFlagsOf (Opcode inst) AND
     (kVerifyRegB OR kVerifyRegBField OR kVerifyRegBMethod OR kVerifyRegBNewInstance OR kVerifyRegBString OR
      kVerifyRegBType OR kVerifyRegBWide)"

definition GetVerifyTypeArgumentC :: "Instruction \<Rightarrow> u32" where
  "GetVerifyTypeArgumentC inst = VerifyFlagsOf (Opcode inst) AND
     (kVerifyRegC OR kVerifyRegCField OR kVerifyRegCNewArray OR kVerifyRegCType OR kVerifyRegCWide)"

definition GetVerifyTypeArgumentH :: "Instruction \<Rightarrow> u32" where
  "GetVerifyTypeArgumentH inst = VerifyFlagsOf (Opcode inst) AND kVerifyRegHPrototype"

definition GetVerifyExtraFlags :: "Instruction \<Rightarrow> u32" where
  "GetVerifyExtraFlags inst = VerifyFlagsOf (Opcode inst) AND
     (kVerifyArrayData OR kVerifyBranchTarget OR kVerifySwitchTargets OR kVerifyVarArg OR kVerifyVarArgNonZero OR
      kVerifyVarArgRange OR kVerifyVarArgRangeNonZero OR kVerifyError)"

definition GetVerifyIsRuntimeOnly :: "Instruction \<Rightarrow> bool" where
  "GetVerifyIsRuntimeOnly inst \<longleftrightarrow> VerifyFlagsOf (Opcode inst) AND kVerifyRuntimeOnly \<noteq> 0"

section \<open>The table\<close>

lemma length_list: "length DEX_INSTRUCTION_LIST = 256"
  by (simp add: DEX_INSTRUCTION_LIST_def DEX_INSTRUCTION_LIST_00_def DEX_INSTRUCTION_LIST_40_def
      DEX_INSTRUCTION_LIST_80_def DEX_INSTRUCTION_LIST_C0_def)

lemma list_row: "list_all P DEX_INSTRUCTION_LIST \<Longrightarrow> P (DEX_INSTRUCTION_LIST ! unat (opcode :: Code))"
  using unsigned_less[of opcode, where 'a=nat] by (simp add: list_all_length length_list)

definition row_ok :: "InstructionRow \<Rightarrow> bool" where
  "row_ok r = (case r of (vflags, format, index, flags) \<Rightarrow>
     (flags AND kBranch \<noteq> 0 \<longrightarrow> format \<in> {k22t, k21t, k10t, k20t, k30t})
     \<and> (vflags AND (kVerifyRegB OR kVerifyRegBField OR kVerifyRegBMethod OR kVerifyRegBNewInstance OR kVerifyRegBString OR
          kVerifyRegBType OR kVerifyRegBWide) \<noteq> 0 \<longrightarrow> format \<notin> {k10t, k10x, k11x, k20t, k30t})
     \<and> (vflags AND (kVerifyRegC OR kVerifyRegCField OR kVerifyRegCNewArray OR kVerifyRegCType OR kVerifyRegCWide) \<noteq> 0
          \<longrightarrow> format \<in> {k22b, k22c, k22s, k22t, k23x, k35c, k3rc, k45cc, k4rcc})
     \<and> (vflags AND kVerifyRegHPrototype \<noteq> 0 \<longrightarrow> format \<in> {k45cc, k4rcc})
     \<and> (vflags AND (kVerifyVarArg OR kVerifyVarArgNonZero) \<noteq> 0 \<longrightarrow> format \<in> {k35c, k45cc})
     \<and> (vflags AND (kVerifyVarArgRange OR kVerifyVarArgRangeNonZero) \<noteq> 0 \<longrightarrow> format \<in> {k3rc, k4rcc})
     \<and> (vflags AND kVerifyBranchTarget \<noteq> 0 \<longleftrightarrow> flags AND kBranch \<noteq> 0)
     \<and> (vflags AND kVerifySwitchTargets \<noteq> 0 \<longleftrightarrow> flags AND kSwitch \<noteq> 0)
     \<and> (flags AND kSwitch \<noteq> 0 \<longrightarrow> format = k31t) \<and> (vflags AND kVerifyArrayData \<noteq> 0 \<longrightarrow> format = k31t))"

lemma rows_ok: "list_all row_ok DEX_INSTRUCTION_LIST"
  by code_simp

lemma row_ok_at: "row_ok (VerifyFlagsOf c, FormatOf c, IndexTypeOf c, FlagsOf c)"
  using list_row[OF rows_ok, of c] by (simp add: VerifyFlagsOf_def FormatOf_def IndexTypeOf_def FlagsOf_def)

lemmas row_facts = row_ok_at[unfolded row_ok_def prod.case]

named_theorems operand_defs

lemmas operand_cases [operand_defs] = VRegA_def VRegB_def VRegC_def VRegH_def HasVRegA_def HasVRegB_def HasVRegC_def HasVRegH_def
  HasVarArgs_def HasWideVRegB_def GetTargetOffset_def

text \<open>C27: Every accessor is defined exactly on the formats that its \<open>Has\<close> query names, and whatever the verifier
  flags of an opcode announce is there: a flagged A, B, C or H operand, variable arguments and the target of a
  branch can be read without reaching the fatal branch of the accessor, for all 256 opcodes.\<close>

theorem dex_operands_defined:
  "(VRegA inst \<noteq> None \<longleftrightarrow> HasVRegA inst) \<and> (VRegB inst \<noteq> None \<longleftrightarrow> HasVRegB inst)
   \<and> (VRegC inst \<noteq> None \<longleftrightarrow> HasVRegC inst) \<and> (VRegH inst \<noteq> None \<longleftrightarrow> HasVRegH inst)
   \<and> (GetVerifyTypeArgumentA inst \<noteq> 0 \<longrightarrow> HasVRegA inst) \<and> (GetVerifyTypeArgumentB inst \<noteq> 0 \<longrightarrow> HasVRegB inst)
   \<and> (GetVerifyTypeArgumentC inst \<noteq> 0 \<longrightarrow> HasVRegC inst) \<and> (GetVerifyTypeArgumentH inst \<noteq> 0 \<longrightarrow> HasVRegH inst)
   \<and> (GetVerifyExtraFlags inst AND (kVerifyVarArg OR kVerifyVarArgNonZero) \<noteq> 0 \<longrightarrow> HasVarArgs inst)
   \<and> (GetVerifyExtraFlags inst AND (kVerifyVarArgRange OR kVerifyVarArgRangeNonZero) \<noteq> 0 \<longrightarrow> HasVRegA inst \<and> HasVRegC inst)
   \<and> (GetVerifyExtraFlags inst AND kVerifyBranchTarget \<noteq> 0 \<longleftrightarrow> IsBranch inst)
   \<and> (IsBranch inst \<longrightarrow> GetTargetOffset inst \<noteq> None)"
proof (intro conjI)
  note f = row_facts[of "Opcode inst"]
  show "VRegA inst \<noteq> None \<longleftrightarrow> HasVRegA inst" "VRegB inst \<noteq> None \<longleftrightarrow> HasVRegB inst"
    "VRegC inst \<noteq> None \<longleftrightarrow> HasVRegC inst" "VRegH inst \<noteq> None \<longleftrightarrow> HasVRegH inst"
    by (simp_all add: operand_defs split: Format.splits)
  show "GetVerifyTypeArgumentA inst \<noteq> 0 \<longrightarrow> HasVRegA inst" by (simp add: HasVRegA_def split: Format.splits)
  have "GetVerifyTypeArgumentB inst \<noteq> 0 \<Longrightarrow> FormatOf (Opcode inst) \<notin> {k10t, k10x, k11x, k20t, k30t}"
    unfolding GetVerifyTypeArgumentB_def using f by blast
  then show "GetVerifyTypeArgumentB inst \<noteq> 0 \<longrightarrow> HasVRegB inst"
    unfolding HasVRegB_def by (cases "FormatOf (Opcode inst)") auto
  have "GetVerifyTypeArgumentC inst \<noteq> 0 \<Longrightarrow> FormatOf (Opcode inst) \<in> {k22b, k22c, k22s, k22t, k23x, k35c, k3rc, k45cc, k4rcc}"
    unfolding GetVerifyTypeArgumentC_def using f by blast
  then show "GetVerifyTypeArgumentC inst \<noteq> 0 \<longrightarrow> HasVRegC inst" unfolding HasVRegC_def by auto
  have "GetVerifyTypeArgumentH inst \<noteq> 0 \<Longrightarrow> FormatOf (Opcode inst) \<in> {k45cc, k4rcc}"
    unfolding GetVerifyTypeArgumentH_def using f by blast
  then show "GetVerifyTypeArgumentH inst \<noteq> 0 \<longrightarrow> HasVRegH inst" unfolding HasVRegH_def by auto
  have e: "GetVerifyExtraFlags inst AND v = VerifyFlagsOf (Opcode inst) AND v"
    if "(kVerifyArrayData OR kVerifyBranchTarget OR kVerifySwitchTargets OR kVerifyVarArg OR kVerifyVarArgNonZero OR
      kVerifyVarArgRange OR kVerifyVarArgRangeNonZero OR kVerifyError) AND v = v" for v
    unfolding GetVerifyExtraFlags_def and.assoc that ..
  have a: "GetVerifyExtraFlags inst AND (kVerifyVarArg OR kVerifyVarArgNonZero)
      = VerifyFlagsOf (Opcode inst) AND (kVerifyVarArg OR kVerifyVarArgNonZero)"
    "GetVerifyExtraFlags inst AND (kVerifyVarArgRange OR kVerifyVarArgRangeNonZero)
      = VerifyFlagsOf (Opcode inst) AND (kVerifyVarArgRange OR kVerifyVarArgRangeNonZero)"
    "GetVerifyExtraFlags inst AND kVerifyBranchTarget = VerifyFlagsOf (Opcode inst) AND kVerifyBranchTarget"
    by (rule e, simp)+
  show "GetVerifyExtraFlags inst AND (kVerifyVarArg OR kVerifyVarArgNonZero) \<noteq> 0 \<longrightarrow> HasVarArgs inst"
    unfolding a HasVarArgs_def using f by blast
  have "VerifyFlagsOf (Opcode inst) AND (kVerifyVarArgRange OR kVerifyVarArgRangeNonZero) \<noteq> 0 \<Longrightarrow> FormatOf (Opcode inst) \<in> {k3rc, k4rcc}"
    using f by blast
  then show "GetVerifyExtraFlags inst AND (kVerifyVarArgRange OR kVerifyVarArgRangeNonZero) \<noteq> 0 \<longrightarrow> HasVRegA inst \<and> HasVRegC inst"
    unfolding a HasVRegA_def HasVRegC_def by auto
  show "GetVerifyExtraFlags inst AND kVerifyBranchTarget \<noteq> 0 \<longleftrightarrow> IsBranch inst"
    unfolding a IsBranch_def using f by blast
  have "IsBranch inst \<Longrightarrow> FormatOf (Opcode inst) \<in> {k22t, k21t, k10t, k20t, k30t}"
    unfolding IsBranch_def using f by blast
  then show "IsBranch inst \<longrightarrow> GetTargetOffset inst \<noteq> None" unfolding GetTargetOffset_def by auto
qed

theorem dex_operands_defined_witness:
  "IsBranch (\<lambda>i. 0x0128) \<and> GetTargetOffset (\<lambda>i. 0x0128) = Some 1 \<and> GetTargetOffset (\<lambda>i. 0x0128) \<noteq> None"
proof -
  have "IsBranch (\<lambda>i. 0x0128)" "GetTargetOffset (\<lambda>i. 0x0128) = Some 1" by code_simp+
  then show ?thesis using dex_operands_defined[of "\<lambda>i. 0x0128"] by blast
qed

section \<open>No operand lies outside the instruction\<close>

lemma format_size:
  assumes "Opcode inst \<noteq> NOP"
  shows "SizeInCodeUnits inst = Some
    (case FormatOf (Opcode inst) of
       k10x \<Rightarrow> 1 | k12x \<Rightarrow> 1 | k11n \<Rightarrow> 1 | k11x \<Rightarrow> 1 | k10t \<Rightarrow> 1
     | k32x \<Rightarrow> 3 | k30t \<Rightarrow> 3 | k31t \<Rightarrow> 3 | k31i \<Rightarrow> 3 | k31c \<Rightarrow> 3 | k35c \<Rightarrow> 3 | k3rc \<Rightarrow> 3
     | k45cc \<Rightarrow> 4 | k4rcc \<Rightarrow> 4 | k51l \<Rightarrow> 5 | _ \<Rightarrow> 2)"
  using assms
  by (cases "FormatOf (Opcode inst)")
     (simp_all add: SizeInCodeUnits_def InstructionSizeInCodeUnitsByOpcode_def less_eq_Format_def)

lemma payload_units: "unat (4 + x div 2 :: u32) = 4 + unat x div 2"
  using unsigned_less[of x, where 'a=nat] by (simp add: unat_word_ariths(1) unat_div)

lemma size_pos: "SizeInCodeUnits inst = Some n \<Longrightarrow> 0 < n"
proof (cases "Opcode inst = NOP")
  case True
  assume "SizeInCodeUnits inst = Some n"
  then have c: "SizeInCodeUnitsComplexOpcode inst = Some n"
    using True by (simp add: SizeInCodeUnits_def InstructionSizeInCodeUnitsByOpcode_def)
  show ?thesis using c by (auto simp: SizeInCodeUnitsComplexOpcode_def Let_def payload_units split: if_splits)
next
  case False
  assume "SizeInCodeUnits inst = Some n"
  then show ?thesis using format_size[OF False] by (cases "FormatOf (Opcode inst)") simp_all
qed

lemma size_cong:
  assumes n: "SizeInCodeUnits inst = Some n" and eq: "\<And>i. i < n \<Longrightarrow> inst' i = inst i"
  shows "Opcode inst' = Opcode inst" "SizeInCodeUnits inst' = Some n"
proof -
  have e0: "inst' 0 = inst 0" using eq size_pos[OF n] by blast
  then show op: "Opcode inst' = Opcode inst" by (simp add: Opcode_def Fetch16_def)
  show "SizeInCodeUnits inst' = Some n"
  proof (cases "Opcode inst = NOP")
    case True
    have c: "SizeInCodeUnitsComplexOpcode inst = Some n"
      using n True by (simp add: SizeInCodeUnits_def InstructionSizeInCodeUnitsByOpcode_def)
    have "1 < n" if "inst 0 = kPackedSwitchSignature \<or> inst 0 = kSparseSwitchSignature"
      using c that by (auto simp: SizeInCodeUnitsComplexOpcode_def split: if_splits)
    moreover have "3 < n" if "inst 0 = kArrayDataSignature" "inst 0 \<noteq> kPackedSwitchSignature" "inst 0 \<noteq> kSparseSwitchSignature"
      using c that by (auto simp: SizeInCodeUnitsComplexOpcode_def Let_def payload_units)
    ultimately have "SizeInCodeUnitsComplexOpcode inst' = SizeInCodeUnitsComplexOpcode inst"
      using e0 eq[of 1] eq[of 2] eq[of 3] by (auto simp: SizeInCodeUnitsComplexOpcode_def)
    then show ?thesis using c True op by (simp add: SizeInCodeUnits_def InstructionSizeInCodeUnitsByOpcode_def)
  next
    case False
    then show ?thesis using n op by (simp add: format_size)
  qed
qed

lemmas operand_reads = operand_defs WideVRegB_def GetVarArgs_def Fetch16_def Fetch32_def
  VRegA_10t_def VRegA_10x_def VRegA_11n_def VRegA_11x_def VRegA_12x_def VRegA_20t_def VRegA_21c_def VRegA_21h_def
  VRegA_21s_def VRegA_21t_def VRegA_22b_def VRegA_22c_def VRegA_22s_def VRegA_22t_def VRegA_22x_def VRegA_23x_def
  VRegA_30t_def VRegA_31c_def VRegA_31i_def VRegA_31t_def VRegA_32x_def VRegA_35c_def VRegA_3rc_def VRegA_51l_def
  VRegA_45cc_def VRegA_4rcc_def VRegB_11n_def VRegB_12x_def VRegB_21c_def VRegB_21h_def VRegB_21s_def VRegB_21t_def
  VRegB_22b_def VRegB_22c_def VRegB_22s_def VRegB_22t_def VRegB_22x_def VRegB_23x_def VRegB_31c_def VRegB_31i_def
  VRegB_31t_def VRegB_32x_def VRegB_35c_def VRegB_3rc_def VRegB_45cc_def VRegB_4rcc_def VRegB_51l_def VRegC_22b_def
  VRegC_22c_def VRegC_22s_def VRegC_22t_def VRegC_23x_def VRegC_35c_def VRegC_3rc_def VRegC_45cc_def VRegC_4rcc_def
  VRegH_45cc_def VRegH_4rcc_def

text \<open>C26: The operands of an instruction, its opcode and its size are functions of the code units that belong to
  it: two streams that agree on the first \<open>SizeInCodeUnits\<close> units decode alike, so no accessor reads past the
  instruction.\<close>

theorem dex_operands_in_bounds:
  assumes n: "SizeInCodeUnits inst = Some n" and eq: "\<And>i. i < n \<Longrightarrow> inst' i = inst i"
  shows "SizeInCodeUnits inst' = Some n \<and> Opcode inst' = Opcode inst \<and> VRegA inst' = VRegA inst \<and> VRegB inst' = VRegB inst
    \<and> VRegC inst' = VRegC inst \<and> VRegH inst' = VRegH inst \<and> GetTargetOffset inst' = GetTargetOffset inst
    \<and> (HasWideVRegB inst \<longrightarrow> WideVRegB inst' = WideVRegB inst)
    \<and> (HasVarArgs inst \<longrightarrow> GetVarArgs inst' (Fetch16 inst' 0) arg = GetVarArgs inst (Fetch16 inst 0) arg)"
proof -
  note cong = size_cong[OF n eq]
  have e0: "inst' 0 = inst 0" using eq size_pos[OF n] by blast
  have A: "VRegA inst' = VRegA inst \<and> VRegB inst' = VRegB inst \<and> VRegC inst' = VRegC inst \<and> VRegH inst' = VRegH inst
      \<and> GetTargetOffset inst' = GetTargetOffset inst \<and> (HasWideVRegB inst \<longrightarrow> WideVRegB inst' = WideVRegB inst)
      \<and> (HasVarArgs inst \<longrightarrow> GetVarArgs inst' (Fetch16 inst' 0) arg = GetVarArgs inst (Fetch16 inst 0) arg)"
  proof (cases "Opcode inst = NOP")
    case True
    have "FormatOf NOP = k10x" by code_simp
    then show ?thesis using True e0 cong(1)
      by (simp add: operand_defs VRegA_10x_def InstAA_def Fetch16_def)
  next
    case False
    note sz = format_size[OF False, unfolded n option.inject]
    show ?thesis
    proof (cases "FormatOf (Opcode inst)")
      case k10x then show ?thesis using e0 cong(1) by (simp add: operand_reads)
    next
      case k12x then show ?thesis using e0 cong(1) by (simp add: operand_reads)
    qed (use sz e0 cong(1) eq[of 1] eq[of 2] eq[of 3] eq[of 4] in \<open>simp_all add: operand_reads numeral_2_eq_2\<close>)
  qed
  then show ?thesis using cong by blast
qed

theorem dex_operands_in_bounds_witness:
  "SizeInCodeUnits (\<lambda>i. if i = 0 then 0x0313 else 0x8001) = Some 2
   \<and> VRegB (\<lambda>i. if i = 0 then 0x0313 else if i = 1 then 0x8001 else 7) = Some 0xffff8001"
proof -
  have n: "SizeInCodeUnits (\<lambda>i. if i = 0 then 0x0313 else 0x8001) = Some 2" by code_simp
  have "VRegB (\<lambda>i. if i = 0 then 0x0313 else 0x8001) = Some 0xffff8001" by code_simp
  then show ?thesis
    using dex_operands_in_bounds[OF n, of "\<lambda>i. if i = 0 then 0x0313 else if i = 1 then 0x8001 else 7"] n by simp
qed

section \<open>Setters\<close>

lemma unit_halves:
  "InstAA (push_bit 8 (ucast (a::u8)) OR (u AND 0x00ff)) = a" "(push_bit 8 (ucast (a::u8)) OR (u AND 0x00ff)) AND 0xff = (u :: u16) AND 0xff"
  "InstAA ((u AND 0xff00) OR ucast (c::u8)) = InstAA u" "ucast (((u AND 0xff00) OR ucast c) AND 0xff) = c"
proof -
  have ff: "(0xff00::u16) = NOT (mask 8)" "(0x00ff::u16) = mask 8" by (simp_all add: mask_eq_exp_minus_1)
  have ff': "(0xff::u16) = mask 8" by (simp add: mask_eq_exp_minus_1)
  show "InstAA (push_bit 8 (ucast (a::u8)) OR (u AND 0x00ff)) = a" "InstAA ((u AND 0xff00) OR ucast (c::u8)) = InstAA u"
    "ucast (((u AND 0xff00) OR ucast c) AND 0xff) = c" "(push_bit 8 (ucast (a::u8)) OR (u AND 0x00ff)) AND 0xff = (u :: u16) AND 0xff"
    unfolding ff ff'
    by ((rule bit_eqI, auto simp: InstAA_def bit_simps dest: bit_imp_le_length)[1])+
qed

lemma setter_opcode [simp]:
  "Opcode (SetVRegA_10x a inst) = Opcode inst" "Opcode (SetVRegA_21c a inst) = Opcode inst"
  "Opcode (SetVRegB_21c b inst) = Opcode inst" "Opcode (SetVRegB_35c b inst) = Opcode inst"
  "Opcode (SetVRegB_3rc b inst) = Opcode inst" "Opcode (SetVRegC_22c b inst) = Opcode inst" "Opcode (SetOpcode c inst) = c"
  using unit_halves(2)[of a "inst 0"] unit_halves(4)[of "inst 0" c]
  by (simp_all add: Opcode_def Fetch16_def SetVRegA_10x_def SetVRegA_21c_def SetVRegB_21c_def SetVRegB_35c_def
      SetVRegB_3rc_def SetVRegC_22c_def SetOpcode_def)

lemma setter_units:
  "SetVRegB_21c b inst (Suc 0) = b" "SetVRegB_21c b inst 0 = inst 0" "SetVRegB_21c b inst 2 = inst 2"
  "SetVRegB_35c b inst (Suc 0) = b" "SetVRegB_35c b inst 0 = inst 0" "SetVRegB_35c b inst 2 = inst 2"
  "SetVRegB_3rc b inst (Suc 0) = b" "SetVRegB_3rc b inst 0 = inst 0" "SetVRegB_3rc b inst 2 = inst 2"
  "SetVRegC_22c b inst (Suc 0) = b" "SetVRegC_22c b inst 0 = inst 0" "SetVRegC_22c b inst 2 = inst 2"
  "InstAA (SetVRegA_10x a inst 0) = a" "SetVRegA_10x a inst (Suc 0) = inst (Suc 0)" "InstAA (SetVRegA_21c a inst 0) = a"
  "SetVRegA_21c a inst (Suc 0) = inst (Suc 0)"
  by (simp_all add: unit_halves SetVRegA_10x_def SetVRegA_21c_def SetVRegB_21c_def SetVRegB_35c_def
      SetVRegB_3rc_def SetVRegC_22c_def)

lemma setopcode_units: "SetOpcode c inst (Suc i) = inst (Suc i)" "InstAA (SetOpcode c inst 0) = InstAA (inst 0)"
  "InstA (SetOpcode c inst 0) = InstA (inst 0)" "InstB (SetOpcode c inst 0) = InstB (inst 0)"
proof -
  show "SetOpcode c inst (Suc i) = inst (Suc i)" by (simp add: SetOpcode_def)
  show AA: "InstAA (SetOpcode c inst 0) = InstAA (inst 0)" using unit_halves(3) by (simp add: SetOpcode_def)
  have "InstA u = InstAA u AND 0x0f" "InstB u = drop_bit 4 (InstAA u)" for u
    unfolding and_f_take_bit InstA_def InstB_def InstAA_def by (rule bit_eqI, auto simp: bit_simps dest: bit_imp_le_length)+
  with AA show "InstA (SetOpcode c inst 0) = InstA (inst 0)" "InstB (SetOpcode c inst 0) = InstB (inst 0)" by simp_all
qed

text \<open>C38: The in-place setters change the operand they name and no other one; \<open>SetOpcode\<close> to an opcode of the same
  format changes the opcode and keeps every operand.\<close>

theorem dex_setters:
  "(FormatOf (Opcode inst) = k10x \<longrightarrow> VRegA (SetVRegA_10x a inst) = Some (ucast a))
   \<and> (FormatOf (Opcode inst) = k21c \<longrightarrow>
        VRegA (SetVRegA_21c a inst) = Some (ucast a) \<and> VRegB (SetVRegA_21c a inst) = VRegB inst
        \<and> VRegB (SetVRegB_21c b inst) = Some (ucast b) \<and> VRegA (SetVRegB_21c b inst) = VRegA inst)
   \<and> (FormatOf (Opcode inst) = k22c \<longrightarrow>
        VRegC (SetVRegC_22c b inst) = Some (ucast b) \<and> VRegA (SetVRegC_22c b inst) = VRegA inst \<and> VRegB (SetVRegC_22c b inst) = VRegB inst)
   \<and> (FormatOf (Opcode inst) = k35c \<longrightarrow>
        VRegB (SetVRegB_35c b inst) = Some (ucast b) \<and> VRegA (SetVRegB_35c b inst) = VRegA inst
        \<and> GetVarArgs (SetVRegB_35c b inst) (inst 0) arg = GetVarArgs inst (inst 0) arg)
   \<and> (FormatOf (Opcode inst) = k3rc \<longrightarrow>
        VRegB (SetVRegB_3rc b inst) = Some (ucast b) \<and> VRegA (SetVRegB_3rc b inst) = VRegA inst \<and> VRegC (SetVRegB_3rc b inst) = VRegC inst)
   \<and> (FormatOf c = FormatOf (Opcode inst) \<longrightarrow>
        Opcode (SetOpcode c inst) = c \<and> VRegA (SetOpcode c inst) = VRegA inst \<and> VRegB (SetOpcode c inst) = VRegB inst
        \<and> VRegC (SetOpcode c inst) = VRegC inst \<and> VRegH (SetOpcode c inst) = VRegH inst
        \<and> GetVarArgs (SetOpcode c inst) (SetOpcode c inst 0) arg = GetVarArgs inst (inst 0) arg)"
proof (intro conjI impI)
  have u: "SetOpcode c inst 1 = inst 1" "SetOpcode c inst 2 = inst 2" "SetOpcode c inst 3 = inst 3" "SetOpcode c inst 4 = inst 4"
    by (simp_all add: SetOpcode_def)
  note s = operand_reads setopcode_units u[unfolded One_nat_def] u numeral_2_eq_2[symmetric]
  assume f: "FormatOf c = FormatOf (Opcode inst)"
  show "VRegA (SetOpcode c inst) = VRegA inst" using f
    by (cases "FormatOf (Opcode inst)") (simp_all add: s)
  show "VRegB (SetOpcode c inst) = VRegB inst" using f
    by (cases "FormatOf (Opcode inst)") (simp_all add: s)
  show "VRegC (SetOpcode c inst) = VRegC inst" using f
    by (cases "FormatOf (Opcode inst)") (simp_all add: s)
  show "VRegH (SetOpcode c inst) = VRegH inst" using f
    by (cases "FormatOf (Opcode inst)") (simp_all add: s)
  show "GetVarArgs (SetOpcode c inst) (SetOpcode c inst 0) arg = GetVarArgs inst (inst 0) arg"
    by (simp add: GetVarArgs_def setopcode_units u Fetch16_def Let_def)
qed (simp_all add: operand_reads setter_units)

theorem dex_setters_witness:
  "VRegB (SetVRegB_21c 0x1234 (\<lambda>i. 0x071a)) = Some 0x1234 \<and> VRegA (SetVRegB_21c 0x1234 (\<lambda>i. 0x071a)) = Some 7"
proof -
  have "FormatOf (Opcode (\<lambda>i. 0x071a)) = k21c" "VRegA (\<lambda>i. 0x071a) = Some 7" by code_simp+
  then show ?thesis using dex_setters[of "\<lambda>i. 0x071a" 0 "0x1234 :: u16"] by simp
qed

end
