(* ===== verification/Interpreter_State.thy ===== *)
theory Interpreter_State
  imports Shadow_Frame Dex_Instruction
begin

text \<open>
  The state of the switch interpreter and the macros that surround its instructions
  (\<open>interpreter/interpreter_switch_impl.cc\<close>).  Calls out of the interpreter (suspension points, class linker,
  allocator, instrumentation, JIT, method invocation) are functions of the environment.  Each takes the heap and the
  pending exception and returns its result with the heap and the exception it leaves, and with the forwarding
  function of the collections that ran meanwhile; the frame is then visited with that function, as the collector
  does.  A fatal error and an access that the code does not guard are \<open>None\<close>.
\<close>

section \<open>Values\<close>

text \<open>The union \<open>JValue\<close> as its 64-bit word.\<close>

type_synonym JValue = u64

definition JValue_SetB :: "u8 \<Rightarrow> JValue" where "JValue_SetB b = signed_drop_bit 56 (push_bit 56 (scast b))"
definition JValue_SetC :: "u16 \<Rightarrow> JValue" where "JValue_SetC c = ucast c"
definition JValue_SetI :: "u32 \<Rightarrow> JValue" where "JValue_SetI i = signed_drop_bit 32 (push_bit 32 (scast i))"
definition JValue_SetS :: "u16 \<Rightarrow> JValue" where "JValue_SetS s = signed_drop_bit 48 (push_bit 48 (scast s))"
definition JValue_SetZ :: "u8 \<Rightarrow> JValue" where "JValue_SetZ z = ucast z"
definition JValue_SetL :: "ref \<Rightarrow> JValue" where "JValue_SetL l = ucast l"
definition JValue_GetB :: "JValue \<Rightarrow> u8" where "JValue_GetB j = ucast j"
definition JValue_GetC :: "JValue \<Rightarrow> u16" where "JValue_GetC j = ucast j"
definition JValue_GetI :: "JValue \<Rightarrow> u32" where "JValue_GetI j = ucast j"
definition JValue_GetS :: "JValue \<Rightarrow> u16" where "JValue_GetS j = ucast j"
definition JValue_GetZ :: "JValue \<Rightarrow> u8" where "JValue_GetZ j = ucast j"
definition JValue_GetL :: "JValue \<Rightarrow> ref" where "JValue_GetL j = ucast j"

datatype PrimitiveType = kPrimNot | kPrimBoolean | kPrimByte | kPrimChar | kPrimShort | kPrimInt | kPrimLong | kPrimFloat
  | kPrimDouble | kPrimVoid

definition ComponentSize :: "PrimitiveType \<Rightarrow> nat" where
  "ComponentSize t =
     (case t of kPrimVoid \<Rightarrow> 0 | kPrimBoolean \<Rightarrow> 1 | kPrimByte \<Rightarrow> 1 | kPrimChar \<Rightarrow> 2 | kPrimShort \<Rightarrow> 2
      | kPrimInt \<Rightarrow> 4 | kPrimFloat \<Rightarrow> 4 | kPrimLong \<Rightarrow> 8 | kPrimDouble \<Rightarrow> 8 | kPrimNot \<Rightarrow> 4)"

datatype FindFieldType = InstanceObjectRead | InstanceObjectWrite | InstancePrimitiveRead | InstancePrimitiveWrite
  | StaticObjectRead | StaticObjectWrite | StaticPrimitiveRead | StaticPrimitiveWrite

section \<open>The heap and calls out of the interpreter\<close>

text \<open>The elements of an array object; \<open>float\<close> and \<open>double\<close> arrays are the bit patterns of their elements,
  which is how the interpreter reads them.\<close>

datatype array_data =
    BooleanArray "u8 list" | ByteArray "u8 list" | CharArray "u16 list" | ShortArray "u16 list"
  | IntArray "u32 list" | LongArray "u64 list" | ObjectArray "ref list"

record 'h mem =
  arrays :: "ref \<Rightarrow> array_data option"
  rest :: 'h

type_synonym ('h, 'r) service = "'h mem \<Rightarrow> ref \<Rightarrow> 'r \<times> 'h mem \<times> (ref \<Rightarrow> ref) \<times> ref"

datatype Thrown =
    NullPointer | DivideByZero | ArrayIndexOutOfBounds u32 nat | ArrayStore ref ref | ClassCast ref ref | InternalError
  | NegativeArraySize u32 | BadFilledArray | NullPointerForField nat bool | InvocationTimeError nat | IllegalMonitorState ref

datatype InvokeType = kStatic | kDirect | kVirtual | kSuper | kInterface

record 'h instrumentation =
  HasDexPcListeners :: "'h mem \<Rightarrow> bool"
  DexPcMovedEvent :: "u32 \<Rightarrow> ('h, unit) service"
  HasBranchListeners :: "'h mem \<Rightarrow> bool"
  Branch_event :: "u32 \<Rightarrow> u32 \<Rightarrow> ('h, unit) service"
  HasMethodExitListeners :: "'h mem \<Rightarrow> bool"
  MethodExitEvent :: "u32 \<Rightarrow> JValue \<Rightarrow> ('h, unit) service"
  HasExceptionCaughtListeners :: "'h mem \<Rightarrow> bool"
  IsExceptionThrownByCurrentMethod :: "'h mem \<Rightarrow> ref \<Rightarrow> bool"
  ExceptionCaughtEvent :: "ref \<Rightarrow> ('h, unit) service"
  MethodUnwindEvent :: "u32 \<Rightarrow> ('h, unit) service"
  HasFieldReadListeners :: "'h mem \<Rightarrow> bool"
  FieldReadEvent :: "ref \<Rightarrow> u32 \<Rightarrow> nat \<Rightarrow> ('h, unit) service"
  HasFieldWriteListeners :: "'h mem \<Rightarrow> bool"
  FieldWriteEvent :: "ref \<Rightarrow> u32 \<Rightarrow> nat \<Rightarrow> JValue \<Rightarrow> ('h, unit) service"
  HasInvokeVirtualOrInterfaceListeners :: "'h mem \<Rightarrow> bool"
  InvokeVirtualOrInterface :: "ref \<Rightarrow> u32 \<Rightarrow> nat \<Rightarrow> ('h, unit) service"

record 'h linker =
  FindCatchBlock :: "ref \<Rightarrow> u32 \<Rightarrow> ('h, u32 \<times> bool) service"
  ResolveString :: "u32 \<Rightarrow> ('h, ref) service"
  ResolveVerifyAndClinit :: "u16 \<Rightarrow> bool \<Rightarrow> ('h, ref) service"
  GetReturnType :: "('h, ref) service"
  InstanceOf :: "'h mem \<Rightarrow> ref \<Rightarrow> ref \<Rightarrow> bool"
  VerifierInstanceOf :: "'h mem \<Rightarrow> ref \<Rightarrow> ref \<Rightarrow> bool"
  ObjectIsThrowable :: "'h mem \<Rightarrow> ref \<Rightarrow> bool"
  IsStringClass :: "'h mem \<Rightarrow> ref \<Rightarrow> bool"
  ObjectIsFinalizable :: "'h mem \<Rightarrow> ref \<Rightarrow> bool"
  GetClass :: "'h mem \<Rightarrow> ref \<Rightarrow> ref"
  GetComponentType :: "'h mem \<Rightarrow> ref \<Rightarrow> (ref \<times> PrimitiveType) option"
  FindFieldFromCode :: "FindFieldType \<Rightarrow> bool \<Rightarrow> u16 \<Rightarrow> nat \<Rightarrow> ('h, nat option) service"
  GetDeclaringClass :: "'h mem \<Rightarrow> nat \<Rightarrow> ref"
  IsStaticField :: "nat \<Rightarrow> bool"
  GetFieldType :: "nat \<Rightarrow> ('h, ref) service"
  ArtField_Get :: "PrimitiveType \<Rightarrow> 'h mem \<Rightarrow> ref \<Rightarrow> nat \<Rightarrow> u64"
  ArtField_Set :: "PrimitiveType \<Rightarrow> bool \<Rightarrow> ref \<Rightarrow> nat \<Rightarrow> u64 \<Rightarrow> 'h mem \<Rightarrow> 'h mem"
  FindInstanceFieldWithOffset :: "'h mem \<Rightarrow> ref \<Rightarrow> u16 \<Rightarrow> nat"
  GetField :: "PrimitiveType \<Rightarrow> 'h mem \<Rightarrow> ref \<Rightarrow> u16 \<Rightarrow> u64"
  SetField :: "PrimitiveType \<Rightarrow> bool \<Rightarrow> ref \<Rightarrow> u16 \<Rightarrow> u64 \<Rightarrow> 'h mem \<Rightarrow> 'h mem"

record 'h caller =
  FindMethodFromCode :: "InvokeType \<Rightarrow> bool \<Rightarrow> u16 \<Rightarrow> ref \<Rightarrow> ('h, nat option \<times> ref) service"
  GetEmbeddedVTableEntry :: "'h mem \<Rightarrow> ref \<Rightarrow> u16 \<Rightarrow> nat option"
  IsInvokable :: "'h mem \<Rightarrow> nat \<Rightarrow> bool"
  JitInvokeVirtualOrInterface :: "ref \<Rightarrow> u32 \<Rightarrow> nat \<Rightarrow> 'h mem \<Rightarrow> 'h mem"
  IsStringConstructor :: "nat \<Rightarrow> bool"
  StringInitToStringFactory :: "nat \<Rightarrow> nat"
  GetCodeItem_registers_size :: "nat \<Rightarrow> u16 option"
  UseInterpreterEntrypoint :: "'h mem \<Rightarrow> nat \<Rightarrow> bool"
  IsStaticMethod :: "nat \<Rightarrow> bool"
  GetShorty :: "nat \<Rightarrow> string"
  ResolveParameterType :: "nat \<Rightarrow> nat \<Rightarrow> ('h, ref) service"
  PerformCall :: "nat \<Rightarrow> nat \<Rightarrow> ShadowFrame \<Rightarrow> JValue \<Rightarrow> bool \<Rightarrow> ('h, JValue) service"
  DoInvokePolymorphic :: "bool \<Rightarrow> Instruction \<Rightarrow> u16 \<Rightarrow> ShadowFrame \<Rightarrow> JValue \<Rightarrow> ('h, bool \<times> JValue) service"
  DoInvokeCustom :: "bool \<Rightarrow> Instruction \<Rightarrow> u16 \<Rightarrow> ShadowFrame \<Rightarrow> JValue \<Rightarrow> ('h, bool \<times> JValue) service"

record 'h allocator =
  AllocEmptyString :: "('h, ref) service"
  AllocObjectFromCode :: "ref \<Rightarrow> ('h, ref) service"
  AllocArrayFromCode :: "u16 \<Rightarrow> u32 \<Rightarrow> bool \<Rightarrow> ('h, ref) service"
  Array_Alloc :: "ref \<Rightarrow> nat \<Rightarrow> ('h, ref) service"
  AbortTransactionF :: "('h, unit) service"
  RecordWriteArray :: "ref \<Rightarrow> nat \<Rightarrow> u64 \<Rightarrow> 'h mem \<Rightarrow> 'h mem"

text \<open>Floating-point arithmetic on bit patterns; comparison and negation are defined below.\<close>

record fpu =
  fadd32 :: "u32 \<Rightarrow> u32 \<Rightarrow> u32"
  fsub32 :: "u32 \<Rightarrow> u32 \<Rightarrow> u32"
  fmul32 :: "u32 \<Rightarrow> u32 \<Rightarrow> u32"
  fdiv32 :: "u32 \<Rightarrow> u32 \<Rightarrow> u32"
  fmodf :: "u32 \<Rightarrow> u32 \<Rightarrow> u32"
  fadd64 :: "u64 \<Rightarrow> u64 \<Rightarrow> u64"
  fsub64 :: "u64 \<Rightarrow> u64 \<Rightarrow> u64"
  fmul64 :: "u64 \<Rightarrow> u64 \<Rightarrow> u64"
  fdiv64 :: "u64 \<Rightarrow> u64 \<Rightarrow> u64"
  fmod :: "u64 \<Rightarrow> u64 \<Rightarrow> u64"
  int_to_float :: "u32 \<Rightarrow> u32"
  int_to_double :: "u32 \<Rightarrow> u64"
  long_to_float :: "u64 \<Rightarrow> u32"
  long_to_double :: "u64 \<Rightarrow> u64"
  float_to_double :: "u32 \<Rightarrow> u64"
  double_to_float :: "u64 \<Rightarrow> u32"

record 'h env =
  insns :: "int \<Rightarrow> u16"
  do_access_check :: bool
  transaction_active :: bool
  interpret_one_instruction :: bool
  jit :: bool
  instr :: "'h instrumentation"
  lnk :: "'h linker"
  cal :: "'h caller"
  alloc :: "'h allocator"
  fp :: fpu
  suspend :: "('h, unit) service"
  Throw :: "Thrown \<Rightarrow> ('h, unit) service"
  MaybeDoOnStackReplacement :: "u32 \<Rightarrow> u32 \<Rightarrow> ('h, JValue option) service"
  AddSamples :: "bool \<Rightarrow> ('h, unit) service"
  MonitorEnter :: "ref \<Rightarrow> ('h, unit) service"
  MonitorExit :: "ref \<Rightarrow> ('h, unit) service"
  MustCountLocks :: "nat \<Rightarrow> bool"

section \<open>The state\<close>

text \<open>\<open>inst\<close> is the address of the current instruction, counted from \<open>insns_\<close>.\<close>

record 'h istate =
  frame :: ShadowFrame
  result_register :: JValue
  inst :: int
  exception :: ref
  heap :: "'h mem"

datatype 'h outcome = Continue "'h istate" | Return JValue "'h istate"

type_synonym 'h handler = "'h env \<Rightarrow> u32 \<Rightarrow> 'h istate \<Rightarrow> 'h outcome option"

text \<open>The statements after a macro run unless the macro has returned from the function.\<close>

definition andThen :: "'h outcome option \<Rightarrow> ('h istate \<Rightarrow> 'h outcome option) \<Rightarrow> 'h outcome option" where
  "andThen m k = (case m of None \<Rightarrow> None | Some (Continue s) \<Rightarrow> k s | Some (Return r s) \<Rightarrow> Some (Return r s))"

definition visit :: "(ref \<Rightarrow> ref) \<Rightarrow> ref \<Rightarrow> ref" where
  "visit fwd r = (if r = 0 then 0 else fwd r)"

definition call_out :: "('h, 'r) service \<Rightarrow> 'h istate \<Rightarrow> ('r \<times> (ref \<Rightarrow> ref) \<times> 'h istate) option" where
  "call_out f s =
     (case f (heap s) (exception s) of (r, h, fwd, e) \<Rightarrow>
        map_option (\<lambda>fr. (r, fwd, s\<lparr>heap := h, exception := e, frame := fr\<rparr>)) (VisitShadowFrame fwd (frame s)))"

definition call :: "('h, 'r) service \<Rightarrow> 'h istate \<Rightarrow> ('r \<times> 'h istate) option" where
  "call f s = map_option (\<lambda>(r, fwd, s). (r, s)) (call_out f s)"

definition kDexNoIndex :: u32 where
  "kDexNoIndex = 0xffffffff"

definition cur :: "'h env \<Rightarrow> 'h istate \<Rightarrow> Instruction" where
  "cur env s = RelativeAt (insns env) (inst s)"

definition GetDexPc :: "'h istate \<Rightarrow> u32" where
  "GetDexPc s = word_of_int (inst s)"

definition stop_at :: "u32 \<Rightarrow> 'h istate \<Rightarrow> 'h istate" where
  "stop_at pc s = s\<lparr>frame := SetDexPC pc (frame s)\<rparr>"

definition Next_units :: "nat \<Rightarrow> 'h istate \<Rightarrow> 'h istate" where
  "Next_units n s = s\<lparr>inst := inst s + int n\<rparr>"

definition RelativeAt_inst :: "u32 \<Rightarrow> 'h istate \<Rightarrow> 'h istate" where
  "RelativeAt_inst offset s = s\<lparr>inst := inst s + sint offset\<rparr>"

section \<open>Counting locks\<close>

definition AddMonitor :: "ref \<Rightarrow> 'h istate \<Rightarrow> 'h istate" where
  "AddMonitor obj s =
     (if obj = 0 then s
      else if exception s \<noteq> 0 then s
      else s\<lparr>frame := (frame s)\<lparr>monitors := Some (case monitors (frame s) of None \<Rightarrow> [obj] | Some ms \<Rightarrow> ms @ [obj])\<rparr>\<rparr>)"

definition RemoveMonitorOrThrow :: "'h env \<Rightarrow> ref \<Rightarrow> 'h istate \<Rightarrow> 'h istate option" where
  "RemoveMonitorOrThrow env obj s =
     (if obj = 0 then Some s
      else case monitors (frame s) of
        Some ms \<Rightarrow>
          if obj \<in> set ms then Some (s\<lparr>frame := (frame s)\<lparr>monitors := Some (remove1 obj ms)\<rparr>\<rparr>)
          else map_option snd (call (Throw env (IllegalMonitorState obj)) (s\<lparr>exception := 0\<rparr>))
      | None \<Rightarrow> map_option snd (call (Throw env (IllegalMonitorState obj)) (s\<lparr>exception := 0\<rparr>)))"

text \<open>The loop over \<open>monitors_\<close> from index \<open>i\<close>, with \<open>n\<close> objects to go.\<close>

fun MonitorExit_loop :: "'h env \<Rightarrow> nat \<Rightarrow> nat \<Rightarrow> 'h istate \<Rightarrow> 'h istate option" where
  "MonitorExit_loop env i 0 s = Some s"
| "MonitorExit_loop env i (Suc n) s = do {
     ms \<leftarrow> monitors (frame s);
     (_, s) \<leftarrow> call (MonitorExit env (ms ! i)) s;
     MonitorExit_loop env (i + 1) n (s\<lparr>exception := 0\<rparr>)
   }"

definition CheckAllMonitorsReleasedOrThrow :: "'h env \<Rightarrow> 'h istate \<Rightarrow> (bool \<times> 'h istate) option" where
  "CheckAllMonitorsReleasedOrThrow env s =
     (case monitors (frame s) of
        None \<Rightarrow> Some (True, s)
      | Some ms \<Rightarrow>
          if ms \<noteq> [] then do {
            s \<leftarrow> MonitorExit_loop env 0 (length ms) (s\<lparr>exception := 0\<rparr>);
            ms \<leftarrow> monitors (frame s);
            (_, s) \<leftarrow> call (Throw env (IllegalMonitorState (ms ! 0))) s;
            Some (False, s\<lparr>frame := (frame s)\<lparr>monitors := Some []\<rparr>\<rparr>)
          } else Some (True, s))"

definition counts_locks :: "'h env \<Rightarrow> 'h istate \<Rightarrow> bool" where
  "counts_locks env s \<longleftrightarrow> do_access_check env \<and> MustCountLocks env (sf_method (frame s))"

definition DoMonitorEnter :: "'h env \<Rightarrow> ref \<Rightarrow> 'h istate \<Rightarrow> 'h istate option" where
  "DoMonitorEnter env ref s = do {
     (_, fwd, s) \<leftarrow> call_out (MonitorEnter env ref) s;
     Some (if counts_locks env s then AddMonitor (visit fwd ref) s else s)
   }"

definition DoMonitorExit :: "'h env \<Rightarrow> ref \<Rightarrow> 'h istate \<Rightarrow> 'h istate option" where
  "DoMonitorExit env ref s = do {
     (_, fwd, s) \<leftarrow> call_out (MonitorExit env ref) s;
     if counts_locks env s then RemoveMonitorOrThrow env (visit fwd ref) s else Some s
   }"

definition DoMonitorCheckOnExit :: "'h env \<Rightarrow> 'h istate \<Rightarrow> (bool \<times> 'h istate) option" where
  "DoMonitorCheckOnExit env s = (if counts_locks env s then CheckAllMonitorsReleasedOrThrow env s else Some (True, s))"


section \<open>Exceptions\<close>

text \<open>The exception is kept in a handle, so it follows the object; the code dereferences it.  \<open>report\<close> is
  that the instrumentation passed is not null.\<close>

definition FindNextInstructionFollowingException :: "'h env \<Rightarrow> bool \<Rightarrow> u32 \<Rightarrow> 'h istate \<Rightarrow> (u32 \<times> 'h istate) option" where
  "FindNextInstructionFollowingException env report pc s =
     (let handle = exception s in
      if handle = 0 then None else do {
        (handle, s) \<leftarrow>
          (if report \<and> HasExceptionCaughtListeners (instr env) (heap s)
              \<and> IsExceptionThrownByCurrentMethod (instr env) (heap s) handle
           then map_option (\<lambda>(_, fwd, s). (visit fwd handle, s)) (call_out (ExceptionCaughtEvent (instr env) handle) s)
           else Some (handle, s));
        ((found_dex_pc, clear_exception), s) \<leftarrow> call (FindCatchBlock (lnk env) (GetClass (lnk env) (heap s) handle) pc) s;
        if found_dex_pc = kDexNoIndex \<and> report
        then map_option (\<lambda>(_, s). (found_dex_pc, s)) (call (MethodUnwindEvent (instr env) pc) s)
        else Some (found_dex_pc, if clear_exception then s\<lparr>exception := 0\<rparr> else s)
      })"

definition HANDLE_PENDING_EXCEPTION_WITH_INSTRUMENTATION :: "bool \<Rightarrow> 'h handler" where
  "HANDLE_PENDING_EXCEPTION_WITH_INSTRUMENTATION report env pc s = do {
     (_, s) \<leftarrow> call (suspend env) s;
     (found_dex_pc, s) \<leftarrow> FindNextInstructionFollowingException env report (GetDexPc s) s;
     if found_dex_pc = kDexNoIndex then do {
       (_, s) \<leftarrow> DoMonitorCheckOnExit env s;
       Some (Return 0 (if interpret_one_instruction env then stop_at kDexNoIndex s else s))
     } else Some (Continue (RelativeAt_inst (found_dex_pc - pc) s))
   }"

abbreviation HANDLE_PENDING_EXCEPTION :: "'h handler" where
  "HANDLE_PENDING_EXCEPTION \<equiv> HANDLE_PENDING_EXCEPTION_WITH_INSTRUMENTATION True"

definition POSSIBLY_HANDLE_PENDING_EXCEPTION :: "bool \<Rightarrow> nat \<Rightarrow> 'h handler" where
  "POSSIBLY_HANDLE_PENDING_EXCEPTION is_exception_pending next_units env pc s =
     (if is_exception_pending then HANDLE_PENDING_EXCEPTION env pc s else Some (Continue (Next_units next_units s)))"

definition HANDLE_MONITOR_CHECKS :: "'h handler" where
  "HANDLE_MONITOR_CHECKS env pc s = do {
     (ok, s) \<leftarrow> DoMonitorCheckOnExit env s;
     if \<not> ok then HANDLE_PENDING_EXCEPTION env pc s else Some (Continue s)
   }"

text \<open>Throw an exception and handle it.\<close>

definition throw_and_handle :: "Thrown \<Rightarrow> 'h handler" where
  "throw_and_handle x env pc s = do {
     (_, s) \<leftarrow> call (Throw env x) s;
     HANDLE_PENDING_EXCEPTION env pc s
   }"

section \<open>Before an instruction\<close>

definition DoDexPcMoveEvent :: "'h env \<Rightarrow> bool \<Rightarrow> u32 \<Rightarrow> 'h istate \<Rightarrow> (bool \<times> 'h istate) option" where
  "DoDexPcMoveEvent env save_ref pc s = do {
     let thr = exception s;
     (_, fwd, s) \<leftarrow> call_out (DexPcMovedEvent (instr env) pc) (s\<lparr>exception := 0\<rparr>);
     let s = (if save_ref then s\<lparr>result_register := JValue_SetL (visit fwd (JValue_GetL (result_register s)))\<rparr> else s);
     if exception s \<noteq> 0 then Some (False, s)
     else Some (True, if thr \<noteq> 0 then s\<lparr>exception := visit fwd thr\<rparr> else s)
   }"

definition PREAMBLE_SAVE :: "bool \<Rightarrow> 'h handler \<Rightarrow> 'h handler" where
  "PREAMBLE_SAVE save_ref body env pc s =
     (if HasDexPcListeners (instr env) (heap s) then do {
        (ok, s) \<leftarrow> DoDexPcMoveEvent env save_ref pc s;
        if ok then body env pc s else HANDLE_PENDING_EXCEPTION env pc s
      } else body env pc s)"

abbreviation PREAMBLE :: "'h handler \<Rightarrow> 'h handler" where
  "PREAMBLE \<equiv> PREAMBLE_SAVE False"

section \<open>Branches\<close>

definition BRANCH_INSTRUMENTATION :: "u32 \<Rightarrow> 'h handler" where
  "BRANCH_INSTRUMENTATION offset env pc s = do {
     s \<leftarrow> (if HasBranchListeners (instr env) (heap s)
           then map_option snd (call (Branch_event (instr env) pc offset) s) else Some s);
     (osr, s) \<leftarrow> call (MaybeDoOnStackReplacement env pc offset) s;
     case osr of
       Some result \<Rightarrow> Some (Return result (if interpret_one_instruction env then stop_at kDexNoIndex s else s))
     | None \<Rightarrow> Some (Continue s)
   }"

definition HOTNESS_UPDATE :: "'h env \<Rightarrow> 'h istate \<Rightarrow> 'h istate option" where
  "HOTNESS_UPDATE env s = (if jit env then map_option snd (call (AddSamples env True) s) else Some s)"

definition IsBackwardBranch :: "u32 \<Rightarrow> bool" where
  "IsBackwardBranch branch_offset \<longleftrightarrow> sint branch_offset \<le> 0"

definition HANDLE_BACKWARD_BRANCH :: "u32 \<Rightarrow> 'h handler" where
  "HANDLE_BACKWARD_BRANCH offset env pc s =
     (if IsBackwardBranch offset then do {
        s \<leftarrow> HOTNESS_UPDATE env s;
        (_, s) \<leftarrow> call (suspend env) (stop_at (GetDexPc s) s);
        Some (Continue s)
      } else Some (Continue s))"

definition branch_to :: "u32 \<Rightarrow> 'h handler" where
  "branch_to offset env pc s =
     andThen (BRANCH_INSTRUMENTATION offset env pc s) (\<lambda>s. HANDLE_BACKWARD_BRANCH offset env pc (RelativeAt_inst offset s))"

section \<open>Returning\<close>

text \<open>The end that the return instructions share: report the exit, leave a mark for the other interpreter, return.\<close>

definition method_exit :: "('h istate \<Rightarrow> JValue option) \<Rightarrow> JValue \<Rightarrow> 'h handler" where
  "method_exit reload result env pc s =
     andThen
       (if HasMethodExitListeners (instr env) (heap s) then do {
          (_, s) \<leftarrow> call (MethodExitEvent (instr env) (GetDexPc s) result) s;
          if exception s \<noteq> 0 then HANDLE_PENDING_EXCEPTION_WITH_INSTRUMENTATION False env pc s else Some (Continue s)
        } else Some (Continue s))
       (\<lambda>s'. do {
          result \<leftarrow> (if HasMethodExitListeners (instr env) (heap s) then reload s' else Some result);
          Some (Return result (if interpret_one_instruction env then stop_at kDexNoIndex s' else s'))
        })"

definition return_handler :: "('h env \<Rightarrow> 'h istate \<Rightarrow> JValue option) \<Rightarrow> 'h handler" where
  "return_handler value env pc s = do {
     result \<leftarrow> value env s;
     (_, s) \<leftarrow> call (suspend env) s;
     andThen (HANDLE_MONITOR_CHECKS env pc s) (method_exit (\<lambda>s. Some result) result env pc)
   }"

section \<open>Instructions that only touch the frame\<close>

definition on_frame :: "nat \<Rightarrow> (Instruction \<Rightarrow> ShadowFrame \<Rightarrow> ShadowFrame option) \<Rightarrow> 'h handler" where
  "on_frame next_units upd env pc s = do {
     f \<leftarrow> upd (cur env s) (frame s);
     Some (Continue (Next_units next_units (s\<lparr>frame := f\<rparr>)))
   }"

end
