(* ===== verification/Interpreter_Ops.thy ===== *)
theory Interpreter_Ops
  imports Interpreter_State Bit_Utils
begin

text \<open>
  The operations behind the instructions of the switch interpreter: integer arithmetic
  (\<open>interpreter/safe_math.h\<close>, \<open>interpreter/interpreter_common.h\<close>), conversions
  (\<open>entrypoints/entrypoint_utils-inl.h\<close>), switches, arrays (\<open>mirror/array-inl.h\<close>,
  \<open>mirror/object_array-inl.h\<close>, \<open>entrypoints/entrypoint_utils.cc\<close>), fields
  (\<open>interpreter/interpreter_common.cc\<close>, \<open>common_dex_operations.h\<close>) and calls.  An operation that may throw returns
  whether it succeeded, with the state it leaves.
\<close>

section \<open>Integers\<close>

text \<open>The result has the width of the wider operand.\<close>

definition SafeAdd :: "'a::len word \<Rightarrow> 'b::len word \<Rightarrow> 'c::len word" where
  "SafeAdd a b = scast a + scast b"

definition SafeSub :: "'a::len word \<Rightarrow> 'b::len word \<Rightarrow> 'c::len word" where
  "SafeSub a b = scast a - scast b"

definition SafeMul :: "'a::len word \<Rightarrow> 'b::len word \<Rightarrow> 'c::len word" where
  "SafeMul a b = scast a * scast b"

text \<open>The division of C++ on signed operands.\<close>

definition quotient :: "'a::len word \<Rightarrow> 'a word \<Rightarrow> 'a word" where
  "quotient a b = word_of_int (sint a sdiv sint b)"

definition remainder :: "'a::len word \<Rightarrow> 'a word \<Rightarrow> 'a word" where
  "remainder a b = word_of_int (sint a smod sint b)"

definition kMinInt :: u32 where "kMinInt = 0x80000000"
definition kMinLong :: u64 where "kMinLong = 0x8000000000000000"

text \<open>Each returns whether it succeeded, which is what the instruction tests.\<close>

definition DoIntDivide :: "'h env \<Rightarrow> nat \<Rightarrow> u32 \<Rightarrow> u32 \<Rightarrow> 'h istate \<Rightarrow> (bool \<times> 'h istate) option" where
  "DoIntDivide env result_reg dividend divisor s =
     (if divisor = 0 then map_option (\<lambda>(_, s). (False, s)) (call (Throw env DivideByZero) s)
      else map_option (\<lambda>f. (True, s\<lparr>frame := f\<rparr>))
        (if dividend = kMinInt \<and> divisor = -1 then SetVReg (frame s) result_reg kMinInt
         else SetVReg (frame s) result_reg (quotient dividend divisor)))"

definition DoIntRemainder :: "'h env \<Rightarrow> nat \<Rightarrow> u32 \<Rightarrow> u32 \<Rightarrow> 'h istate \<Rightarrow> (bool \<times> 'h istate) option" where
  "DoIntRemainder env result_reg dividend divisor s =
     (if divisor = 0 then map_option (\<lambda>(_, s). (False, s)) (call (Throw env DivideByZero) s)
      else map_option (\<lambda>f. (True, s\<lparr>frame := f\<rparr>))
        (if dividend = kMinInt \<and> divisor = -1 then SetVReg (frame s) result_reg 0
         else SetVReg (frame s) result_reg (remainder dividend divisor)))"

definition DoLongDivide :: "'h env \<Rightarrow> nat \<Rightarrow> u64 \<Rightarrow> u64 \<Rightarrow> 'h istate \<Rightarrow> (bool \<times> 'h istate) option" where
  "DoLongDivide env result_reg dividend divisor s =
     (if divisor = 0 then map_option (\<lambda>(_, s). (False, s)) (call (Throw env DivideByZero) s)
      else map_option (\<lambda>f. (True, s\<lparr>frame := f\<rparr>))
        (if dividend = kMinLong \<and> divisor = -1 then SetVRegLong (frame s) result_reg kMinLong
         else SetVRegLong (frame s) result_reg (quotient dividend divisor)))"

definition DoLongRemainder :: "'h env \<Rightarrow> nat \<Rightarrow> u64 \<Rightarrow> u64 \<Rightarrow> 'h istate \<Rightarrow> (bool \<times> 'h istate) option" where
  "DoLongRemainder env result_reg dividend divisor s =
     (if divisor = 0 then map_option (\<lambda>(_, s). (False, s)) (call (Throw env DivideByZero) s)
      else map_option (\<lambda>f. (True, s\<lparr>frame := f\<rparr>))
        (if dividend = kMinLong \<and> divisor = -1 then SetVRegLong (frame s) result_reg 0
         else SetVRegLong (frame s) result_reg (remainder dividend divisor)))"

section \<open>Floating point\<close>

text \<open>The comparisons of C++ on the bit patterns of IEEE 754: \<open>infinity\<close> is the pattern of infinity, a greater
  magnitude is a NaN, the key orders all other values, and the two zeros have the same key.\<close>

definition fmagnitude :: "'a::len word \<Rightarrow> 'a word" where
  "fmagnitude x = take_bit (LENGTH('a) - 1) x"

definition fnan :: "'a::len word \<Rightarrow> 'a word \<Rightarrow> bool" where
  "fnan infinity x \<longleftrightarrow> infinity < fmagnitude x"

definition fkey :: "'a::len word \<Rightarrow> int" where
  "fkey x = (if bit x (LENGTH('a) - 1) then - uint (fmagnitude x) else uint (fmagnitude x))"

definition fless :: "'a::len word \<Rightarrow> 'a word \<Rightarrow> 'a word \<Rightarrow> bool" where
  "fless infinity x y \<longleftrightarrow> \<not> fnan infinity x \<and> \<not> fnan infinity y \<and> fkey x < fkey y"

definition fequal :: "'a::len word \<Rightarrow> 'a word \<Rightarrow> 'a word \<Rightarrow> bool" where
  "fequal infinity x y \<longleftrightarrow> \<not> fnan infinity x \<and> \<not> fnan infinity y \<and> fkey x = fkey y"

definition fneg :: "'a::len word \<Rightarrow> 'a word" where
  "fneg x = flip_bit (LENGTH('a) - 1) x"

abbreviation inf32 :: u32 where "inf32 \<equiv> 0x7f800000"
abbreviation inf64 :: u64 where "inf64 \<equiv> 0x7ff0000000000000"

text \<open>The conversion to an integer type drops the fraction: \<open>p\<close> is the number of fraction bits and
  \<open>bias\<close> the exponent that makes the significand an integer.\<close>

definition ftrunc :: "nat \<Rightarrow> int \<Rightarrow> 'a::len word \<Rightarrow> int" where
  "ftrunc p bias x =
     (let e = uint (drop_bit p (fmagnitude x));
          m = uint (take_bit p x) + (if e = 0 then 0 else 2 ^ p);
          e = (if e = 0 then 1 else e) - bias;
          v = (if e < 0 then m div 2 ^ nat (- e) else m * 2 ^ nat e)
      in if bit x (LENGTH('a) - 1) then - v else v)"

definition art_float_to_integral ::
    "'f::len word \<Rightarrow> ('f word \<Rightarrow> int) \<Rightarrow> 'f word \<Rightarrow> 'f word \<Rightarrow> 'f word \<Rightarrow> 'i::len word" where
  "art_float_to_integral infinity trunc kMinIntAsFloat kMaxIntAsFloat f =
     (if fless infinity kMinIntAsFloat f then
        if fless infinity f kMaxIntAsFloat then word_of_int (trunc f) else word_of_int (2 ^ (LENGTH('i) - 1) - 1)
      else if \<not> fequal infinity f f then 0 else word_of_int (- (2 ^ (LENGTH('i) - 1))))"

definition float_to_int :: "u32 \<Rightarrow> u32" where
  "float_to_int = art_float_to_integral inf32 (ftrunc 23 150) 0xcf000000 0x4f000000"

definition float_to_long :: "u32 \<Rightarrow> u64" where
  "float_to_long = art_float_to_integral inf32 (ftrunc 23 150) 0xdf000000 0x5f000000"

definition double_to_int :: "u64 \<Rightarrow> u32" where
  "double_to_int = art_float_to_integral inf64 (ftrunc 52 1075) 0xc1e0000000000000 0x41dfffffffc00000"

definition double_to_long :: "u64 \<Rightarrow> u64" where
  "double_to_long = art_float_to_integral inf64 (ftrunc 52 1075) 0xc3e0000000000000 0x43e0000000000000"

section \<open>Switches\<close>

text \<open>The payload that a \<open>31t\<close> instruction points to.\<close>

definition payload_of :: "'h env \<Rightarrow> 'h istate \<Rightarrow> Instruction" where
  "payload_of env s = RelativeAt (insns env) (inst s + sint (VRegB_31t (cur env s)))"

definition DoPackedSwitch :: "Instruction \<Rightarrow> u32 \<Rightarrow> u32" where
  "DoPackedSwitch switch_data test_val =
     (let size = switch_data 1 in
      if size = 0 then 3
      else let first_key = Fetch32 switch_data 2;
               index = test_val - first_key
           in if 0 \<le> sint index \<and> sint index < uint size then Fetch32 switch_data (4 + 2 * nat (sint index)) else 3)"

function SparseSwitch_loop :: "(nat \<Rightarrow> u32) \<Rightarrow> (nat \<Rightarrow> u32) \<Rightarrow> u32 \<Rightarrow> int \<Rightarrow> int \<Rightarrow> u32" where
  "SparseSwitch_loop keys entries test_val lo hi =
     (if lo \<le> hi then
        let mid = (lo + hi) div 2;
            foundVal = keys (nat mid)
        in if sint test_val < sint foundVal then SparseSwitch_loop keys entries test_val lo (mid - 1)
           else if sint test_val > sint foundVal then SparseSwitch_loop keys entries test_val (mid + 1) hi
           else entries (nat mid)
      else 3)"
  by pat_completeness auto
termination
  by (relation "measure (\<lambda>(k, e, t, lo, hi). nat (hi + 1 - lo))") auto

declare SparseSwitch_loop.simps [simp del]

definition DoSparseSwitch :: "Instruction \<Rightarrow> u32 \<Rightarrow> u32" where
  "DoSparseSwitch switch_data test_val =
     (let size = switch_data 1 in
      if size = 0 then 3
      else SparseSwitch_loop (\<lambda>i. Fetch32 switch_data (2 + 2 * i)) (\<lambda>i. Fetch32 switch_data (2 + 2 * unat size + 2 * i))
             test_val 0 (uint size - 1))"

section \<open>Arrays\<close>

definition AsBooleanArray :: "array_data \<Rightarrow> u8 list option" where
  "AsBooleanArray a = (case a of BooleanArray xs \<Rightarrow> Some xs | _ \<Rightarrow> None)"

definition AsByteArray :: "array_data \<Rightarrow> u8 list option" where
  "AsByteArray a = (case a of ByteArray xs \<Rightarrow> Some xs | _ \<Rightarrow> None)"

definition AsCharArray :: "array_data \<Rightarrow> u16 list option" where
  "AsCharArray a = (case a of CharArray xs \<Rightarrow> Some xs | _ \<Rightarrow> None)"

definition AsShortArray :: "array_data \<Rightarrow> u16 list option" where
  "AsShortArray a = (case a of ShortArray xs \<Rightarrow> Some xs | _ \<Rightarrow> None)"

definition AsIntArray :: "array_data \<Rightarrow> u32 list option" where
  "AsIntArray a = (case a of IntArray xs \<Rightarrow> Some xs | _ \<Rightarrow> None)"

definition AsLongArray :: "array_data \<Rightarrow> u64 list option" where
  "AsLongArray a = (case a of LongArray xs \<Rightarrow> Some xs | _ \<Rightarrow> None)"

definition AsObjectArray :: "array_data \<Rightarrow> ref list option" where
  "AsObjectArray a = (case a of ObjectArray xs \<Rightarrow> Some xs | _ \<Rightarrow> None)"

definition GetLength :: "array_data \<Rightarrow> nat" where
  "GetLength a = (case a of BooleanArray xs \<Rightarrow> length xs | ByteArray xs \<Rightarrow> length xs | CharArray xs \<Rightarrow> length xs
     | ShortArray xs \<Rightarrow> length xs | IntArray xs \<Rightarrow> length xs | LongArray xs \<Rightarrow> length xs | ObjectArray xs \<Rightarrow> length xs)"

definition elements_of :: "(array_data \<Rightarrow> 'e list option) \<Rightarrow> 'h mem \<Rightarrow> ref \<Rightarrow> 'e list option" where
  "elements_of as h a = arrays h a \<bind> as"

definition update_array :: "ref \<Rightarrow> array_data \<Rightarrow> 'h mem \<Rightarrow> 'h mem" where
  "update_array a d h = h\<lparr>arrays := (arrays h)(a \<mapsto> d)\<rparr>"

definition CheckIsValidIndex :: "'h env \<Rightarrow> u32 \<Rightarrow> nat \<Rightarrow> 'h istate \<Rightarrow> (bool \<times> 'h istate) option" where
  "CheckIsValidIndex env index len s =
     (if unat index \<ge> len then map_option (\<lambda>(_, s). (False, s)) (call (Throw env (ArrayIndexOutOfBounds index len)) s)
      else Some (True, s))"

definition CheckAssignable :: "'h env \<Rightarrow> ref \<Rightarrow> ref \<Rightarrow> 'h istate \<Rightarrow> (bool \<times> 'h istate) option" where
  "CheckAssignable env a object s =
     (if object \<noteq> 0 then do {
        (element_class, _) \<leftarrow> GetComponentType (lnk env) (heap s) (GetClass (lnk env) (heap s) a);
        if \<not> InstanceOf (lnk env) (heap s) object element_class
        then map_option (\<lambda>(_, s). (False, s)) (call (Throw env (ArrayStore a object)) s)
        else Some (True, s)
      } else Some (True, s))"

text \<open>In a transaction the element that is overwritten is recorded first; \<open>RecordWriteArray\<close> stands for that
  recording in an array of primitives and, as a field write, in one of objects.\<close>

definition SetWithoutChecks ::
    "'h env \<Rightarrow> (array_data \<Rightarrow> 'e::len word list option) \<Rightarrow> ('e word list \<Rightarrow> array_data) \<Rightarrow> ref \<Rightarrow> nat \<Rightarrow> 'e word
      \<Rightarrow> 'h mem \<Rightarrow> 'h mem option" where
  "SetWithoutChecks env as array a i val h = do {
     xs \<leftarrow> elements_of as h a;
     if i < length xs then
       let h = (if transaction_active env then RecordWriteArray (alloc env) a i (ucast (xs ! i)) h else h)
       in do {
         xs \<leftarrow> elements_of as h a;
         Some (update_array a (array (xs[i := val])) h)
       }
     else None
   }"

section \<open>Filling an array from a payload\<close>

definition payload_byte :: "Instruction \<Rightarrow> nat \<Rightarrow> u8" where
  "payload_byte payload i = ucast (drop_bit (8 * (i mod 2)) (payload (4 + i div 2)))"

definition word_of_bytes :: "u8 list \<Rightarrow> 'a::len word" where
  "word_of_bytes bs = foldr (\<lambda>b w. ucast b OR push_bit 8 w) bs 0"

definition bytes_of_word :: "nat \<Rightarrow> 'a::len word \<Rightarrow> u8 list" where
  "bytes_of_word width w = map (\<lambda>k. ucast (drop_bit (8 * k) w)) [0..<width]"

text \<open>The elements start behind the class, the lock word and the length, of four bytes each, at a multiple of their width.\<close>

definition Array_DataOffset :: "u32 \<Rightarrow> nat option" where
  "Array_DataOffset component_size = (if IsPowerOfTwo component_size then Some (unat (RoundUp 12 component_size)) else None)"

text \<open>The copy of \<open>size_in_bytes\<close> raw bytes over an array with elements of \<open>width\<close> bytes, to where elements of
  \<open>element_width\<close> bytes would start.  The image of the array begins behind its length, with the padding in front of
  elements of eight bytes.  Past the last element the copy would overwrite whatever follows the array, which is \<open>None\<close>.\<close>

definition copy_payload :: "Instruction \<Rightarrow> u32 \<Rightarrow> u32 \<Rightarrow> nat \<Rightarrow> 'a::len word list \<Rightarrow> 'a word list option" where
  "copy_payload payload width element_width size_in_bytes xs =
     do {
       base \<leftarrow> Array_DataOffset width;
       start \<leftarrow> Array_DataOffset element_width;
       if size_in_bytes = 0 then Some xs
       else
         let n = unat width;
             image = replicate (base - 12) 0 @ concat (map (bytes_of_word n) xs);
             k = start - 12;
             image = take k image @ map (payload_byte payload) [0..<size_in_bytes] @ drop (k + size_in_bytes) image;
             bytes = drop (base - 12) image
         in if k + size_in_bytes \<le> base - 12 + n * length xs
            then Some (map (\<lambda>i. word_of_bytes (take n (drop (i * n) bytes))) [0..<length xs])
            else None
     }"

definition FillArrayData :: "'h env \<Rightarrow> ref \<Rightarrow> Instruction \<Rightarrow> 'h istate \<Rightarrow> (bool \<times> 'h istate) option" where
  "FillArrayData env obj payload s =
     (if obj = 0 then map_option (\<lambda>(_, s). (False, s)) (call (Throw env NullPointer) s)
      else do {
        array \<leftarrow> arrays (heap s) obj;
        let element_width = ucast (payload 1);
        let element_count = Fetch32 payload 2;
        if sint element_count > int (GetLength array)
        then map_option (\<lambda>(_, s). (False, s)) (call (Throw env (ArrayIndexOutOfBounds element_count (GetLength array))) s)
        else do {
          let size_in_bytes = unat (element_count * ucast (payload 1));
          array \<leftarrow> (case array of
              BooleanArray xs \<Rightarrow> map_option BooleanArray (copy_payload payload 1 element_width size_in_bytes xs)
            | ByteArray xs \<Rightarrow> map_option ByteArray (copy_payload payload 1 element_width size_in_bytes xs)
            | CharArray xs \<Rightarrow> map_option CharArray (copy_payload payload 2 element_width size_in_bytes xs)
            | ShortArray xs \<Rightarrow> map_option ShortArray (copy_payload payload 2 element_width size_in_bytes xs)
            | IntArray xs \<Rightarrow> map_option IntArray (copy_payload payload 4 element_width size_in_bytes xs)
            | LongArray xs \<Rightarrow> map_option LongArray (copy_payload payload 8 element_width size_in_bytes xs)
            | ObjectArray xs \<Rightarrow> None);
          Some (True, s\<lparr>heap := update_array obj array (heap s)\<rparr>)
        }
      })"

definition RecordArrayElementsInTransactionImpl :: "'h env \<Rightarrow> ref \<Rightarrow> 'e::len word list \<Rightarrow> nat \<Rightarrow> 'h mem \<Rightarrow> 'h mem" where
  "RecordArrayElementsInTransactionImpl env a xs count h =
     fold (\<lambda>i. RecordWriteArray (alloc env) a i (ucast (xs ! i))) [0..<count] h"

definition RecordArrayElementsInTransaction :: "'h env \<Rightarrow> ref \<Rightarrow> u32 \<Rightarrow> 'h mem \<Rightarrow> 'h mem option" where
  "RecordArrayElementsInTransaction env a count h =
     (let n = nat (sint count) in
      case arrays h a of
        Some (BooleanArray xs) \<Rightarrow> if n \<le> length xs then Some (RecordArrayElementsInTransactionImpl env a xs n h) else None
      | Some (ByteArray xs) \<Rightarrow> if n \<le> length xs then Some (RecordArrayElementsInTransactionImpl env a xs n h) else None
      | Some (CharArray xs) \<Rightarrow> if n \<le> length xs then Some (RecordArrayElementsInTransactionImpl env a xs n h) else None
      | Some (ShortArray xs) \<Rightarrow> if n \<le> length xs then Some (RecordArrayElementsInTransactionImpl env a xs n h) else None
      | Some (IntArray xs) \<Rightarrow> if n \<le> length xs then Some (RecordArrayElementsInTransactionImpl env a xs n h) else None
      | Some (LongArray xs) \<Rightarrow> if n \<le> length xs then Some (RecordArrayElementsInTransactionImpl env a xs n h) else None
      | _ \<Rightarrow> None)"

section \<open>Filled arrays\<close>

function FilledNewArray_loop ::
    "'h env \<Rightarrow> bool \<Rightarrow> ref \<Rightarrow> (nat \<Rightarrow> nat option) \<Rightarrow> nat \<Rightarrow> nat \<Rightarrow> 'h istate \<Rightarrow> 'h istate option" where
  "FilledNewArray_loop env is_int new_array src_reg i len s =
     (if i < len then do {
        r \<leftarrow> src_reg i;
        h \<leftarrow> (if is_int
          then GetVReg (frame s) r \<bind> (\<lambda>v. SetWithoutChecks env AsIntArray IntArray new_array i v (heap s))
          else GetVRegReference (frame s) r \<bind> (\<lambda>v. SetWithoutChecks env AsObjectArray ObjectArray new_array i v (heap s)));
        FilledNewArray_loop env is_int new_array src_reg (i + 1) len (s\<lparr>heap := h\<rparr>)
      } else Some s)"
  by pat_completeness auto
termination
  by (relation "measure (\<lambda>(env, b, a, r, i, len, s). len - i)") auto

declare FilledNewArray_loop.simps [simp del]

definition arg_at :: "u32 list \<Rightarrow> nat \<Rightarrow> nat option" where
  "arg_at args i = (if i < length args then Some (unat (args ! i)) else None)"

definition DoFilledNewArray :: "bool \<Rightarrow> 'h env \<Rightarrow> 'h istate \<Rightarrow> (bool \<times> 'h istate) option" where
  "DoFilledNewArray is_range env s =
     (let i = cur env s;
          len = ucast (if is_range then VRegA_3rc (i 0) else VRegA_35c (i 0)) :: u32;
          type_idx = (if is_range then VRegB_3rc i else VRegB_35c i)
      in
      if \<not> is_range \<and> sint len > 5 then None
      else if sint len < 0 then map_option (\<lambda>(_, s). (False, s)) (call (Throw env (NegativeArraySize len)) s)
      else do {
        (array_class, s) \<leftarrow> call (ResolveVerifyAndClinit (lnk env) type_idx (do_access_check env)) s;
        if array_class = 0 then Some (False, s)
        else do {
          (_, component) \<leftarrow> GetComponentType (lnk env) (heap s) array_class;
          if component \<noteq> kPrimNot \<and> component \<noteq> kPrimInt
          then map_option (\<lambda>(_, s). (False, s))
            (call (Throw env (if component = kPrimLong \<or> component = kPrimDouble then BadFilledArray else InternalError)) s)
          else do {
            (new_array, s) \<leftarrow> call (Array_Alloc (alloc env) array_class (unat len)) s;
            if new_array = 0 then Some (False, s)
            else do {
              s \<leftarrow> FilledNewArray_loop env (component = kPrimInt) new_array
                (if is_range then \<lambda>k. Some (unat (VRegC_3rc i) + k) else arg_at (GetVarArgs i (i 0) (replicate 5 0))) 0 (unat len) s;
              Some (True, s\<lparr>result_register := JValue_SetL new_array\<rparr>)
            }
          }
        }
      })"

section \<open>Fields\<close>

definition set_typed_vreg :: "PrimitiveType \<Rightarrow> ShadowFrame \<Rightarrow> nat \<Rightarrow> JValue \<Rightarrow> ShadowFrame option" where
  "set_typed_vreg field_type f vregA result =
     (case field_type of
        kPrimBoolean \<Rightarrow> SetVReg f vregA (ucast (JValue_GetZ result))
      | kPrimByte \<Rightarrow> SetVReg f vregA (scast (JValue_GetB result))
      | kPrimChar \<Rightarrow> SetVReg f vregA (ucast (JValue_GetC result))
      | kPrimShort \<Rightarrow> SetVReg f vregA (scast (JValue_GetS result))
      | kPrimInt \<Rightarrow> SetVReg f vregA (JValue_GetI result)
      | kPrimLong \<Rightarrow> SetVRegLong f vregA result
      | kPrimNot \<Rightarrow> SetVRegReference f vregA (JValue_GetL result)
      | _ \<Rightarrow> None)"

definition typed_JValue :: "PrimitiveType \<Rightarrow> u64 \<Rightarrow> JValue option" where
  "typed_JValue field_type raw =
     (case field_type of
        kPrimBoolean \<Rightarrow> Some (JValue_SetZ (ucast raw))
      | kPrimByte \<Rightarrow> Some (JValue_SetB (ucast raw))
      | kPrimChar \<Rightarrow> Some (JValue_SetC (ucast raw))
      | kPrimShort \<Rightarrow> Some (JValue_SetS (ucast raw))
      | kPrimInt \<Rightarrow> Some (JValue_SetI (ucast raw))
      | kPrimLong \<Rightarrow> Some raw
      | kPrimNot \<Rightarrow> Some (JValue_SetL (ucast raw))
      | _ \<Rightarrow> None)"

text \<open>The listeners may suspend the thread; the object is in a handle.  \<open>None\<close> in the result is that they threw.\<close>

definition DoFieldGetCommon ::
    "PrimitiveType \<Rightarrow> 'h env \<Rightarrow> ref \<Rightarrow> nat \<Rightarrow> 'h istate \<Rightarrow> (JValue option \<times> 'h istate) option" where
  "DoFieldGetCommon field_type env obj field s = do {
     (obj, threw, s) \<leftarrow>
       (if HasFieldReadListeners (instr env) (heap s)
        then map_option (\<lambda>(_, fwd, s). (visit fwd obj, exception s \<noteq> 0, s))
          (call_out (FieldReadEvent (instr env) (if IsStaticField (lnk env) field then 0 else obj) (GetDexPC (frame s)) field) s)
        else Some (obj, False, s));
     if threw then Some (None, s)
     else do {
       result \<leftarrow> typed_JValue field_type (ArtField_Get (lnk env) field_type (heap s) obj field);
       Some (Some result, s)
     }
   }"

definition DoFieldGet :: "FindFieldType \<Rightarrow> PrimitiveType \<Rightarrow> 'h env \<Rightarrow> 'h istate \<Rightarrow> (bool \<times> 'h istate) option" where
  "DoFieldGet find_type field_type env s =
     (let i = cur env s;
          is_static = (find_type = StaticObjectRead \<or> find_type = StaticPrimitiveRead);
          field_idx = (if is_static then VRegB_21c i else VRegC_22c i)
      in do {
        (f, s) \<leftarrow> call (FindFieldFromCode (lnk env) find_type (do_access_check env) field_idx (ComponentSize field_type)) s;
        case f of
          None \<Rightarrow> if exception s = 0 then None else Some (False, s)
        | Some field \<Rightarrow> do {
            obj \<leftarrow> (if is_static then Some (GetDeclaringClass (lnk env) (heap s) field)
                   else GetVRegReference (frame s) (unat (VRegB_22c (i 0))));
            if \<not> is_static \<and> obj = 0
            then map_option (\<lambda>(_, s). (False, s)) (call (Throw env (NullPointerForField field True)) s)
            else do {
              (result, s) \<leftarrow> DoFieldGetCommon field_type env obj field s;
              case result of
                None \<Rightarrow> if exception s = 0 then None else Some (False, s)
              | Some result \<Rightarrow> do {
                  fr \<leftarrow> set_typed_vreg field_type (frame s) (unat (if is_static then VRegA_21c (i 0) else VRegA_22c (i 0))) result;
                  Some (True, s\<lparr>frame := fr\<rparr>)
                }
            }
          }
      })"

definition DoIGetQuick :: "PrimitiveType \<Rightarrow> 'h env \<Rightarrow> 'h istate \<Rightarrow> (bool \<times> 'h istate) option" where
  "DoIGetQuick field_type env s =
     (let i = cur env s; field_offset = VRegC_22c i
      in do {
        obj \<leftarrow> GetVRegReference (frame s) (unat (VRegB_22c (i 0)));
        if obj = 0 then map_option (\<lambda>(_, s). (False, s)) (call (Throw env NullPointer) s)
        else do {
          (obj, threw, s) \<leftarrow>
            (if HasFieldReadListeners (instr env) (heap s)
             then map_option (\<lambda>(_, fwd, s). (visit fwd obj, exception s \<noteq> 0, s))
               (call_out (FieldReadEvent (instr env) obj (GetDexPC (frame s))
                  (FindInstanceFieldWithOffset (lnk env) (heap s) (GetClass (lnk env) (heap s) obj) field_offset)) s)
             else Some (obj, False, s));
          if threw then Some (False, s)
          else do {
            value \<leftarrow> typed_JValue field_type (GetField (lnk env) field_type (heap s) obj field_offset);
            fr \<leftarrow> set_typed_vreg field_type (frame s) (unat (VRegA_22c (i 0))) value;
            Some (True, s\<lparr>frame := fr\<rparr>)
          }
        }
      })"

definition GetFieldValue :: "PrimitiveType \<Rightarrow> ShadowFrame \<Rightarrow> nat \<Rightarrow> JValue option" where
  "GetFieldValue field_type f vreg =
     (case field_type of
        kPrimBoolean \<Rightarrow> map_option (\<lambda>v. JValue_SetZ (ucast v)) (GetVReg f vreg)
      | kPrimByte \<Rightarrow> map_option (\<lambda>v. JValue_SetB (ucast v)) (GetVReg f vreg)
      | kPrimChar \<Rightarrow> map_option (\<lambda>v. JValue_SetC (ucast v)) (GetVReg f vreg)
      | kPrimShort \<Rightarrow> map_option (\<lambda>v. JValue_SetS (ucast v)) (GetVReg f vreg)
      | kPrimInt \<Rightarrow> map_option JValue_SetI (GetVReg f vreg)
      | kPrimLong \<Rightarrow> GetVRegLong f vreg
      | kPrimNot \<Rightarrow> map_option JValue_SetL (GetVRegReference f vreg)
      | _ \<Rightarrow> None)"

definition JValue_raw :: "PrimitiveType \<Rightarrow> JValue \<Rightarrow> u64 option" where
  "JValue_raw field_type value =
     (case field_type of
        kPrimBoolean \<Rightarrow> Some (ucast (JValue_GetZ value))
      | kPrimByte \<Rightarrow> Some (ucast (JValue_GetB value))
      | kPrimChar \<Rightarrow> Some (ucast (JValue_GetC value))
      | kPrimShort \<Rightarrow> Some (ucast (JValue_GetS value))
      | kPrimInt \<Rightarrow> Some (ucast (JValue_GetI value))
      | kPrimLong \<Rightarrow> Some value
      | kPrimNot \<Rightarrow> Some (ucast (JValue_GetL value))
      | _ \<Rightarrow> None)"

text \<open>A field class that cannot be resolved is null, and the code dereferences it.\<close>

definition DoFieldPutCommon ::
    "PrimitiveType \<Rightarrow> 'h env \<Rightarrow> ref \<Rightarrow> nat \<Rightarrow> JValue \<Rightarrow> 'h istate \<Rightarrow> (bool \<times> 'h istate) option" where
  "DoFieldPutCommon field_type env obj field value s = do {
     (obj, value, threw, s) \<leftarrow>
       (if HasFieldWriteListeners (instr env) (heap s)
        then map_option (\<lambda>(_, fwd, s). (visit fwd obj,
            if field_type = kPrimNot then JValue_SetL (visit fwd (JValue_GetL value)) else value, exception s \<noteq> 0, s))
          (call_out (FieldWriteEvent (instr env) (if IsStaticField (lnk env) field then 0 else obj) (GetDexPC (frame s)) field value) s)
        else Some (obj, value, False, s));
     if threw then Some (False, s)
     else if field_type = kPrimNot \<and> do_access_check env \<and> JValue_GetL value \<noteq> 0 then do {
       let reg = JValue_GetL value;
       (field_class, fwd, s) \<leftarrow> call_out (GetFieldType (lnk env) field) s;
       let reg = visit fwd reg;
       let obj = visit fwd obj;
       if field_class = 0 then None
       else if \<not> VerifierInstanceOf (lnk env) (heap s) reg field_class
       then map_option (\<lambda>(_, s). (False, s)) (call (Throw env InternalError) s)
       else Some (True, s\<lparr>heap := ArtField_Set (lnk env) kPrimNot (transaction_active env) obj field (ucast reg) (heap s)\<rparr>)
     } else do {
       raw \<leftarrow> JValue_raw field_type value;
       Some (True, s\<lparr>heap := ArtField_Set (lnk env) field_type (transaction_active env) obj field raw (heap s)\<rparr>)
     }
   }"

definition DoFieldPut :: "FindFieldType \<Rightarrow> PrimitiveType \<Rightarrow> 'h env \<Rightarrow> 'h istate \<Rightarrow> (bool \<times> 'h istate) option" where
  "DoFieldPut find_type field_type env s =
     (let i = cur env s;
          is_static = (find_type = StaticObjectWrite \<or> find_type = StaticPrimitiveWrite);
          field_idx = (if is_static then VRegB_21c i else VRegC_22c i)
      in do {
        (f, s) \<leftarrow> call (FindFieldFromCode (lnk env) find_type (do_access_check env) field_idx (ComponentSize field_type)) s;
        case f of
          None \<Rightarrow> if exception s = 0 then None else Some (False, s)
        | Some field \<Rightarrow> do {
            obj \<leftarrow> (if is_static then Some (GetDeclaringClass (lnk env) (heap s) field)
                   else GetVRegReference (frame s) (unat (VRegB_22c (i 0))));
            if \<not> is_static \<and> obj = 0
            then map_option (\<lambda>(_, s). (False, s)) (call (Throw env (NullPointerForField field False)) s)
            else do {
              value \<leftarrow> GetFieldValue field_type (frame s) (unat (if is_static then VRegA_21c (i 0) else VRegA_22c (i 0)));
              DoFieldPutCommon field_type env obj field value s
            }
          }
      })"

definition DoIPutQuick :: "PrimitiveType \<Rightarrow> 'h env \<Rightarrow> 'h istate \<Rightarrow> (bool \<times> 'h istate) option" where
  "DoIPutQuick field_type env s =
     (let i = cur env s; field_offset = VRegC_22c i; vregA = unat (VRegA_22c (i 0))
      in do {
        obj \<leftarrow> GetVRegReference (frame s) (unat (VRegB_22c (i 0)));
        if obj = 0 then map_option (\<lambda>(_, s). (False, s)) (call (Throw env NullPointer) s)
        else do {
          (obj, threw, s) \<leftarrow>
            (if HasFieldWriteListeners (instr env) (heap s)
             then do {
               field_value \<leftarrow> GetFieldValue field_type (frame s) vregA;
               map_option (\<lambda>(_, fwd, s). (visit fwd obj, exception s \<noteq> 0, s))
                 (call_out (FieldWriteEvent (instr env) obj (GetDexPC (frame s))
                    (FindInstanceFieldWithOffset (lnk env) (heap s) (GetClass (lnk env) (heap s) obj) field_offset) field_value) s)
             } else Some (obj, False, s));
          if threw then Some (False, s)
          else do {
            value \<leftarrow> GetFieldValue field_type (frame s) vregA;
            raw \<leftarrow> JValue_raw field_type value;
            Some (True, s\<lparr>heap := SetField (lnk env) field_type (transaction_active env) obj field_offset raw (heap s)\<rparr>)
          }
        }
      })"

section \<open>Calls\<close>

text \<open>The result of \<open>StringFactory\<close> replaces every alias of the string under construction, from register \<open>i\<close> on.\<close>

function SetStringInit_loop :: "ref \<Rightarrow> ref \<Rightarrow> nat \<Rightarrow> nat \<Rightarrow> ShadowFrame \<Rightarrow> ShadowFrame option" where
  "SetStringInit_loop existing result i e f =
     (if i < e then do {
        ref \<leftarrow> GetVRegReference f i;
        f \<leftarrow> (if ref = existing then SetVRegReference f i result else Some f);
        SetStringInit_loop existing result (i + 1) e f
      } else Some f)"
  by pat_completeness auto
termination
  by (relation "measure (\<lambda>(x, r, i, e, f). e - i)") auto

declare SetStringInit_loop.simps [simp del]

definition SetStringInitValueToAllAliases :: "ShadowFrame \<Rightarrow> nat \<Rightarrow> JValue \<Rightarrow> ShadowFrame option" where
  "SetStringInitValueToAllAliases f this_obj_vreg result = do {
     existing \<leftarrow> GetVRegReference f this_obj_vreg;
     if existing = 0 then SetVRegReference f this_obj_vreg (JValue_GetL result)
     else SetStringInit_loop existing (JValue_GetL result) 0 (number_of_vregs f) f
   }"

function CopyRegisters_loop :: "ShadowFrame \<Rightarrow> (nat \<Rightarrow> nat option) \<Rightarrow> nat \<Rightarrow> nat \<Rightarrow> nat \<Rightarrow> ShadowFrame \<Rightarrow> ShadowFrame option" where
  "CopyRegisters_loop caller_frame src_reg first_dest_reg arg_index num_regs callee_frame =
     (if arg_index < num_regs then do {
        r \<leftarrow> src_reg arg_index;
        callee_frame \<leftarrow> AssignRegister callee_frame caller_frame (first_dest_reg + arg_index) r;
        CopyRegisters_loop caller_frame src_reg first_dest_reg (arg_index + 1) num_regs callee_frame
      } else Some callee_frame)"
  by pat_completeness auto
termination
  by (relation "measure (\<lambda>(c, r, d, i, n, f). n - i)") auto

declare CopyRegisters_loop.simps [simp del]

text \<open>Where the argument with index \<open>i\<close> comes from.\<close>

definition arg_reg :: "bool \<Rightarrow> u32 list \<Rightarrow> nat \<Rightarrow> nat \<Rightarrow> nat option" where
  "arg_reg is_range arg vregC i = (if is_range then Some (vregC + i) else arg_at arg i)"

definition CopyRegisters :: "bool \<Rightarrow> ShadowFrame \<Rightarrow> ShadowFrame \<Rightarrow> u32 list \<Rightarrow> nat \<Rightarrow> nat \<Rightarrow> nat \<Rightarrow> ShadowFrame option" where
  "CopyRegisters is_range caller_frame callee_frame arg first_src_reg first_dest_reg num_regs =
     CopyRegisters_loop caller_frame (arg_reg is_range arg first_src_reg) first_dest_reg 0 num_regs callee_frame"

text \<open>The arguments with assignability checks.  Loading a class may suspend the thread; the frame under construction
  is then visited like the caller's.  \<open>False\<close> is that an exception is pending.\<close>

function CheckedArguments_loop ::
    "'h env \<Rightarrow> nat \<Rightarrow> (nat \<Rightarrow> nat option) \<Rightarrow> nat \<Rightarrow> nat \<Rightarrow> nat \<Rightarrow> nat \<Rightarrow> ShadowFrame \<Rightarrow> 'h istate
      \<Rightarrow> (bool \<times> ShadowFrame \<times> 'h istate) option" where
  "CheckedArguments_loop env method src_reg num_regs shorty_pos dest_reg arg_offset f s =
     (if dest_reg < num_regs then
        if shorty_pos + 1 < length (GetShorty (cal env) method) then do {
          r \<leftarrow> src_reg arg_offset;
          let c = GetShorty (cal env) method ! (shorty_pos + 1);
          if c = CHR ''L'' then do {
            ref \<leftarrow> GetVRegReference (frame s) r;
            (ok, ref, f, s) \<leftarrow>
              (if ref \<noteq> 0 then do {
                 (arg_type, fwd, s) \<leftarrow> call_out (ResolveParameterType (cal env) method shorty_pos) s;
                 f \<leftarrow> VisitShadowFrame fwd f;
                 let ref = visit fwd ref;
                 if arg_type = 0 then if exception s = 0 then None else Some (False, ref, f, s)
                 else if \<not> VerifierInstanceOf (lnk env) (heap s) ref arg_type
                 then map_option (\<lambda>(_, s). (False, ref, f, s)) (call (Throw env InternalError) s)
                 else Some (True, ref, f, s)
               } else Some (True, ref, f, s));
            if ok then do {
              f \<leftarrow> SetVRegReference f dest_reg ref;
              CheckedArguments_loop env method src_reg num_regs (shorty_pos + 1) (dest_reg + 1) (arg_offset + 1) f s
            } else Some (False, f, s)
          }
          else if c = CHR ''J'' \<or> c = CHR ''D'' then do {
            hi \<leftarrow> GetVReg (frame s) (r + 1);
            lo \<leftarrow> GetVReg (frame s) r;
            f \<leftarrow> SetVRegLong f dest_reg (push_bit 32 (ucast hi) OR ucast lo);
            CheckedArguments_loop env method src_reg num_regs (shorty_pos + 1) (dest_reg + 2) (arg_offset + 2) f s
          }
          else do {
            v \<leftarrow> GetVReg (frame s) r;
            f \<leftarrow> SetVReg f dest_reg v;
            CheckedArguments_loop env method src_reg num_regs (shorty_pos + 1) (dest_reg + 1) (arg_offset + 1) f s
          }
        } else None
      else Some (True, f, s))"
  by pat_completeness auto
termination
  by (relation "measure (\<lambda>(env, m, r, n, p, d, a, f, s). n - d)") auto

declare CheckedArguments_loop.simps [simp del]

definition CheckedArguments ::
    "'h env \<Rightarrow> nat \<Rightarrow> (nat \<Rightarrow> nat option) \<Rightarrow> nat \<Rightarrow> nat \<Rightarrow> ShadowFrame \<Rightarrow> 'h istate \<Rightarrow> (bool \<times> ShadowFrame \<times> 'h istate) option" where
  "CheckedArguments env method src_reg num_regs first_dest_reg f s =
     (if IsStaticMethod (cal env) method
      then CheckedArguments_loop env method src_reg num_regs 0 first_dest_reg 0 f s
      else do {
        receiver_reg \<leftarrow> src_reg 0;
        receiver \<leftarrow> GetVRegReference (frame s) receiver_reg;
        f \<leftarrow> SetVRegReference f first_dest_reg receiver;
        CheckedArguments_loop env method src_reg num_regs 0 (first_dest_reg + 1) 1 f s
      })"

definition DoCallCommon ::
    "bool \<Rightarrow> bool \<Rightarrow> 'h env \<Rightarrow> nat \<Rightarrow> u16 \<Rightarrow> u32 list \<Rightarrow> nat \<Rightarrow> 'h istate \<Rightarrow> (bool \<times> 'h istate) option" where
  "DoCallCommon is_range do_assignability_check env called_method number_of_inputs arg vregC s =
     (let string_init = IsStringConstructor (cal env) called_method;
          called_method = (if string_init then StringInitToStringFactory (cal env) called_method else called_method);
          code_item = GetCodeItem_registers_size (cal env) called_method;
          use_interpreter_entrypoint = UseInterpreterEntrypoint (cal env) (heap s) called_method;
          num_regs = (case code_item of Some registers_size \<Rightarrow> if \<not> use_interpreter_entrypoint then number_of_inputs else registers_size
                      | None \<Rightarrow> number_of_inputs);
          num_regs = (if string_init \<and> code_item = None then num_regs - 1 else num_regs);
          number_of_inputs = (if string_init then number_of_inputs - 1 else number_of_inputs)
      in do {
        string_init_vreg_this \<leftarrow> arg_reg is_range arg vregC 0;
        let arg = (if string_init then tl arg @ [0] else arg);
        let vregC = (if string_init then vregC + 1 else vregC);
        if unat num_regs < unat number_of_inputs then None
        else do {
          let first_dest_reg = unat num_regs - unat number_of_inputs;
          let new_shadow_frame = ShadowFrame_new (unat num_regs) called_method 0;
          (ok, new_shadow_frame, s) \<leftarrow>
            (if do_assignability_check
             then CheckedArguments env called_method (arg_reg is_range arg vregC) (unat num_regs) first_dest_reg new_shadow_frame s
             else map_option (\<lambda>f. (True, f, s))
               (CopyRegisters is_range (frame s) new_shadow_frame arg vregC first_dest_reg (unat number_of_inputs)));
          if \<not> ok then Some (False, s)
          else do {
            (result, s) \<leftarrow> call (PerformCall (cal env) (sf_method (frame s)) first_dest_reg new_shadow_frame (result_register s)
              use_interpreter_entrypoint) s;
            fr \<leftarrow> (if string_init \<and> exception s = 0 then SetStringInitValueToAllAliases (frame s) string_init_vreg_this result
                   else Some (frame s));
            Some (exception s = 0, s\<lparr>frame := fr, result_register := result\<rparr>)
          }
        }
      })"

definition DoCall :: "bool \<Rightarrow> bool \<Rightarrow> 'h env \<Rightarrow> nat \<Rightarrow> 'h istate \<Rightarrow> (bool \<times> 'h istate) option" where
  "DoCall is_range do_assignability_check env called_method s =
     (let i = cur env s;
          number_of_inputs = ucast (if is_range then VRegA_3rc (i 0) else VRegA_35c (i 0));
          arg = (if is_range then replicate 5 0 else GetVarArgs i (i 0) (replicate 5 0));
          vregC = (if is_range then unat (VRegC_3rc i) else unat (VRegC_35c i))
      in DoCallCommon is_range do_assignability_check env called_method number_of_inputs arg vregC s)"

text \<open>The end that the invocations share: fail, or report to the compiler and call.\<close>

definition invoke_method :: "bool \<Rightarrow> bool \<Rightarrow> bool \<Rightarrow> 'h env \<Rightarrow> nat option \<Rightarrow> ref \<Rightarrow> 'h istate \<Rightarrow> (bool \<times> 'h istate) option" where
  "invoke_method is_virtual is_range do_check env called_method receiver s =
     (case called_method of
        None \<Rightarrow> if exception s = 0 then None else Some (False, s\<lparr>result_register := 0\<rparr>)
      | Some m \<Rightarrow>
          if \<not> IsInvokable (cal env) (heap s) m
          then map_option (\<lambda>(_, s). (False, s\<lparr>result_register := 0\<rparr>)) (call (Throw env (InvocationTimeError m)) s)
          else do {
            s \<leftarrow> (if jit env then
                let s = (if is_virtual then s\<lparr>heap := JitInvokeVirtualOrInterface (cal env) receiver (GetDexPC (frame s)) m (heap s)\<rparr> else s)
                in map_option snd (call (AddSamples env False) s)
              else Some s);
            s \<leftarrow> (if is_virtual \<and> HasInvokeVirtualOrInterfaceListeners (instr env) (heap s)
                  then map_option snd (call (InvokeVirtualOrInterface (instr env) receiver (GetDexPC (frame s)) m) s) else Some s);
            DoCall is_range do_check env m s
          })"

definition DoInvoke :: "InvokeType \<Rightarrow> bool \<Rightarrow> 'h env \<Rightarrow> 'h istate \<Rightarrow> (bool \<times> 'h istate) option" where
  "DoInvoke type is_range env s =
     (let i = cur env s;
          method_idx = (if is_range then VRegB_3rc i else VRegB_35c i);
          vregC = (if is_range then unat (VRegC_3rc i) else unat (VRegC_35c i))
      in do {
        receiver \<leftarrow> (if type = kStatic then Some 0 else GetVRegReference (frame s) vregC);
        ((called_method, receiver), s) \<leftarrow> call (FindMethodFromCode (cal env) type (do_access_check env) method_idx receiver) s;
        invoke_method (type = kVirtual \<or> type = kInterface) is_range (do_access_check env) env called_method receiver s
      })"

definition DoInvokeVirtualQuick :: "bool \<Rightarrow> 'h env \<Rightarrow> 'h istate \<Rightarrow> (bool \<times> 'h istate) option" where
  "DoInvokeVirtualQuick is_range env s =
     (let i = cur env s;
          vregC = (if is_range then unat (VRegC_3rc i) else unat (VRegC_35c i));
          vtable_idx = (if is_range then VRegB_3rc i else VRegB_35c i)
      in do {
        receiver \<leftarrow> GetVRegReference (frame s) vregC;
        if receiver = 0 then map_option (\<lambda>(_, s). (False, s)) (call (Throw env NullPointer) s)
        else invoke_method True is_range False env
          (GetEmbeddedVTableEntry (cal env) (heap s) (GetClass (lnk env) (heap s) receiver) vtable_idx) receiver s
      })"

end
