(* ===== verification/Interpreter_Float.thy ===== *)
theory Interpreter_Float
  imports Interpreter_Ops Complex_Main
begin

text \<open>
  The conversions of the interpreter from floating point numbers to integers, against the value that a bit pattern of
  IEEE 754 stands for.
\<close>

section \<open>The value of a floating point number\<close>

definition fsign :: "'f::len word \<Rightarrow> bool" where
  "fsign x \<longleftrightarrow> bit x (LENGTH('f) - 1)"

text \<open>The significand and the exponent of a finite number with \<open>p\<close> fraction bits.\<close>

definition fsignificand :: "nat \<Rightarrow> nat \<Rightarrow> nat" where
  "fsignificand p m = (if m < 2 ^ p then m else m mod 2 ^ p + 2 ^ p)"

definition fexponent :: "nat \<Rightarrow> nat \<Rightarrow> nat" where
  "fexponent p m = (if m < 2 ^ p then 1 else m div 2 ^ p)"

definition fvalue :: "nat \<Rightarrow> nat \<Rightarrow> 'f::len word \<Rightarrow> real" where
  "fvalue p bias x = (let m = unat (fmagnitude x) in
     (if fsign x then -1 else 1) * (real (fsignificand p m) * 2 powi (int (fexponent p m) - int bias)))"

definition round_to_zero :: "real \<Rightarrow> int" where
  "round_to_zero r = (if 0 \<le> r then \<lfloor>r\<rfloor> else \<lceil>r\<rceil>)"

text \<open>The narrowing conversion of the Java language to an integer type of \<open>w\<close> bits: NaN is zero, and what does not fit is
  the smallest or the largest value.\<close>

definition java_narrow :: "nat \<Rightarrow> 'f::len word \<Rightarrow> nat \<Rightarrow> nat \<Rightarrow> 'f word \<Rightarrow> int" where
  "java_narrow w infinity p bias x =
     (if fnan infinity x then 0
      else if fmagnitude x = infinity then if fsign x then - (2 ^ (w - 1)) else 2 ^ (w - 1) - 1
      else max (- (2 ^ (w - 1))) (min (2 ^ (w - 1) - 1) (round_to_zero (fvalue p bias x))))"

section \<open>Truncation on the bits\<close>

definition ftrunc_magnitude :: "nat \<Rightarrow> nat \<Rightarrow> nat \<Rightarrow> nat" where
  "ftrunc_magnitude p bias m =
     (if fexponent p m < bias then fsignificand p m div 2 ^ (bias - fexponent p m) else fsignificand p m * 2 ^ (fexponent p m - bias))"

text \<open>Scaled by a common power of two, truncation divides a monotone function of the bits.\<close>

definition fscaled :: "nat \<Rightarrow> nat \<Rightarrow> nat" where
  "fscaled p m = fsignificand p m * 2 ^ (fexponent p m - 1)"

lemma fexponent_pos: "1 \<le> fexponent p m"
  by (auto simp: fexponent_def Suc_le_eq div_greater_zero_iff)

lemma fscaled_Suc: "fscaled p m \<le> fscaled p (Suc m)"
proof (cases "Suc (m mod 2 ^ p) = 2 ^ p")
  case True
  then have d: "Suc m div 2 ^ p = Suc (m div 2 ^ p)" "Suc m mod 2 ^ p = 0" "2 ^ p \<le> Suc m"
    by (auto simp: div_Suc mod_Suc) (metis Suc_le_mono mod_less_eq_dividend)
  then show ?thesis
  proof (cases "m < 2 ^ p")
    case False
    then obtain k where k: "m div 2 ^ p = Suc k" by (metis div_greater_zero_iff gr0_implies_Suc not_less zero_less_numeral zero_less_power)
    have "(m mod 2 ^ p + 2 ^ p) * 2 ^ k \<le> (2 * 2 ^ p) * (2 ^ k :: nat)" using True by (intro mult_right_mono) linarith+
    then show ?thesis using False d k by (simp add: fscaled_def fsignificand_def fexponent_def mult.assoc)
  qed (use True in \<open>simp add: fscaled_def fsignificand_def fexponent_def\<close>)
next
  case False
  then have d: "Suc m div 2 ^ p = m div 2 ^ p" "Suc m mod 2 ^ p = Suc (m mod 2 ^ p)" by (auto simp: div_Suc mod_Suc)
  have "m < 2 ^ p \<longleftrightarrow> Suc m < 2 ^ p" using False d(1)
    by (metis Suc_lessI div_less lessI less_trans mod_less)
  then show ?thesis using d by (auto simp: fscaled_def fsignificand_def fexponent_def)
qed

lemma ftrunc_magnitude_scaled: "1 \<le> bias \<Longrightarrow> ftrunc_magnitude p bias m = fscaled p m div 2 ^ (bias - 1)"
proof -
  assume b: "1 \<le> bias"
  let ?e = "fexponent p m" and ?s = "fsignificand p m"
  have e: "1 \<le> ?e" by (rule fexponent_pos)
  show ?thesis
  proof (cases "?e < bias")
    case True
    then have "2 ^ (bias - 1) = 2 ^ (?e - 1) * (2 ^ (bias - ?e) :: nat)" using e by (simp flip: power_add)
    then show ?thesis using True by (simp add: ftrunc_magnitude_def fscaled_def mult.commute[of ?s])
  next
    case False
    then have "2 ^ (?e - 1) = 2 ^ (bias - 1) * (2 ^ (?e - bias) :: nat)" using b by (simp flip: power_add)
    then show ?thesis using False by (simp add: ftrunc_magnitude_def fscaled_def mult.left_commute)
  qed
qed

lemma ftrunc_magnitude_mono: "1 \<le> bias \<Longrightarrow> m \<le> m' \<Longrightarrow> ftrunc_magnitude p bias m \<le> ftrunc_magnitude p bias m'"
  by (simp only: ftrunc_magnitude_scaled div_le_mono lift_Suc_mono_le[of "fscaled p", OF fscaled_Suc])

lemma ftrunc_eq:
  fixes x :: "'f::len word"
  assumes "p < LENGTH('f) - 1"
  shows "ftrunc p (int bias) x = (if fsign x then -1 else 1) * int (ftrunc_magnitude p bias (unat (fmagnitude x)))"
proof -
  define m where "m = unat (fmagnitude x)"
  have d: "uint (drop_bit p (fmagnitude x)) = int (m div 2 ^ p)"
    by (simp only: unsigned_drop_bit_eq) (simp add: m_def drop_bit_eq_div zdiv_int take_bit_int_eq_self)
  have "take_bit p x = take_bit p (fmagnitude x)" using assms by (auto simp: fmagnitude_def min_def not_less)
  then have t: "uint (take_bit p x) = int (m mod 2 ^ p)"
    by (simp only: unsigned_take_bit_eq) (simp add: m_def take_bit_eq_mod zmod_int)
  have z: "int (m div 2 ^ p) = 0 \<longleftrightarrow> m < 2 ^ p" by (simp add: div_eq_0_iff)
  have e: "(if int (m div 2 ^ p) = 0 then 1 else int (m div 2 ^ p)) = int (fexponent p m)"
    and s: "int (m mod 2 ^ p) + (if int (m div 2 ^ p) = 0 then 0 else 2 ^ p) = int (fsignificand p m)"
    unfolding z by (simp_all add: fexponent_def fsignificand_def)
  have "nat (- (int (fexponent p m) - int bias)) = bias - fexponent p m" "nat (int (fexponent p m) - int bias) = fexponent p m - bias"
    by linarith+
  then have "(if int (fexponent p m) - int bias < 0 then int (fsignificand p m) div 2 ^ nat (- (int (fexponent p m) - int bias))
      else int (fsignificand p m) * 2 ^ nat (int (fexponent p m) - int bias)) = int (ftrunc_magnitude p bias m)"
    by (simp add: ftrunc_magnitude_def of_nat_div)
  then show ?thesis unfolding ftrunc_def Let_def d t e s fsign_def m_def[symmetric] by simp
qed

lemma round_to_zero_fvalue: "round_to_zero (fvalue p bias x) = (if fsign x then -1 else 1) * int (ftrunc_magnitude p bias (unat (fmagnitude x)))"
proof -
  define m where "m = unat (fmagnitude x)"
  define r where "r = real (fsignificand p m) * 2 powi (int (fexponent p m) - int bias)"
  have "\<lfloor>r\<rfloor> = int (ftrunc_magnitude p bias m)"
  proof (cases "fexponent p m < bias")
    case True
    then have "nat (- (int (fexponent p m) - int bias)) = bias - fexponent p m" by linarith
    then have "r = real (fsignificand p m) / real (2 ^ (bias - fexponent p m))"
      using True by (simp add: r_def power_int_def power_divide inverse_eq_divide)
    then show ?thesis using True by (simp only: floor_divide_of_nat_eq ftrunc_magnitude_def if_True)
  next
    case False
    then have "nat (int (fexponent p m) - int bias) = fexponent p m - bias" by linarith
    then have "r = real (fsignificand p m * 2 ^ (fexponent p m - bias))" using False by (simp add: r_def power_int_def)
    then show ?thesis using False by (simp only: floor_of_nat ftrunc_magnitude_def if_False)
  qed
  moreover have "0 \<le> r" by (simp add: r_def)
  moreover have "fvalue p bias x = (if fsign x then - r else r)" by (simp add: fvalue_def Let_def r_def m_def)
  ultimately show ?thesis by (auto simp: round_to_zero_def ceiling_minus m_def)
qed

section \<open>The conversion\<close>

lemma fkey_eq: "fkey x = (if fsign x then -1 else 1) * int (unat (fmagnitude x))"
  by (simp add: fkey_def fsign_def)

lemma art_float_to_integral_java:
  fixes infinity lo hi x :: "'f::len word"
  assumes p: "p < LENGTH('f) - 1" "1 \<le> bias"
    and lo: "\<not> fnan infinity lo" "fsign lo" "unat (fmagnitude lo) = k" "k \<le> unat infinity" "k = Suc k'"
    and hi: "\<not> fnan infinity hi" "\<not> fsign hi" "unat (fmagnitude hi) = l" "l \<le> unat infinity" "l = Suc l'"
    and bounds: "int (ftrunc_magnitude p bias k') \<le> 2 ^ (LENGTH('i) - 1)" "2 ^ (LENGTH('i) - 1) \<le> int (ftrunc_magnitude p bias k)"
      "int (ftrunc_magnitude p bias l') \<le> 2 ^ (LENGTH('i) - 1) - 1" "2 ^ (LENGTH('i) - 1) - 1 \<le> int (ftrunc_magnitude p bias l)"
  shows "(art_float_to_integral infinity (ftrunc p (int bias)) lo hi x :: 'i::len word)
    = word_of_int (java_narrow (LENGTH('i)) infinity p bias x)"
proof -
  define m where "m = unat (fmagnitude x)"
  define B :: int where "B = 2 ^ (LENGTH('i) - 1)"
  have "0 < B" by (simp add: B_def)
  note mono = ftrunc_magnitude_mono[OF p(2), of _ _ p] and bounds = bounds[folded B_def]
  have trunc: "ftrunc p (int bias) x = (if fsign x then -1 else 1) * int (ftrunc_magnitude p bias m)"
    by (simp add: ftrunc_eq[OF p(1)] m_def)
  have inf: "fmagnitude x = infinity \<longleftrightarrow> m = unat infinity" using unsigned_word_eqI[where ?'a = nat, of "fmagnitude x" infinity] by (auto simp: m_def)
  have key: "fkey x = (if fsign x then -1 else 1) * int m" "fkey lo = - int k" "fkey hi = int l"
    using lo hi by (simp_all add: fkey_eq m_def)
  have java: "java_narrow (LENGTH('i)) infinity p bias x =
      (if fnan infinity x then 0 else if m = unat infinity then if fsign x then - B else B - 1
       else max (- B) (min (B - 1) ((if fsign x then -1 else 1) * int (ftrunc_magnitude p bias m))))"
    by (simp add: java_narrow_def round_to_zero_fvalue inf B_def m_def)
  have art: "(art_float_to_integral infinity (ftrunc p (int bias)) lo hi x :: 'i word) =
      word_of_int (if fnan infinity x then 0 else if - int k < fkey x then if fkey x < int l
        then (if fsign x then -1 else 1) * int (ftrunc_magnitude p bias m) else B - 1 else - B)"
    unfolding art_float_to_integral_def trunc B_def fless_def fequal_def using lo(1) hi(1) key by simp
  consider "fsign x" "k \<le> m" | "fsign x" "m \<le> k'" | "\<not> fsign x" "m \<le> l'" | "\<not> fsign x" "l \<le> m" using lo(5) hi(5) by linarith
  then show ?thesis
  proof cases
    case 1
    show ?thesis unfolding art java key by (rule arg_cong[of _ _ word_of_int]) (use 1 bounds(2) mono[of k m] \<open>0 < B\<close> in auto)
  next
    case 2
    show ?thesis unfolding art java key by (rule arg_cong[of _ _ word_of_int]) (use 2 bounds(1) mono[of m k'] lo(4,5) hi(5) \<open>0 < B\<close> in auto)
  next
    case 3
    show ?thesis unfolding art java key by (rule arg_cong[of _ _ word_of_int]) (use 3 bounds(3) mono[of m l'] lo(5) hi(4,5) \<open>0 < B\<close> in auto)
  next
    case 4
    show ?thesis unfolding art java key by (rule arg_cong[of _ _ word_of_int]) (use 4 bounds(4) mono[of l m] lo(5) \<open>0 < B\<close> in auto)
  qed
qed

text \<open>C25: The four conversions from floating point to integers give what the Java language prescribes for every bit pattern:
  the value cut to an integer, the nearest end of the range for values outside it, infinities included, and zero for NaN.\<close>

theorem float_to_integral_java:
  "float_to_int x = word_of_int (java_narrow 32 inf32 23 150 x) \<and> float_to_long x = word_of_int (java_narrow 64 inf32 23 150 x)
   \<and> double_to_int y = word_of_int (java_narrow 32 inf64 52 1075 y) \<and> double_to_long y = word_of_int (java_narrow 64 inf64 52 1075 y)"
proof -
  note simps = fnan_def fsign_def fmagnitude_def ftrunc_magnitude_def fexponent_def fsignificand_def
  have "float_to_int x = word_of_int (java_narrow LENGTH(32) inf32 23 150 x)"
    unfolding float_to_int_def of_nat_numeral[symmetric, where ?'a = int]
    by (rule art_float_to_integral_java[where k = "0x4f000000" and k' = "0x4effffff" and l = "0x4f000000" and l' = "0x4effffff"]) (simp_all add: simps)
  moreover have "float_to_long x = word_of_int (java_narrow LENGTH(64) inf32 23 150 x)"
    unfolding float_to_long_def of_nat_numeral[symmetric, where ?'a = int]
    by (rule art_float_to_integral_java[where k = "0x5f000000" and k' = "0x5effffff" and l = "0x5f000000" and l' = "0x5effffff"]) (simp_all add: simps)
  moreover have "double_to_int y = word_of_int (java_narrow LENGTH(32) inf64 52 1075 y)"
    unfolding double_to_int_def of_nat_numeral[symmetric, where ?'a = int]
    by (rule art_float_to_integral_java[where k = "0x41e0000000000000" and k' = "0x41dfffffffffffff" and l = "0x41dfffffffc00000" and l' = "0x41dfffffffbfffff"])
      (simp_all add: simps)
  moreover have "double_to_long y = word_of_int (java_narrow LENGTH(64) inf64 52 1075 y)"
    unfolding double_to_long_def of_nat_numeral[symmetric, where ?'a = int]
    by (rule art_float_to_integral_java[where k = "0x43e0000000000000" and k' = "0x43dfffffffffffff" and l = "0x43e0000000000000" and l' = "0x43dfffffffffffff"])
      (simp_all add: simps)
  ultimately show ?thesis by simp
qed

end
