(* ===== verification/Code_Item.thy ===== *)
theory Code_Item
  imports Leb128
begin

text \<open>
  Code items: the raw \<open>CodeItem\<close> and \<open>TryItem\<close> structures of \<open>dex_file.h\<close>, read from the bytes
  of the mapped dex file, the search for the try item that covers an address, the iterator over the catch handlers of a try
  item, and the size of a code item (\<open>dex_file.cc\<close>, \<open>dex_file-inl.h\<close>).  The theorems say what the
  search and the iterator find.
\<close>

section \<open>Raw structures\<close>

definition Load16 :: "memory \<Rightarrow> nat \<Rightarrow> u16" where
  "Load16 m p = ucast (m p) OR push_bit 8 (ucast (m (p + 1)))"

definition Load32 :: "memory \<Rightarrow> nat \<Rightarrow> u32" where
  "Load32 m p = ucast (Load16 m p) OR push_bit 16 (ucast (Load16 m (p + 2)))"

text \<open>A code item is its address in the mapped file.\<close>

record CodeItem =
  file_bytes :: memory
  item_at :: nat

definition registers_size :: "CodeItem \<Rightarrow> u16" where
  "registers_size code_item = Load16 (file_bytes code_item) (item_at code_item)"

definition ins_size :: "CodeItem \<Rightarrow> u16" where
  "ins_size code_item = Load16 (file_bytes code_item) (item_at code_item + 2)"

definition outs_size :: "CodeItem \<Rightarrow> u16" where
  "outs_size code_item = Load16 (file_bytes code_item) (item_at code_item + 4)"

definition tries_size :: "CodeItem \<Rightarrow> u16" where
  "tries_size code_item = Load16 (file_bytes code_item) (item_at code_item + 6)"

definition insns_size_in_code_units :: "CodeItem \<Rightarrow> u32" where
  "insns_size_in_code_units code_item = Load32 (file_bytes code_item) (item_at code_item + 12)"

definition insns_address :: "CodeItem \<Rightarrow> nat \<Rightarrow> nat" where
  "insns_address code_item i = item_at code_item + 16 + 2 * i"

definition code_insns :: "CodeItem \<Rightarrow> nat \<Rightarrow> u16" where
  "code_insns code_item i = Load16 (file_bytes code_item) (insns_address code_item i)"

record TryItem =
  start_addr :: u32
  insn_count :: u16
  handler_off :: u16

definition Load_TryItem :: "memory \<Rightarrow> nat \<Rightarrow> TryItem" where
  "Load_TryItem m p = \<lparr>start_addr = Load32 m p, insn_count = Load16 m (p + 4), handler_off = Load16 m (p + 6)\<rparr>"

definition GetTryItems :: "CodeItem \<Rightarrow> nat \<Rightarrow> nat" where
  "GetTryItems code_item offset =
     (let insns_end = insns_address code_item (unat (insns_size_in_code_units code_item))
      in (insns_end + 3) div 4 * 4 + 8 * offset)"

definition GetCatchHandlerData :: "CodeItem \<Rightarrow> nat \<Rightarrow> nat" where
  "GetCatchHandlerData code_item offset = GetTryItems code_item (unat (tries_size code_item)) + offset"

definition try_item :: "CodeItem \<Rightarrow> nat \<Rightarrow> TryItem" where
  "try_item code_item i = Load_TryItem (file_bytes code_item) (GetTryItems code_item i)"

section \<open>Finding a try item\<close>

text \<open>The bounds are \<open>int32_t\<close> and stay between -1 and 65535.\<close>

function FindTryItem_loop :: "CodeItem \<Rightarrow> u32 \<Rightarrow> int \<Rightarrow> int \<Rightarrow> int" where
  "FindTryItem_loop code_item address lo hi =
     (if lo \<le> hi then
        let mid = lo + (hi - lo) div 2;
            ti = try_item code_item (nat mid);
            start = start_addr ti;
            end_addr = start + ucast (insn_count ti)
        in if address < start then FindTryItem_loop code_item address lo (mid - 1)
           else if end_addr \<le> address then FindTryItem_loop code_item address (mid + 1) hi
           else mid
      else -1)"
  by pat_completeness auto
termination
  by (relation "measure (\<lambda>(_, _, lo, hi). nat (hi - lo + 1))") auto

declare FindTryItem_loop.simps [simp del]

definition FindTryItem :: "CodeItem \<Rightarrow> u32 \<Rightarrow> int" where
  "FindTryItem code_item address = FindTryItem_loop code_item address 0 (uint (tries_size code_item) - 1)"

definition FindCatchHandlerOffset :: "CodeItem \<Rightarrow> u32 \<Rightarrow> int" where
  "FindCatchHandlerOffset code_item address =
     (let item = FindTryItem code_item address
      in if item = -1 then -1 else uint (handler_off (try_item code_item (nat item))))"

section \<open>Iterating over catch handlers\<close>

text \<open>\<open>remaining_count\<close> is an \<open>int32_t\<close>; \<open>current_data\<close> is 0 for the null pointer.\<close>

record CatchHandlerIterator =
  handler_type_idx :: u16
  handler_address :: u32
  current_data :: nat
  remaining_count :: u32
  has_catch_all :: bool

definition kDexNoIndex16 :: u16 where
  "kDexNoIndex16 = 0xffff"

definition HasNext :: "CatchHandlerIterator \<Rightarrow> bool" where
  "HasNext it \<longleftrightarrow> remaining_count it \<noteq> -1 \<or> has_catch_all it"

definition Next :: "memory \<Rightarrow> CatchHandlerIterator \<Rightarrow> CatchHandlerIterator" where
  "Next m it =
     (if 0 < sint (remaining_count it) then
        let (idx, p) = DecodeUnsignedLeb128 m (current_data it);
            (addr, p) = DecodeUnsignedLeb128 m p
        in it\<lparr>handler_type_idx := ucast idx, handler_address := addr, current_data := p, remaining_count := remaining_count it - 1\<rparr>
      else if has_catch_all it then
        let (addr, p) = DecodeUnsignedLeb128 m (current_data it)
        in it\<lparr>handler_type_idx := kDexNoIndex16, handler_address := addr, current_data := p, has_catch_all := False\<rparr>
      else it\<lparr>remaining_count := -1\<rparr>)"

definition Init_data :: "memory \<Rightarrow> nat \<Rightarrow> CatchHandlerIterator \<Rightarrow> CatchHandlerIterator" where
  "Init_data m handler_data it =
     (let (n, p) = DecodeSignedLeb128 m handler_data;
          it = it\<lparr>current_data := p, remaining_count := n\<rparr>;
          it = (if sint n \<le> 0 then it\<lparr>has_catch_all := True, remaining_count := - n\<rparr> else it\<lparr>has_catch_all := False\<rparr>)
      in Next m it)"

definition Init_offset :: "CodeItem \<Rightarrow> int \<Rightarrow> CatchHandlerIterator \<Rightarrow> CatchHandlerIterator" where
  "Init_offset code_item offset it =
     (if 0 \<le> offset then Init_data (file_bytes code_item) (GetCatchHandlerData code_item (nat offset)) it
      else it\<lparr>current_data := 0, remaining_count := -1, has_catch_all := False\<rparr>)"

text \<open>The constructors leave no field without a value: \<open>Init\<close> sets all but the handler, and its call of
  \<open>Next\<close> reads the handler wherever the constructor has not set the address.\<close>

definition fresh_iterator :: CatchHandlerIterator where
  "fresh_iterator =
     \<lparr>handler_type_idx = 0xffff, handler_address = -1, current_data = 0, remaining_count = 0, has_catch_all = False\<rparr>"

definition CatchHandlerIterator_address :: "CodeItem \<Rightarrow> u32 \<Rightarrow> CatchHandlerIterator" where
  "CatchHandlerIterator_address code_item address =
     (let offset =
            (if tries_size code_item = 0 then -1
             else if tries_size code_item = 1 then
               let tries = try_item code_item 0; start = start_addr tries
               in if start \<le> address then
                    let end_addr = start + ucast (insn_count tries)
                    in if address < end_addr then uint (handler_off tries) else -1
                  else -1
             else FindCatchHandlerOffset code_item address)
      in Init_offset code_item offset fresh_iterator)"

definition CatchHandlerIterator_try :: "CodeItem \<Rightarrow> TryItem \<Rightarrow> CatchHandlerIterator" where
  "CatchHandlerIterator_try code_item item = Init_offset code_item (uint (handler_off item)) fresh_iterator"

definition CatchHandlerIterator_data :: "memory \<Rightarrow> nat \<Rightarrow> CatchHandlerIterator" where
  "CatchHandlerIterator_data m handler_data = Init_data m handler_data fresh_iterator"

definition EndDataPointer :: "CatchHandlerIterator \<Rightarrow> nat option" where
  "EndDataPointer it = (if HasNext it then None else Some (current_data it))"

text \<open>The iterations that are left.\<close>

definition iterations :: "CatchHandlerIterator \<Rightarrow> nat" where
  "iterations it = (if HasNext it then Suc (nat (sint (remaining_count it)) + of_bool (has_catch_all it)) else 0)"

lemma sint_pred: "0 < sint (n :: u32) \<Longrightarrow> sint (n - 1) = sint n - 1"
  using sint_range_size[of n] by (simp add: sint_word_ariths size_word.rep_eq signed_take_bit_int_eq_self)

lemma Next_fewer [termination_simp]: "HasNext it \<Longrightarrow> iterations (Next m it) < iterations it"
  by (auto simp: Next_def iterations_def HasNext_def sint_pred split: prod.split)

text \<open>The loop \<open>for (; it.HasNext(); it.Next())\<close>: the handlers it sees and the iterator it ends with.\<close>

function all_handlers :: "memory \<Rightarrow> CatchHandlerIterator \<Rightarrow> (u16 \<times> u32) list \<times> CatchHandlerIterator" where
  "all_handlers m it =
     (if HasNext it then
        let (hs, it') = all_handlers m (Next m it) in ((handler_type_idx it, handler_address it) # hs, it')
      else ([], it))"
  by pat_completeness auto
termination
  by (relation "measure (\<lambda>(_, it). iterations it)") (auto simp: Next_fewer)

declare all_handlers.simps [simp del]

section \<open>The size of a code item\<close>

primrec skip_unsigned :: "nat \<Rightarrow> memory \<Rightarrow> nat \<Rightarrow> nat" where
  "skip_unsigned 0 m p = p"
| "skip_unsigned (Suc n) m p = skip_unsigned n m (snd (DecodeUnsignedLeb128 m p))"

primrec skip_handlers :: "nat \<Rightarrow> memory \<Rightarrow> nat \<Rightarrow> nat" where
  "skip_handlers 0 m p = p"
| "skip_handlers (Suc n) m p =
     (let (count, p) = DecodeSignedLeb128 m p;
          uleb128_count = count * 2;
          uleb128_count = (if sint uleb128_count \<le> 0 then - uleb128_count + 1 else uleb128_count)
      in skip_handlers n m (skip_unsigned (nat (sint uleb128_count)) m p))"

definition GetCodeItemSize :: "CodeItem \<Rightarrow> u32" where
  "GetCodeItemSize code_item =
     (if tries_size code_item = 0
      then of_nat (insns_address code_item (unat (insns_size_in_code_units code_item)) - item_at code_item)
      else
        let m = file_bytes code_item;
            (handlers_size, handler_data) = DecodeUnsignedLeb128 m (GetCatchHandlerData code_item 0)
        in of_nat (skip_handlers (unat handlers_size) m handler_data - item_at code_item))"

section \<open>What the search finds\<close>

definition covers :: "TryItem \<Rightarrow> u32 \<Rightarrow> bool" where
  "covers ti address \<longleftrightarrow> start_addr ti \<le> address \<and> unat address < unat (start_addr ti) + unat (insn_count ti)"

text \<open>The try items of a code item are in order, do not overlap and do not reach behind the 32-bit address space.\<close>

definition tries_ordered :: "CodeItem \<Rightarrow> bool" where
  "tries_ordered code_item \<longleftrightarrow>
     (\<forall>i < unat (tries_size code_item).
        unat (start_addr (try_item code_item i)) + unat (insn_count (try_item code_item i)) < 2 ^ 32
      \<and> (Suc i < unat (tries_size code_item) \<longrightarrow>
           unat (start_addr (try_item code_item i)) + unat (insn_count (try_item code_item i))
             \<le> unat (start_addr (try_item code_item (Suc i)))))"

lemma unat_end_addr:
  assumes "unat (s :: u32) + unat (n :: u16) < 2 ^ 32"
  shows "unat (s + ucast n) = unat s + unat n"
  using assms by (simp add: unat_word_ariths unsigned_ucast_eq take_bit_nat_eq_self less_le_trans[OF unsigned_less])

lemma int_less_uint: "int i < uint (x :: 'a::len word) \<longleftrightarrow> i < unat x"
  by (metis of_nat_less_iff uint_nat)

lemma tries_ordered_less:
  assumes "tries_ordered ci" "i < j" "j < unat (tries_size ci)"
  shows "unat (start_addr (try_item ci i)) + unat (insn_count (try_item ci i)) \<le> unat (start_addr (try_item ci j))"
  using assms(2,3)
proof (induction j)
  case (Suc j)
  then show ?case using assms(1)[unfolded tries_ordered_def, rule_format, of j]
    by (cases "i = j") auto
qed simp

lemma covers_unique:
  "tries_ordered ci \<Longrightarrow> i < unat (tries_size ci) \<Longrightarrow> j < unat (tries_size ci)
    \<Longrightarrow> covers (try_item ci i) a \<Longrightarrow> covers (try_item ci j) a \<Longrightarrow> i = j"
  using tries_ordered_less[of ci i j] tries_ordered_less[of ci j i]
  by (cases i j rule: linorder_cases) (auto simp: covers_def word_le_nat_alt)

lemma FindTryItem_loop_finds:
  assumes "tries_ordered ci" "n = unat (tries_size ci)" "0 \<le> lo" "hi < int n"
  shows "(FindTryItem_loop ci a lo hi = -1 \<and> (\<forall>i. lo \<le> int i \<and> int i \<le> hi \<longrightarrow> \<not> covers (try_item ci i) a))
    \<or> (\<exists>i < n. FindTryItem_loop ci a lo hi = int i \<and> covers (try_item ci i) a)"
  using assms
proof (induction ci a lo hi rule: FindTryItem_loop.induct)
  case (1 ci a lo hi)
  note l = FindTryItem_loop.simps[of ci a lo hi]
  show ?case
  proof (cases "lo \<le> hi")
    case True
    define mid where "mid = nat (lo + (hi - lo) div 2)"
    have mid: "lo + (hi - lo) div 2 = int mid" "mid < n" "lo \<le> int mid" "int mid \<le> hi" using 1(5,6) True by (auto simp: mid_def)
    let ?ti = "try_item ci mid"
    have fit: "unat (start_addr ?ti + ucast (insn_count ?ti)) = unat (start_addr ?ti) + unat (insn_count ?ti)"
      using 1(3,4) mid(2) by (intro unat_end_addr) (simp add: tries_ordered_def)
    note less = tries_ordered_less[OF 1(3), folded 1(4)] and IH = 1(1,2)[OF True mid(1)[symmetric] refl refl refl]
    consider "a < start_addr ?ti" | "start_addr ?ti + ucast (insn_count ?ti) \<le> a" "\<not> a < start_addr ?ti" | "covers ?ti a"
      by (fastforce simp: covers_def word_le_nat_alt word_less_nat_alt fit)
    then show ?thesis
    proof cases
      case 1
      have "\<not> covers (try_item ci i) a" if "int mid \<le> int i" "int i \<le> hi" for i
        using less[of mid i] that 1 \<open>hi < int n\<close> by (cases "i = mid") (auto simp: covers_def word_le_nat_alt word_less_nat_alt)
      moreover have "FindTryItem_loop ci a lo hi = FindTryItem_loop ci a lo (int mid - 1)" using l mid True 1 by (simp add: Let_def)
      moreover note IH(1)[OF _ \<open>tries_ordered ci\<close> \<open>n = unat (tries_size ci)\<close> \<open>0 \<le> lo\<close>]
      ultimately show ?thesis using 1 mid(1,2) by simp (meson linorder_not_le of_nat_less_iff)
    next
      case 2
      have "\<not> covers (try_item ci i) a" if "lo \<le> int i" "int i \<le> int mid" for i
        using less[of i mid] that 2(1) mid(2) by (cases "i = mid") (auto simp: covers_def word_le_nat_alt word_less_nat_alt fit)
      moreover have "FindTryItem_loop ci a lo hi = FindTryItem_loop ci a (int mid + 1) hi" using l mid True 2 by (simp add: Let_def)
      moreover note IH(2)[OF _ _ \<open>tries_ordered ci\<close> \<open>n = unat (tries_size ci)\<close> _ \<open>hi < int n\<close>]
      ultimately show ?thesis using 2 mid(1,2) by simp (metis add.commute int_ops(4) linorder_not_le not_less_eq_eq of_nat_le_iff)
    next
      case 3
      then have "FindTryItem_loop ci a lo hi = int mid"
        using l mid True by (simp add: Let_def covers_def word_le_nat_alt word_less_nat_alt fit)
      then show ?thesis using 3 mid(2) by blast
    qed
  qed (use l in auto)
qed

lemma FindTryItem_finds:
  assumes "tries_ordered ci"
  shows "(FindTryItem ci a = -1 \<and> (\<forall>i < unat (tries_size ci). \<not> covers (try_item ci i) a))
    \<or> (\<exists>i < unat (tries_size ci). FindTryItem ci a = int i \<and> covers (try_item ci i) a)"
  using FindTryItem_loop_finds[OF assms refl, of 0 "uint (tries_size ci) - 1" a]
  by (auto simp: FindTryItem_def int_less_uint)

text \<open>Where the try items are ordered, the iterator is that of the one try item that covers the address; the short cuts for
  none and for one try item make no difference.\<close>

lemma CatchHandlerIterator_address_covers:
  assumes "tries_ordered ci" "i < unat (tries_size ci)" "covers (try_item ci i) a"
  shows "CatchHandlerIterator_address ci a = CatchHandlerIterator_try ci (try_item ci i)"
proof -
  have f: "FindTryItem ci a = int i" using FindTryItem_finds[OF assms(1), of a] covers_unique[OF assms(1)] assms(2,3) by auto
  have "unat (start_addr (try_item ci i)) + unat (insn_count (try_item ci i)) < 2 ^ 32" using assms by (simp add: tries_ordered_def)
  then have e: "a < start_addr (try_item ci i) + ucast (insn_count (try_item ci i))" "start_addr (try_item ci i) \<le> a"
    using assms(3) by (simp_all add: covers_def word_less_nat_alt unat_end_addr)
  have "tries_size ci \<noteq> 0" "tries_size ci = 1 \<Longrightarrow> i = 0" using assms(2) by auto
  then show ?thesis using f e
    by (auto simp: CatchHandlerIterator_address_def CatchHandlerIterator_try_def FindCatchHandlerOffset_def Let_def)
qed

lemma CatchHandlerIterator_address_none:
  assumes "tries_ordered ci" "\<And>i. i < unat (tries_size ci) \<Longrightarrow> \<not> covers (try_item ci i) a"
  shows "\<not> HasNext (CatchHandlerIterator_address ci a)"
proof -
  have f: "FindTryItem ci a = -1" using FindTryItem_finds[OF assms(1), of a] assms(2) by blast
  have "a < start_addr (try_item ci 0) + ucast (insn_count (try_item ci 0)) \<Longrightarrow> start_addr (try_item ci 0) \<le> a \<Longrightarrow> tries_size ci \<noteq> 1"
    using assms(2)[of 0] assms(1) by (auto simp: tries_ordered_def covers_def word_less_nat_alt unat_end_addr)
  then show ?thesis using f
    by (auto simp: CatchHandlerIterator_address_def FindCatchHandlerOffset_def Init_offset_def HasNext_def Let_def)
qed

section \<open>What the iterator yields\<close>

primrec read_pairs :: "nat \<Rightarrow> memory \<Rightarrow> nat \<Rightarrow> (u16 \<times> u32) list \<times> nat" where
  "read_pairs 0 m p = ([], p)"
| "read_pairs (Suc n) m p =
     (let (idx, p) = DecodeUnsignedLeb128 m p; (addr, p) = DecodeUnsignedLeb128 m p; (hs, p) = read_pairs n m p
      in ((ucast idx, addr) # hs, p))"

definition read_handlers :: "nat \<Rightarrow> bool \<Rightarrow> memory \<Rightarrow> nat \<Rightarrow> (u16 \<times> u32) list \<times> nat" where
  "read_handlers n catch_all m p =
     (let (hs, p) = read_pairs n m p
      in if catch_all then let (addr, p) = DecodeUnsignedLeb128 m p in (hs @ [(kDexNoIndex16, addr)], p) else (hs, p))"

lemma read_handlers_simps:
  "read_handlers 0 False m p = ([], p)"
  "read_handlers 0 True m p = (let (addr, p) = DecodeUnsignedLeb128 m p in ([(kDexNoIndex16, addr)], p))"
  "read_handlers (Suc n) c m p =
     (let (idx, p) = DecodeUnsignedLeb128 m p; (addr, p) = DecodeUnsignedLeb128 m p; (hs, p) = read_handlers n c m p
      in ((ucast idx, addr) # hs, p))"
  by (simp_all add: read_handlers_def split: prod.split)

text \<open>The handlers of the list at \<open>p\<close>, as the format describes it: a signed count of typed handlers, not positive if a
  catch-all handler follows them.\<close>

definition handlers_at :: "memory \<Rightarrow> nat \<Rightarrow> (u16 \<times> u32) list \<times> nat" where
  "handlers_at m p = (let (n, p) = DecodeSignedLeb128 m p in read_handlers (nat \<bar>sint n\<bar>) (sint n \<le> 0) m p)"

lemma sint_count: "n < 2 ^ 31 \<Longrightarrow> sint (of_nat n :: u32) = int n"
  by (simp add: sint_uint unsigned_of_nat take_bit_nat_eq_self signed_take_bit_int_eq_self)

lemma all_handlers_next:
  assumes "n < 2 ^ 31" "remaining_count it = of_nat n" "read_handlers n (has_catch_all it) m (current_data it) = (hs, p)"
  shows "case all_handlers m (Next m it) of (hs', it') \<Rightarrow> hs' = hs \<and> \<not> HasNext it' \<and> current_data it' = p"
  using assms
proof (induction n arbitrary: it hs)
  case 0
  show ?case
  proof (cases "has_catch_all it")
    case True
    obtain a q where d: "DecodeUnsignedLeb128 m (current_data it) = (a, q)" by fastforce
    define it2 where "it2 = Next m it"
    have n: "it2 = it\<lparr>handler_type_idx := kDexNoIndex16, handler_address := a, current_data := q, has_catch_all := False\<rparr>"
      unfolding it2_def by (simp add: Next_def 0 True d)
    then have "Next m it2 = it2\<lparr>remaining_count := -1\<rparr>" "HasNext it2" by (simp_all add: Next_def HasNext_def 0)
    then have "all_handlers m it2 = ([(kDexNoIndex16, a)], it2\<lparr>remaining_count := -1\<rparr>)"
      by (simp add: all_handlers.simps[of _ it2] all_handlers.simps[of _ "it2\<lparr>remaining_count := -1\<rparr>"]) (simp add: n HasNext_def)
    then show ?thesis using 0(3) True d n by (simp add: it2_def[symmetric] HasNext_def read_handlers_simps)
  next
    case False
    then have "Next m it = it\<lparr>remaining_count := -1\<rparr>" by (simp add: Next_def 0)
    then show ?thesis using 0(3) False by (simp add: all_handlers.simps HasNext_def read_handlers_simps)
  qed
next
  case (Suc n)
  obtain t q where t: "DecodeUnsignedLeb128 m (current_data it) = (t, q)" by fastforce
  obtain a r where a: "DecodeUnsignedLeb128 m q = (a, r)" by fastforce
  obtain hs2 where h: "read_handlers n (has_catch_all it) m r = (hs2, p)" "hs = (ucast t, a) # hs2"
    using Suc(4) by (auto simp: read_handlers_simps t a split: prod.splits)
  define it2 where "it2 = Next m it"
  have it2: "it2 = it\<lparr>handler_type_idx := ucast t, handler_address := a, current_data := r, remaining_count := of_nat n\<rparr>"
    unfolding it2_def using sint_count[OF Suc(2)] by (simp add: Next_def Suc(3) t a)
  have "(of_nat n :: u32) \<noteq> -1" using sint_count[of n] Suc(2) by auto
  then have "HasNext it2" by (simp add: it2 HasNext_def)
  moreover have "case all_handlers m (Next m it2) of (hs', it') \<Rightarrow> hs' = hs2 \<and> \<not> HasNext it' \<and> current_data it' = p"
    using Suc(1)[of it2 hs2] Suc(2) h by (simp add: it2)
  moreover have "handler_type_idx it2 = ucast t" "handler_address it2 = a" by (simp_all add: it2)
  ultimately show ?case using h(2) by (simp add: it2_def[symmetric] all_handlers.simps[of _ it2] split: prod.splits)
qed

lemma all_handlers_data:
  assumes "sint (fst (DecodeSignedLeb128 m p)) \<noteq> - (2 ^ 31)"
  shows "case all_handlers m (Init_data m p it) of (hs, it) \<Rightarrow> (hs, EndDataPointer it) = apsnd Some (handlers_at m p)"
proof -
  obtain n q where d: "DecodeSignedLeb128 m p = (n, q)" by fastforce
  obtain hs r where h: "read_handlers (nat \<bar>sint n\<bar>) (sint n \<le> 0) m q = (hs, r)" by fastforce
  define it1 where "it1 = it\<lparr>current_data := q, remaining_count := of_nat (nat \<bar>sint n\<bar>), has_catch_all := sint n \<le> 0\<rparr>"
  have "- (2 ^ 31) \<le> sint n" "sint n < 2 ^ 31" using sint_range_size[of n] by (auto simp: size_word.rep_eq)
  then have "nat \<bar>sint n\<bar> < 2 ^ 31" using assms d by (simp add: nat_less_iff abs_if)
  then have "case all_handlers m (Next m it1) of (hs', it') \<Rightarrow> hs' = hs \<and> \<not> HasNext it' \<and> current_data it' = r"
    using all_handlers_next[of "nat \<bar>sint n\<bar>" it1 m hs r] h by (simp add: it1_def)
  moreover have "Init_data m p it = Next m it1"
    by (cases it; cases "sint n \<le> 0") (simp_all add: Init_data_def d it1_def)
  ultimately show ?thesis using d h by (simp add: handlers_at_def EndDataPointer_def split: prod.splits)
qed

end
