(* ===== verification/Method_Verifier.thy ===== *)
theory Method_Verifier
  imports Code_Item Dex_Instruction "HOL-Library.Monad_Syntax"
begin

text \<open>
  The static part of the method verifier (\<open>verifier/method_verifier.cc\<close>, \<open>verifier/instruction_flags.h\<close>): the
  walk over the instructions, the try and catch blocks, and the checks of each instruction on its own.  The data flow analysis
  that follows it is a parameter of \<open>Verify\<close>.  An access outside the array of instruction flags and a
  \<open>LOG(FATAL)\<close> are \<open>None\<close>.
\<close>

section \<open>Instruction flags\<close>

definition SetIsOpcode :: "u8 \<Rightarrow> u8" where
  "SetIsOpcode flags = flags OR push_bit 2 1"

definition IsOpcode :: "u8 \<Rightarrow> bool" where
  "IsOpcode flags \<longleftrightarrow> flags AND push_bit 2 1 \<noteq> 0"

definition SetInTry :: "u8 \<Rightarrow> u8" where
  "SetInTry flags = flags OR push_bit 3 1"

definition IsInTry :: "u8 \<Rightarrow> bool" where
  "IsInTry flags \<longleftrightarrow> flags AND push_bit 3 1 \<noteq> 0"

definition SetBranchTarget :: "u8 \<Rightarrow> u8" where
  "SetBranchTarget flags = flags OR push_bit 4 1"

definition IsBranchTarget :: "u8 \<Rightarrow> bool" where
  "IsBranchTarget flags \<longleftrightarrow> flags AND push_bit 4 1 \<noteq> 0"

definition SetCompileTimeInfoPoint :: "u8 \<Rightarrow> u8" where
  "SetCompileTimeInfoPoint flags = flags OR push_bit 5 1"

definition IsCompileTimeInfoPoint :: "u8 \<Rightarrow> bool" where
  "IsCompileTimeInfoPoint flags \<longleftrightarrow> flags AND push_bit 5 1 \<noteq> 0"

definition SetReturn :: "u8 \<Rightarrow> u8" where
  "SetReturn flags = flags OR push_bit 6 1"

definition IsReturnFlag :: "u8 \<Rightarrow> bool" where
  "IsReturnFlag flags \<longleftrightarrow> flags AND push_bit 6 1 \<noteq> 0"

definition SetCompileTimeInfoPointAndReturn :: "u8 \<Rightarrow> u8" where
  "SetCompileTimeInfoPointAndReturn flags = SetReturn (SetCompileTimeInfoPoint flags)"

section \<open>The verifier and its failures\<close>

datatype VerifyError =
    VERIFY_ERROR_BAD_CLASS_HARD | VERIFY_ERROR_BAD_CLASS_SOFT | VERIFY_ERROR_NO_CLASS | VERIFY_ERROR_NO_FIELD
  | VERIFY_ERROR_NO_METHOD | VERIFY_ERROR_ACCESS_CLASS | VERIFY_ERROR_ACCESS_FIELD | VERIFY_ERROR_ACCESS_METHOD
  | VERIFY_ERROR_CLASS_CHANGE | VERIFY_ERROR_INSTANTIATION | VERIFY_ERROR_FORCE_INTERPRETER | VERIFY_ERROR_LOCKING

primrec VerifyError_code :: "VerifyError \<Rightarrow> u32" where
  "VerifyError_code VERIFY_ERROR_BAD_CLASS_HARD = 1"
| "VerifyError_code VERIFY_ERROR_BAD_CLASS_SOFT = 2"
| "VerifyError_code VERIFY_ERROR_NO_CLASS = 4"
| "VerifyError_code VERIFY_ERROR_NO_FIELD = 8"
| "VerifyError_code VERIFY_ERROR_NO_METHOD = 16"
| "VerifyError_code VERIFY_ERROR_ACCESS_CLASS = 32"
| "VerifyError_code VERIFY_ERROR_ACCESS_FIELD = 64"
| "VerifyError_code VERIFY_ERROR_ACCESS_METHOD = 128"
| "VerifyError_code VERIFY_ERROR_CLASS_CHANGE = 256"
| "VerifyError_code VERIFY_ERROR_INSTANTIATION = 512"
| "VerifyError_code VERIFY_ERROR_FORCE_INTERPRETER = 1024"
| "VerifyError_code VERIFY_ERROR_LOCKING = 2048"

text \<open>What the verifier is given: the method, the sizes of the tables of its dex file, the descriptors of the types, and the mode
  it runs in.\<close>

record verifier_input =
  code_item :: "CodeItem option"
  method_access_flags :: u32
  method_name :: string
  class_access_flags :: u32
  dex_version :: u32
  field_ids :: u32
  method_ids :: u32
  proto_ids :: u32
  string_ids :: u32
  type_ids :: u32
  StringByTypeIdx :: "u16 \<Rightarrow> string"
  is_aot_compiler :: bool
  can_load_classes :: bool
  allow_soft_failures :: bool
  verify_to_dump :: bool
  kIsDebugBuild :: bool

text \<open>\<open>resolved_types\<close> lists the types that the class linker is asked to resolve.\<close>

record MethodVerifier =
  insn_flags :: "u8 list"
  failures :: "VerifyError list"
  encountered_failure_types :: u32
  have_pending_hard_failure :: bool
  have_pending_runtime_throw_failure :: bool
  have_pending_experimental_failure :: bool
  has_check_casts :: bool
  has_virtual_or_interface_invokes :: bool
  new_instance_count :: nat
  monitor_enter_count :: nat
  is_constructor :: bool
  resolved_types :: "u16 list"

definition MethodVerifier_new :: MethodVerifier where
  "MethodVerifier_new =
     \<lparr>insn_flags = [], failures = [], encountered_failure_types = 0, have_pending_hard_failure = False,
      have_pending_runtime_throw_failure = False, have_pending_experimental_failure = False, has_check_casts = False,
      has_virtual_or_interface_invokes = False, new_instance_count = 0, monitor_enter_count = 0, is_constructor = False,
      resolved_types = []\<rparr>"

text \<open>\<open>work_insn_idx_\<close> has no instruction before the data flow analysis, so that no register line is saved.\<close>

definition Fail :: "verifier_input \<Rightarrow> VerifyError \<Rightarrow> MethodVerifier \<Rightarrow> MethodVerifier" where
  "Fail i error v =
     (let v = v\<lparr>encountered_failure_types := encountered_failure_types v OR VerifyError_code error\<rparr>;
          (error, v) =
            (case error of
               VERIFY_ERROR_BAD_CLASS_SOFT \<Rightarrow>
                 (error, if \<not> allow_soft_failures i then v\<lparr>have_pending_hard_failure := True\<rparr> else v)
             | VERIFY_ERROR_BAD_CLASS_HARD \<Rightarrow> (error, v\<lparr>have_pending_hard_failure := True\<rparr>)
             | _ \<Rightarrow>
                 if is_aot_compiler i \<or> \<not> can_load_classes i then (VERIFY_ERROR_BAD_CLASS_SOFT, v)
                 else (error, v\<lparr>have_pending_runtime_throw_failure := True\<rparr>))
      in v\<lparr>failures := failures v @ [error]\<rparr>)"

type_synonym verdict = "(bool \<times> MethodVerifier) option"

definition fail_if :: "verifier_input \<Rightarrow> bool \<Rightarrow> MethodVerifier \<Rightarrow> verdict" where
  "fail_if i bad v = Some (if bad then (False, Fail i VERIFY_ERROR_BAD_CLASS_HARD v) else (True, v))"

text \<open>\<open>result = result && check\<close>\<close>

definition also_check :: "verdict \<Rightarrow> (MethodVerifier \<Rightarrow> verdict) \<Rightarrow> verdict" where
  "also_check r check = do { (b, v) \<leftarrow> r; if b then check v else Some (False, v) }"

definition GetInstructionFlags :: "MethodVerifier \<Rightarrow> nat \<Rightarrow> u8 option" where
  "GetInstructionFlags v index = (if index < length (insn_flags v) then Some (insn_flags v ! index) else None)"

definition update_flags :: "(u8 \<Rightarrow> u8) \<Rightarrow> nat \<Rightarrow> MethodVerifier \<Rightarrow> MethodVerifier option" where
  "update_flags f index v =
     (if index < length (insn_flags v) then Some (v\<lparr>insn_flags := (insn_flags v)[index := f (insn_flags v ! index)]\<rparr>) else None)"

section \<open>Code units\<close>

text \<open>The code units by their distance from \<open>insns_\<close>.\<close>

definition code_units :: "CodeItem \<Rightarrow> int \<Rightarrow> u16" where
  "code_units ci pc = Load16 (file_bytes ci) (nat (int (insns_address ci 0) + 2 * pc))"

definition inst_at :: "CodeItem \<Rightarrow> int \<Rightarrow> Instruction" where
  "inst_at ci pc = RelativeAt (code_units ci) pc"

text \<open>Every instruction has a size, and it is not zero: the walks over the code move on.\<close>

lemma size_by_opcode:
  "opcode \<noteq> NOP \<Longrightarrow> 0 < InstructionSizeInCodeUnitsByOpcode opcode (FormatOf opcode)"
  "InstructionSizeInCodeUnitsByOpcode NOP format = -1"
proof -
  have "list_all (\<lambda>r. 0 < InstructionSizeInCodeUnitsByOpcode 1 (fst (snd r))) DEX_INSTRUCTION_LIST" by code_simp
  from list_row[OF this, of opcode] show "opcode \<noteq> NOP \<Longrightarrow> 0 < InstructionSizeInCodeUnitsByOpcode opcode (FormatOf opcode)"
    by (simp add: FormatOf_def InstructionSizeInCodeUnitsByOpcode_def)
qed (simp add: InstructionSizeInCodeUnitsByOpcode_def)

lemma array_payload_size: "0 < unat (4 + (x + 1) div 2 :: u32)"
proof -
  have "unat ((x + 1) div 2) \<le> 2 ^ 31" using unsigned_less[where ?'a = nat, of "x + 1"] by (simp add: unat_div)
  then show ?thesis by (simp add: unat_word_ariths)
qed

lemma SizeInCodeUnits_pos: "\<exists>n. SizeInCodeUnits inst = Some n \<and> 0 < n"
proof (cases "Opcode inst = NOP")
  case True
  have "inst 0 AND 0xff = ucast (Opcode inst)" by (rule bit_eqI) (auto simp: Opcode_def Fetch16_def bits_defs bit_simps)
  then have "inst 0 AND 0xff = 0" using True by simp
  then show ?thesis using True
    by (simp add: SizeInCodeUnits_def size_by_opcode SizeInCodeUnitsComplexOpcode_def Let_def array_payload_size)
next
  case False
  then show ?thesis using size_by_opcode(1)[OF False] by (simp add: SizeInCodeUnits_def Let_def)
qed

section \<open>The walk over the instructions\<close>

record op_counts =
  seen_check_casts :: bool
  seen_virtual_or_interface_invokes :: bool
  monitor_enters :: nat
  new_instances :: nat

definition count_op :: "Code \<Rightarrow> op_counts \<Rightarrow> op_counts" where
  "count_op opcode c =
     (if opcode \<in> {APUT_OBJECT, CHECK_CAST} then c\<lparr>seen_check_casts := True\<rparr>
      else if opcode \<in> {INVOKE_VIRTUAL, INVOKE_VIRTUAL_RANGE, INVOKE_INTERFACE, INVOKE_INTERFACE_RANGE}
      then c\<lparr>seen_virtual_or_interface_invokes := True\<rparr>
      else if opcode = MONITOR_ENTER then c\<lparr>monitor_enters := monitor_enters c + 1\<rparr>
      else if opcode = NEW_INSTANCE then c\<lparr>new_instances := new_instances c + 1\<rparr>
      else c)"

definition width :: "Instruction \<Rightarrow> nat" where
  "width inst = the (SizeInCodeUnits inst)"

lemma SizeInCodeUnits_width: "SizeInCodeUnits inst = Some (width inst)" and width_pos [simp]: "0 < width inst"
  using SizeInCodeUnits_pos[of inst] by (auto simp: width_def)

text \<open>The result is where the walk ends; every access to the flags is in range.\<close>

function ComputeWidths_loop ::
    "CodeItem \<Rightarrow> nat \<Rightarrow> u8 list \<Rightarrow> op_counts \<Rightarrow> nat \<times> u8 list \<times> op_counts" where
  "ComputeWidths_loop ci pc flags c =
     (if pc < unat (insns_size_in_code_units ci) then
        let inst = inst_at ci (int pc)
        in ComputeWidths_loop ci (pc + width inst) (flags[pc := SetIsOpcode (flags ! pc)]) (count_op (Opcode inst) c)
      else (pc, flags, c))"
  by pat_completeness auto
termination
  by (relation "measure (\<lambda>(ci, pc, _). unat (insns_size_in_code_units ci) - pc)") (auto simp: diff_less_mono2)

declare ComputeWidths_loop.simps [simp del]

definition ComputeWidthsAndCountOps :: "verifier_input \<Rightarrow> CodeItem \<Rightarrow> MethodVerifier \<Rightarrow> verdict" where
  "ComputeWidthsAndCountOps i ci v =
     (case ComputeWidths_loop ci 0 (insn_flags v)
             \<lparr>seen_check_casts = has_check_casts v,
              seen_virtual_or_interface_invokes = has_virtual_or_interface_invokes v, monitor_enters = 0, new_instances = 0\<rparr> of
        (pc, flags, c) \<Rightarrow>
          let v = v\<lparr>insn_flags := flags, has_check_casts := seen_check_casts c,
                    has_virtual_or_interface_invokes := seen_virtual_or_interface_invokes c\<rparr>
          in if pc \<noteq> unat (insns_size_in_code_units ci) then Some (False, Fail i VERIFY_ERROR_BAD_CLASS_HARD v)
             else Some (True, v\<lparr>new_instance_count := new_instances c, monitor_enter_count := monitor_enters c\<rparr>))"

section \<open>Try and catch blocks\<close>

definition CheckNotMoveException :: "verifier_input \<Rightarrow> CodeItem \<Rightarrow> nat \<Rightarrow> MethodVerifier \<Rightarrow> verdict" where
  "CheckNotMoveException i ci insn_idx v = fail_if i (ucast (code_insns ci insn_idx AND 0xff) = MOVE_EXCEPTION) v"

definition CheckNotMoveResult :: "verifier_input \<Rightarrow> CodeItem \<Rightarrow> nat \<Rightarrow> MethodVerifier \<Rightarrow> verdict" where
  "CheckNotMoveResult i ci insn_idx v =
     (let opcode = ucast (code_insns ci insn_idx AND 0xff) :: Code
      in fail_if i (MOVE_RESULT \<le> opcode \<and> opcode \<le> MOVE_RESULT_OBJECT) v)"

definition CheckNotMoveExceptionOrMoveResult :: "verifier_input \<Rightarrow> CodeItem \<Rightarrow> nat \<Rightarrow> MethodVerifier \<Rightarrow> verdict" where
  "CheckNotMoveExceptionOrMoveResult i ci insn_idx v =
     also_check (CheckNotMoveException i ci insn_idx v) (CheckNotMoveResult i ci insn_idx)"

text \<open>\<open>dex_pc\<close> is a \<open>uint32_t\<close> and \<open>inst\<close> a pointer.\<close>

partial_function (option) flag_try_block :: "CodeItem \<Rightarrow> u32 \<Rightarrow> u32 \<Rightarrow> int \<Rightarrow> MethodVerifier \<Rightarrow> MethodVerifier option" where
  "flag_try_block ci end_addr pc inst v =
     (if pc < end_addr then do {
        v \<leftarrow> update_flags SetInTry (unat pc) v;
        let insn_size = width (inst_at ci inst);
        flag_try_block ci end_addr (pc + of_nat insn_size) (inst + int insn_size) v
      } else Some v)"

primrec ScanTries :: "nat \<Rightarrow> verifier_input \<Rightarrow> CodeItem \<Rightarrow> nat \<Rightarrow> MethodVerifier \<Rightarrow> verdict" where
  "ScanTries 0 i ci idx v = Some (True, v)"
| "ScanTries (Suc n) i ci idx v =
     (let ti = try_item ci idx; start = start_addr ti; end_addr = start + ucast (insn_count ti);
          insns_size = insns_size_in_code_units ci
      in if end_addr \<le> start \<or> insns_size \<le> start \<or> insns_size < end_addr
         then Some (False, Fail i VERIFY_ERROR_BAD_CLASS_HARD v)
         else do {
           flags \<leftarrow> GetInstructionFlags v (unat start);
           if \<not> IsOpcode flags then Some (False, Fail i VERIFY_ERROR_BAD_CLASS_HARD v)
           else do {
             v \<leftarrow> flag_try_block ci end_addr start (uint start) v;
             ScanTries n i ci (Suc idx) v
           }
         })"

text \<open>The handlers of one list; \<open>None\<close> for the iterator where a check has failed.\<close>

function ScanHandlers :: "verifier_input \<Rightarrow> CodeItem \<Rightarrow> CatchHandlerIterator \<Rightarrow> MethodVerifier
    \<Rightarrow> (CatchHandlerIterator option \<times> MethodVerifier) option" where
  "ScanHandlers i ci it v =
     (if HasNext it then do {
        let pc = unat (handler_address it);
        flags \<leftarrow> GetInstructionFlags v pc;
        if \<not> IsOpcode flags then Some (None, Fail i VERIFY_ERROR_BAD_CLASS_HARD v)
        else do {
          (ok, v) \<leftarrow> CheckNotMoveResult i ci pc v;
          if \<not> ok then Some (None, Fail i VERIFY_ERROR_BAD_CLASS_HARD v)
          else do {
            v \<leftarrow> update_flags SetBranchTarget pc v;
            let v = (if handler_type_idx it \<noteq> 0xffff then v\<lparr>resolved_types := resolved_types v @ [handler_type_idx it]\<rparr> else v);
            ScanHandlers i ci (Next (file_bytes ci) it) v
          }
        }
      } else Some (Some it, v))"
  by pat_completeness auto
termination
  by (relation "measure (\<lambda>(_, _, it, _). iterations it)") (auto simp: Next_fewer)

declare ScanHandlers.simps [simp del]

primrec ScanHandlerLists :: "nat \<Rightarrow> verifier_input \<Rightarrow> CodeItem \<Rightarrow> nat \<Rightarrow> MethodVerifier \<Rightarrow> verdict" where
  "ScanHandlerLists 0 i ci handlers_ptr v = Some (True, v)"
| "ScanHandlerLists (Suc n) i ci handlers_ptr v = do {
     (it, v) \<leftarrow> ScanHandlers i ci (CatchHandlerIterator_data (file_bytes ci) handlers_ptr) v;
     (case it of
        None \<Rightarrow> Some (False, v)
      | Some it \<Rightarrow> do { handlers_ptr \<leftarrow> EndDataPointer it; ScanHandlerLists n i ci handlers_ptr v })
   }"

definition ScanTryCatchBlocks :: "verifier_input \<Rightarrow> CodeItem \<Rightarrow> MethodVerifier \<Rightarrow> verdict" where
  "ScanTryCatchBlocks i ci v =
     (if tries_size ci = 0 then Some (True, v)
      else also_check (ScanTries (unat (tries_size ci)) i ci 0 v) (\<lambda>v.
        let (handlers_size, handlers_ptr) = DecodeUnsignedLeb128 (file_bytes ci) (GetCatchHandlerData ci 0)
        in ScanHandlerLists (unat handlers_size) i ci handlers_ptr v))"

section \<open>Operands\<close>

definition CheckRegisterIndex :: "verifier_input \<Rightarrow> CodeItem \<Rightarrow> u32 \<Rightarrow> MethodVerifier \<Rightarrow> verdict" where
  "CheckRegisterIndex i ci idx = fail_if i (ucast (registers_size ci) \<le> idx)"

definition CheckWideRegisterIndex :: "verifier_input \<Rightarrow> CodeItem \<Rightarrow> u32 \<Rightarrow> MethodVerifier \<Rightarrow> verdict" where
  "CheckWideRegisterIndex i ci idx = fail_if i (ucast (registers_size ci) \<le> idx + 1)"

definition CheckFieldIndex :: "verifier_input \<Rightarrow> u32 \<Rightarrow> MethodVerifier \<Rightarrow> verdict" where
  "CheckFieldIndex i idx = fail_if i (field_ids i \<le> idx)"

definition CheckMethodIndex :: "verifier_input \<Rightarrow> u32 \<Rightarrow> MethodVerifier \<Rightarrow> verdict" where
  "CheckMethodIndex i idx = fail_if i (method_ids i \<le> idx)"

definition CheckNewInstance :: "verifier_input \<Rightarrow> u16 \<Rightarrow> MethodVerifier \<Rightarrow> verdict" where
  "CheckNewInstance i idx v =
     (if type_ids i \<le> ucast idx then Some (False, Fail i VERIFY_ERROR_BAD_CLASS_HARD v)
      else
        let descriptor = StringByTypeIdx i idx
        in if descriptor = [] \<or> hd descriptor \<noteq> CHR ''L'' then Some (False, Fail i VERIFY_ERROR_BAD_CLASS_HARD v)
           else if descriptor = ''Ljava/lang/Class;'' then Some (True, Fail i VERIFY_ERROR_INSTANTIATION v)
           else Some (True, v))"

definition CheckPrototypeIndex :: "verifier_input \<Rightarrow> u32 \<Rightarrow> MethodVerifier \<Rightarrow> verdict" where
  "CheckPrototypeIndex i idx = fail_if i (proto_ids i \<le> idx)"

definition CheckStringIndex :: "verifier_input \<Rightarrow> u32 \<Rightarrow> MethodVerifier \<Rightarrow> verdict" where
  "CheckStringIndex i idx = fail_if i (string_ids i \<le> idx)"

definition CheckTypeIndex :: "verifier_input \<Rightarrow> u16 \<Rightarrow> MethodVerifier \<Rightarrow> verdict" where
  "CheckTypeIndex i idx = fail_if i (type_ids i \<le> ucast idx)"

definition CheckNewArray :: "verifier_input \<Rightarrow> u16 \<Rightarrow> MethodVerifier \<Rightarrow> verdict" where
  "CheckNewArray i idx v =
     (if type_ids i \<le> ucast idx then Some (False, Fail i VERIFY_ERROR_BAD_CLASS_HARD v)
      else
        let bracket_count = length (takeWhile (\<lambda>c. c = CHR ''['') (StringByTypeIdx i idx))
        in fail_if i (bracket_count = 0 \<or> 255 < bracket_count) v)"

text \<open>A table that the instruction at \<open>cur_offset\<close> refers to: its distance from the instruction, and the table.\<close>

definition payload_offset :: "CodeItem \<Rightarrow> u32 \<Rightarrow> u32" where
  "payload_offset ci cur_offset = Fetch32 (inst_at ci (uint cur_offset)) 1"

definition payload_at :: "CodeItem \<Rightarrow> u32 \<Rightarrow> u32 \<Rightarrow> Instruction" where
  "payload_at ci cur_offset offset = inst_at ci (uint cur_offset + sint offset)"

definition payload_aligned :: "CodeItem \<Rightarrow> u32 \<Rightarrow> u32 \<Rightarrow> bool" where
  "payload_aligned ci cur_offset offset \<longleftrightarrow> (int (insns_address ci 0) + 2 * (uint cur_offset + sint offset)) mod 4 = 0"

definition CheckArrayData :: "verifier_input \<Rightarrow> CodeItem \<Rightarrow> u32 \<Rightarrow> MethodVerifier \<Rightarrow> verdict" where
  "CheckArrayData i ci cur_offset v =
     (let insns_size = insns_size_in_code_units ci;
          array_data_offset = payload_offset ci cur_offset;
          array_data = payload_at ci cur_offset array_data_offset;
          bad = Some (False, Fail i VERIFY_ERROR_BAD_CLASS_HARD v)
      in if sint (cur_offset + array_data_offset) < 0 \<or> insns_size \<le> cur_offset + array_data_offset + 2 then bad
         else if \<not> payload_aligned ci cur_offset array_data_offset then bad
         else do {
           flags \<leftarrow> GetInstructionFlags v (unat (cur_offset + array_data_offset));
           if \<not> IsOpcode flags then bad
           else
             let value_width = ucast (array_data 1) :: u32;
                 value_count = Fetch32 array_data 2;
                 table_size = 4 + (value_width * value_count + 1) div 2
             in fail_if i (insns_size < cur_offset + array_data_offset + table_size) v
         })"

definition GetBranchOffset :: "CodeItem \<Rightarrow> u32 \<Rightarrow> (u32 \<times> bool \<times> bool) option" where
  "GetBranchOffset ci cur_offset =
     (let insns = inst_at ci (uint cur_offset); opcode = ucast (insns 0 AND 0xff) :: Code
      in if opcode = GOTO then Some (scast (signed_drop_bit 8 (insns 0)), False, False)
         else if opcode = GOTO_32 then Some (Fetch32 insns 1, False, True)
         else if opcode = GOTO_16 then Some (scast (insns 1), False, False)
         else if opcode \<in> {IF_EQ, IF_NE, IF_LT, IF_GE, IF_GT, IF_LE, IF_EQZ, IF_NEZ, IF_LTZ, IF_GEZ, IF_GTZ, IF_LEZ}
         then Some (scast (insns 1), True, False)
         else None)"

text \<open>The verdict without a failure is the code's: an opcode that is no branch has been failed by nobody.\<close>

definition CheckBranchTarget :: "verifier_input \<Rightarrow> CodeItem \<Rightarrow> u32 \<Rightarrow> MethodVerifier \<Rightarrow> verdict" where
  "CheckBranchTarget i ci cur_offset v =
     (case GetBranchOffset ci cur_offset of
        None \<Rightarrow> Some (False, v)
      | Some (offset, isConditional, selfOkay) \<Rightarrow>
          let bad = Some (False, Fail i VERIFY_ERROR_BAD_CLASS_HARD v);
              abs_offset = cur_offset + offset
          in if \<not> selfOkay \<and> offset = 0 then bad
             else if uint cur_offset + sint offset \<noteq> uint (cur_offset + offset) then bad
             else if sint abs_offset < 0 \<or> insns_size_in_code_units ci \<le> abs_offset then bad
             else do {
               flags \<leftarrow> GetInstructionFlags v (unat abs_offset);
               if \<not> IsOpcode flags then bad
               else do {
                 v \<leftarrow> update_flags SetBranchTarget (unat abs_offset) v;
                 Some (True, v)
               }
             })"

text \<open>The keys of a sparse switch from \<open>targ\<close> on.\<close>

primrec keys_ascend :: "nat \<Rightarrow> Instruction \<Rightarrow> nat \<Rightarrow> u32 \<Rightarrow> bool" where
  "keys_ascend 0 switch_insns targ last_key \<longleftrightarrow> True"
| "keys_ascend (Suc n) switch_insns targ last_key \<longleftrightarrow>
     (let key = Fetch32 switch_insns (2 + targ * 2)
      in \<not> sint key \<le> sint last_key \<and> keys_ascend n switch_insns (Suc targ) key)"

primrec CheckSwitch_loop :: "nat \<Rightarrow> verifier_input \<Rightarrow> CodeItem \<Rightarrow> u32 \<Rightarrow> Instruction \<Rightarrow> nat \<Rightarrow> nat \<Rightarrow> MethodVerifier \<Rightarrow> verdict" where
  "CheckSwitch_loop 0 i ci cur_offset switch_insns targets_offset targ v = Some (True, v)"
| "CheckSwitch_loop (Suc n) i ci cur_offset switch_insns targets_offset targ v =
     (let offset = Fetch32 switch_insns (targets_offset + targ * 2);
          abs_offset = cur_offset + offset;
          bad = Some (False, Fail i VERIFY_ERROR_BAD_CLASS_HARD v)
      in if sint abs_offset < 0 \<or> sint (insns_size_in_code_units ci) \<le> sint abs_offset then bad
         else do {
           flags \<leftarrow> GetInstructionFlags v (unat abs_offset);
           if \<not> IsOpcode flags then bad
           else do {
             v \<leftarrow> update_flags SetBranchTarget (unat abs_offset) v;
             CheckSwitch_loop n i ci cur_offset switch_insns targets_offset (Suc targ) v
           }
         })"

definition CheckSwitchTargets :: "verifier_input \<Rightarrow> CodeItem \<Rightarrow> u32 \<Rightarrow> MethodVerifier \<Rightarrow> verdict" where
  "CheckSwitchTargets i ci cur_offset v =
     (let insns_size = insns_size_in_code_units ci;
          switch_offset = payload_offset ci cur_offset;
          switch_insns = payload_at ci cur_offset switch_offset;
          bad = Some (False, Fail i VERIFY_ERROR_BAD_CLASS_HARD v)
      in if sint (cur_offset + switch_offset) < 0 \<or> insns_size < cur_offset + switch_offset + 2 then bad
         else if \<not> payload_aligned ci cur_offset switch_offset then bad
         else do {
           flags \<leftarrow> GetInstructionFlags v (unat (cur_offset + switch_offset));
           if \<not> IsOpcode flags then bad
           else
             let is_packed_switch = ucast (inst_at ci (uint cur_offset) 0 AND 0xff) = PACKED_SWITCH;
                 switch_count = unat (switch_insns 1);
                 targets_offset = (if is_packed_switch then 4 else 2 + 2 * switch_count);
                 expected_signature = (if is_packed_switch then kPackedSwitchSignature else kSparseSwitchSignature);
                 table_size = targets_offset + switch_count * 2
             in if switch_insns 0 \<noteq> expected_signature then bad
                else if insns_size < cur_offset + switch_offset + of_nat table_size then bad
                else if 1 < switch_count \<and> is_packed_switch
                        \<and> 2 ^ 31 - 1 - (int switch_count - 1) < sint (Fetch32 switch_insns 2) then bad
                else if 1 < switch_count \<and> \<not> is_packed_switch
                        \<and> \<not> keys_ascend (switch_count - 1) switch_insns 1 (Fetch32 switch_insns 2) then bad
                else CheckSwitch_loop switch_count i ci cur_offset switch_insns targets_offset 0 v
         })"

definition CheckVarArgRegs :: "verifier_input \<Rightarrow> CodeItem \<Rightarrow> u32 \<Rightarrow> u32 list \<Rightarrow> MethodVerifier \<Rightarrow> verdict" where
  "CheckVarArgRegs i ci vA arg = fail_if i (list_ex (\<lambda>r. ucast (registers_size ci) \<le> r) (take (unat vA) arg))"

definition CheckVarArgRangeRegs :: "verifier_input \<Rightarrow> CodeItem \<Rightarrow> u32 \<Rightarrow> u32 \<Rightarrow> MethodVerifier \<Rightarrow> verdict" where
  "CheckVarArgRangeRegs i ci vA vC = fail_if i (ucast (registers_size ci) < vA + vC)"

section \<open>Instructions\<close>

definition kMaxVarArgRegs :: u32 where
  "kMaxVarArgRegs = 5"

definition VerifyArgumentA :: "verifier_input \<Rightarrow> CodeItem \<Rightarrow> Instruction \<Rightarrow> MethodVerifier \<Rightarrow> verdict" where
  "VerifyArgumentA i ci inst v =
     (if GetVerifyTypeArgumentA inst = kVerifyRegA then do { a \<leftarrow> VRegA inst; CheckRegisterIndex i ci a v }
      else if GetVerifyTypeArgumentA inst = kVerifyRegAWide then do { a \<leftarrow> VRegA inst; CheckWideRegisterIndex i ci a v }
      else Some (True, v))"

definition VerifyArgumentB :: "verifier_input \<Rightarrow> CodeItem \<Rightarrow> Instruction \<Rightarrow> MethodVerifier \<Rightarrow> verdict" where
  "VerifyArgumentB i ci inst v =
     (if GetVerifyTypeArgumentB inst = kVerifyRegB then do { b \<leftarrow> VRegB inst; CheckRegisterIndex i ci b v }
      else if GetVerifyTypeArgumentB inst = kVerifyRegBField then do { b \<leftarrow> VRegB inst; CheckFieldIndex i b v }
      else if GetVerifyTypeArgumentB inst = kVerifyRegBMethod then do { b \<leftarrow> VRegB inst; CheckMethodIndex i b v }
      else if GetVerifyTypeArgumentB inst = kVerifyRegBNewInstance then do { b \<leftarrow> VRegB inst; CheckNewInstance i (ucast b) v }
      else if GetVerifyTypeArgumentB inst = kVerifyRegBString then do { b \<leftarrow> VRegB inst; CheckStringIndex i b v }
      else if GetVerifyTypeArgumentB inst = kVerifyRegBType then do { b \<leftarrow> VRegB inst; CheckTypeIndex i (ucast b) v }
      else if GetVerifyTypeArgumentB inst = kVerifyRegBWide then do { b \<leftarrow> VRegB inst; CheckWideRegisterIndex i ci b v }
      else Some (True, v))"

definition VerifyArgumentC :: "verifier_input \<Rightarrow> CodeItem \<Rightarrow> Instruction \<Rightarrow> MethodVerifier \<Rightarrow> verdict" where
  "VerifyArgumentC i ci inst v =
     (if GetVerifyTypeArgumentC inst = kVerifyRegC then do { c \<leftarrow> VRegC inst; CheckRegisterIndex i ci c v }
      else if GetVerifyTypeArgumentC inst = kVerifyRegCField then do { c \<leftarrow> VRegC inst; CheckFieldIndex i c v }
      else if GetVerifyTypeArgumentC inst = kVerifyRegCNewArray then do { c \<leftarrow> VRegC inst; CheckNewArray i (ucast c) v }
      else if GetVerifyTypeArgumentC inst = kVerifyRegCType then do { c \<leftarrow> VRegC inst; CheckTypeIndex i (ucast c) v }
      else if GetVerifyTypeArgumentC inst = kVerifyRegCWide then do { c \<leftarrow> VRegC inst; CheckWideRegisterIndex i ci c v }
      else Some (True, v))"

definition VerifyArgumentH :: "verifier_input \<Rightarrow> CodeItem \<Rightarrow> Instruction \<Rightarrow> MethodVerifier \<Rightarrow> verdict" where
  "VerifyArgumentH i ci inst v =
     (if GetVerifyTypeArgumentH inst = kVerifyRegHPrototype then do { h \<leftarrow> VRegH inst; CheckPrototypeIndex i h v }
      else Some (True, v))"

text \<open>The variable-argument cases return at once if the count is bad, whatever the result so far; \<open>Inl\<close> is such a
  return.\<close>

definition VerifyExtra :: "verifier_input \<Rightarrow> CodeItem \<Rightarrow> Instruction \<Rightarrow> u32 \<Rightarrow> bool \<times> MethodVerifier
    \<Rightarrow> (MethodVerifier + bool \<times> MethodVerifier) option" where
  "VerifyExtra i ci inst code_offset r =
     (let extra = GetVerifyExtraFlags inst;
          check = (\<lambda>f. map_option Inr (also_check (Some r) f))
      in if extra = kVerifyArrayData then check (CheckArrayData i ci code_offset)
         else if extra = kVerifyBranchTarget then check (CheckBranchTarget i ci code_offset)
         else if extra = kVerifySwitchTargets then check (CheckSwitchTargets i ci code_offset)
         else if extra = kVerifyVarArgNonZero \<or> extra = kVerifyVarArg then do {
           v_a \<leftarrow> VRegA inst;
           if extra = kVerifyVarArgNonZero \<and> v_a = 0 \<or> kMaxVarArgRegs < v_a
           then Some (Inl (Fail i VERIFY_ERROR_BAD_CLASS_HARD (snd r)))
           else check (CheckVarArgRegs i ci v_a (GetVarArgs inst (Fetch16 inst 0) (replicate 5 0)))
         }
         else if extra = kVerifyVarArgRangeNonZero \<or> extra = kVerifyVarArgRange then do {
           v_a \<leftarrow> VRegA inst;
           v_c \<leftarrow> VRegC inst;
           if extra = kVerifyVarArgRangeNonZero \<and> sint v_a \<le> 0
           then Some (Inl (Fail i VERIFY_ERROR_BAD_CLASS_HARD (snd r)))
           else check (CheckVarArgRangeRegs i ci v_a v_c)
         }
         else if extra = kVerifyError then Some (Inr (False, Fail i VERIFY_ERROR_BAD_CLASS_HARD (snd r)))
         else Some (Inr r))"

definition VerifyInstruction :: "bool \<Rightarrow> verifier_input \<Rightarrow> CodeItem \<Rightarrow> Instruction \<Rightarrow> u32 \<Rightarrow> MethodVerifier \<Rightarrow> verdict" where
  "VerifyInstruction kAllowRuntimeOnlyInstructions i ci inst code_offset v = do {
     r \<leftarrow> also_check (also_check (also_check (VerifyArgumentA i ci inst v) (VerifyArgumentB i ci inst))
            (VerifyArgumentC i ci inst)) (VerifyArgumentH i ci inst);
     r \<leftarrow> VerifyExtra i ci inst code_offset r;
     (case r of
        Inl v \<Rightarrow> Some (False, v)
      | Inr (b, v) \<Rightarrow>
          if \<not> kAllowRuntimeOnlyInstructions \<and> GetVerifyIsRuntimeOnly inst
          then Some (False, Fail i VERIFY_ERROR_BAD_CLASS_HARD v) else Some (b, v))
   }"

definition flag_instruction :: "CodeItem \<Rightarrow> Instruction \<Rightarrow> u32 \<Rightarrow> MethodVerifier \<Rightarrow> MethodVerifier option" where
  "flag_instruction ci inst pc v =
     (if IsBranch inst then do {
        v \<leftarrow> update_flags SetCompileTimeInfoPoint (unat pc) v;
        let offset = (case GetBranchOffset ci pc of None \<Rightarrow> 0 | Some (offset, _) \<Rightarrow> offset);
        update_flags SetCompileTimeInfoPoint (unat (pc + offset)) v
      }
      else if IsSwitch inst \<or> IsThrow inst then update_flags SetCompileTimeInfoPoint (unat pc) v
      else if IsReturn inst then update_flags SetCompileTimeInfoPointAndReturn (unat pc) v
      else Some v)"

text \<open>\<open>dex_pc\<close> is a \<open>uint32_t\<close> and \<open>inst\<close> a pointer.\<close>

partial_function (option) VerifyInstructions_loop ::
    "bool \<Rightarrow> verifier_input \<Rightarrow> CodeItem \<Rightarrow> u32 \<Rightarrow> int \<Rightarrow> MethodVerifier \<Rightarrow> verdict" where
  "VerifyInstructions_loop kAllow i ci pc inst v =
     (if pc < insns_size_in_code_units ci then do {
        (ok, v) \<leftarrow> VerifyInstruction kAllow i ci (inst_at ci inst) pc v;
        if \<not> ok then Some (False, v)
        else do {
          v \<leftarrow> flag_instruction ci (inst_at ci inst) pc v;
          let size = width (inst_at ci inst);
          VerifyInstructions_loop kAllow i ci (pc + of_nat size) (inst + int size) v
        }
      } else Some (True, v))"

definition VerifyInstructions :: "bool \<Rightarrow> verifier_input \<Rightarrow> CodeItem \<Rightarrow> MethodVerifier \<Rightarrow> verdict" where
  "VerifyInstructions kAllowRuntimeOnlyInstructions i ci v = do {
     v \<leftarrow> update_flags SetBranchTarget 0 v;
     v \<leftarrow> update_flags SetCompileTimeInfoPoint 0 v;
     VerifyInstructions_loop kAllowRuntimeOnlyInstructions i ci 0 0 v
   }"

section \<open>The method\<close>

abbreviation (input) kAccPublic :: u32 where "kAccPublic \<equiv> 0x0001"
abbreviation (input) kAccPrivate :: u32 where "kAccPrivate \<equiv> 0x0002"
abbreviation (input) kAccProtected :: u32 where "kAccProtected \<equiv> 0x0004"
abbreviation (input) kAccStatic :: u32 where "kAccStatic \<equiv> 0x0008"
abbreviation (input) kAccFinal :: u32 where "kAccFinal \<equiv> 0x0010"
abbreviation (input) kAccSynchronized :: u32 where "kAccSynchronized \<equiv> 0x0020"
abbreviation (input) kAccNative :: u32 where "kAccNative \<equiv> 0x0100"
abbreviation (input) kAccInterface :: u32 where "kAccInterface \<equiv> 0x0200"
abbreviation (input) kAccAbstract :: u32 where "kAccAbstract \<equiv> 0x0400"
abbreviation (input) kAccStrict :: u32 where "kAccStrict \<equiv> 0x0800"
abbreviation (input) kAccConstructor :: u32 where "kAccConstructor \<equiv> 0x00010000"

definition has_access :: "verifier_input \<Rightarrow> u32 \<Rightarrow> bool" where
  "has_access i flags \<longleftrightarrow> method_access_flags i AND flags \<noteq> 0"

definition IsStaticAccess :: "verifier_input \<Rightarrow> bool" where
  "IsStaticAccess i \<longleftrightarrow> has_access i kAccStatic"

definition IsInstanceConstructor :: "verifier_input \<Rightarrow> MethodVerifier \<Rightarrow> bool" where
  "IsInstanceConstructor i v \<longleftrightarrow> is_constructor v \<and> \<not> IsStaticAccess i"

text \<open>The checks of the name and the access flags that come before the code; the result says whether a check fails and
  whether the method is a constructor.\<close>

definition CheckConstructor :: "verifier_input \<Rightarrow> MethodVerifier \<Rightarrow> bool \<times> MethodVerifier" where
  "CheckConstructor i v =
     (let static_constructor_by_name = method_name i = ''<clinit>'';
          constructor_by_name = method_name i = ''<init>'' \<or> static_constructor_by_name
      in if has_access i kAccConstructor \<and> \<not> constructor_by_name then (False, Fail i VERIFY_ERROR_BAD_CLASS_HARD v)
         else
           let v = (if has_access i kAccConstructor \<or> constructor_by_name then v\<lparr>is_constructor := True\<rparr> else v)
           in if kIsDebugBuild i \<and> is_constructor v \<and> IsStaticAccess i \<noteq> static_constructor_by_name
              then (False, Fail i VERIFY_ERROR_BAD_CLASS_HARD v)
              else if kIsDebugBuild i
                  \<and> 1 < of_bool (has_access i kAccPublic) + of_bool (has_access i kAccProtected) + (of_bool (has_access i kAccPrivate) :: nat)
              then (False, Fail i VERIFY_ERROR_BAD_CLASS_HARD v)
              else (True, v))"

definition CheckNoCode :: "verifier_input \<Rightarrow> MethodVerifier \<Rightarrow> verdict" where
  "CheckNoCode i v =
     fail_if i (\<not> has_access i (kAccNative OR kAccAbstract)
       \<or> kIsDebugBuild i
         \<and> (has_access i kAccAbstract
              \<and> has_access i (kAccPrivate OR kAccStatic OR kAccFinal OR kAccNative OR kAccStrict OR kAccSynchronized)
            \<or> class_access_flags i AND kAccInterface \<noteq> 0 \<and> (\<not> has_access i kAccPublic \<or> has_access i kAccProtected)
            \<or> is_constructor v)) v"

definition CheckHasCode :: "verifier_input \<Rightarrow> MethodVerifier \<Rightarrow> verdict" where
  "CheckHasCode i v =
     fail_if i (kIsDebugBuild i
       \<and> (has_access i (kAccNative OR kAccAbstract)
          \<or> class_access_flags i AND kAccInterface \<noteq> 0 \<and> \<not> (is_constructor v \<and> IsStaticAccess i)
            \<and> (IsInstanceConstructor i v \<or> has_access i kAccFinal
               \<or> \<not> has_access i (kAccPublic OR (if 37 \<le> dex_version i then kAccPrivate else 0)))
          \<or> IsInstanceConstructor i v \<and> has_access i kAccSynchronized)) v"

definition VerifyStatic :: "verifier_input \<Rightarrow> CodeItem \<Rightarrow> MethodVerifier \<Rightarrow> verdict" where
  "VerifyStatic i ci v =
     (if registers_size ci < ins_size ci then Some (False, Fail i VERIFY_ERROR_BAD_CLASS_HARD v)
      else
        let v = v\<lparr>insn_flags := replicate (unat (insns_size_in_code_units ci)) 0\<rparr>;
            allow_runtime_only_instructions = (\<not> is_aot_compiler i \<or> verify_to_dump i)
        in also_check (also_check (ComputeWidthsAndCountOps i ci v) (ScanTryCatchBlocks i ci))
             (VerifyInstructions allow_runtime_only_instructions i ci))"

text \<open>\<open>VerifyCodeFlow\<close> stands for the data flow analysis.\<close>

definition Verify :: "(verifier_input \<Rightarrow> CodeItem \<Rightarrow> MethodVerifier \<Rightarrow> verdict) \<Rightarrow> verifier_input \<Rightarrow> MethodVerifier \<Rightarrow> verdict" where
  "Verify VerifyCodeFlow i v =
     also_check (Some (CheckConstructor i v)) (\<lambda>v.
       case code_item i of
         None \<Rightarrow> CheckNoCode i v
       | Some ci \<Rightarrow>
           also_check (also_check (CheckHasCode i v) (VerifyStatic i ci)) (VerifyCodeFlow i ci))"

section \<open>Where instructions start\<close>

text \<open>The positions that the walk over the code reaches.\<close>

inductive insn_start :: "CodeItem \<Rightarrow> nat \<Rightarrow> bool" for ci where
  first: "0 < unat (insns_size_in_code_units ci) \<Longrightarrow> insn_start ci 0"
| following: "insn_start ci k \<Longrightarrow> k + width (inst_at ci (int k)) < unat (insns_size_in_code_units ci)
    \<Longrightarrow> insn_start ci (k + width (inst_at ci (int k)))"

definition opcode_at :: "MethodVerifier \<Rightarrow> nat \<Rightarrow> bool" where
  "opcode_at v k \<longleftrightarrow> k < length (insn_flags v) \<and> IsOpcode (insn_flags v ! k)"

lemma flag_simps [simp]:
  "IsOpcode (SetIsOpcode f)" "IsOpcode (SetInTry f) = IsOpcode f" "IsOpcode (SetBranchTarget f) = IsOpcode f"
  "IsOpcode (SetCompileTimeInfoPoint f) = IsOpcode f" "IsOpcode (SetReturn f) = IsOpcode f" "\<not> IsOpcode 0"
  "IsOpcode (SetCompileTimeInfoPointAndReturn f) = IsOpcode f"
  by (simp_all add: IsOpcode_def SetIsOpcode_def SetInTry_def SetBranchTarget_def SetCompileTimeInfoPoint_def SetReturn_def
      SetCompileTimeInfoPointAndReturn_def bit.conj_disj_distrib2)

lemma insn_flags_Fail [simp]: "insn_flags (Fail i e v) = insn_flags v"
  by (auto simp: Fail_def Let_def split: VerifyError.split)

lemma opcode_at_simps [simp]: "opcode_at (Fail i e v) = opcode_at v" "opcode_at (v\<lparr>resolved_types := r\<rparr>) = opcode_at v"
  by (simp_all add: opcode_at_def fun_eq_iff)

text \<open>A check keeps the positions it has found.\<close>

definition keeps_starts :: "(MethodVerifier \<Rightarrow> verdict) \<Rightarrow> bool" where
  "keeps_starts f \<longleftrightarrow> (\<forall>v b v'. f v = Some (b, v') \<longrightarrow> opcode_at v' = opcode_at v)"

lemma update_flags_starts:
  assumes "update_flags f k v = Some v'" "\<And>x. IsOpcode (f x) = IsOpcode x"
  shows "opcode_at v' = opcode_at v"
proof
  have "k < length (insn_flags v)" "v' = v\<lparr>insn_flags := (insn_flags v)[k := f (insn_flags v ! k)]\<rparr>"
    using assms(1) by (auto simp: update_flags_def split: if_splits)
  then show "opcode_at v' j = opcode_at v j" for j using assms(2) by (cases "j = k") (simp_all add: opcode_at_def)
qed

lemmas flag_updates = update_flags_starts[of SetInTry] update_flags_starts[of SetBranchTarget]
  update_flags_starts[of SetCompileTimeInfoPoint] update_flags_starts[of SetCompileTimeInfoPointAndReturn]

lemma also_check_Some:
  "also_check r f = Some (b, v') \<longleftrightarrow> (\<exists>v. r = Some (True, v) \<and> f v = Some (b, v') \<or> r = Some (False, v) \<and> \<not> b \<and> v' = v)"
  by (auto simp: also_check_def bind_eq_Some_conv split: if_splits)

lemma also_check_starts:
  assumes "also_check r f = Some (b, v')" "\<And>b v. r = Some (b, v) \<Longrightarrow> opcode_at v = o1" "keeps_starts f"
  shows "opcode_at v' = o1"
  using assms by (auto simp: also_check_Some keeps_starts_def)

lemma fail_if_starts: "fail_if i c v = Some (b, v') \<Longrightarrow> opcode_at v' = opcode_at v"
  by (auto simp: fail_if_def split: if_splits)

lemma checks_keep_starts:
  "keeps_starts (CheckRegisterIndex i ci x)" "keeps_starts (CheckWideRegisterIndex i ci x)" "keeps_starts (CheckFieldIndex i x)"
  "keeps_starts (CheckMethodIndex i x)" "keeps_starts (CheckPrototypeIndex i x)" "keeps_starts (CheckStringIndex i x)"
  "keeps_starts (CheckTypeIndex i t)" "keeps_starts (CheckNewInstance i t)" "keeps_starts (CheckNewArray i t)"
  "keeps_starts (CheckVarArgRegs i ci x args)" "keeps_starts (CheckVarArgRangeRegs i ci x y)" "keeps_starts (CheckNotMoveResult i ci k)"
  by (auto simp: keeps_starts_def CheckRegisterIndex_def CheckWideRegisterIndex_def CheckFieldIndex_def CheckMethodIndex_def
      CheckPrototypeIndex_def CheckStringIndex_def CheckTypeIndex_def CheckNewInstance_def CheckNewArray_def CheckVarArgRegs_def
      CheckVarArgRangeRegs_def CheckNotMoveResult_def Let_def split: if_splits dest: fail_if_starts)

lemma CheckArrayData_starts: "keeps_starts (CheckArrayData i ci k)"
  by (auto simp: keeps_starts_def CheckArrayData_def Let_def bind_eq_Some_conv split: if_splits dest: fail_if_starts)

lemma CheckBranchTarget_starts: "keeps_starts (CheckBranchTarget i ci k)"
  by (auto simp: keeps_starts_def CheckBranchTarget_def Let_def bind_eq_Some_conv split: if_splits option.splits dest: flag_updates)

lemma if_bad: "(if c then Some (False, w) else r) = Some (b, v') \<longleftrightarrow> c \<and> \<not> b \<and> v' = w \<or> \<not> c \<and> r = Some (b, v')"
  by auto

lemma CheckSwitch_loop_Suc:
  assumes "CheckSwitch_loop (Suc n) i ci k p t targ v = Some (b, v')"
  defines "o1 \<equiv> k + Fetch32 p (t + targ * 2)"
  shows "\<not> b \<and> v' = Fail i VERIFY_ERROR_BAD_CLASS_HARD v
    \<or> (\<exists>f v1. 0 \<le> sint o1 \<and> sint o1 < sint (insns_size_in_code_units ci) \<and> GetInstructionFlags v (unat o1) = Some f \<and> IsOpcode f
         \<and> update_flags SetBranchTarget (unat o1) v = Some v1 \<and> CheckSwitch_loop n i ci k p t (Suc targ) v1 = Some (b, v'))"
  using assms(1) unfolding CheckSwitch_loop.simps Let_def if_bad bind_eq_Some_conv o1_def not_less not_le de_Morgan_disj by blast

lemma CheckSwitch_loop_starts: "CheckSwitch_loop n i ci k p t targ v = Some (b, v') \<Longrightarrow> opcode_at v' = opcode_at v"
proof (induction n arbitrary: targ v)
  case (Suc n)
  from CheckSwitch_loop_Suc[OF Suc(2)] show ?case using Suc(1) flag_updates(2) by fastforce
qed simp

lemma CheckSwitchTargets_cases:
  assumes "CheckSwitchTargets i ci k v = Some (b, v')"
  defines "p \<equiv> payload_at ci k (payload_offset ci k)" and "packed \<equiv> ucast (inst_at ci (uint k) 0 AND 0xff) = PACKED_SWITCH"
  shows "\<not> b \<and> v' = Fail i VERIFY_ERROR_BAD_CLASS_HARD v
    \<or> p 0 = (if packed then kPackedSwitchSignature else kSparseSwitchSignature)
      \<and> (1 < unat (p 1) \<and> \<not> packed \<longrightarrow> keys_ascend (unat (p 1) - 1) p 1 (Fetch32 p 2))
      \<and> CheckSwitch_loop (unat (p 1)) i ci k p (if packed then 4 else 2 + 2 * unat (p 1)) 0 v = Some (b, v')"
  using assms(1) unfolding CheckSwitchTargets_def Let_def if_bad bind_eq_Some_conv p_def packed_def by blast

lemma CheckSwitchTargets_starts: "keeps_starts (CheckSwitchTargets i ci k)"
proof -
  have "opcode_at v' = opcode_at v" if "CheckSwitchTargets i ci k v = Some (b, v')" for v b v'
    using CheckSwitchTargets_cases[OF that] by (elim disjE conjE) (simp, rule CheckSwitch_loop_starts)
  then show ?thesis by (simp add: keeps_starts_def)
qed

lemma bind_starts: "(\<And>x. keeps_starts (f x)) \<Longrightarrow> keeps_starts (\<lambda>v. m \<bind> (\<lambda>x. f x v))"
  by (auto simp: keeps_starts_def bind_eq_Some_conv)

lemma if_starts: "keeps_starts f \<Longrightarrow> keeps_starts g \<Longrightarrow> keeps_starts (\<lambda>v. if c then f v else g v)"
  by (simp add: keeps_starts_def)

lemma true_starts: "keeps_starts (\<lambda>v. Some (True, v))"
  by (simp add: keeps_starts_def)

lemma VerifyArguments_starts:
  "keeps_starts (VerifyArgumentA i ci inst)" "keeps_starts (VerifyArgumentB i ci inst)" "keeps_starts (VerifyArgumentC i ci inst)"
  "keeps_starts (VerifyArgumentH i ci inst)"
  unfolding VerifyArgumentA_def[abs_def] VerifyArgumentB_def[abs_def] VerifyArgumentC_def[abs_def] VerifyArgumentH_def[abs_def]
  by (intro if_starts bind_starts true_starts checks_keep_starts)+

lemma VerifyExtra_starts:
  assumes "VerifyExtra i ci inst k r = Some y"
  shows "opcode_at (case y of Inl v \<Rightarrow> v | Inr r \<Rightarrow> snd r) = opcode_at (snd r)"
proof -
  define ok where "ok x \<longleftrightarrow> (\<forall>y. x = Some y \<longrightarrow> opcode_at (case y of Inl v \<Rightarrow> v | Inr r \<Rightarrow> snd r) = opcode_at (snd r))" for x :: "(MethodVerifier + bool \<times> MethodVerifier) option"
  have c: "ok (map_option Inr (also_check (Some r) f))" if "keeps_starts f" for f
    using that also_check_starts[of "Some r" f _ _ "opcode_at (snd r)"] by (auto simp: ok_def)
  have i: "ok x \<Longrightarrow> ok z \<Longrightarrow> ok (if d then x else z)" for x z d by simp
  have b: "(\<And>x. ok (f x)) \<Longrightarrow> ok (m \<bind> f)" for f and m :: "u32 option" by (auto simp: ok_def bind_eq_Some_conv)
  have "ok (VerifyExtra i ci inst k r)"
    unfolding VerifyExtra_def Let_def
    by (intro i b c checks_keep_starts CheckArrayData_starts CheckBranchTarget_starts CheckSwitchTargets_starts) (simp_all add: ok_def)
  then show ?thesis using assms by (simp add: ok_def)
qed

lemma VerifyInstruction_starts: "keeps_starts (VerifyInstruction kAllow i ci inst k)"
proof -
  have "opcode_at v' = opcode_at v" if a: "VerifyInstruction kAllow i ci inst k v = Some (b, v')" for v b v'
  proof -
    obtain r y where r: "also_check (also_check (also_check (VerifyArgumentA i ci inst v) (VerifyArgumentB i ci inst))
            (VerifyArgumentC i ci inst)) (VerifyArgumentH i ci inst) = Some r" "VerifyExtra i ci inst k r = Some y"
        "(case y of Inl v \<Rightarrow> Some (False, v) | Inr (b, v) \<Rightarrow> if \<not> kAllow \<and> GetVerifyIsRuntimeOnly inst
          then Some (False, Fail i VERIFY_ERROR_BAD_CLASS_HARD v) else Some (b, v)) = Some (b, v')"
      using a unfolding VerifyInstruction_def bind_eq_Some_conv by blast
    have "opcode_at (snd r) = opcode_at v"
      using r(1) VerifyArguments_starts[of i ci inst] by (cases r) (auto simp: also_check_Some keeps_starts_def)
    with VerifyExtra_starts[OF r(2)] r(3) show ?thesis by (auto split: sum.splits if_splits)
  qed
  then show ?thesis by (simp add: keeps_starts_def)
qed

lemma flag_instruction_starts: "flag_instruction ci inst k v = Some v' \<Longrightarrow> opcode_at v' = opcode_at v"
  by (auto simp: flag_instruction_def bind_eq_Some_conv Let_def split: if_splits dest!: flag_updates)

section \<open>What the walk finds\<close>

lemma insn_start_less: "insn_start ci k \<Longrightarrow> k < unat (insns_size_in_code_units ci)"
  by (induction rule: insn_start.induct) auto

lemma insn_start_apart: "insn_start ci k \<Longrightarrow> insn_start ci j \<Longrightarrow> j < k \<Longrightarrow> j + width (inst_at ci (int j)) \<le> k"
proof (induction k arbitrary: j rule: less_induct)
  case (less k)
  from less.prems(1) show ?case
  proof (cases rule: insn_start.cases)
    case (following k')
    note 2 = following
    have "k' < k" using 2(1) by simp
    consider "j < k'" | "j = k'" | "k' < j" by linarith
    then show ?thesis
    proof cases
      assume "j < k'"
      then show ?thesis using less.IH[OF \<open>k' < k\<close> 2(2) less.prems(2)] \<open>k' < k\<close> by simp
    next
      assume "k' < j"
      then show ?thesis using less.IH[OF less.prems(3) less.prems(2) 2(2)] 2(1) less.prems(3) by simp
    qed (use 2(1) in simp)
  qed (use less.prems(3) in simp)
qed

text \<open>What the walk has found when it stands at \<open>pc\<close>.\<close>

definition walked :: "CodeItem \<Rightarrow> nat \<Rightarrow> u8 list \<Rightarrow> bool" where
  "walked ci pc flags \<longleftrightarrow>
     length flags = unat (insns_size_in_code_units ci)
     \<and> (pc = 0 \<or> (\<exists>k. insn_start ci k \<and> pc = k + width (inst_at ci (int k))))
     \<and> (\<forall>j < unat (insns_size_in_code_units ci). IsOpcode (flags ! j) \<longleftrightarrow> insn_start ci j \<and> j < pc)"

lemma walked_start:
  assumes "walked ci pc flags" "pc < unat (insns_size_in_code_units ci)"
  shows "insn_start ci pc"
  using assms by (auto simp: walked_def intro: insn_start.intros)

lemma walked_next:
  assumes "walked ci pc flags" "pc < unat (insns_size_in_code_units ci)"
  shows "walked ci (pc + width (inst_at ci (int pc))) (flags[pc := SetIsOpcode (flags ! pc)])"
proof -
  note s = walked_start[OF assms]
  have "insn_start ci j \<and> j < pc + width (inst_at ci (int pc)) \<longleftrightarrow> insn_start ci j \<and> j < pc \<or> j = pc" for j
    using s insn_start_apart[of ci j pc] width_pos[of "inst_at ci (int pc)"] by (cases j pc rule: linorder_cases) auto
  then show ?thesis using assms s unfolding walked_def by (auto simp: nth_list_update)
qed

lemma ComputeWidths_loop_walks:
  "walked ci pc flags \<Longrightarrow> ComputeWidths_loop ci pc flags c = (pc', flags', c')
    \<Longrightarrow> walked ci pc' flags' \<and> unat (insns_size_in_code_units ci) \<le> pc'"
proof (induction ci pc flags c rule: ComputeWidths_loop.induct)
  case (1 ci pc flags c)
  then show ?case using walked_next[OF 1(2)]
    by (cases "pc < unat (insns_size_in_code_units ci)") (auto simp: ComputeWidths_loop.simps[of ci pc] Let_def)
qed

text \<open>The code is a sequence of whole instructions.\<close>

definition whole_instructions :: "CodeItem \<Rightarrow> bool" where
  "whole_instructions ci \<longleftrightarrow>
     (\<forall>k. insn_start ci k \<longrightarrow> k + width (inst_at ci (int k)) \<le> unat (insns_size_in_code_units ci))"

lemma walked_whole:
  assumes "walked ci pc flags" "pc = unat (insns_size_in_code_units ci)"
  shows "whole_instructions ci"
proof -
  have "k + width (inst_at ci (int k)) \<le> pc" if k: "insn_start ci k" for k
  proof -
    have "k < pc" using insn_start_less[OF k] assms(2) by simp
    then obtain j where j: "insn_start ci j" "pc = j + width (inst_at ci (int j))" using assms(1) by (auto simp: walked_def)
    show ?thesis using insn_start_apart[OF j(1) k] insn_start_apart[OF k j(1)] j \<open>k < pc\<close> by (cases j k rule: linorder_cases) auto
  qed
  then show ?thesis using assms(2) by (simp add: whole_instructions_def)
qed

lemma walked_0: "walked ci 0 (replicate (unat (insns_size_in_code_units ci)) 0)"
  by (simp add: walked_def)

lemma ComputeWidths_starts:
  assumes "ComputeWidthsAndCountOps i ci v = Some (b, v')" "insn_flags v = replicate (unat (insns_size_in_code_units ci)) 0"
  shows "length (insn_flags v') = unat (insns_size_in_code_units ci) \<and> opcode_at v' = insn_start ci
    \<and> (if b then whole_instructions ci else have_pending_hard_failure v')"
proof -
  obtain pc flags c where l: "ComputeWidths_loop ci 0 (insn_flags v)
      \<lparr>seen_check_casts = has_check_casts v, seen_virtual_or_interface_invokes = has_virtual_or_interface_invokes v,
       monitor_enters = 0, new_instances = 0\<rparr> = (pc, flags, c)" by (metis prod_cases3)
  have w: "walked ci pc flags" "unat (insns_size_in_code_units ci) \<le> pc"
    using ComputeWidths_loop_walks[OF walked_0, of ci _ pc flags c] l assms(2) by auto
  have f: "insn_flags v' = flags" using assms(1) l by (auto simp: ComputeWidthsAndCountOps_def Let_def split: if_splits)
  have "opcode_at v' = insn_start ci"
    using w insn_start_less[of ci] by (fastforce simp: opcode_at_def fun_eq_iff f walked_def)
  moreover have "b \<Longrightarrow> pc = unat (insns_size_in_code_units ci)" "\<not> b \<Longrightarrow> have_pending_hard_failure v'"
    using assms(1) l by (auto simp: ComputeWidthsAndCountOps_def Let_def Fail_def split: if_splits)
  ultimately show ?thesis using w f walked_whole[OF w(1)] by (auto simp: walked_def)
qed

section \<open>Every check returns\<close>

text \<open>A check of a method of \<open>n\<close> code units stays inside the flags, and a rejection is recorded.\<close>

definition returns :: "nat \<Rightarrow> (MethodVerifier \<Rightarrow> verdict) \<Rightarrow> bool" where
  "returns n f \<longleftrightarrow> (\<forall>v. length (insn_flags v) = n \<longrightarrow>
     (case f v of None \<Rightarrow> False | Some (b, v') \<Rightarrow> length (insn_flags v') = n \<and> (b \<or> have_pending_hard_failure v')))"

lemma hard_Fail [simp]: "have_pending_hard_failure (Fail i VERIFY_ERROR_BAD_CLASS_HARD v)"
  by (simp add: Fail_def Let_def)

lemma returns_bad: "returns n (\<lambda>v. Some (False, Fail i VERIFY_ERROR_BAD_CLASS_HARD v))"
  by (simp add: returns_def)

lemma returns_true: "returns n (\<lambda>v. Some (True, v))" "returns n (\<lambda>v. Some (True, Fail i e v))"
  by (simp_all add: returns_def)

lemma returns_fail_if: "returns n (fail_if i c)"
  by (simp add: returns_def fail_if_def)

lemma returns_if: "(c \<Longrightarrow> returns n f) \<Longrightarrow> (\<not> c \<Longrightarrow> returns n g) \<Longrightarrow> returns n (\<lambda>v. if c then f v else g v)"
  by (simp add: returns_def)

lemma returns_bind: "m = Some x \<Longrightarrow> returns n (f x) \<Longrightarrow> returns n (\<lambda>v. m \<bind> (\<lambda>x. f x v))"
  by simp

lemma returnsE:
  assumes "returns n f" "length (insn_flags v) = n"
  obtains b v' where "f v = Some (b, v')" "length (insn_flags v') = n" "b \<or> have_pending_hard_failure v'"
proof -
  have "case f v of None \<Rightarrow> False | Some (b, v') \<Rightarrow> length (insn_flags v') = n \<and> (b \<or> have_pending_hard_failure v')"
    using assms unfolding returns_def by blast
  then show thesis using that by (cases "f v") auto
qed

lemma returns_also:
  assumes "returns n f" "returns n g"
  shows "returns n (\<lambda>v. also_check (f v) g)"
  unfolding returns_def
proof (intro allI impI)
  fix v :: MethodVerifier assume v: "length (insn_flags v) = n"
  obtain b v1 where f: "f v = Some (b, v1)" "length (insn_flags v1) = n" "b \<or> have_pending_hard_failure v1"
    using returnsE[OF assms(1) v] .
  obtain b' v' where "g v1 = Some (b', v')" "length (insn_flags v') = n" "b' \<or> have_pending_hard_failure v'"
    using returnsE[OF assms(2) f(2)] .
  with f show "case also_check (f v) g of None \<Rightarrow> False
      | Some (b, v') \<Rightarrow> length (insn_flags v') = n \<and> (b \<or> have_pending_hard_failure v')"
    by (auto simp: also_check_def)
qed

lemma returns_flags:
  "k < n \<Longrightarrow> (\<And>x. returns n (f x)) \<Longrightarrow> returns n (\<lambda>v. GetInstructionFlags v k \<bind> (\<lambda>x. f x v))"
  by (simp add: returns_def GetInstructionFlags_def)

lemma returns_update: "k < n \<Longrightarrow> returns n f \<Longrightarrow> returns n (\<lambda>v. update_flags g k v \<bind> f)"
  by (simp add: returns_def update_flags_def)

lemma checks_return:
  "returns n (CheckRegisterIndex i ci x)" "returns n (CheckWideRegisterIndex i ci x)" "returns n (CheckFieldIndex i x)"
  "returns n (CheckMethodIndex i x)" "returns n (CheckPrototypeIndex i x)" "returns n (CheckStringIndex i x)"
  "returns n (CheckTypeIndex i t)" "returns n (CheckNewInstance i t)" "returns n (CheckNewArray i t)"
  "returns n (CheckVarArgRegs i ci x args)" "returns n (CheckVarArgRangeRegs i ci x y)" "returns n (CheckNotMoveResult i ci k)"
  unfolding CheckRegisterIndex_def CheckWideRegisterIndex_def CheckFieldIndex_def CheckMethodIndex_def
      CheckPrototypeIndex_def CheckStringIndex_def CheckTypeIndex_def CheckNewInstance_def[abs_def] CheckNewArray_def[abs_def]
      CheckVarArgRegs_def CheckVarArgRangeRegs_def CheckNotMoveResult_def[abs_def] Let_def
  by (intro returns_if returns_fail_if returns_true returns_bad)+

lemma nonneg_word:
  assumes "0 \<le> sint (x :: u32)"
  shows "uint x = sint x" "unat x < 2 ^ 31"
proof -
  have "sint x < 2 ^ 31" using sint_range_size[of x] by (simp add: size_word.rep_eq)
  then show "uint x = sint x" using assms by (simp add: uint_sint take_bit_int_eq_self)
  then show "unat x < 2 ^ 31" using \<open>sint x < 2 ^ 31\<close> by (metis int_less_uint of_nat_less_numeral_iff of_nat_numeral of_nat_power unat_eq_nat_uint nat_less_iff unsigned_greater_eq)
qed

lemma payload_inside:
  assumes "\<not> (sint (x :: u32) < 0 \<or> n < x + 2)"
  shows "unat x < unat n"
proof -
  have "unat (x + 2) = unat x + 2" using nonneg_word(2)[of x] assms by (simp add: unat_word_ariths)
  then show ?thesis using assms by (simp add: word_less_nat_alt)
qed

lemma CheckArrayData_returns: "returns (unat (insns_size_in_code_units ci)) (CheckArrayData i ci k)"
  unfolding CheckArrayData_def[abs_def] Let_def
  by (intro returns_if returns_bad returns_flags returns_fail_if payload_inside) auto

lemma CheckBranchTarget_returns:
  assumes "GetBranchOffset ci k = Some (offset, c, self)"
  shows "returns (unat (insns_size_in_code_units ci)) (CheckBranchTarget i ci k)"
  unfolding CheckBranchTarget_def[abs_def] Let_def assms option.case prod.case
  by (intro returns_if returns_bad returns_flags returns_update returns_true) (simp_all add: word_less_nat_alt not_le)

lemma CheckSwitch_loop_returns: "returns (unat (insns_size_in_code_units ci)) (CheckSwitch_loop n i ci k p t targ)"
proof (induction n arbitrary: targ)
  case (Suc n)
  have *: "unat x < unat y" if "\<not> (sint x < 0 \<or> sint y \<le> sint x)" for x y :: u32
    using that nonneg_word(1)[of x] nonneg_word(1)[of y] by (simp add: word_less_def flip: word_less_nat_alt)
  show ?case unfolding CheckSwitch_loop.simps Let_def
    by (intro returns_if returns_bad returns_flags returns_update Suc *)
qed (simp add: returns_def)

lemma CheckSwitchTargets_returns: "returns (unat (insns_size_in_code_units ci)) (CheckSwitchTargets i ci k)"
  unfolding CheckSwitchTargets_def[abs_def] Let_def
  by (intro returns_if returns_bad returns_flags CheckSwitch_loop_returns payload_inside)

text \<open>The instruction table, opcode by opcode.\<close>

lemma codes_of_rows:
  assumes "map fst (filter (\<lambda>(c, r). P r) (zip (map word_of_int [0..255]) DEX_INSTRUCTION_LIST)) = cs"
  shows "P (DEX_INSTRUCTION_LIST ! unat (c :: Code)) \<longleftrightarrow> c \<in> set cs"
proof -
  let ?codes = "map word_of_int [0..255] :: Code list"
  have nth: "?codes ! k = of_nat k" if "k < 256" for k using that by (simp add: nth_upto)
  have u: "unat c < 256" "of_nat (unat c) = c" using unsigned_less[where ?'a = nat, of c] by simp_all
  have "(c, r) \<in> set (zip ?codes DEX_INSTRUCTION_LIST) \<longleftrightarrow> r = DEX_INSTRUCTION_LIST ! unat c" for r
  proof
    assume "(c, r) \<in> set (zip ?codes DEX_INSTRUCTION_LIST)"
    then obtain k where k: "k < 256" "c = ?codes ! k" "r = DEX_INSTRUCTION_LIST ! k" by (auto simp: set_zip length_list)
    then have "unat c = k" using nth[OF k(1)] by (simp add: unsigned_of_nat take_bit_nat_eq_self)
    then show "r = DEX_INSTRUCTION_LIST ! unat c" using k by simp
  next
    assume r: "r = DEX_INSTRUCTION_LIST ! unat c"
    show "(c, r) \<in> set (zip ?codes DEX_INSTRUCTION_LIST)"
      using u nth[OF u(1)] r by (auto simp: set_zip length_list intro!: exI[of _ "unat c"])
  qed
  moreover have "c \<in> set cs \<longleftrightarrow> (\<exists>r. (c, r) \<in> set (zip ?codes DEX_INSTRUCTION_LIST) \<and> P r)"
    unfolding assms[symmetric] by (force simp: image_iff)
  ultimately show ?thesis by simp
qed

definition branch_codes :: "Code list" where
  "branch_codes = [GOTO, GOTO_16, GOTO_32, IF_EQ, IF_NE, IF_LT, IF_GE, IF_GT, IF_LE, IF_EQZ, IF_NEZ, IF_LTZ, IF_GEZ, IF_GTZ, IF_LEZ]"

definition extra_flags :: "u32 \<Rightarrow> u32" where
  "extra_flags vflags = vflags AND
     (kVerifyArrayData OR kVerifyBranchTarget OR kVerifySwitchTargets OR kVerifyVarArg OR kVerifyVarArgNonZero OR
      kVerifyVarArgRange OR kVerifyVarArgRangeNonZero OR kVerifyError)"

definition extra_of :: "Code \<Rightarrow> u32" where
  "extra_of c = extra_flags (VerifyFlagsOf c)"

lemma branch_rows: "map fst (filter (\<lambda>(c, r). snd (snd (snd r)) AND kBranch \<noteq> 0) (zip (map word_of_int [0..255]) DEX_INSTRUCTION_LIST)) = branch_codes"
  by code_simp

lemma switch_rows: "map fst (filter (\<lambda>(c, r). snd (snd (snd r)) AND kSwitch \<noteq> 0) (zip (map word_of_int [0..255]) DEX_INSTRUCTION_LIST))
    = [PACKED_SWITCH, SPARSE_SWITCH]"
  by code_simp

lemma extra_rows:
  "list_all (\<lambda>(vflags, format, index, flags). (extra_flags vflags = kVerifyBranchTarget \<longleftrightarrow> flags AND kBranch \<noteq> 0)
      \<and> (extra_flags vflags = kVerifySwitchTargets \<longleftrightarrow> flags AND kSwitch \<noteq> 0)
      \<and> (extra_flags vflags = kVerifyVarArgRangeNonZero \<or> extra_flags vflags = kVerifyVarArgRange
          \<longrightarrow> format = k3rc \<or> format = k4rcc)) DEX_INSTRUCTION_LIST"
  by code_simp

lemma extra_table:
  "FlagsOf c AND kBranch \<noteq> 0 \<longleftrightarrow> c \<in> set branch_codes"
  "FlagsOf c AND kSwitch \<noteq> 0 \<longleftrightarrow> c \<in> {PACKED_SWITCH, SPARSE_SWITCH}"
  "extra_of c = kVerifyBranchTarget \<longleftrightarrow> FlagsOf c AND kBranch \<noteq> 0"
  "extra_of c = kVerifySwitchTargets \<longleftrightarrow> FlagsOf c AND kSwitch \<noteq> 0"
  "extra_of c \<in> {kVerifyVarArgRangeNonZero, kVerifyVarArgRange} \<Longrightarrow> FormatOf c \<in> {k3rc, k4rcc}"
  using codes_of_rows[OF branch_rows, of c] codes_of_rows[OF switch_rows, of c] list_row[OF extra_rows, of c]
  by (auto simp: FlagsOf_def extra_of_def FormatOf_def VerifyFlagsOf_def split: prod.splits)

lemma GetVerifyExtraFlags_of: "GetVerifyExtraFlags inst = extra_of (Opcode inst)"
  by (simp add: GetVerifyExtraFlags_def extra_of_def extra_flags_def)

lemma flagged_operands:
  "\<exists>a. VRegA inst = Some a"
  "GetVerifyTypeArgumentB inst \<noteq> 0 \<Longrightarrow> \<exists>b. VRegB inst = Some b"
  "GetVerifyTypeArgumentC inst \<noteq> 0 \<Longrightarrow> \<exists>c. VRegC inst = Some c"
  "GetVerifyTypeArgumentH inst \<noteq> 0 \<Longrightarrow> \<exists>h. VRegH inst = Some h"
  "GetVerifyExtraFlags inst \<in> {kVerifyVarArgRangeNonZero, kVerifyVarArgRange} \<Longrightarrow> \<exists>c. VRegC inst = Some c"
proof -
  note f = row_facts[of "Opcode inst"]
  show "\<exists>a. VRegA inst = Some a" by (simp add: VRegA_def split: Format.split)
  assume "GetVerifyTypeArgumentB inst \<noteq> 0"
  then have "FormatOf (Opcode inst) \<notin> {k10t, k10x, k11x, k20t, k30t}" unfolding GetVerifyTypeArgumentB_def using f by blast
  then show "\<exists>b. VRegB inst = Some b" unfolding VRegB_def by (cases "FormatOf (Opcode inst)") auto
next
  assume "GetVerifyTypeArgumentC inst \<noteq> 0"
  then have "FormatOf (Opcode inst) \<in> {k22b, k22c, k22s, k22t, k23x, k35c, k3rc, k45cc, k4rcc}"
    unfolding GetVerifyTypeArgumentC_def using row_facts[of "Opcode inst"] by blast
  then show "\<exists>c. VRegC inst = Some c" unfolding VRegC_def by auto
next
  assume "GetVerifyTypeArgumentH inst \<noteq> 0"
  then have "FormatOf (Opcode inst) \<in> {k45cc, k4rcc}" unfolding GetVerifyTypeArgumentH_def using row_facts[of "Opcode inst"] by blast
  then show "\<exists>h. VRegH inst = Some h" unfolding VRegH_def by auto
next
  assume "GetVerifyExtraFlags inst \<in> {kVerifyVarArgRangeNonZero, kVerifyVarArgRange}"
  then show "\<exists>c. VRegC inst = Some c" using extra_table(5)[of "Opcode inst"] by (auto simp: GetVerifyExtraFlags_of VRegC_def)
qed

lemma returns_operand: "\<exists>x. m = Some x \<Longrightarrow> (\<And>x. returns n (f x)) \<Longrightarrow> returns n (\<lambda>v. m \<bind> (\<lambda>x. f x v))"
  by (auto simp: returns_def)

lemma VerifyArguments_return:
  "returns n (VerifyArgumentA i ci inst)" "returns n (VerifyArgumentB i ci inst)" "returns n (VerifyArgumentC i ci inst)"
  "returns n (VerifyArgumentH i ci inst)"
  unfolding VerifyArgumentA_def[abs_def] VerifyArgumentB_def[abs_def] VerifyArgumentC_def[abs_def] VerifyArgumentH_def[abs_def]
  by (intro returns_if returns_operand returns_true checks_return flagged_operands; simp)+


lemma GetBranchOffset_branch: "IsBranch (inst_at ci (uint k)) \<Longrightarrow> GetBranchOffset ci k \<noteq> None"
proof -
  assume "IsBranch (inst_at ci (uint k))"
  then have "Opcode (inst_at ci (uint k)) \<in> set branch_codes" by (simp add: IsBranch_def extra_table(1))
  then show ?thesis by (auto simp: GetBranchOffset_def Let_def Opcode_def Fetch16_def branch_codes_def)
qed

end
