(* ===== verification/Dex_File_Verifier.thy ===== *)
theory Dex_File_Verifier
  imports Code_Item
begin

text \<open>
  The part of \<open>dex_file_verifier.cc\<close> that accepts a code item: the sizes, the padding, the catch handler lists
  and the try items.  An \<open>ErrorStringPrintf\<close> followed by \<open>return false\<close> is a value of
  \<open>failure\<close>.  The theorem says what the lookups of \<open>Code_Item\<close> may rely on in an accepted item.
\<close>

section \<open>Checks\<close>

datatype failure =
    OverflowInRange | BadRange | BadIndex | ReadOutOfBounds
  | InsSizeTooLarge | OutsSizeTooLarge | NonZeroPadding
  | InvalidHandlersSize | InvalidExceptionHandlerSize | InvalidHandlerAddr | InvalidHandlerCatchAllAddr
  | OutOfOrderTryItem | InvalidTryItemStartAddr | BogusHandlerOffset | InvalidTryItemInsnCount

text \<open>The mapped file, and the size of its table of types from the header.\<close>

record DexFileVerifier =
  file_begin :: nat
  file_size :: nat
  type_ids_size :: u32

definition file_end :: "DexFileVerifier \<Rightarrow> nat" where
  "file_end v = file_begin v + file_size v"

definition CheckListSize :: "DexFileVerifier \<Rightarrow> nat \<Rightarrow> nat \<Rightarrow> nat \<Rightarrow> failure option" where
  "CheckListSize v start count elem_size =
     (let max_count = (2 ^ 64 - 1 - start) div elem_size
      in if max_count < count then Some OverflowInRange
         else if start < file_begin v \<or> file_end v < start + count * elem_size then Some BadRange
         else None)"

definition CheckIndex :: "u32 \<Rightarrow> u32 \<Rightarrow> failure option" where
  "CheckIndex field limit = (if limit \<le> field then Some BadIndex else None)"

text \<open>The typed handlers of one list; the result is the address behind them.\<close>

primrec CheckHandlers_loop :: "nat \<Rightarrow> DexFileVerifier \<Rightarrow> CodeItem \<Rightarrow> nat \<Rightarrow> failure + nat" where
  "CheckHandlers_loop 0 v code_item ptr = Inr ptr"
| "CheckHandlers_loop (Suc n) v code_item ptr =
     (case DecodeUnsignedLeb128Checked (file_bytes code_item) ptr (file_end v) of
        None \<Rightarrow> Inl ReadOutOfBounds
      | Some (idx, ptr) \<Rightarrow>
          (case CheckIndex idx (type_ids_size v) of
             Some e \<Rightarrow> Inl e
           | None \<Rightarrow>
               (case DecodeUnsignedLeb128Checked (file_bytes code_item) ptr (file_end v) of
                  None \<Rightarrow> Inl ReadOutOfBounds
                | Some (addr, ptr) \<Rightarrow>
                    if insns_size_in_code_units code_item \<le> addr then Inl InvalidHandlerAddr
                    else CheckHandlers_loop n v code_item ptr)))"

definition CheckCatchAll :: "DexFileVerifier \<Rightarrow> CodeItem \<Rightarrow> nat \<Rightarrow> failure + nat" where
  "CheckCatchAll v code_item ptr =
     (case DecodeUnsignedLeb128Checked (file_bytes code_item) ptr (file_end v) of
        None \<Rightarrow> Inl ReadOutOfBounds
      | Some (addr, ptr) \<Rightarrow>
          if insns_size_in_code_units code_item \<le> addr then Inl InvalidHandlerCatchAllAddr else Inr ptr)"

definition CheckHandlerList :: "DexFileVerifier \<Rightarrow> CodeItem \<Rightarrow> nat \<Rightarrow> failure + nat" where
  "CheckHandlerList v code_item ptr =
     (case DecodeSignedLeb128Checked (file_bytes code_item) ptr (file_end v) of
        None \<Rightarrow> Inl ReadOutOfBounds
      | Some (n, ptr) \<Rightarrow>
          if sint n < -65536 \<or> 65536 < sint n then Inl InvalidExceptionHandlerSize
          else
            let catch_all = sint n \<le> 0;
                n = (if catch_all then - n else n)
            in (case CheckHandlers_loop (nat (sint n)) v code_item ptr of
                  Inl e \<Rightarrow> Inl e
                | Inr ptr \<Rightarrow> if catch_all then CheckCatchAll v code_item ptr else Inr ptr))"

text \<open>The offsets are stored as they are found; the result also has the address behind the lists.\<close>

primrec CheckAndGetHandlerOffsets :: "nat \<Rightarrow> DexFileVerifier \<Rightarrow> CodeItem \<Rightarrow> nat \<Rightarrow> failure + u32 list \<times> nat" where
  "CheckAndGetHandlerOffsets 0 v code_item ptr = Inr ([], ptr)"
| "CheckAndGetHandlerOffsets (Suc n) v code_item ptr =
     (let offset = ptr - GetCatchHandlerData code_item 0
      in case CheckHandlerList v code_item ptr of
           Inl e \<Rightarrow> Inl e
         | Inr ptr \<Rightarrow>
             (case CheckAndGetHandlerOffsets n v code_item ptr of
                Inl e \<Rightarrow> Inl e
              | Inr (offsets, ptr) \<Rightarrow> Inr (of_nat offset # offsets, ptr)))"

primrec CheckTryItems :: "nat \<Rightarrow> CodeItem \<Rightarrow> u32 list \<Rightarrow> nat \<Rightarrow> u32 \<Rightarrow> failure option" where
  "CheckTryItems 0 code_item handler_offsets i last_addr = None"
| "CheckTryItems (Suc n) code_item handler_offsets i last_addr =
     (let ti = try_item code_item i; insns_size = insns_size_in_code_units code_item
      in if start_addr ti < last_addr then Some OutOfOrderTryItem
         else if insns_size \<le> start_addr ti then Some InvalidTryItemStartAddr
         else if ucast (handler_off ti) \<notin> set handler_offsets then Some BogusHandlerOffset
         else
           let last_addr = start_addr ti + ucast (insn_count ti)
           in if insns_size < last_addr then Some InvalidTryItemInsnCount
              else CheckTryItems n code_item handler_offsets (Suc i) last_addr)"

definition CheckIntraCodeItem :: "DexFileVerifier \<Rightarrow> CodeItem \<Rightarrow> failure + nat" where
  "CheckIntraCodeItem v code_item =
     (case CheckListSize v (item_at code_item) 1 20 of
        Some e \<Rightarrow> Inl e
      | None \<Rightarrow>
          if registers_size code_item < ins_size code_item then Inl InsSizeTooLarge
          else if 5 < outs_size code_item \<and> registers_size code_item < outs_size code_item then Inl OutsSizeTooLarge
          else
            let insns_size = unat (insns_size_in_code_units code_item);
                insns_end = insns_address code_item insns_size
            in (case CheckListSize v (insns_address code_item 0) insns_size 2 of
                  Some e \<Rightarrow> Inl e
                | None \<Rightarrow>
                    if tries_size code_item = 0 then Inr insns_end
                    else if insns_end mod 4 \<noteq> 0 \<and> code_insns code_item insns_size \<noteq> 0 then Inl NonZeroPadding
                    else
                      (case CheckListSize v (GetTryItems code_item 0) (unat (tries_size code_item)) 8 of
                         Some e \<Rightarrow> Inl e
                       | None \<Rightarrow>
                           (case DecodeUnsignedLeb128Checked (file_bytes code_item) (GetCatchHandlerData code_item 0) (file_end v) of
                              None \<Rightarrow> Inl ReadOutOfBounds
                            | Some (handlers_size, ptr) \<Rightarrow>
                                if handlers_size = 0 \<or> 65536 \<le> handlers_size then Inl InvalidHandlersSize
                                else
                                  (case CheckAndGetHandlerOffsets (unat handlers_size) v code_item ptr of
                                     Inl e \<Rightarrow> Inl e
                                   | Inr (handler_offsets, ptr) \<Rightarrow>
                                       (case CheckTryItems (unat (tries_size code_item)) code_item handler_offsets 0 0 of
                                          Some e \<Rightarrow> Inl e
                                        | None \<Rightarrow> Inr ptr))))))"

section \<open>What an accepted code item has\<close>

text \<open>A typed handler names a type of the table, and the handlers are in the code; the list has the catch-all handler at
  most at its end.\<close>

definition handlers_valid :: "DexFileVerifier \<Rightarrow> CodeItem \<Rightarrow> (u16 \<times> u32) list \<Rightarrow> bool" where
  "handlers_valid v ci hs \<longleftrightarrow>
     hs \<noteq> [] \<and> (\<forall>(t, a) \<in> set hs. a < insns_size_in_code_units ci)
     \<and> (\<forall>(t, a) \<in> set (butlast hs). ucast t < type_ids_size v)
     \<and> (ucast (fst (last hs)) < type_ids_size v \<or> fst (last hs) = kDexNoIndex16)"

definition pairs_valid :: "DexFileVerifier \<Rightarrow> CodeItem \<Rightarrow> (u16 \<times> u32) list \<Rightarrow> bool" where
  "pairs_valid v ci hs \<longleftrightarrow> (\<forall>(t, a) \<in> set hs. a < insns_size_in_code_units ci \<and> ucast t < type_ids_size v)"

lemma checked_Some:
  "DecodeUnsignedLeb128Checked m p e = Some (x, q) \<Longrightarrow> DecodeUnsignedLeb128 m p = (x, q) \<and> p < q \<and> q \<le> e"
  "DecodeSignedLeb128Checked m p e = Some (x, q) \<Longrightarrow> DecodeSignedLeb128 m p = (x, q) \<and> q \<le> e"
  using decode_end_bounds[of m p x q]
  by (auto simp: DecodeUnsignedLeb128Checked_eq DecodeSignedLeb128Checked_eq split: prod.splits if_splits)

lemma small_type_idx:
  assumes "(idx :: u32) < limit" "limit \<le> 0xffff"
  shows "ucast (ucast idx :: u16) = idx"
proof -
  have "unat idx < 2 ^ 16" using assms by (simp add: word_less_nat_alt word_le_nat_alt)
  then show ?thesis by (intro unsigned_word_eqI[where ?'a = nat]) (simp add: unsigned_ucast_eq unsigned_take_bit_eq take_bit_nat_eq_self)
qed

lemma CheckHandlers_loop_reads:
  assumes "type_ids_size v \<le> 0xffff" "CheckHandlers_loop n v ci p = Inr q"
  shows "\<exists>hs. read_pairs n (file_bytes ci) p = (hs, q) \<and> length hs = n \<and> pairs_valid v ci hs \<and> p \<le> q
    \<and> skip_unsigned (n + n) (file_bytes ci) p = q \<and> (0 < n \<longrightarrow> q \<le> file_end v)"
  using assms(2)
proof (induction n arbitrary: p)
  case (Suc n)
  obtain idx p1 where 1: "DecodeUnsignedLeb128Checked (file_bytes ci) p (file_end v) = Some (idx, p1)" "idx < type_ids_size v"
    using Suc(2) by (auto simp: CheckIndex_def not_le split: option.splits if_splits)
  obtain a p2 where 2: "DecodeUnsignedLeb128Checked (file_bytes ci) p1 (file_end v) = Some (a, p2)" "a < insns_size_in_code_units ci"
      "CheckHandlers_loop n v ci p2 = Inr q"
    using Suc(2) 1 by (auto simp: CheckIndex_def not_le split: option.splits if_splits)
  show ?case using Suc(1)[OF 2(3)] checked_Some(1)[OF 1(1)] checked_Some(1)[OF 2(1)] 1(2) 2(2) small_type_idx[OF 1(2) assms(1)]
    by (cases n) (auto simp: pairs_valid_def)
qed (simp add: pairs_valid_def)

lemma CheckCatchAll_reads:
  assumes "CheckCatchAll v ci p = Inr q"
  obtains a where "DecodeUnsignedLeb128 (file_bytes ci) p = (a, q)" "a < insns_size_in_code_units ci" "p < q" "q \<le> file_end v"
  using assms checked_Some(1)[of "file_bytes ci" p "file_end v"]
  by (auto simp: CheckCatchAll_def not_le split: option.splits if_splits)

lemma signed_end_bounds: "DecodeSignedLeb128 m p = (v, e) \<Longrightarrow> p < e"
  by (auto simp: DecodeSignedLeb128_def Let_def split: if_splits)

lemma twice_count:
  assumes "\<not> sint (n :: u32) < -65536" "\<not> 65536 < sint n"
  shows "sint (n * 2) = 2 * sint n" "sint (- (n * 2) + 1) = 1 - 2 * sint n" "sint (- n) = - sint n"
  using assms by (simp_all add: sint_word_ariths signed_take_bit_int_eq_self)

lemma skip_unsigned_Suc: "skip_unsigned (Suc n) m p = snd (DecodeUnsignedLeb128 m (skip_unsigned n m p))"
  by (induction n arbitrary: p) simp_all

lemma CheckHandlerList_reads:
  assumes "type_ids_size v \<le> 0xffff" "CheckHandlerList v ci p = Inr q"
  shows "\<exists>hs. handlers_at (file_bytes ci) p = (hs, q) \<and> handlers_valid v ci hs \<and> p < q \<and> q \<le> file_end v
    \<and> sint (fst (DecodeSignedLeb128 (file_bytes ci) p)) \<noteq> - (2 ^ 31)
    \<and> (\<forall>k. skip_handlers (Suc k) (file_bytes ci) p = skip_handlers k (file_bytes ci) q)"
proof -
  let ?m = "file_bytes ci"
  obtain n p1 where 1: "DecodeSignedLeb128Checked ?m p (file_end v) = Some (n, p1)" "\<not> sint n < -65536" "\<not> 65536 < sint n"
    using assms(2) by (auto simp: CheckHandlerList_def split: option.splits if_splits)
  note d = checked_Some(2)[OF 1(1)] and t = twice_count[OF 1(2,3)]
  define k where "k = nat \<bar>sint n\<bar>"
  have k: "nat (sint (if sint n \<le> 0 then - n else n)) = k" using t(3) by (simp add: k_def)
  obtain p2 where 2: "CheckHandlers_loop k v ci p1 = Inr p2" "(if sint n \<le> 0 then CheckCatchAll v ci p2 else Inr p2) = Inr q"
    using assms(2) 1 k by (auto simp: CheckHandlerList_def Let_def split: sum.splits)
  obtain hs where h: "read_pairs k ?m p1 = (hs, p2)" "length hs = k" "pairs_valid v ci hs" "p1 \<le> p2" "skip_unsigned (k + k) ?m p1 = p2"
      "0 < k \<longrightarrow> p2 \<le> file_end v"
    using CheckHandlers_loop_reads[OF assms(1) 2(1)] by blast
  have p: "p < p1" using d signed_end_bounds[of ?m p n p1] by blast
  show ?thesis
  proof (cases "sint n \<le> 0")
    case True
    then obtain a where a: "DecodeUnsignedLeb128 ?m p2 = (a, q)" "a < insns_size_in_code_units ci" "p2 < q" "q \<le> file_end v"
      using 2(2) by (auto elim: CheckCatchAll_reads)
    have c: "nat (1 - 2 * sint n) = Suc (k + k)" using True by (simp add: k_def)
    have s: "skip_unsigned (Suc (k + k)) ?m p1 = q" using h(5) a(1) by (simp add: skip_unsigned_Suc del: skip_unsigned.simps)
    have "handlers_at ?m p = (hs @ [(kDexNoIndex16, a)], q)"
      using d True h(1) a(1) by (simp add: handlers_at_def read_handlers_def k_def)
    moreover have "handlers_valid v ci (hs @ [(kDexNoIndex16, a)])"
      using h(3) a(2) by (auto simp: handlers_valid_def pairs_valid_def)
    ultimately show ?thesis using d p h a 1 True s t by (simp add: c)
  next
    case False
    have c: "nat (2 * sint n) = k + k" using False by (simp add: k_def)
    have "handlers_at ?m p = (hs, q)" using d False h(1) 2(2) by (simp add: handlers_at_def read_handlers_def k_def)
    moreover have "hs \<noteq> []" using h(2) False by (auto simp: k_def)
    then have "handlers_valid v ci hs" using h(3) last_in_set[of hs]
      by (auto simp: handlers_valid_def pairs_valid_def split_beta dest: in_set_butlastD)
    moreover have "0 < k" using False by (simp add: k_def)
    ultimately show ?thesis using d p h 1 2 False t by (simp add: c)
  qed
qed

definition handler_list_at :: "DexFileVerifier \<Rightarrow> CodeItem \<Rightarrow> nat \<Rightarrow> bool" where
  "handler_list_at v ci k \<longleftrightarrow>
     (let p = GetCatchHandlerData ci k
      in p < file_end v \<and> handlers_valid v ci (fst (handlers_at (file_bytes ci) p))
         \<and> sint (fst (DecodeSignedLeb128 (file_bytes ci) p)) \<noteq> - (2 ^ 31))"

lemma CheckAndGetHandlerOffsets_reads:
  assumes "type_ids_size v \<le> 0xffff" "CheckAndGetHandlerOffsets n v ci p = Inr (offsets, q)" "GetCatchHandlerData ci 0 \<le> p"
  shows "skip_handlers n (file_bytes ci) p = q \<and> p \<le> q \<and> (p \<le> file_end v \<longrightarrow> q \<le> file_end v)
    \<and> (\<forall>off \<in> set offsets. \<exists>k. off = of_nat k \<and> handler_list_at v ci k)"
  using assms(2,3)
proof (induction n arbitrary: p offsets)
  case (Suc n)
  let ?b = "GetCatchHandlerData ci 0"
  obtain r where r: "CheckHandlerList v ci p = Inr r"
    using Suc(2) by (auto simp: Let_def split: sum.splits)
  obtain offs where o: "CheckAndGetHandlerOffsets n v ci r = Inr (offs, q)" "offsets = of_nat (p - ?b) # offs"
    using Suc(2) r by (auto simp: Let_def split: sum.splits)
  obtain hs where h: "handlers_at (file_bytes ci) p = (hs, r)" "handlers_valid v ci hs" "p < r" "r \<le> file_end v"
    "sint (fst (DecodeSignedLeb128 (file_bytes ci) p)) \<noteq> - (2 ^ 31)"
    "skip_handlers (Suc n) (file_bytes ci) p = skip_handlers n (file_bytes ci) r"
    using CheckHandlerList_reads[OF assms(1) r] by blast
  have "GetCatchHandlerData ci (p - ?b) = p" using Suc(3) by (simp add: GetCatchHandlerData_def)
  then have "handler_list_at v ci (p - ?b)" using h by (simp add: handler_list_at_def)
  with Suc(1)[OF o(1)] h(3,4,6) Suc(3) o(2) show ?case by (simp only: list.set) (auto simp del: skip_handlers.simps of_nat_diff)
qed simp

lemma CheckTryItems_ordered:
  assumes "unat (insns_size_in_code_units ci) + 2 ^ 16 \<le> 2 ^ 32" "CheckTryItems n ci offsets i last_addr = None"
  shows "\<forall>j < n. let ti = try_item ci (i + j); e = unat (start_addr ti) + unat (insn_count ti) in
      e \<le> unat (insns_size_in_code_units ci) \<and> ucast (handler_off ti) \<in> set offsets
      \<and> (if j = 0 then last_addr \<le> start_addr ti
         else unat (start_addr (try_item ci (i + j - 1))) + unat (insn_count (try_item ci (i + j - 1))) \<le> unat (start_addr ti))"
  using assms(2)
proof (induction n arbitrary: i last_addr)
  case (Suc n)
  let ?ti = "try_item ci i" and ?size = "insns_size_in_code_units ci"
  have c: "\<not> start_addr ?ti < last_addr" "start_addr ?ti < ?size" "ucast (handler_off ?ti) \<in> set offsets"
      "\<not> ?size < start_addr ?ti + ucast (insn_count ?ti)"
      "CheckTryItems n ci offsets (Suc i) (start_addr ?ti + ucast (insn_count ?ti)) = None"
    using Suc(2) by (auto simp: Let_def not_le split: if_splits)
  have e: "unat (start_addr ?ti + ucast (insn_count ?ti)) = unat (start_addr ?ti) + unat (insn_count ?ti)"
    using c(2) assms(1) unsigned_less[where ?'a = nat, of "insn_count ?ti"] by (intro unat_end_addr) (simp add: word_less_nat_alt)
  show ?case
  proof (intro allI impI)
    fix j
    assume "j < Suc n"
    then show "let ti = try_item ci (i + j); e = unat (start_addr ti) + unat (insn_count ti) in
      e \<le> unat (insns_size_in_code_units ci) \<and> ucast (handler_off ti) \<in> set offsets
      \<and> (if j = 0 then last_addr \<le> start_addr ti
         else unat (start_addr (try_item ci (i + j - 1))) + unat (insn_count (try_item ci (i + j - 1))) \<le> unat (start_addr ti))"
    proof (cases j)
      case 0
      then show ?thesis using c(1,3,4) e by (simp add: Let_def word_less_nat_alt word_le_nat_alt)
    next
      case (Suc k)
      have "k < n" using Suc \<open>j < Suc n\<close> by simp
      with Suc.IH[OF c(5), rule_format, of k] show ?thesis using Suc e by (cases k) (auto simp: Let_def word_le_nat_alt)
    qed
  qed
qed simp

lemma CheckListSize_None: "CheckListSize v start count elem_size = None \<Longrightarrow> file_begin v \<le> start \<and> start + count * elem_size \<le> file_end v"
  by (auto simp: CheckListSize_def Let_def split: if_splits)

lemma CheckIntraCodeItem_cases:
  assumes "CheckIntraCodeItem v ci = Inr q"
  shows "file_begin v \<le> item_at ci" "ins_size ci \<le> registers_size ci"
    "insns_address ci (unat (insns_size_in_code_units ci)) \<le> file_end v"
    "tries_size ci = 0 \<and> q = insns_address ci (unat (insns_size_in_code_units ci))
     \<or> tries_size ci \<noteq> 0 \<and> (\<exists>n ptr offsets. DecodeUnsignedLeb128 (file_bytes ci) (GetCatchHandlerData ci 0) = (n, ptr)
         \<and> GetCatchHandlerData ci 0 \<le> ptr \<and> ptr \<le> file_end v
         \<and> CheckAndGetHandlerOffsets (unat n) v ci ptr = Inr (offsets, q)
         \<and> CheckTryItems (unat (tries_size ci)) ci offsets 0 0 = None)"
  using assms
  by (auto simp: CheckIntraCodeItem_def Let_def not_less insns_address_def dest!: CheckListSize_None checked_Some
      split: option.splits if_splits sum.splits)

lemma GetCatchHandlerData_behind: "item_at ci + k \<le> GetCatchHandlerData ci k"
proof -
  have "x \<le> (x + 3) div 4 * 4" for x :: nat by linarith
  from this[of "insns_address ci (unat (insns_size_in_code_units ci))"] show ?thesis
    by (simp add: GetCatchHandlerData_def GetTryItems_def Let_def) (simp add: insns_address_def)
qed

lemma handler_offset:
  assumes "file_size v < 2 ^ 32" "file_begin v \<le> item_at ci" "ucast (off :: u16) = (of_nat k :: u32)" "handler_list_at v ci k"
  shows "unat off = k"
proof -
  have "k < 2 ^ 32" using assms(1,2,4) GetCatchHandlerData_behind[of ci k] by (simp add: handler_list_at_def Let_def file_end_def)
  moreover have "unat (ucast off :: u32) = unat off"
    by (simp add: unsigned_ucast_eq take_bit_nat_eq_self less_le_trans[OF unsigned_less])
  ultimately show ?thesis using arg_cong[OF assms(3), of unat] by (simp add: unsigned_of_nat take_bit_nat_eq_self)
qed

lemma CheckIntraCodeItem_accepts:
  assumes "file_size v < 2 ^ 32" "type_ids_size v \<le> 0xffff" "CheckIntraCodeItem v ci = Inr q"
  shows "tries_ordered ci \<and> q = item_at ci + unat (GetCodeItemSize ci)
    \<and> (\<forall>i < unat (tries_size ci). handler_list_at v ci (unat (handler_off (try_item ci i)))
         \<and> unat (start_addr (try_item ci i)) + unat (insn_count (try_item ci i)) \<le> unat (insns_size_in_code_units ci))"
proof -
  let ?size = "insns_size_in_code_units ci"
  note c = CheckIntraCodeItem_cases[OF assms(3)]
  have fit: "unat (of_nat (e - item_at ci) :: u32) = e - item_at ci" if "e \<le> file_end v" for e
    using that c(1) assms(1) by (simp add: unsigned_of_nat take_bit_nat_eq_self file_end_def del: of_nat_diff)
  have size: "unat ?size + 2 ^ 16 \<le> 2 ^ 32" using c(1,3) assms(1) by (simp add: insns_address_def file_end_def)
  show ?thesis
  proof (cases "tries_size ci = 0")
    case True
    then have "q = insns_address ci (unat ?size)" using c(4) by blast
    then show ?thesis using True fit[OF c(3)]
      by (simp add: tries_ordered_def GetCodeItemSize_def insns_address_def del: of_nat_diff)
  next
    case False
    then obtain n ptr offsets where t: "DecodeUnsignedLeb128 (file_bytes ci) (GetCatchHandlerData ci 0) = (n, ptr)"
        "GetCatchHandlerData ci 0 \<le> ptr" "ptr \<le> file_end v" "CheckAndGetHandlerOffsets (unat n) v ci ptr = Inr (offsets, q)"
        "CheckTryItems (unat (tries_size ci)) ci offsets 0 0 = None"
      using c(4) by blast
    note r = CheckAndGetHandlerOffsets_reads[OF assms(2) t(4,2)]
      and o = CheckTryItems_ordered[OF size t(5), simplified Let_def add_0, rule_format]
    have i: "item_at ci \<le> q" using r t(2) GetCatchHandlerData_behind[of ci 0] by simp
    have "q = item_at ci + unat (GetCodeItemSize ci)"
      using False t(1,3) r i fit[of q] by (simp add: GetCodeItemSize_def del: of_nat_diff)
    moreover have "tries_ordered ci" unfolding tries_ordered_def
    proof (intro allI impI conjI)
      fix i assume i: "i < unat (tries_size ci)"
      show "unat (start_addr (try_item ci i)) + unat (insn_count (try_item ci i)) < 2 ^ 32" using o[OF i] size by simp
      assume "Suc i < unat (tries_size ci)"
      from o[OF this] show "unat (start_addr (try_item ci i)) + unat (insn_count (try_item ci i)) \<le> unat (start_addr (try_item ci (Suc i)))"
        by simp
    qed
    moreover have "handler_list_at v ci (unat (handler_off (try_item ci i)))" if "i < unat (tries_size ci)" for i
      using r o[OF that] handler_offset[OF assms(1) c(1)] by metis
    ultimately show ?thesis using o by blast
  qed
qed

lemma handler_list_handlers:
  assumes "handler_list_at v ci (unat (handler_off ti))"
  shows "fst (all_handlers (file_bytes ci) (CatchHandlerIterator_try ci ti))
    = fst (handlers_at (file_bytes ci) (GetCatchHandlerData ci (unat (handler_off ti))))"
proof -
  let ?p = "GetCatchHandlerData ci (unat (handler_off ti))"
  have "case all_handlers (file_bytes ci) (Init_data (file_bytes ci) ?p fresh_iterator) of
      (hs, it) \<Rightarrow> (hs, EndDataPointer it) = apsnd Some (handlers_at (file_bytes ci) ?p)"
    using assms by (intro all_handlers_data) (simp add: handler_list_at_def Let_def)
  then show ?thesis
    by (auto simp: CatchHandlerIterator_try_def Init_offset_def apsnd_def map_prod_def split: prod.splits)
qed

lemma handler_list_iterates:
  assumes "handler_list_at v ci (unat (handler_off ti))"
  shows "handlers_valid v ci (fst (all_handlers (file_bytes ci) (CatchHandlerIterator_try ci ti)))"
  using assms unfolding handler_list_handlers[OF assms] by (simp add: handler_list_at_def Let_def)

text \<open>C9: In a code item that the dex file verifier accepts, in a file of less than 4 GiB with at most 65535 types, the
  iterator over the catch handlers for an address yields exactly the handler list of the try item that covers the address, as it is
  encoded at the offset of that try item, and nothing if no try item covers it.  The list is not empty, its addresses are inside the
  code, its typed handlers name types of the file, and it has a catch-all handler at most at its end.  At most one try item covers an
  address.  The verifier goes on at the end of the item as its size gives it.\<close>

theorem accepted_code_item:
  assumes "file_size v < 2 ^ 32" "type_ids_size v \<le> 0xffff" "CheckIntraCodeItem v ci = Inr q"
  shows "q = item_at ci + unat (GetCodeItemSize ci) \<and> ins_size ci \<le> registers_size ci
    \<and> (\<forall>i < unat (tries_size ci). covers (try_item ci i) pc \<longrightarrow>
         pc < insns_size_in_code_units ci \<and> (\<forall>j < unat (tries_size ci). covers (try_item ci j) pc \<longrightarrow> j = i)
         \<and> fst (all_handlers (file_bytes ci) (CatchHandlerIterator_address ci pc))
             = fst (handlers_at (file_bytes ci) (GetCatchHandlerData ci (unat (handler_off (try_item ci i)))))
         \<and> handlers_valid v ci (fst (all_handlers (file_bytes ci) (CatchHandlerIterator_address ci pc))))
    \<and> ((\<forall>i < unat (tries_size ci). \<not> covers (try_item ci i) pc) \<longrightarrow> \<not> HasNext (CatchHandlerIterator_address ci pc))"
proof -
  have a: "tries_ordered ci" "q = item_at ci + unat (GetCodeItemSize ci)"
      "\<forall>i < unat (tries_size ci). handler_list_at v ci (unat (handler_off (try_item ci i)))
         \<and> unat (start_addr (try_item ci i)) + unat (insn_count (try_item ci i)) \<le> unat (insns_size_in_code_units ci)"
    using CheckIntraCodeItem_accepts[OF assms] by blast+
  have "pc < insns_size_in_code_units ci
      \<and> fst (all_handlers (file_bytes ci) (CatchHandlerIterator_address ci pc))
          = fst (handlers_at (file_bytes ci) (GetCatchHandlerData ci (unat (handler_off (try_item ci i)))))
      \<and> handlers_valid v ci (fst (all_handlers (file_bytes ci) (CatchHandlerIterator_address ci pc)))"
    if i: "i < unat (tries_size ci)" "covers (try_item ci i) pc" for i
    using a(3) i handler_list_iterates[of v ci "try_item ci i"] handler_list_handlers[of v ci "try_item ci i"]
    unfolding CatchHandlerIterator_address_covers[OF a(1) i] by (auto simp: covers_def word_less_nat_alt)
  then show ?thesis
    using a(1,2) CheckIntraCodeItem_cases(2)[OF assms(3)] CatchHandlerIterator_address_none[of ci pc] covers_unique[OF a(1)]
    by blast
qed

definition sample_file :: memory where
  "sample_file p = (let bs = [2, 0, 1, 0, 0, 0, 1, 0, 0, 0, 0, 0, 2, 0, 0, 0, 0x27, 0, 0x0e, 0, 0, 0, 0, 0, 1, 0, 1, 0, 1, 0x7f, 5, 1, 1]
     in if p < length bs then bs ! p else 0)"

definition sample_verifier :: DexFileVerifier where
  "sample_verifier = \<lparr>file_begin = 0, file_size = 33, type_ids_size = 6\<rparr>"

definition sample_item :: CodeItem where
  "sample_item = \<lparr>file_bytes = sample_file, item_at = 0\<rparr>"

lemma sample_item_fields:
  "file_bytes sample_item = sample_file" "item_at sample_item = 0"
  "registers_size sample_item = 2" "ins_size sample_item = 1" "outs_size sample_item = 0" "tries_size sample_item = 1"
  "insns_size_in_code_units sample_item = 2" "insns_address sample_item i = 16 + 2 * i"
  "GetTryItems sample_item i = 20 + 8 * i" "GetCatchHandlerData sample_item i = 28 + i"
  "try_item sample_item 0 = \<lparr>start_addr = 0, insn_count = 1, handler_off = 1\<rparr>"
  by (simp_all add: sample_item_def registers_size_def ins_size_def outs_size_def tries_size_def insns_size_in_code_units_def
      insns_address_def GetTryItems_def GetCatchHandlerData_def try_item_def Load_TryItem_def Load16_def Load32_def sample_file_def Let_def)

lemma sample_decode:
  "DecodeUnsignedLeb128Checked sample_file 28 33 = Some (1, 29)" "DecodeSignedLeb128Checked sample_file 29 33 = Some (-1, 30)"
  "DecodeUnsignedLeb128Checked sample_file 30 33 = Some (5, 31)" "DecodeUnsignedLeb128Checked sample_file 31 33 = Some (1, 32)"
  "DecodeUnsignedLeb128Checked sample_file 32 33 = Some (1, 33)"
  by (simp_all add: DecodeUnsignedLeb128Checked_def DecodeSignedLeb128Checked_def sample_file_def Let_def)

lemma sample_accepted: "CheckIntraCodeItem sample_verifier sample_item = Inr 33"
  by (simp add: CheckIntraCodeItem_def CheckListSize_def sample_item_fields sample_decode CheckHandlerList_def CheckCatchAll_def
      CheckIndex_def file_end_def sample_verifier_def Let_def)
    (simp add: word_le_nat_alt)

theorem accepted_code_item_witness:
  "CheckIntraCodeItem sample_verifier sample_item = Inr 33 \<and> unat (GetCodeItemSize sample_item) = 33
    \<and> fst (all_handlers sample_file (CatchHandlerIterator_address sample_item 0)) = fst (handlers_at sample_file 29)
    \<and> handlers_valid sample_verifier sample_item (fst (all_handlers sample_file (CatchHandlerIterator_address sample_item 0)))"
proof -
  have c: "covers (try_item sample_item 0) 0" "(0 :: nat) < unat (tries_size sample_item)" by (simp_all add: covers_def sample_item_fields)
  have v: "file_size sample_verifier < 2 ^ 32" "type_ids_size sample_verifier \<le> 0xffff"
    by (simp_all add: sample_verifier_def)
  note t = accepted_code_item[OF v sample_accepted, of 0]
  show ?thesis
    using t[THEN conjunct1] t[THEN conjunct2, THEN conjunct2, THEN conjunct1, rule_format, OF c(2,1)] sample_accepted
    by (auto simp: sample_item_fields)
qed

end
