(* ===== verification/Verifier_Progress.thy ===== *)
theory Verifier_Progress
  imports Method_Verifier Dex_File_Verifier
begin

text \<open>
  The static verification returns.  Every access to the instruction flags is in range, every loop ends, and a method that is
  rejected has a recorded failure; in an accepted method every instruction has passed its checks, and the catch handlers are
  at instructions.  The hypotheses are what the dex file verifier has checked before.
\<close>

section \<open>One instruction\<close>

lemma VerifyExtra_returns:
  assumes "inst = inst_at ci (uint k)" "n = unat (insns_size_in_code_units ci)" "length (insn_flags (snd r)) = n"
    and "fst r \<or> have_pending_hard_failure (snd r)"
  shows "case VerifyExtra i ci inst k r of
      None \<Rightarrow> False
    | Some (Inl v) \<Rightarrow> length (insn_flags v) = n \<and> have_pending_hard_failure v
    | Some (Inr (b, v)) \<Rightarrow> length (insn_flags v) = n \<and> (b \<or> have_pending_hard_failure v)"
proof -
  define ok :: "(MethodVerifier + bool \<times> MethodVerifier) option \<Rightarrow> bool" where "ok x \<longleftrightarrow>
      (case x of None \<Rightarrow> False
       | Some (Inl v) \<Rightarrow> length (insn_flags v) = n \<and> have_pending_hard_failure v
       | Some (Inr (b, v)) \<Rightarrow> length (insn_flags v) = n \<and> (b \<or> have_pending_hard_failure v))" for x
  obtain b v where r: "r = (b, v)" by fastforce
  have c: "ok (map_option Inr (also_check (Some r) f))" if f: "returns n f" for f
  proof -
    obtain b' v' where "f v = Some (b', v')" "length (insn_flags v') = n" "b' \<or> have_pending_hard_failure v'"
      using returnsE[OF f, of v] assms(3) r by auto
    then show ?thesis using assms(3,4) r by (auto simp: ok_def also_check_def)
  qed
  have i: "(d \<Longrightarrow> ok x) \<Longrightarrow> (\<not> d \<Longrightarrow> ok z) \<Longrightarrow> ok (if d then x else z)" for x z d by simp
  have b: "\<exists>x. m = Some x \<Longrightarrow> (\<And>x. ok (f x)) \<Longrightarrow> ok (m \<bind> f)" for f and m :: "u32 option" by auto
  have br: "returns n (CheckBranchTarget i ci k)" if "GetVerifyExtraFlags inst = kVerifyBranchTarget"
  proof -
    have "IsBranch inst" using that by (simp add: IsBranch_def GetVerifyExtraFlags_of extra_table(3))
    then show ?thesis using GetBranchOffset_branch[of ci k] CheckBranchTarget_returns[of ci k] assms(1,2) by auto
  qed
  have s: "returns n (CheckSwitchTargets i ci k)" "returns n (CheckArrayData i ci k)"
    using CheckSwitchTargets_returns CheckArrayData_returns assms(2) by auto
  have t: "ok (Some (Inl (Fail i VERIFY_ERROR_BAD_CLASS_HARD (snd r))))" "ok (Some (Inr (False, Fail i VERIFY_ERROR_BAD_CLASS_HARD (snd r))))"
      "ok (Some (Inr r))" using assms(3,4) r by (auto simp: ok_def)
  have "ok (VerifyExtra i ci inst k r)"
    unfolding VerifyExtra_def Let_def
    by (intro i b c br s t checks_return flagged_operands(1) flagged_operands(5)) auto
  then show ?thesis by (simp add: ok_def)
qed

lemma VerifyInstruction_returns:
  assumes "inst = inst_at ci (uint k)" "n = unat (insns_size_in_code_units ci)"
  shows "returns n (VerifyInstruction kAllow i ci inst k)"
  unfolding returns_def
proof (intro allI impI)
  fix v :: MethodVerifier assume v: "length (insn_flags v) = n"
  have "returns n (\<lambda>v. also_check (also_check (also_check (VerifyArgumentA i ci inst v) (VerifyArgumentB i ci inst))
            (VerifyArgumentC i ci inst)) (VerifyArgumentH i ci inst))" by (intro returns_also VerifyArguments_return)
  from returnsE[OF this v] obtain b v1 where r: "also_check (also_check (also_check (VerifyArgumentA i ci inst v) (VerifyArgumentB i ci inst))
            (VerifyArgumentC i ci inst)) (VerifyArgumentH i ci inst) = Some (b, v1)" "length (insn_flags v1) = n" "b \<or> have_pending_hard_failure v1" .
  show "case VerifyInstruction kAllow i ci inst k v of None \<Rightarrow> False
      | Some (b, v') \<Rightarrow> length (insn_flags v') = n \<and> (b \<or> have_pending_hard_failure v')"
    using VerifyExtra_returns[OF assms, of "(b, v1)" i] r by (auto simp: VerifyInstruction_def split: option.splits sum.splits)
qed

text \<open>An accepted instruction has passed every check.\<close>

lemma VerifyInstruction_True:
  assumes "VerifyInstruction kAllow i ci inst k v = Some (True, v')"
  shows "\<exists>v1 v2 v3 v4. VerifyArgumentA i ci inst v = Some (True, v1) \<and> VerifyArgumentB i ci inst v1 = Some (True, v2)
    \<and> VerifyArgumentC i ci inst v2 = Some (True, v3) \<and> VerifyArgumentH i ci inst v3 = Some (True, v4)
    \<and> VerifyExtra i ci inst k (True, v4) = Some (Inr (True, v')) \<and> opcode_at v4 = opcode_at v
    \<and> (kAllow \<or> \<not> GetVerifyIsRuntimeOnly inst)"
proof -
  obtain r y where r: "also_check (also_check (also_check (VerifyArgumentA i ci inst v) (VerifyArgumentB i ci inst))
            (VerifyArgumentC i ci inst)) (VerifyArgumentH i ci inst) = Some r" "VerifyExtra i ci inst k r = Some y"
      "(case y of Inl v \<Rightarrow> Some (False, v) | Inr (b, v) \<Rightarrow> if \<not> kAllow \<and> GetVerifyIsRuntimeOnly inst
          then Some (False, Fail i VERIFY_ERROR_BAD_CLASS_HARD v) else Some (b, v)) = Some (True, v')"
    using assms unfolding VerifyInstruction_def bind_eq_Some_conv by blast
  have y: "y = Inr (True, v')" "kAllow \<or> \<not> GetVerifyIsRuntimeOnly inst" using r(3) by (auto split: sum.splits if_splits)
  have "fst r" using r(2) y unfolding VerifyExtra_def Let_def
    by (cases r) (auto simp: also_check_def bind_eq_Some_conv split: if_splits)
  then obtain v4 where v4: "r = (True, v4)" by (cases r) auto
  from r(1)[unfolded v4] obtain v1 v2 v3 where "VerifyArgumentA i ci inst v = Some (True, v1)" "VerifyArgumentB i ci inst v1 = Some (True, v2)"
    "VerifyArgumentC i ci inst v2 = Some (True, v3)" "VerifyArgumentH i ci inst v3 = Some (True, v4)"
    by (auto simp: also_check_Some)
  moreover from this have "opcode_at v4 = opcode_at v" using VerifyArguments_starts[of i ci inst] unfolding keeps_starts_def by metis
  ultimately show ?thesis using r(2) y v4 by blast
qed

lemma CheckBranchTarget_True:
  assumes "CheckBranchTarget i ci k v = Some (True, v')"
  shows "\<exists>offset c self. GetBranchOffset ci k = Some (offset, c, self)
    \<and> uint k + sint offset = int (unat (k + offset)) \<and> opcode_at v (unat (k + offset))"
proof -
  obtain offset c self where o: "GetBranchOffset ci k = Some (offset, c, self)"
    using assms by (auto simp: CheckBranchTarget_def split: option.splits)
  have "uint k + sint offset = uint (k + offset)" "\<exists>f. GetInstructionFlags v (unat (k + offset)) = Some f \<and> IsOpcode f"
    using assms unfolding CheckBranchTarget_def o option.case prod.case Let_def if_bad bind_eq_Some_conv by blast+
  then show ?thesis using o by (auto simp: opcode_at_def GetInstructionFlags_def split: if_splits)
qed

lemma VerifyInstruction_branch:
  assumes "VerifyInstruction kAllow i ci inst k v = Some (True, v')" "IsBranch inst"
  shows "\<exists>offset c self. GetBranchOffset ci k = Some (offset, c, self)
    \<and> uint k + sint offset = int (unat (k + offset)) \<and> opcode_at v (unat (k + offset))"
proof -
  obtain v4 where v4: "VerifyExtra i ci inst k (True, v4) = Some (Inr (True, v'))" "opcode_at v4 = opcode_at v"
    using VerifyInstruction_True[OF assms(1)] by blast
  have "GetVerifyExtraFlags inst = kVerifyBranchTarget"
    using assms(2) by (simp add: IsBranch_def GetVerifyExtraFlags_of extra_table(3))
  then have "CheckBranchTarget i ci k v4 = Some (True, v')" using v4(1) by (auto simp: VerifyExtra_def also_check_def)
  then show ?thesis using CheckBranchTarget_True v4(2) by metis
qed

lemma flag_instruction_returns:
  assumes "VerifyInstruction kAllow i ci inst k v = Some (True, v')" "unat k < n" "length (insn_flags v') = n" "length (insn_flags v) = n"
  shows "\<exists>v2. flag_instruction ci inst k v' = Some v2 \<and> length (insn_flags v2) = n"
proof (cases "IsBranch inst")
  case True
  then show ?thesis using VerifyInstruction_branch[OF assms(1) True] assms(2-4)
    by (auto simp: flag_instruction_def update_flags_def opcode_at_def)
qed (use assms in \<open>simp add: flag_instruction_def update_flags_def\<close>)

section \<open>The loop over the instructions\<close>

lemma small_position:
  assumes "k < unat (n :: u32)"
  shows "unat (of_nat k :: u32) = k" "uint (of_nat k :: u32) = int k" "of_nat k < n"
proof -
  have "k < 2 ^ 32" using assms unsigned_less[where ?'a = nat, of n] by simp
  then show u: "unat (of_nat k :: u32) = k" by (simp add: unsigned_of_nat take_bit_nat_eq_self)
  then show "uint (of_nat k :: u32) = int k" by (metis uint_nat)
  show "of_nat k < n" using assms u by (simp add: word_less_nat_alt)
qed

lemma VerifyInstructions_loop_step:
  assumes "insn_start ci k" "length (insn_flags v) = unat (insns_size_in_code_units ci)"
  shows "(\<exists>v1. VerifyInstructions_loop kAllow i ci (of_nat k) (int k) v = Some (False, v1) \<and> have_pending_hard_failure v1
           \<and> length (insn_flags v1) = unat (insns_size_in_code_units ci))
    \<or> (\<exists>v1 v2. VerifyInstruction kAllow i ci (inst_at ci (int k)) (of_nat k) v = Some (True, v1)
       \<and> length (insn_flags v2) = unat (insns_size_in_code_units ci) \<and> opcode_at v2 = opcode_at v
       \<and> VerifyInstructions_loop kAllow i ci (of_nat k) (int k) v
         = VerifyInstructions_loop kAllow i ci (of_nat (k + width (inst_at ci (int k)))) (int (k + width (inst_at ci (int k)))) v2)"
proof -
  let ?inst = "inst_at ci (int k)" and ?n = "unat (insns_size_in_code_units ci)"
  note k = small_position[OF insn_start_less[OF assms(1)]]
  have r: "returns ?n (VerifyInstruction kAllow i ci ?inst (of_nat k))" by (rule VerifyInstruction_returns) (simp_all add: k(2))
  obtain b v1 where v1: "VerifyInstruction kAllow i ci ?inst (of_nat k) v = Some (b, v1)" "length (insn_flags v1) = ?n"
      "b \<or> have_pending_hard_failure v1" using returnsE[OF r assms(2)] .
  note l = VerifyInstructions_loop.simps[of kAllow i ci "of_nat k" "int k" v]
  show ?thesis
  proof (cases b)
    case True
    then obtain v2 where v2: "flag_instruction ci ?inst (of_nat k) v1 = Some v2" "length (insn_flags v2) = ?n"
      using flag_instruction_returns[of kAllow i ci ?inst "of_nat k" v v1 ?n] v1 assms(2) insn_start_less[OF assms(1)] k(1) by auto
    have "opcode_at v2 = opcode_at v"
      using flag_instruction_starts[OF v2(1)] VerifyInstruction_starts[of kAllow i ci ?inst "of_nat k"] v1(1) by (simp add: keeps_starts_def)
    then show ?thesis using l v1 v2 True k(3) by (auto simp: Let_def)
  next
    case False
    then show ?thesis using l v1 k(3) by auto
  qed
qed

lemma VerifyInstructions_loop_end:
  "VerifyInstructions_loop kAllow i ci (insns_size_in_code_units ci) p v = Some (True, v)"
  by (simp add: VerifyInstructions_loop.simps)

lemma VerifyInstructions_loop_visits:
  assumes "insn_start ci k" "whole_instructions ci" "length (insn_flags v) = unat (insns_size_in_code_units ci)"
  shows "\<exists>b v'. VerifyInstructions_loop kAllow i ci (of_nat k) (int k) v = Some (b, v')
    \<and> length (insn_flags v') = unat (insns_size_in_code_units ci)
    \<and> (if b then opcode_at v' = opcode_at v \<and> (\<forall>j \<ge> k. insn_start ci j \<longrightarrow> (\<exists>v1 v2. opcode_at v1 = opcode_at v
         \<and> VerifyInstruction kAllow i ci (inst_at ci (int j)) (of_nat j) v1 = Some (True, v2)))
       else have_pending_hard_failure v')"
  using assms
proof (induction "unat (insns_size_in_code_units ci) - k" arbitrary: k v rule: less_induct)
  case less
  let ?n = "unat (insns_size_in_code_units ci)"
  from VerifyInstructions_loop_step[OF less(2,4), of kAllow i] show ?case
  proof (elim disjE exE conjE)
    fix v1 assume "VerifyInstructions_loop kAllow i ci (of_nat k) (int k) v = Some (False, v1)" "have_pending_hard_failure v1"
      "length (insn_flags v1) = ?n"
    then show ?thesis by auto
  next
    fix v1 v2
    let ?k = "k + width (inst_at ci (int k))"
    assume a: "VerifyInstruction kAllow i ci (inst_at ci (int k)) (of_nat k) v = Some (True, v1)" "length (insn_flags v2) = ?n"
      "opcode_at v2 = opcode_at v"
      "VerifyInstructions_loop kAllow i ci (of_nat k) (int k) v = VerifyInstructions_loop kAllow i ci (of_nat ?k) (int ?k) v2"
    have "?k \<le> ?n" using less(2,3) by (simp add: whole_instructions_def)
    have later: "j = k \<or> ?k \<le> j" if "insn_start ci j" "k \<le> j" for j using insn_start_apart[OF that(1) less(2)] that(2) by (cases "j = k") auto
    show ?thesis
    proof (cases "?k = ?n")
      case True
      have "VerifyInstructions_loop kAllow i ci (of_nat ?k) (int ?k) v2 = Some (True, v2)"
        unfolding True by (simp add: VerifyInstructions_loop_end)
      moreover have "j = k" if "insn_start ci j" "k \<le> j" for j using later[OF that] insn_start_less[OF that(1)] True by simp
      ultimately show ?thesis using a by metis
    next
      case False
      then have s: "insn_start ci ?k" using \<open>?k \<le> ?n\<close> less(2) by (auto intro: insn_start.following)
      have "?n - ?k < ?n - k" using insn_start_less[OF less(2)] width_pos[of "inst_at ci (int k)"] by linarith
      from less(1)[OF this s less(3) a(2)] obtain b v' where b: "VerifyInstructions_loop kAllow i ci (of_nat ?k) (int ?k) v2 = Some (b, v')"
        "length (insn_flags v') = ?n"
        "if b then opcode_at v' = opcode_at v2 \<and> (\<forall>j \<ge> ?k. insn_start ci j \<longrightarrow> (\<exists>v1 v2'. opcode_at v1 = opcode_at v2
           \<and> VerifyInstruction kAllow i ci (inst_at ci (int j)) (of_nat j) v1 = Some (True, v2')))
         else have_pending_hard_failure v'" by blast
      show ?thesis
      proof (intro exI conjI)
        show "VerifyInstructions_loop kAllow i ci (of_nat k) (int k) v = Some (b, v')" using a(4) b(1) by simp
        show "if b then opcode_at v' = opcode_at v \<and> (\<forall>j \<ge> k. insn_start ci j \<longrightarrow> (\<exists>v1 v2. opcode_at v1 = opcode_at v
           \<and> VerifyInstruction kAllow i ci (inst_at ci (int j)) (of_nat j) v1 = Some (True, v2)))
         else have_pending_hard_failure v'"
          using b(3) a(1,3) later by (auto split: if_splits)
      qed (rule b(2))
    qed
  qed
qed

section \<open>Try blocks\<close>

text \<open>A verifier whose flags mark the instructions of the code.\<close>

definition marked :: "CodeItem \<Rightarrow> MethodVerifier \<Rightarrow> bool" where
  "marked ci v \<longleftrightarrow> length (insn_flags v) = unat (insns_size_in_code_units ci) \<and> opcode_at v = insn_start ci"

lemma marked_update:
  assumes "marked ci v" "k < unat (insns_size_in_code_units ci)" "\<And>x. IsOpcode (f x) = IsOpcode x"
  shows "\<exists>v'. update_flags f k v = Some v' \<and> marked ci v'"
proof -
  obtain v' where v': "update_flags f k v = Some v'" "length (insn_flags v') = length (insn_flags v)"
    using assms(1,2) by (simp add: update_flags_def marked_def)
  then show ?thesis using update_flags_starts[OF v'(1) assms(3)] assms(1) by (simp add: marked_def)
qed

lemma marked_Fail [simp]: "marked ci (Fail i e v) = marked ci v"
  by (simp add: marked_def)

lemma marked_flags:
  assumes "marked ci v" "k < unat (insns_size_in_code_units ci)"
  shows "\<exists>f. GetInstructionFlags v k = Some f \<and> (IsOpcode f \<longleftrightarrow> insn_start ci k)"
proof -
  have "opcode_at v k = insn_start ci k" using assms(1) by (simp add: marked_def)
  then show ?thesis using assms by (simp add: marked_def GetInstructionFlags_def opcode_at_def)
qed

lemma flag_try_block_returns:
  assumes "k = unat (insns_size_in_code_units ci) \<or> insn_start ci k" "whole_instructions ci" "marked ci v"
    "e \<le> insns_size_in_code_units ci"
  shows "\<exists>v'. flag_try_block ci e (of_nat k) (int k) v = Some v' \<and> marked ci v'"
  using assms(1,3)
proof (induction "unat (insns_size_in_code_units ci) - k" arbitrary: k v rule: less_induct)
  case less
  let ?n = "unat (insns_size_in_code_units ci)" and ?k = "k + width (inst_at ci (int k))"
  note l = flag_try_block.simps[of ci e "of_nat k" "int k" v]
  show ?case
  proof (cases "of_nat k < e")
    case True
    have k: "insn_start ci k" using less(2) True assms(4) by auto
    note kn = insn_start_less[OF k] and p = small_position[OF insn_start_less[OF k]]
    obtain v1 where v1: "update_flags SetInTry k v = Some v1" "marked ci v1" using marked_update[OF less(3) kn, of SetInTry] by auto
    have "?k \<le> ?n" using k assms(2) by (simp add: whole_instructions_def)
    then have s: "?k = ?n \<or> insn_start ci ?k" using k by (auto intro: insn_start.following)
    have "?n - ?k < ?n - k" using kn width_pos[of "inst_at ci (int k)"] by linarith
    from less(1)[OF this s v1(2)] show ?thesis using l True v1(1) p(1) by (simp add: Let_def)
  next
    case False
    then show ?thesis using l less(3) by simp
  qed
qed

lemma ScanTries_returns:
  assumes "whole_instructions ci" "marked ci v"
  shows "\<exists>b v'. ScanTries n i ci idx v = Some (b, v') \<and> marked ci v' \<and> (b \<or> have_pending_hard_failure v')"
  using assms(2)
proof (induction n arbitrary: idx v)
  case (Suc n)
  let ?ti = "try_item ci idx" and ?size = "insns_size_in_code_units ci"
  let ?e = "start_addr ?ti + ucast (insn_count ?ti)"
  show ?case
  proof (cases "?e \<le> start_addr ?ti \<or> ?size \<le> start_addr ?ti \<or> ?size < ?e")
    case True
    then show ?thesis using Suc(2) by (auto simp: Let_def)
  next
    case False
    then have s: "unat (start_addr ?ti) < unat ?size" by (simp add: word_less_nat_alt not_le)
    obtain f where f: "GetInstructionFlags v (unat (start_addr ?ti)) = Some f" "IsOpcode f \<longleftrightarrow> insn_start ci (unat (start_addr ?ti))"
      using marked_flags[OF Suc(2) s] by blast
    show ?thesis
    proof (cases "IsOpcode f")
      case True
      then obtain v1 where v1: "flag_try_block ci ?e (start_addr ?ti) (uint (start_addr ?ti)) v = Some v1" "marked ci v1"
        using flag_try_block_returns[of "unat (start_addr ?ti)" ci v ?e] f(2) assms(1) Suc(2) False by (auto simp: not_less)
      from Suc(1)[OF v1(2), of "Suc idx"] show ?thesis using False f(1) True v1(1) by (simp add: Let_def)
    next
      case no: False
      then show ?thesis using False f(1) Suc(2) by (auto simp: Let_def)
    qed
  qed
qed auto

section \<open>Catch handlers\<close>

text \<open>A handler may be entered: it is an instruction and does not ask for the result of a call.\<close>

definition enterable :: "CodeItem \<Rightarrow> u32 \<Rightarrow> bool" where
  "enterable ci a \<longleftrightarrow> insn_start ci (unat a)
     \<and> \<not> (MOVE_RESULT \<le> Opcode (inst_at ci (uint a)) \<and> Opcode (inst_at ci (uint a)) \<le> MOVE_RESULT_OBJECT)"

lemma code_insns_units: "code_insns ci k = code_units ci (int k)"
  by (simp add: code_insns_def code_units_def insns_address_def nat_add_distrib nat_mult_distrib)

lemma Opcode_inst_at: "Opcode (inst_at ci (int k)) = ucast (code_insns ci k AND 0xff)"
  by (simp add: Opcode_def Fetch16_def inst_at_def RelativeAt_def code_insns_units)

lemma ScanHandlers_returns:
  assumes "marked ci v" "\<forall>(t, a) \<in> set (fst (all_handlers (file_bytes ci) it)). a < insns_size_in_code_units ci"
  shows "\<exists>r v'. ScanHandlers i ci it v = Some (r, v') \<and> marked ci v'
    \<and> (case r of None \<Rightarrow> have_pending_hard_failure v'
       | Some it' \<Rightarrow> it' = snd (all_handlers (file_bytes ci) it)
           \<and> (\<forall>(t, a) \<in> set (fst (all_handlers (file_bytes ci) it)). enterable ci a))"
  using assms
proof (induction "file_bytes ci" it arbitrary: v rule: all_handlers.induct)
  case (1 it)
  note l = ScanHandlers.simps[of i ci it v] and h = all_handlers.simps[of "file_bytes ci" it]
  show ?case
  proof (cases "HasNext it")
    case True
    let ?a = "handler_address it" and ?it = "Next (file_bytes ci) it"
    have h: "fst (all_handlers (file_bytes ci) it) = (handler_type_idx it, ?a) # fst (all_handlers (file_bytes ci) ?it)"
        "snd (all_handlers (file_bytes ci) it) = snd (all_handlers (file_bytes ci) ?it)"
      using h True by (simp_all split: prod.split)
    have a: "unat ?a < unat (insns_size_in_code_units ci)" using 1(3) h(1) by (simp add: word_less_nat_alt)
    obtain f where f: "GetInstructionFlags v (unat ?a) = Some f" "IsOpcode f \<longleftrightarrow> insn_start ci (unat ?a)"
      using marked_flags[OF 1(2) a] by blast
    define mr where "mr \<longleftrightarrow> MOVE_RESULT \<le> Opcode (inst_at ci (uint ?a)) \<and> Opcode (inst_at ci (uint ?a)) \<le> MOVE_RESULT_OBJECT"
    have c: "CheckNotMoveResult i ci (unat ?a) v = Some (if mr then (False, Fail i VERIFY_ERROR_BAD_CLASS_HARD v) else (True, v))"
      using Opcode_inst_at[of ci "unat ?a"] by (simp add: CheckNotMoveResult_def fail_if_def mr_def Let_def)
    show ?thesis
    proof (cases "IsOpcode f \<and> \<not> mr")
      case ok: True
      obtain v1 where v1: "update_flags SetBranchTarget (unat ?a) v = Some v1" "marked ci v1"
        using marked_update[OF 1(2) a, of SetBranchTarget] by auto
      define v2 where "v2 = (if handler_type_idx it \<noteq> 0xffff then v1\<lparr>resolved_types := resolved_types v1 @ [handler_type_idx it]\<rparr> else v1)"
      have v2: "marked ci v2" using v1(2) by (simp add: v2_def marked_def)
      have "ScanHandlers i ci it v = ScanHandlers i ci ?it v2"
        using l True f(1) ok c v1(1) by (simp add: Let_def v2_def)
      moreover have "enterable ci ?a" using ok f(2) by (simp add: enterable_def mr_def)
      moreover have "\<exists>r v'. ScanHandlers i ci ?it v2 = Some (r, v') \<and> marked ci v'
        \<and> (case r of None \<Rightarrow> have_pending_hard_failure v'
           | Some it' \<Rightarrow> it' = snd (all_handlers (file_bytes ci) ?it)
               \<and> (\<forall>(t, a) \<in> set (fst (all_handlers (file_bytes ci) ?it)). enterable ci a))"
        using 1(1)[OF True v2] 1(3) h(1) by simp
      ultimately show ?thesis unfolding h by (fastforce split: option.splits)
    next
      case no: False
      then show ?thesis using l True f(1) c 1(2) by (auto simp: Let_def)
    qed
  next
    case False
    then show ?thesis using l h 1(2) by simp
  qed
qed

text \<open>Where the lists of handlers are.\<close>

primrec handler_lists :: "nat \<Rightarrow> memory \<Rightarrow> nat \<Rightarrow> nat list" where
  "handler_lists 0 m p = []"
| "handler_lists (Suc n) m p = p # handler_lists n m (snd (handlers_at m p))"

lemma checked_lists:
  assumes "type_ids_size v \<le> 0xffff" "CheckAndGetHandlerOffsets n v ci p = Inr (offsets, q)" "GetCatchHandlerData ci 0 \<le> p"
  shows "offsets = map (\<lambda>p. of_nat (p - GetCatchHandlerData ci 0)) (handler_lists n (file_bytes ci) p)
    \<and> (\<forall>p \<in> set (handler_lists n (file_bytes ci) p). GetCatchHandlerData ci 0 \<le> p \<and> handler_list_at v ci (p - GetCatchHandlerData ci 0))"
  using assms(2,3)
proof (induction n arbitrary: p offsets)
  case (Suc n)
  let ?b = "GetCatchHandlerData ci 0"
  obtain r where r: "CheckHandlerList v ci p = Inr r"
    using Suc(2) by (auto simp: Let_def split: sum.splits)
  obtain offs where o: "CheckAndGetHandlerOffsets n v ci r = Inr (offs, q)" "offsets = of_nat (p - ?b) # offs"
    using Suc(2) r by (auto simp: Let_def split: sum.splits)
  obtain hs where h: "handlers_at (file_bytes ci) p = (hs, r)" "handlers_valid v ci hs" "p < r" "r \<le> file_end v"
    "sint (fst (DecodeSignedLeb128 (file_bytes ci) p)) \<noteq> - (2 ^ 31)"
    using CheckHandlerList_reads[OF assms(1) r] by blast
  have "GetCatchHandlerData ci (p - ?b) = p" using Suc(3) by (simp add: GetCatchHandlerData_def)
  then have "handler_list_at v ci (p - ?b)" using h by (simp add: handler_list_at_def)
  moreover have "?b \<le> r" using Suc(3) h(3) by simp
  ultimately show ?case using Suc(1)[OF o(1)] o(2) Suc(3) h(1) by (simp del: of_nat_diff)
qed simp

lemma iterated_list:
  assumes "sint (fst (DecodeSignedLeb128 m p)) \<noteq> - (2 ^ 31)"
  shows "fst (all_handlers m (CatchHandlerIterator_data m p)) = fst (handlers_at m p)"
    "EndDataPointer (snd (all_handlers m (CatchHandlerIterator_data m p))) = Some (snd (handlers_at m p))"
  using all_handlers_data[OF assms, of fresh_iterator]
  by (auto simp: CatchHandlerIterator_data_def apsnd_def map_prod_def split: prod.splits)

lemma ScanHandlerLists_returns:
  assumes "marked ci v" "\<forall>p \<in> set (handler_lists n (file_bytes ci) p0). sint (fst (DecodeSignedLeb128 (file_bytes ci) p)) \<noteq> - (2 ^ 31)
    \<and> (\<forall>(t, a) \<in> set (fst (handlers_at (file_bytes ci) p)). a < insns_size_in_code_units ci)"
  shows "\<exists>b v'. ScanHandlerLists n i ci p0 v = Some (b, v') \<and> marked ci v'
    \<and> (if b then \<forall>p \<in> set (handler_lists n (file_bytes ci) p0). \<forall>(t, a) \<in> set (fst (handlers_at (file_bytes ci) p)). enterable ci a
       else have_pending_hard_failure v')"
  using assms
proof (induction n arbitrary: p0 v)
  case (Suc n)
  let ?m = "file_bytes ci" and ?it = "CatchHandlerIterator_data (file_bytes ci) p0"
  have s: "sint (fst (DecodeSignedLeb128 ?m p0)) \<noteq> - (2 ^ 31)" "\<forall>(t, a) \<in> set (fst (handlers_at ?m p0)). a < insns_size_in_code_units ci"
    using Suc(3) by auto
  note it = iterated_list[OF s(1)]
  obtain r v1 where r: "ScanHandlers i ci ?it v = Some (r, v1)" "marked ci v1"
      "case r of None \<Rightarrow> have_pending_hard_failure v1
       | Some it' \<Rightarrow> it' = snd (all_handlers ?m ?it) \<and> (\<forall>(t, a) \<in> set (fst (all_handlers ?m ?it)). enterable ci a)"
    using ScanHandlers_returns[OF Suc(2), of ?it i] s(2) it(1) by auto
  show ?case
  proof (cases r)
    case None
    then show ?thesis using r by auto
  next
    case (Some it')
    then have e: "EndDataPointer it' = Some (snd (handlers_at ?m p0))" "\<forall>(t, a) \<in> set (fst (handlers_at ?m p0)). enterable ci a"
      using r(3) it by auto
    obtain b v' where b: "ScanHandlerLists n i ci (snd (handlers_at ?m p0)) v1 = Some (b, v')" "marked ci v'"
      "if b then \<forall>p \<in> set (handler_lists n ?m (snd (handlers_at ?m p0))). \<forall>(t, a) \<in> set (fst (handlers_at ?m p)). enterable ci a
       else have_pending_hard_failure v'" using Suc(1)[OF r(2), of "snd (handlers_at ?m p0)"] Suc(3) by auto
    then show ?thesis using r(1) Some e by auto
  qed
qed auto

section \<open>The method\<close>

text \<open>What the dex file verifier has made sure of.\<close>

definition dex_checked :: "DexFileVerifier \<Rightarrow> CodeItem \<Rightarrow> bool" where
  "dex_checked d ci \<longleftrightarrow> file_size d < 2 ^ 32 \<and> type_ids_size d \<le> 0xffff \<and> (\<exists>q. CheckIntraCodeItem d ci = Inr q)"

definition handlers_enterable :: "CodeItem \<Rightarrow> bool" where
  "handlers_enterable ci \<longleftrightarrow> (\<forall>i < unat (tries_size ci).
     \<forall>(t, a) \<in> set (fst (handlers_at (file_bytes ci) (GetCatchHandlerData ci (unat (handler_off (try_item ci i)))))). enterable ci a)"

lemma dex_checked_lists:
  assumes "dex_checked d ci" "tries_size ci \<noteq> 0"
  obtains n ptr where "DecodeUnsignedLeb128 (file_bytes ci) (GetCatchHandlerData ci 0) = (n, ptr)"
    "\<And>p. p \<in> set (handler_lists (unat n) (file_bytes ci) ptr) \<Longrightarrow> sint (fst (DecodeSignedLeb128 (file_bytes ci) p)) \<noteq> - (2 ^ 31)
       \<and> (\<forall>(t, a) \<in> set (fst (handlers_at (file_bytes ci) p)). a < insns_size_in_code_units ci)"
    "\<And>i. i < unat (tries_size ci) \<Longrightarrow>
       GetCatchHandlerData ci (unat (handler_off (try_item ci i))) \<in> set (handler_lists (unat n) (file_bytes ci) ptr)"
proof -
  obtain q where d: "file_size d < 2 ^ 32" "type_ids_size d \<le> 0xffff" "CheckIntraCodeItem d ci = Inr q"
    using assms(1) by (auto simp: dex_checked_def)
  note c = CheckIntraCodeItem_cases[OF d(3)]
  obtain n ptr offsets where t: "DecodeUnsignedLeb128 (file_bytes ci) (GetCatchHandlerData ci 0) = (n, ptr)"
      "GetCatchHandlerData ci 0 \<le> ptr" "CheckAndGetHandlerOffsets (unat n) d ci ptr = Inr (offsets, q)"
      "CheckTryItems (unat (tries_size ci)) ci offsets 0 0 = None"
    using c(4) assms(2) by blast
  have l: "offsets = map (\<lambda>p. of_nat (p - GetCatchHandlerData ci 0)) (handler_lists (unat n) (file_bytes ci) ptr)"
    "\<forall>p \<in> set (handler_lists (unat n) (file_bytes ci) ptr). GetCatchHandlerData ci 0 \<le> p \<and> handler_list_at d ci (p - GetCatchHandlerData ci 0)"
    using checked_lists[OF d(2) t(3,2)] by blast+
  have b: "GetCatchHandlerData ci (p - GetCatchHandlerData ci 0) = p" if "GetCatchHandlerData ci 0 \<le> p" for p
    using that by (simp add: GetCatchHandlerData_def)
  have size: "unat (insns_size_in_code_units ci) + 2 ^ 16 \<le> 2 ^ 32" using c(1,3) d(1) by (simp add: insns_address_def file_end_def)
  note o = CheckTryItems_ordered[OF size t(4), simplified Let_def add_0, rule_format]
  show thesis
  proof (rule that[OF t(1)])
    fix p assume p: "p \<in> set (handler_lists (unat n) (file_bytes ci) ptr)"
    then have "handler_list_at d ci (p - GetCatchHandlerData ci 0)" "GetCatchHandlerData ci 0 \<le> p" using l(2) by auto
    then show "sint (fst (DecodeSignedLeb128 (file_bytes ci) p)) \<noteq> - (2 ^ 31)
       \<and> (\<forall>(t, a) \<in> set (fst (handlers_at (file_bytes ci) p)). a < insns_size_in_code_units ci)"
      using b by (simp add: handler_list_at_def handlers_valid_def Let_def)
  next
    fix i assume i: "i < unat (tries_size ci)"
    have "ucast (handler_off (try_item ci i)) \<in> set offsets" using o[OF i] by simp
    then obtain p where p: "p \<in> set (handler_lists (unat n) (file_bytes ci) ptr)"
        "ucast (handler_off (try_item ci i)) = (of_nat (p - GetCatchHandlerData ci 0) :: u32)" unfolding l(1) by auto
    then have "unat (handler_off (try_item ci i)) = p - GetCatchHandlerData ci 0"
      using handler_offset[OF d(1) c(1) p(2)] l(2) by blast
    then show "GetCatchHandlerData ci (unat (handler_off (try_item ci i))) \<in> set (handler_lists (unat n) (file_bytes ci) ptr)"
      using p(1) l(2) b by auto
  qed
qed

lemma ScanTryCatchBlocks_returns:
  assumes "dex_checked d ci" "whole_instructions ci" "marked ci v"
  shows "\<exists>b v'. ScanTryCatchBlocks i ci v = Some (b, v') \<and> marked ci v' \<and> (if b then handlers_enterable ci else have_pending_hard_failure v')"
proof (cases "tries_size ci = 0")
  case True
  then show ?thesis using assms(3) by (auto simp: ScanTryCatchBlocks_def handlers_enterable_def)
next
  case False
  obtain n ptr where l: "DecodeUnsignedLeb128 (file_bytes ci) (GetCatchHandlerData ci 0) = (n, ptr)"
    "\<And>p. p \<in> set (handler_lists (unat n) (file_bytes ci) ptr) \<Longrightarrow> sint (fst (DecodeSignedLeb128 (file_bytes ci) p)) \<noteq> - (2 ^ 31)
       \<and> (\<forall>(t, a) \<in> set (fst (handlers_at (file_bytes ci) p)). a < insns_size_in_code_units ci)"
    "\<And>i. i < unat (tries_size ci) \<Longrightarrow>
       GetCatchHandlerData ci (unat (handler_off (try_item ci i))) \<in> set (handler_lists (unat n) (file_bytes ci) ptr)"
    using dex_checked_lists[OF assms(1) False] by blast
  obtain b v1 where t: "ScanTries (unat (tries_size ci)) i ci 0 v = Some (b, v1)" "marked ci v1" "b \<or> have_pending_hard_failure v1"
    using ScanTries_returns[OF assms(2,3), of "unat (tries_size ci)" i 0] by blast
  obtain b' v' where h: "ScanHandlerLists (unat n) i ci ptr v1 = Some (b', v')" "marked ci v'"
    "if b' then \<forall>p \<in> set (handler_lists (unat n) (file_bytes ci) ptr). \<forall>(t, a) \<in> set (fst (handlers_at (file_bytes ci) p)). enterable ci a
       else have_pending_hard_failure v'"
    using ScanHandlerLists_returns[OF t(2), of "unat n" ptr i] l(2) by blast
  show ?thesis
  proof (cases b)
    case True
    then have "ScanTryCatchBlocks i ci v = Some (b', v')" using False t(1) l(1) h(1) by (simp add: ScanTryCatchBlocks_def also_check_def)
    moreover have "b' \<Longrightarrow> handlers_enterable ci" using h(3) l(3) by (simp add: handlers_enterable_def) blast
    ultimately show ?thesis using h by auto
  next
    case no: False
    then have "ScanTryCatchBlocks i ci v = Some (False, v1)" using False t(1) by (simp add: ScanTryCatchBlocks_def also_check_def)
    then show ?thesis using no t by auto
  qed
qed

text \<open>What the static verification makes sure of.\<close>

definition verified :: "verifier_input \<Rightarrow> CodeItem \<Rightarrow> bool" where
  "verified i ci \<longleftrightarrow> whole_instructions ci \<and> handlers_enterable ci \<and> ins_size ci \<le> registers_size ci
     \<and> (\<forall>k. insn_start ci k \<longrightarrow> (\<exists>v v'. opcode_at v = insn_start ci
         \<and> VerifyInstruction (\<not> is_aot_compiler i \<or> verify_to_dump i) i ci (inst_at ci (int k)) (of_nat k) v = Some (True, v')))"

lemma ComputeWidths_returns: "\<exists>b v'. ComputeWidthsAndCountOps i ci v = Some (b, v')"
  unfolding ComputeWidthsAndCountOps_def Let_def by (auto simp: split_beta)

lemma VerifyStatic_returns:
  assumes "dex_checked d ci" "insns_size_in_code_units ci \<noteq> 0"
  shows "\<exists>b v'. VerifyStatic i ci v = Some (b, v') \<and> (if b then verified i ci \<and> marked ci v' else have_pending_hard_failure v')"
proof (cases "registers_size ci < ins_size ci")
  case True
  then show ?thesis by (auto simp: VerifyStatic_def)
next
  case False
  let ?v = "v\<lparr>insn_flags := replicate (unat (insns_size_in_code_units ci)) 0\<rparr>" and ?a = "\<not> is_aot_compiler i \<or> verify_to_dump i"
  let ?n = "unat (insns_size_in_code_units ci)"
  have n: "0 < ?n" using assms(2) by (simp add: unat_gt_0)
  have s0: "insn_start ci 0" using n by (rule insn_start.first)
  obtain b1 v1 where 1: "ComputeWidthsAndCountOps i ci ?v = Some (b1, v1)" using ComputeWidths_returns by blast
  have m1: "marked ci v1" "if b1 then whole_instructions ci else have_pending_hard_failure v1"
    using ComputeWidths_starts[OF 1] by (auto simp: marked_def)
  show ?thesis
  proof (cases b1)
    case b1: True
    obtain b2 v2 where 2: "ScanTryCatchBlocks i ci v1 = Some (b2, v2)" "marked ci v2"
        "if b2 then handlers_enterable ci else have_pending_hard_failure v2"
      using ScanTryCatchBlocks_returns[OF assms(1) _ m1(1), of i] m1(2) b1 by (auto simp del: if_split)
    show ?thesis
    proof (cases b2)
      case b2: True
      obtain v3 where 3: "update_flags SetBranchTarget 0 v2 = Some v3" "marked ci v3"
        using marked_update[OF 2(2) n, of SetBranchTarget] by auto
      obtain v4 where 4: "update_flags SetCompileTimeInfoPoint 0 v3 = Some v4" "marked ci v4"
        using marked_update[OF 3(2) n, of SetCompileTimeInfoPoint] by auto
      have l: "length (insn_flags v4) = ?n" "opcode_at v4 = insn_start ci" using 4(2) by (simp_all add: marked_def)
      obtain b5 v5 where 5: "VerifyInstructions_loop ?a i ci 0 0 v4 = Some (b5, v5)" "length (insn_flags v5) = ?n"
        "if b5 then opcode_at v5 = opcode_at v4 \<and> (\<forall>j \<ge> 0. insn_start ci j \<longrightarrow> (\<exists>v1 v2. opcode_at v1 = opcode_at v4
         \<and> VerifyInstruction ?a i ci (inst_at ci (int j)) (of_nat j) v1 = Some (True, v2))) else have_pending_hard_failure v5"
        using VerifyInstructions_loop_visits[OF s0 _ l(1), of ?a i] m1(2) b1 by auto
      have "VerifyStatic i ci v = Some (b5, v5)"
        using False 1 b1 2(1) b2 3(1) 4(1) 5(1) by (simp add: VerifyStatic_def also_check_def VerifyInstructions_def Let_def)
      moreover have "b5 \<Longrightarrow> verified i ci \<and> marked ci v5"
        using 5 l m1(2) b1 b2 2(3) False by (simp add: verified_def marked_def not_less) 
      ultimately show ?thesis using 5(3) by auto
    next
      case no: False
      then have "VerifyStatic i ci v = Some (False, v2)" using False 1 b1 2(1) by (simp add: VerifyStatic_def also_check_def Let_def)
      then show ?thesis using no 2(3) by auto
    qed
  next
    case no: False
    then have "VerifyStatic i ci v = Some (False, v1)" using False 1 by (simp add: VerifyStatic_def also_check_def Let_def)
    then show ?thesis using no m1(2) by auto
  qed
qed

text \<open>C6: The static verification of a method returns: if the dex file verifier accepts the code item and the code is not
  empty, no flag outside the array is touched and every loop over instructions, try items and handlers ends.  A method that
  it rejects has a hard failure recorded.\<close>

theorem static_verification_returns:
  assumes "dex_checked d ci" "insns_size_in_code_units ci \<noteq> 0"
  shows "case VerifyStatic i ci v of None \<Rightarrow> False | Some (b, v') \<Rightarrow> b \<or> have_pending_hard_failure v'"
  using VerifyStatic_returns[OF assms, of i v] by (auto split: if_splits)

text \<open>C39: Code without any instruction is not rejected: the dex file verifier accepts such a code item, the walk over the
  instructions ends where it should, and the verifier sets the flags of the first instruction, which are outside the array.\<close>

theorem empty_code_leaves_flags:
  assumes "CheckIntraCodeItem d ci = Inr q" "insns_size_in_code_units ci = 0" "tries_size ci = 0"
  shows "VerifyStatic i ci v = None"
proof -
  note assms = assms(2,3) CheckIntraCodeItem_cases(2)[OF assms(1)]
  have "ComputeWidths_loop ci 0 [] c = (0, [], c)" for c using assms(1) by (simp add: ComputeWidths_loop.simps)
  then show ?thesis using assms
    by (simp add: VerifyStatic_def ComputeWidthsAndCountOps_def also_check_def ScanTryCatchBlocks_def VerifyInstructions_def update_flags_def Let_def)
qed

definition empty_item :: CodeItem where
  "empty_item = \<lparr>file_bytes = \<lambda>_. 0, item_at = 0\<rparr>"

definition sample_input :: verifier_input where
  "sample_input = \<lparr>code_item = Some sample_item, method_access_flags = 1, method_name = ''f'', class_access_flags = 1, dex_version = 37,
     field_ids = 0, method_ids = 0, proto_ids = 0, string_ids = 0, type_ids = 6, StringByTypeIdx = \<lambda>_. ''LA;'', is_aot_compiler = False,
     can_load_classes = True, allow_soft_failures = True, verify_to_dump = False, kIsDebugBuild = True\<rparr>"

theorem empty_code_leaves_flags_witness:
  "CheckIntraCodeItem \<lparr>file_begin = 0, file_size = 20, type_ids_size = 0\<rparr> empty_item = Inr 16
   \<and> VerifyStatic sample_input empty_item MethodVerifier_new = None"
proof -
  have f: "registers_size empty_item = 0" "ins_size empty_item = 0" "outs_size empty_item = 0" "tries_size empty_item = 0"
    "insns_size_in_code_units empty_item = 0" "item_at empty_item = 0" "insns_address empty_item 0 = 16"
    by (simp_all add: empty_item_def registers_size_def ins_size_def outs_size_def tries_size_def insns_size_in_code_units_def
        insns_address_def Load16_def Load32_def)
  then have c: "CheckIntraCodeItem \<lparr>file_begin = 0, file_size = 20, type_ids_size = 0\<rparr> empty_item = Inr 16"
    by (simp add: CheckIntraCodeItem_def CheckListSize_def file_end_def Let_def)
  then show ?thesis using empty_code_leaves_flags[OF c f(5,4)] by blast
qed

declare flag_try_block.simps [code] VerifyInstructions_loop.simps [code]

lemma sample_static: "map_option (\<lambda>(b, v). (b, insn_flags v)) (VerifyStatic sample_input sample_item MethodVerifier_new) = Some (True, [60, 116])"
  by code_simp


lemma sample_checked: "dex_checked sample_verifier sample_item"
  using sample_accepted by (simp add: dex_checked_def sample_verifier_def)

theorem static_verification_returns_witness:
  "dex_checked sample_verifier sample_item
   \<and> (case VerifyStatic sample_input sample_item MethodVerifier_new of None \<Rightarrow> False | Some (b, v) \<Rightarrow> b \<or> have_pending_hard_failure v)
   \<and> map_option (\<lambda>(b, v). (b, insn_flags v)) (VerifyStatic sample_input sample_item MethodVerifier_new) = Some (True, [60, 116])"
  using static_verification_returns[OF sample_checked, of sample_input MethodVerifier_new] sample_checked sample_static
  by (simp add: sample_item_fields)

end
