(* ===== verification/Interpreter_Switch.thy ===== *)
theory Interpreter_Switch
  imports Interpreter_Ops
begin

text \<open>
  The switch interpreter itself (\<open>interpreter/interpreter_switch_impl.cc\<close>).  Every \<open>case\<close> of
  \<open>ExecuteSwitchImpl\<close> is an entry of a table, in the order of the source; cases that differ only in the operation they
  apply share a combinator.  \<open>step\<close> is one iteration of the loop and \<open>loop\<close> the loop, which need not end.
\<close>

section \<open>Operands as register numbers\<close>

abbreviation (input) a11n :: "Instruction \<Rightarrow> nat" where "a11n i \<equiv> unat (VRegA_11n (i 0))"
abbreviation (input) a11x :: "Instruction \<Rightarrow> nat" where "a11x i \<equiv> unat (VRegA_11x (i 0))"
abbreviation (input) a12x :: "Instruction \<Rightarrow> nat" where "a12x i \<equiv> unat (VRegA_12x (i 0))"
abbreviation (input) b12x :: "Instruction \<Rightarrow> nat" where "b12x i \<equiv> unat (VRegB_12x (i 0))"
abbreviation (input) a21c :: "Instruction \<Rightarrow> nat" where "a21c i \<equiv> unat (VRegA_21c (i 0))"
abbreviation (input) a21h :: "Instruction \<Rightarrow> nat" where "a21h i \<equiv> unat (VRegA_21h (i 0))"
abbreviation (input) a21s :: "Instruction \<Rightarrow> nat" where "a21s i \<equiv> unat (VRegA_21s (i 0))"
abbreviation (input) a21t :: "Instruction \<Rightarrow> nat" where "a21t i \<equiv> unat (VRegA_21t (i 0))"
abbreviation (input) a22b :: "Instruction \<Rightarrow> nat" where "a22b i \<equiv> unat (VRegA_22b (i 0))"
abbreviation (input) b22b :: "Instruction \<Rightarrow> nat" where "b22b i \<equiv> unat (VRegB_22b i)"
abbreviation (input) a22c :: "Instruction \<Rightarrow> nat" where "a22c i \<equiv> unat (VRegA_22c (i 0))"
abbreviation (input) b22c :: "Instruction \<Rightarrow> nat" where "b22c i \<equiv> unat (VRegB_22c (i 0))"
abbreviation (input) a22s :: "Instruction \<Rightarrow> nat" where "a22s i \<equiv> unat (VRegA_22s (i 0))"
abbreviation (input) b22s :: "Instruction \<Rightarrow> nat" where "b22s i \<equiv> unat (VRegB_22s (i 0))"
abbreviation (input) a22t :: "Instruction \<Rightarrow> nat" where "a22t i \<equiv> unat (VRegA_22t (i 0))"
abbreviation (input) b22t :: "Instruction \<Rightarrow> nat" where "b22t i \<equiv> unat (VRegB_22t (i 0))"
abbreviation (input) a22x :: "Instruction \<Rightarrow> nat" where "a22x i \<equiv> unat (VRegA_22x (i 0))"
abbreviation (input) b22x :: "Instruction \<Rightarrow> nat" where "b22x i \<equiv> unat (VRegB_22x i)"
abbreviation (input) a23x :: "Instruction \<Rightarrow> nat" where "a23x i \<equiv> unat (VRegA_23x (i 0))"
abbreviation (input) b23x :: "Instruction \<Rightarrow> nat" where "b23x i \<equiv> unat (VRegB_23x i)"
abbreviation (input) c23x :: "Instruction \<Rightarrow> nat" where "c23x i \<equiv> unat (VRegC_23x i)"
abbreviation (input) a31c :: "Instruction \<Rightarrow> nat" where "a31c i \<equiv> unat (VRegA_31c (i 0))"
abbreviation (input) a31i :: "Instruction \<Rightarrow> nat" where "a31i i \<equiv> unat (VRegA_31i (i 0))"
abbreviation (input) a31t :: "Instruction \<Rightarrow> nat" where "a31t i \<equiv> unat (VRegA_31t (i 0))"
abbreviation (input) a32x :: "Instruction \<Rightarrow> nat" where "a32x i \<equiv> unat (VRegA_32x i)"
abbreviation (input) b32x :: "Instruction \<Rightarrow> nat" where "b32x i \<equiv> unat (VRegB_32x i)"
abbreviation (input) a51l :: "Instruction \<Rightarrow> nat" where "a51l i \<equiv> unat (VRegA_51l (i 0))"

section \<open>Instructions that compute from registers to a register\<close>

definition move_reg :: "(ShadowFrame \<Rightarrow> nat \<Rightarrow> 'v option) \<Rightarrow> (ShadowFrame \<Rightarrow> nat \<Rightarrow> 'v \<Rightarrow> ShadowFrame option)
    \<Rightarrow> nat \<Rightarrow> (Instruction \<Rightarrow> nat) \<Rightarrow> (Instruction \<Rightarrow> nat) \<Rightarrow> 'h handler" where
  "move_reg get put n a b = on_frame n (\<lambda>i f. get f (b i) \<bind> put f (a i))"

definition unary_op :: "(ShadowFrame \<Rightarrow> nat \<Rightarrow> 'v option) \<Rightarrow> (ShadowFrame \<Rightarrow> nat \<Rightarrow> 'w \<Rightarrow> ShadowFrame option)
    \<Rightarrow> ('v \<Rightarrow> 'w) \<Rightarrow> 'h handler" where
  "unary_op get put op = on_frame 1 (\<lambda>i f. get f (b12x i) \<bind> (\<lambda>v. put f (a12x i) (op v)))"

definition binary_op :: "(ShadowFrame \<Rightarrow> nat \<Rightarrow> 'v option) \<Rightarrow> (ShadowFrame \<Rightarrow> nat \<Rightarrow> 'w option)
    \<Rightarrow> (ShadowFrame \<Rightarrow> nat \<Rightarrow> 'x \<Rightarrow> ShadowFrame option) \<Rightarrow> ('v \<Rightarrow> 'w \<Rightarrow> 'x) \<Rightarrow> 'h handler" where
  "binary_op get1 get2 put op = on_frame 2 (\<lambda>i f. do {
     x \<leftarrow> get1 f (b23x i);
     y \<leftarrow> get2 f (c23x i);
     put f (a23x i) (op x y)
   })"

definition binary_op_2addr :: "(ShadowFrame \<Rightarrow> nat \<Rightarrow> 'v option) \<Rightarrow> (ShadowFrame \<Rightarrow> nat \<Rightarrow> 'w option)
    \<Rightarrow> (ShadowFrame \<Rightarrow> nat \<Rightarrow> 'x \<Rightarrow> ShadowFrame option) \<Rightarrow> ('v \<Rightarrow> 'w \<Rightarrow> 'x) \<Rightarrow> 'h handler" where
  "binary_op_2addr get1 get2 put op = on_frame 1 (\<lambda>i f. do {
     x \<leftarrow> get1 f (a12x i);
     y \<leftarrow> get2 f (b12x i);
     put f (a12x i) (op x y)
   })"

definition lit16_op :: "(u32 \<Rightarrow> u16 \<Rightarrow> u32) \<Rightarrow> 'h handler" where
  "lit16_op op = on_frame 2 (\<lambda>i f. GetVReg f (b22s i) \<bind> (\<lambda>v. SetVReg f (a22s i) (op v (VRegC_22s i))))"

definition lit8_op :: "(u32 \<Rightarrow> u8 \<Rightarrow> u32) \<Rightarrow> 'h handler" where
  "lit8_op op = on_frame 2 (\<lambda>i f. GetVReg f (b22b i) \<bind> (\<lambda>v. SetVReg f (a22b i) (op v (VRegC_22b i))))"

text \<open>An operation that returns whether it succeeded.\<close>

definition checked :: "nat \<Rightarrow> ('h env \<Rightarrow> 'h istate \<Rightarrow> (bool \<times> 'h istate) option) \<Rightarrow> 'h handler" where
  "checked next_units op env pc s = do {
     (success, s) \<leftarrow> op env s;
     POSSIBLY_HANDLE_PENDING_EXCEPTION (\<not> success) next_units env pc s
   }"

text \<open>The long divisions test for a pending exception and not for the result.\<close>

definition checked_pending :: "nat \<Rightarrow> ('h env \<Rightarrow> 'h istate \<Rightarrow> (bool \<times> 'h istate) option) \<Rightarrow> 'h handler" where
  "checked_pending next_units op env pc s = do {
     (_, s) \<leftarrow> op env s;
     POSSIBLY_HANDLE_PENDING_EXCEPTION (exception s \<noteq> 0) next_units env pc s
   }"

section \<open>Arithmetic\<close>

definition shift_left :: "nat \<Rightarrow> 'a::len word \<Rightarrow> 'b::len word \<Rightarrow> 'a word" where
  "shift_left m x y = push_bit (unat (y AND mask m)) x"

definition shift_right :: "nat \<Rightarrow> 'a::len word \<Rightarrow> 'b::len word \<Rightarrow> 'a word" where
  "shift_right m x y = signed_drop_bit (unat (y AND mask m)) x"

definition ushift_right :: "nat \<Rightarrow> 'a::len word \<Rightarrow> 'b::len word \<Rightarrow> 'a word" where
  "ushift_right m x y = drop_bit (unat (y AND mask m)) x"

definition unary_cases :: "fpu \<Rightarrow> (Code \<times> 'h handler) list" where
  "unary_cases m = [
     (NEG_INT, PREAMBLE (unary_op GetVReg SetVReg uminus)),
     (NOT_INT, PREAMBLE (unary_op GetVReg SetVReg NOT)),
     (NEG_LONG, PREAMBLE (unary_op GetVRegLong SetVRegLong uminus)),
     (NOT_LONG, PREAMBLE (unary_op GetVRegLong SetVRegLong NOT)),
     (NEG_FLOAT, PREAMBLE (unary_op GetVRegFloat SetVRegFloat fneg)),
     (NEG_DOUBLE, PREAMBLE (unary_op GetVRegDouble SetVRegDouble fneg)),
     (INT_TO_LONG, PREAMBLE (unary_op GetVReg SetVRegLong scast)),
     (INT_TO_FLOAT, PREAMBLE (unary_op GetVReg SetVRegFloat (int_to_float m))),
     (INT_TO_DOUBLE, PREAMBLE (unary_op GetVReg SetVRegDouble (int_to_double m))),
     (LONG_TO_INT, PREAMBLE (unary_op GetVRegLong SetVReg ucast)),
     (LONG_TO_FLOAT, PREAMBLE (unary_op GetVRegLong SetVRegFloat (long_to_float m))),
     (LONG_TO_DOUBLE, PREAMBLE (unary_op GetVRegLong SetVRegDouble (long_to_double m))),
     (FLOAT_TO_INT, PREAMBLE (unary_op GetVRegFloat SetVReg float_to_int)),
     (FLOAT_TO_LONG, PREAMBLE (unary_op GetVRegFloat SetVRegLong float_to_long)),
     (FLOAT_TO_DOUBLE, PREAMBLE (unary_op GetVRegFloat SetVRegDouble (float_to_double m))),
     (DOUBLE_TO_INT, PREAMBLE (unary_op GetVRegDouble SetVReg double_to_int)),
     (DOUBLE_TO_LONG, PREAMBLE (unary_op GetVRegDouble SetVRegLong double_to_long)),
     (DOUBLE_TO_FLOAT, PREAMBLE (unary_op GetVRegDouble SetVRegFloat (double_to_float m))),
     (INT_TO_BYTE, PREAMBLE (unary_op GetVReg SetVReg (\<lambda>v. scast (ucast v :: u8)))),
     (INT_TO_CHAR, PREAMBLE (unary_op GetVReg SetVReg (\<lambda>v. ucast (ucast v :: u16)))),
     (INT_TO_SHORT, PREAMBLE (unary_op GetVReg SetVReg (\<lambda>v. scast (ucast v :: u16))))]"

definition with_operands :: "(ShadowFrame \<Rightarrow> nat \<Rightarrow> 'v option) \<Rightarrow> (Instruction \<Rightarrow> nat) \<Rightarrow> (Instruction \<Rightarrow> nat) \<Rightarrow> (Instruction \<Rightarrow> nat)
    \<Rightarrow> ('h env \<Rightarrow> nat \<Rightarrow> 'v \<Rightarrow> 'v \<Rightarrow> 'h istate \<Rightarrow> (bool \<times> 'h istate) option) \<Rightarrow> 'h env \<Rightarrow> 'h istate \<Rightarrow> (bool \<times> 'h istate) option" where
  "with_operands get a b c op env s = do {
     x \<leftarrow> get (frame s) (b (cur env s));
     y \<leftarrow> get (frame s) (c (cur env s));
     op env (a (cur env s)) x y s
   }"

definition int_cases :: "(Code \<times> 'h handler) list" where
  "int_cases = [
     (ADD_INT, PREAMBLE (binary_op GetVReg GetVReg SetVReg SafeAdd)),
     (SUB_INT, PREAMBLE (binary_op GetVReg GetVReg SetVReg SafeSub)),
     (MUL_INT, PREAMBLE (binary_op GetVReg GetVReg SetVReg SafeMul)),
     (DIV_INT, PREAMBLE (checked 2 (with_operands GetVReg a23x b23x c23x DoIntDivide))),
     (REM_INT, PREAMBLE (checked 2 (with_operands GetVReg a23x b23x c23x DoIntRemainder))),
     (SHL_INT, PREAMBLE (binary_op GetVReg GetVReg SetVReg (shift_left 5))),
     (SHR_INT, PREAMBLE (binary_op GetVReg GetVReg SetVReg (shift_right 5))),
     (USHR_INT, PREAMBLE (binary_op GetVReg GetVReg SetVReg (ushift_right 5))),
     (AND_INT, PREAMBLE (binary_op GetVReg GetVReg SetVReg (AND))),
     (OR_INT, PREAMBLE (binary_op GetVReg GetVReg SetVReg (OR))),
     (XOR_INT, PREAMBLE (binary_op GetVReg GetVReg SetVReg (XOR)))]"

definition long_cases :: "(Code \<times> 'h handler) list" where
  "long_cases = [
     (ADD_LONG, PREAMBLE (binary_op GetVRegLong GetVRegLong SetVRegLong SafeAdd)),
     (SUB_LONG, PREAMBLE (binary_op GetVRegLong GetVRegLong SetVRegLong SafeSub)),
     (MUL_LONG, PREAMBLE (binary_op GetVRegLong GetVRegLong SetVRegLong SafeMul)),
     (DIV_LONG, PREAMBLE (checked_pending 2 (with_operands GetVRegLong a23x b23x c23x DoLongDivide))),
     (REM_LONG, PREAMBLE (checked_pending 2 (with_operands GetVRegLong a23x b23x c23x DoLongRemainder))),
     (AND_LONG, PREAMBLE (binary_op GetVRegLong GetVRegLong SetVRegLong (AND))),
     (OR_LONG, PREAMBLE (binary_op GetVRegLong GetVRegLong SetVRegLong (OR))),
     (XOR_LONG, PREAMBLE (binary_op GetVRegLong GetVRegLong SetVRegLong (XOR))),
     (SHL_LONG, PREAMBLE (binary_op GetVRegLong GetVReg SetVRegLong (shift_left 6))),
     (SHR_LONG, PREAMBLE (binary_op GetVRegLong GetVReg SetVRegLong (shift_right 6))),
     (USHR_LONG, PREAMBLE (binary_op GetVRegLong GetVReg SetVRegLong (ushift_right 6)))]"

definition float_cases :: "fpu \<Rightarrow> (Code \<times> 'h handler) list" where
  "float_cases m = [
     (ADD_FLOAT, PREAMBLE (binary_op GetVRegFloat GetVRegFloat SetVRegFloat (fadd32 m))),
     (SUB_FLOAT, PREAMBLE (binary_op GetVRegFloat GetVRegFloat SetVRegFloat (fsub32 m))),
     (MUL_FLOAT, PREAMBLE (binary_op GetVRegFloat GetVRegFloat SetVRegFloat (fmul32 m))),
     (DIV_FLOAT, PREAMBLE (binary_op GetVRegFloat GetVRegFloat SetVRegFloat (fdiv32 m))),
     (REM_FLOAT, PREAMBLE (binary_op GetVRegFloat GetVRegFloat SetVRegFloat (fmodf m))),
     (ADD_DOUBLE, PREAMBLE (binary_op GetVRegDouble GetVRegDouble SetVRegDouble (fadd64 m))),
     (SUB_DOUBLE, PREAMBLE (binary_op GetVRegDouble GetVRegDouble SetVRegDouble (fsub64 m))),
     (MUL_DOUBLE, PREAMBLE (binary_op GetVRegDouble GetVRegDouble SetVRegDouble (fmul64 m))),
     (DIV_DOUBLE, PREAMBLE (binary_op GetVRegDouble GetVRegDouble SetVRegDouble (fdiv64 m))),
     (REM_DOUBLE, PREAMBLE (binary_op GetVRegDouble GetVRegDouble SetVRegDouble (fmod m)))]"

definition int_2addr_cases :: "(Code \<times> 'h handler) list" where
  "int_2addr_cases = [
     (ADD_INT_2ADDR, PREAMBLE (binary_op_2addr GetVReg GetVReg SetVReg SafeAdd)),
     (SUB_INT_2ADDR, PREAMBLE (binary_op_2addr GetVReg GetVReg SetVReg SafeSub)),
     (MUL_INT_2ADDR, PREAMBLE (binary_op_2addr GetVReg GetVReg SetVReg SafeMul)),
     (DIV_INT_2ADDR, PREAMBLE (checked 1 (with_operands GetVReg a12x a12x b12x DoIntDivide))),
     (REM_INT_2ADDR, PREAMBLE (checked 1 (with_operands GetVReg a12x a12x b12x DoIntRemainder))),
     (SHL_INT_2ADDR, PREAMBLE (binary_op_2addr GetVReg GetVReg SetVReg (shift_left 5))),
     (SHR_INT_2ADDR, PREAMBLE (binary_op_2addr GetVReg GetVReg SetVReg (shift_right 5))),
     (USHR_INT_2ADDR, PREAMBLE (binary_op_2addr GetVReg GetVReg SetVReg (ushift_right 5))),
     (AND_INT_2ADDR, PREAMBLE (binary_op_2addr GetVReg GetVReg SetVReg (AND))),
     (OR_INT_2ADDR, PREAMBLE (binary_op_2addr GetVReg GetVReg SetVReg (OR))),
     (XOR_INT_2ADDR, PREAMBLE (binary_op_2addr GetVReg GetVReg SetVReg (XOR)))]"

definition long_2addr_cases :: "(Code \<times> 'h handler) list" where
  "long_2addr_cases = [
     (ADD_LONG_2ADDR, PREAMBLE (binary_op_2addr GetVRegLong GetVRegLong SetVRegLong SafeAdd)),
     (SUB_LONG_2ADDR, PREAMBLE (binary_op_2addr GetVRegLong GetVRegLong SetVRegLong SafeSub)),
     (MUL_LONG_2ADDR, PREAMBLE (binary_op_2addr GetVRegLong GetVRegLong SetVRegLong SafeMul)),
     (DIV_LONG_2ADDR, PREAMBLE (checked_pending 1 (with_operands GetVRegLong a12x a12x b12x DoLongDivide))),
     (REM_LONG_2ADDR, PREAMBLE (checked_pending 1 (with_operands GetVRegLong a12x a12x b12x DoLongRemainder))),
     (AND_LONG_2ADDR, PREAMBLE (binary_op_2addr GetVRegLong GetVRegLong SetVRegLong (AND))),
     (OR_LONG_2ADDR, PREAMBLE (binary_op_2addr GetVRegLong GetVRegLong SetVRegLong (OR))),
     (XOR_LONG_2ADDR, PREAMBLE (binary_op_2addr GetVRegLong GetVRegLong SetVRegLong (XOR))),
     (SHL_LONG_2ADDR, PREAMBLE (binary_op_2addr GetVRegLong GetVReg SetVRegLong (shift_left 6))),
     (SHR_LONG_2ADDR, PREAMBLE (binary_op_2addr GetVRegLong GetVReg SetVRegLong (shift_right 6))),
     (USHR_LONG_2ADDR, PREAMBLE (binary_op_2addr GetVRegLong GetVReg SetVRegLong (ushift_right 6)))]"

definition float_2addr_cases :: "fpu \<Rightarrow> (Code \<times> 'h handler) list" where
  "float_2addr_cases m = [
     (ADD_FLOAT_2ADDR, PREAMBLE (binary_op_2addr GetVRegFloat GetVRegFloat SetVRegFloat (fadd32 m))),
     (SUB_FLOAT_2ADDR, PREAMBLE (binary_op_2addr GetVRegFloat GetVRegFloat SetVRegFloat (fsub32 m))),
     (MUL_FLOAT_2ADDR, PREAMBLE (binary_op_2addr GetVRegFloat GetVRegFloat SetVRegFloat (fmul32 m))),
     (DIV_FLOAT_2ADDR, PREAMBLE (binary_op_2addr GetVRegFloat GetVRegFloat SetVRegFloat (fdiv32 m))),
     (REM_FLOAT_2ADDR, PREAMBLE (binary_op_2addr GetVRegFloat GetVRegFloat SetVRegFloat (fmodf m))),
     (ADD_DOUBLE_2ADDR, PREAMBLE (binary_op_2addr GetVRegDouble GetVRegDouble SetVRegDouble (fadd64 m))),
     (SUB_DOUBLE_2ADDR, PREAMBLE (binary_op_2addr GetVRegDouble GetVRegDouble SetVRegDouble (fsub64 m))),
     (MUL_DOUBLE_2ADDR, PREAMBLE (binary_op_2addr GetVRegDouble GetVRegDouble SetVRegDouble (fmul64 m))),
     (DIV_DOUBLE_2ADDR, PREAMBLE (binary_op_2addr GetVRegDouble GetVRegDouble SetVRegDouble (fdiv64 m))),
     (REM_DOUBLE_2ADDR, PREAMBLE (binary_op_2addr GetVRegDouble GetVRegDouble SetVRegDouble (fmod m)))]"

definition with_literal :: "(Instruction \<Rightarrow> nat) \<Rightarrow> (Instruction \<Rightarrow> nat) \<Rightarrow> (Instruction \<Rightarrow> u32)
    \<Rightarrow> ('h env \<Rightarrow> nat \<Rightarrow> u32 \<Rightarrow> u32 \<Rightarrow> 'h istate \<Rightarrow> (bool \<times> 'h istate) option) \<Rightarrow> 'h env \<Rightarrow> 'h istate \<Rightarrow> (bool \<times> 'h istate) option" where
  "with_literal a b lit op env s = do {
     x \<leftarrow> GetVReg (frame s) (b (cur env s));
     op env (a (cur env s)) x (lit (cur env s)) s
   }"

definition lit16_cases :: "(Code \<times> 'h handler) list" where
  "lit16_cases = [
     (ADD_INT_LIT16, PREAMBLE (lit16_op SafeAdd)),
     (RSUB_INT, PREAMBLE (lit16_op (\<lambda>v lit. SafeSub lit v))),
     (MUL_INT_LIT16, PREAMBLE (lit16_op SafeMul)),
     (DIV_INT_LIT16, PREAMBLE (checked 2 (with_literal a22s b22s (\<lambda>i. scast (VRegC_22s i)) DoIntDivide))),
     (REM_INT_LIT16, PREAMBLE (checked 2 (with_literal a22s b22s (\<lambda>i. scast (VRegC_22s i)) DoIntRemainder))),
     (AND_INT_LIT16, PREAMBLE (lit16_op (\<lambda>v lit. v AND scast lit))),
     (OR_INT_LIT16, PREAMBLE (lit16_op (\<lambda>v lit. v OR scast lit))),
     (XOR_INT_LIT16, PREAMBLE (lit16_op (\<lambda>v lit. v XOR scast lit)))]"

definition lit8_cases :: "(Code \<times> 'h handler) list" where
  "lit8_cases = [
     (ADD_INT_LIT8, PREAMBLE (lit8_op SafeAdd)),
     (RSUB_INT_LIT8, PREAMBLE (lit8_op (\<lambda>v lit. SafeSub lit v))),
     (MUL_INT_LIT8, PREAMBLE (lit8_op SafeMul)),
     (DIV_INT_LIT8, PREAMBLE (checked 2 (with_literal a22b b22b (\<lambda>i. scast (VRegC_22b i)) DoIntDivide))),
     (REM_INT_LIT8, PREAMBLE (checked 2 (with_literal a22b b22b (\<lambda>i. scast (VRegC_22b i)) DoIntRemainder))),
     (AND_INT_LIT8, PREAMBLE (lit8_op (\<lambda>v lit. v AND scast lit))),
     (OR_INT_LIT8, PREAMBLE (lit8_op (\<lambda>v lit. v OR scast lit))),
     (XOR_INT_LIT8, PREAMBLE (lit8_op (\<lambda>v lit. v XOR scast lit))),
     (SHL_INT_LIT8, PREAMBLE (lit8_op (shift_left 5))),
     (SHR_INT_LIT8, PREAMBLE (lit8_op (shift_right 5))),
     (USHR_INT_LIT8, PREAMBLE (lit8_op (ushift_right 5)))]"

section \<open>Moves and constants\<close>

definition move_exception :: "'h handler" where
  "move_exception env pc s =
     (if exception s = 0 then None
      else on_frame 1 (\<lambda>i f. SetVRegReference f (a11x i) (exception s)) env pc (s\<lparr>exception := 0\<rparr>))"

definition move_cases :: "(Code \<times> 'h handler) list" where
  "move_cases = [
     (NOP, PREAMBLE (on_frame 1 (\<lambda>i. Some))),
     (MOVE, PREAMBLE (move_reg GetVReg SetVReg 1 a12x b12x)),
     (MOVE_FROM16, PREAMBLE (move_reg GetVReg SetVReg 2 a22x b22x)),
     (MOVE_16, PREAMBLE (move_reg GetVReg SetVReg 3 a32x b32x)),
     (MOVE_WIDE, PREAMBLE (move_reg GetVRegLong SetVRegLong 1 a12x b12x)),
     (MOVE_WIDE_FROM16, PREAMBLE (move_reg GetVRegLong SetVRegLong 2 a22x b22x)),
     (MOVE_WIDE_16, PREAMBLE (move_reg GetVRegLong SetVRegLong 3 a32x b32x)),
     (MOVE_OBJECT, PREAMBLE (move_reg GetVRegReference SetVRegReference 1 a12x b12x)),
     (MOVE_OBJECT_FROM16, PREAMBLE (move_reg GetVRegReference SetVRegReference 2 a22x b22x)),
     (MOVE_OBJECT_16, PREAMBLE (move_reg GetVRegReference SetVRegReference 3 a32x b32x)),
     (MOVE_RESULT, PREAMBLE (\<lambda>env pc s. on_frame 1 (\<lambda>i f. SetVReg f (a11x i) (JValue_GetI (result_register s))) env pc s)),
     (MOVE_RESULT_WIDE, PREAMBLE (\<lambda>env pc s. on_frame 1 (\<lambda>i f. SetVRegLong f (a11x i) (result_register s)) env pc s)),
     (MOVE_RESULT_OBJECT, PREAMBLE_SAVE True
        (\<lambda>env pc s. on_frame 1 (\<lambda>i f. SetVRegReference f (a11x i) (JValue_GetL (result_register s))) env pc s)),
     (MOVE_EXCEPTION, PREAMBLE move_exception)]"

text \<open>A zero constant may stand for the null reference.\<close>

definition const_op :: "nat \<Rightarrow> (Instruction \<Rightarrow> nat) \<Rightarrow> (Instruction \<Rightarrow> u32) \<Rightarrow> 'h handler" where
  "const_op n dst val = on_frame n (\<lambda>i f. do {
     f \<leftarrow> SetVReg f (dst i) (val i);
     if val i = 0 then SetVRegReference f (dst i) 0 else Some f
   })"

definition const_cases :: "(Code \<times> 'h handler) list" where
  "const_cases = [
     (CONST_4, PREAMBLE (const_op 1 a11n (\<lambda>i. scast (VRegB_11n (i 0))))),
     (CONST_16, PREAMBLE (const_op 2 a21s (\<lambda>i. scast (VRegB_21s i)))),
     (CONST_insn, PREAMBLE (const_op 3 a31i VRegB_31i)),
     (CONST_HIGH16, PREAMBLE (const_op 2 a21h (\<lambda>i. push_bit 16 (ucast (VRegB_21h i))))),
     (CONST_WIDE_16, PREAMBLE (on_frame 2 (\<lambda>i f. SetVRegLong f (a21s i) (scast (VRegB_21s i))))),
     (CONST_WIDE_32, PREAMBLE (on_frame 3 (\<lambda>i f. SetVRegLong f (a31i i) (scast (VRegB_31i i))))),
     (CONST_WIDE, PREAMBLE (on_frame 5 (\<lambda>i f. SetVRegLong f (a51l i) (VRegB_51l i)))),
     (CONST_WIDE_HIGH16, PREAMBLE (on_frame 2 (\<lambda>i f. SetVRegLong f (a21h i) (push_bit 48 (ucast (VRegB_21h i))))))]"

text \<open>An object that a call delivers, null with an exception pending if it fails.\<close>

definition store_object :: "nat \<Rightarrow> (Instruction \<Rightarrow> nat) \<Rightarrow> ref \<Rightarrow> 'h handler" where
  "store_object n dst obj env pc s =
     (if obj = 0 then HANDLE_PENDING_EXCEPTION env pc s
      else on_frame n (\<lambda>i f. SetVRegReference f (dst i) obj) env pc s)"

definition const_object_cases :: "(Code \<times> 'h handler) list" where
  "const_object_cases = [
     (CONST_STRING, PREAMBLE (\<lambda>env pc s. do {
        (str, s) \<leftarrow> call (ResolveString (lnk env) (ucast (VRegB_21c (cur env s)))) s;
        store_object 2 a21c str env pc s })),
     (CONST_STRING_JUMBO, PREAMBLE (\<lambda>env pc s. do {
        (str, s) \<leftarrow> call (ResolveString (lnk env) (VRegB_31c (cur env s))) s;
        store_object 3 a31c str env pc s })),
     (CONST_CLASS, PREAMBLE (\<lambda>env pc s. do {
        (c, s) \<leftarrow> call (ResolveVerifyAndClinit (lnk env) (VRegB_21c (cur env s)) (do_access_check env)) s;
        store_object 2 a21c c env pc s }))]"

section \<open>Returns\<close>

text \<open>An exception while returning is handled, but the code goes on to return all the same.\<close>

definition return_object_exit :: "nat \<Rightarrow> ref \<Rightarrow> 'h handler" where
  "return_object_exit ref_idx obj_result =
     method_exit (\<lambda>s. map_option JValue_SetL (GetVRegReference (frame s) ref_idx)) (JValue_SetL obj_result)"

definition return_object :: "'h handler" where
  "return_object env pc s =
     (let ref_idx = a11x (cur env s) in do {
        (_, s) \<leftarrow> call (suspend env) s;
        andThen (HANDLE_MONITOR_CHECKS env pc s) (\<lambda>s. do {
          obj_result \<leftarrow> GetVRegReference (frame s) ref_idx;
          if do_access_check env \<and> obj_result \<noteq> 0 then do {
            (return_type, s) \<leftarrow> call (GetReturnType (lnk env)) s;
            obj_result \<leftarrow> GetVRegReference (frame s) ref_idx;
            andThen (if return_type = 0 then HANDLE_PENDING_EXCEPTION env pc s else Some (Continue s))
              (\<lambda>s. if return_type = 0 then None
                   else andThen
                     (if \<not> VerifierInstanceOf (lnk env) (heap s) obj_result return_type
                      then throw_and_handle InternalError env pc s else Some (Continue s))
                     (return_object_exit ref_idx obj_result env pc))
          } else return_object_exit ref_idx obj_result env pc s
        })
      })"

definition return_cases :: "(Code \<times> 'h handler) list" where
  "return_cases = [
     (RETURN_VOID_NO_BARRIER, PREAMBLE (return_handler (\<lambda>env s. Some 0))),
     (RETURN_VOID, PREAMBLE (return_handler (\<lambda>env s. Some 0))),
     (RETURN, PREAMBLE (return_handler (\<lambda>env s. map_option JValue_SetI (GetVReg (frame s) (a11x (cur env s)))))),
     (RETURN_WIDE, PREAMBLE (return_handler (\<lambda>env s. GetVRegLong (frame s) (a11x (cur env s))))),
     (RETURN_OBJECT, PREAMBLE return_object)]"

section \<open>Objects\<close>

definition monitor_op :: "('h env \<Rightarrow> ref \<Rightarrow> 'h istate \<Rightarrow> 'h istate option) \<Rightarrow> 'h handler" where
  "monitor_op op env pc s = do {
     obj \<leftarrow> GetVRegReference (frame s) (a11x (cur env s));
     if obj = 0 then throw_and_handle NullPointer env pc s
     else do {
       s \<leftarrow> op env obj s;
       POSSIBLY_HANDLE_PENDING_EXCEPTION (exception s \<noteq> 0) 1 env pc s
     }
   }"

definition check_cast :: "'h handler" where
  "check_cast env pc s = do {
     (c, s) \<leftarrow> call (ResolveVerifyAndClinit (lnk env) (VRegB_21c (cur env s)) (do_access_check env)) s;
     if c = 0 then HANDLE_PENDING_EXCEPTION env pc s
     else do {
       obj \<leftarrow> GetVRegReference (frame s) (a21c (cur env s));
       if obj \<noteq> 0 \<and> \<not> InstanceOf (lnk env) (heap s) obj c
       then throw_and_handle (ClassCast c (GetClass (lnk env) (heap s) obj)) env pc s
       else Some (Continue (Next_units 2 s))
     }
   }"

definition instance_of :: "'h handler" where
  "instance_of env pc s = do {
     (c, s) \<leftarrow> call (ResolveVerifyAndClinit (lnk env) (VRegC_22c (cur env s)) (do_access_check env)) s;
     if c = 0 then HANDLE_PENDING_EXCEPTION env pc s
     else do {
       obj \<leftarrow> GetVRegReference (frame s) (b22c (cur env s));
       on_frame 2 (\<lambda>i f. SetVReg f (a22c i) (if obj \<noteq> 0 \<and> InstanceOf (lnk env) (heap s) obj c then 1 else 0)) env pc s
     }
   }"

definition array_length :: "'h handler" where
  "array_length env pc s = do {
     array \<leftarrow> GetVRegReference (frame s) (b12x (cur env s));
     if array = 0 then throw_and_handle NullPointer env pc s
     else do {
       a \<leftarrow> arrays (heap s) array;
       on_frame 1 (\<lambda>i f. SetVReg f (a12x i) (of_nat (GetLength a))) env pc s
     }
   }"

definition new_instance :: "'h handler" where
  "new_instance env pc s = do {
     (c, s) \<leftarrow> call (ResolveVerifyAndClinit (lnk env) (VRegB_21c (cur env s)) (do_access_check env)) s;
     (obj, s) \<leftarrow>
       (if c \<noteq> 0
        then if IsStringClass (lnk env) (heap s) c then call (AllocEmptyString (alloc env)) s
             else call (AllocObjectFromCode (alloc env) c) s
        else Some (0, s));
     if obj = 0 then HANDLE_PENDING_EXCEPTION env pc s
     else if transaction_active env \<and> ObjectIsFinalizable (lnk env) (heap s) obj then do {
       (_, s) \<leftarrow> call (AbortTransactionF (alloc env)) s;
       HANDLE_PENDING_EXCEPTION env pc s
     }
     else on_frame 2 (\<lambda>i f. SetVRegReference f (a21c i) obj) env pc s
   }"

definition new_array :: "'h handler" where
  "new_array env pc s = do {
     length \<leftarrow> GetVReg (frame s) (b22c (cur env s));
     (obj, s) \<leftarrow> call (AllocArrayFromCode (alloc env) (VRegC_22c (cur env s)) length (do_access_check env)) s;
     store_object 2 a22c obj env pc s
   }"

definition fill_array_data :: "'h handler" where
  "fill_array_data env pc s = do {
     let payload = payload_of env s;
     obj \<leftarrow> GetVRegReference (frame s) (a31t (cur env s));
     (success, s) \<leftarrow> FillArrayData env obj payload s;
     if \<not> success then HANDLE_PENDING_EXCEPTION env pc s
     else do {
       h \<leftarrow> (if transaction_active env then RecordArrayElementsInTransaction env obj (Fetch32 payload 2) (heap s) else Some (heap s));
       Some (Continue (Next_units 3 (s\<lparr>heap := h\<rparr>)))
     }
   }"

definition throw :: "'h handler" where
  "throw env pc s = do {
     e \<leftarrow> GetVRegReference (frame s) (a11x (cur env s));
     if e = 0 then throw_and_handle NullPointer env pc s
     else if do_access_check env \<and> \<not> ObjectIsThrowable (lnk env) (heap s) e then throw_and_handle InternalError env pc s
     else HANDLE_PENDING_EXCEPTION env pc (s\<lparr>exception := e\<rparr>)
   }"

definition object_cases :: "(Code \<times> 'h handler) list" where
  "object_cases = [
     (MONITOR_ENTER, PREAMBLE (monitor_op DoMonitorEnter)),
     (MONITOR_EXIT, PREAMBLE (monitor_op DoMonitorExit)),
     (CHECK_CAST, PREAMBLE check_cast),
     (INSTANCE_OF, PREAMBLE instance_of),
     (ARRAY_LENGTH, PREAMBLE array_length),
     (NEW_INSTANCE, PREAMBLE new_instance),
     (NEW_ARRAY, PREAMBLE new_array),
     (FILLED_NEW_ARRAY, PREAMBLE (checked 3 (DoFilledNewArray False))),
     (FILLED_NEW_ARRAY_RANGE, PREAMBLE (checked 3 (DoFilledNewArray True))),
     (FILL_ARRAY_DATA, PREAMBLE fill_array_data),
     (THROW, PREAMBLE throw)]"

section \<open>Control flow\<close>

definition goto :: "(Instruction \<Rightarrow> u32) \<Rightarrow> 'h handler" where
  "goto offset env pc s = branch_to (offset (cur env s)) env pc s"

definition switch_op :: "(Instruction \<Rightarrow> u32 \<Rightarrow> u32) \<Rightarrow> 'h handler" where
  "switch_op op env pc s = do {
     test_val \<leftarrow> GetVReg (frame s) (a31t (cur env s));
     branch_to (op (payload_of env s) test_val) env pc s
   }"

definition goto_cases :: "(Code \<times> 'h handler) list" where
  "goto_cases = [
     (GOTO, PREAMBLE (goto (\<lambda>i. scast (VRegA_10t (i 0))))),
     (GOTO_16, PREAMBLE (goto (\<lambda>i. scast (VRegA_20t i)))),
     (GOTO_32, PREAMBLE (goto VRegA_30t)),
     (PACKED_SWITCH, PREAMBLE (switch_op DoPackedSwitch)),
     (SPARSE_SWITCH, PREAMBLE (switch_op DoSparseSwitch))]"

definition cmpl :: "'f::len word \<Rightarrow> 'f word \<Rightarrow> 'f word \<Rightarrow> u32" where
  "cmpl infinity val1 val2 = (if fless infinity val2 val1 then 1 else if fequal infinity val1 val2 then 0 else -1)"

definition cmpg :: "'f::len word \<Rightarrow> 'f word \<Rightarrow> 'f word \<Rightarrow> u32" where
  "cmpg infinity val1 val2 = (if fless infinity val1 val2 then -1 else if fequal infinity val1 val2 then 0 else 1)"

definition cmp_long :: "u64 \<Rightarrow> u64 \<Rightarrow> u32" where
  "cmp_long val1 val2 = (if sint val1 > sint val2 then 1 else if val1 = val2 then 0 else -1)"

definition compare_cases :: "(Code \<times> 'h handler) list" where
  "compare_cases = [
     (CMPL_FLOAT, PREAMBLE (binary_op GetVRegFloat GetVRegFloat SetVReg (cmpl inf32))),
     (CMPG_FLOAT, PREAMBLE (binary_op GetVRegFloat GetVRegFloat SetVReg (cmpg inf32))),
     (CMPL_DOUBLE, PREAMBLE (binary_op GetVRegDouble GetVRegDouble SetVReg (cmpl inf64))),
     (CMPG_DOUBLE, PREAMBLE (binary_op GetVRegDouble GetVRegDouble SetVReg (cmpg inf64))),
     (CMP_LONG, PREAMBLE (binary_op GetVRegLong GetVRegLong SetVReg cmp_long))]"

definition branch_if :: "bool \<Rightarrow> u32 \<Rightarrow> 'h handler" where
  "branch_if test offset env pc s =
     (if test then branch_to offset env pc s
      else andThen (BRANCH_INSTRUMENTATION 2 env pc s) (\<lambda>s. Some (Continue (Next_units 2 s))))"

definition if_op :: "(int \<Rightarrow> int \<Rightarrow> bool) \<Rightarrow> 'h handler" where
  "if_op rel env pc s = do {
     x \<leftarrow> GetVReg (frame s) (a22t (cur env s));
     y \<leftarrow> GetVReg (frame s) (b22t (cur env s));
     branch_if (rel (sint x) (sint y)) (scast (VRegC_22t (cur env s))) env pc s
   }"

definition ifz_op :: "(int \<Rightarrow> int \<Rightarrow> bool) \<Rightarrow> 'h handler" where
  "ifz_op rel env pc s = do {
     x \<leftarrow> GetVReg (frame s) (a21t (cur env s));
     branch_if (rel (sint x) 0) (scast (VRegB_21t (cur env s))) env pc s
   }"

definition if_cases :: "(Code \<times> 'h handler) list" where
  "if_cases = [
     (IF_EQ, PREAMBLE (if_op (=))),
     (IF_NE, PREAMBLE (if_op (\<noteq>))),
     (IF_LT, PREAMBLE (if_op (<))),
     (IF_GE, PREAMBLE (if_op (\<ge>))),
     (IF_GT, PREAMBLE (if_op (>))),
     (IF_LE, PREAMBLE (if_op (\<le>)))]"

definition ifz_cases :: "(Code \<times> 'h handler) list" where
  "ifz_cases = [
     (IF_EQZ, PREAMBLE (ifz_op (=))),
     (IF_NEZ, PREAMBLE (ifz_op (\<noteq>))),
     (IF_LTZ, PREAMBLE (ifz_op (<))),
     (IF_GEZ, PREAMBLE (ifz_op (\<ge>))),
     (IF_GTZ, PREAMBLE (ifz_op (>))),
     (IF_LEZ, PREAMBLE (ifz_op (\<le>)))]"

section \<open>Array elements\<close>

definition aget :: "(array_data \<Rightarrow> 'e list option) \<Rightarrow> (ShadowFrame \<Rightarrow> nat \<Rightarrow> 'v \<Rightarrow> ShadowFrame option) \<Rightarrow> ('e \<Rightarrow> 'v) \<Rightarrow> 'h handler" where
  "aget as put conv env pc s = do {
     a \<leftarrow> GetVRegReference (frame s) (b23x (cur env s));
     if a = 0 then throw_and_handle NullPointer env pc s
     else do {
       index \<leftarrow> GetVReg (frame s) (c23x (cur env s));
       xs \<leftarrow> elements_of as (heap s) a;
       (valid, s) \<leftarrow> CheckIsValidIndex env index (length xs) s;
       if valid then on_frame 2 (\<lambda>i f. put f (a23x i) (conv (xs ! unat index))) env pc s
       else HANDLE_PENDING_EXCEPTION env pc s
     }
   }"

definition aget_cases :: "(Code \<times> 'h handler) list" where
  "aget_cases = [
     (AGET_BOOLEAN, PREAMBLE (aget AsBooleanArray SetVReg ucast)),
     (AGET_BYTE, PREAMBLE (aget AsByteArray SetVReg scast)),
     (AGET_CHAR, PREAMBLE (aget AsCharArray SetVReg ucast)),
     (AGET_SHORT, PREAMBLE (aget AsShortArray SetVReg scast)),
     (AGET, PREAMBLE (aget AsIntArray SetVReg id)),
     (AGET_WIDE, PREAMBLE (aget AsLongArray SetVRegLong id)),
     (AGET_OBJECT, PREAMBLE (aget AsObjectArray SetVRegReference id))]"

definition aput :: "(array_data \<Rightarrow> 'e::len word list option) \<Rightarrow> ('e word list \<Rightarrow> array_data)
    \<Rightarrow> (ShadowFrame \<Rightarrow> nat \<Rightarrow> 'v option) \<Rightarrow> ('v \<Rightarrow> 'e word) \<Rightarrow> 'h handler" where
  "aput as array get conv env pc s = do {
     a \<leftarrow> GetVRegReference (frame s) (b23x (cur env s));
     if a = 0 then throw_and_handle NullPointer env pc s
     else do {
       val \<leftarrow> get (frame s) (a23x (cur env s));
       index \<leftarrow> GetVReg (frame s) (c23x (cur env s));
       xs \<leftarrow> elements_of as (heap s) a;
       (valid, s) \<leftarrow> CheckIsValidIndex env index (length xs) s;
       if valid then do {
         h \<leftarrow> SetWithoutChecks env as array a (unat index) (conv val) (heap s);
         Some (Continue (Next_units 2 (s\<lparr>heap := h\<rparr>)))
       } else HANDLE_PENDING_EXCEPTION env pc s
     }
   }"

definition aput_object :: "'h handler" where
  "aput_object env pc s = do {
     a \<leftarrow> GetVRegReference (frame s) (b23x (cur env s));
     if a = 0 then throw_and_handle NullPointer env pc s
     else do {
       index \<leftarrow> GetVReg (frame s) (c23x (cur env s));
       val \<leftarrow> GetVRegReference (frame s) (a23x (cur env s));
       xs \<leftarrow> elements_of AsObjectArray (heap s) a;
       (valid, s) \<leftarrow> CheckIsValidIndex env index (length xs) s;
       (assignable, s) \<leftarrow> (if valid then CheckAssignable env a val s else Some (False, s));
       if valid \<and> assignable then do {
         h \<leftarrow> SetWithoutChecks env AsObjectArray ObjectArray a (unat index) val (heap s);
         Some (Continue (Next_units 2 (s\<lparr>heap := h\<rparr>)))
       } else HANDLE_PENDING_EXCEPTION env pc s
     }
   }"

definition aput_cases :: "(Code \<times> 'h handler) list" where
  "aput_cases = [
     (APUT_BOOLEAN, PREAMBLE (aput AsBooleanArray BooleanArray GetVReg ucast)),
     (APUT_BYTE, PREAMBLE (aput AsByteArray ByteArray GetVReg ucast)),
     (APUT_CHAR, PREAMBLE (aput AsCharArray CharArray GetVReg ucast)),
     (APUT_SHORT, PREAMBLE (aput AsShortArray ShortArray GetVReg ucast)),
     (APUT, PREAMBLE (aput AsIntArray IntArray GetVReg id)),
     (APUT_WIDE, PREAMBLE (aput AsLongArray LongArray GetVRegLong id)),
     (APUT_OBJECT, PREAMBLE aput_object)]"

section \<open>Fields and calls\<close>

definition iget_cases :: "(Code \<times> 'h handler) list" where
  "iget_cases = [
     (IGET_BOOLEAN, PREAMBLE (checked 2 (DoFieldGet InstancePrimitiveRead kPrimBoolean))),
     (IGET_BYTE, PREAMBLE (checked 2 (DoFieldGet InstancePrimitiveRead kPrimByte))),
     (IGET_CHAR, PREAMBLE (checked 2 (DoFieldGet InstancePrimitiveRead kPrimChar))),
     (IGET_SHORT, PREAMBLE (checked 2 (DoFieldGet InstancePrimitiveRead kPrimShort))),
     (IGET, PREAMBLE (checked 2 (DoFieldGet InstancePrimitiveRead kPrimInt))),
     (IGET_WIDE, PREAMBLE (checked 2 (DoFieldGet InstancePrimitiveRead kPrimLong))),
     (IGET_OBJECT, PREAMBLE (checked 2 (DoFieldGet InstanceObjectRead kPrimNot))),
     (IGET_QUICK, PREAMBLE (checked 2 (DoIGetQuick kPrimInt))),
     (IGET_WIDE_QUICK, PREAMBLE (checked 2 (DoIGetQuick kPrimLong))),
     (IGET_OBJECT_QUICK, PREAMBLE (checked 2 (DoIGetQuick kPrimNot))),
     (IGET_BOOLEAN_QUICK, PREAMBLE (checked 2 (DoIGetQuick kPrimBoolean))),
     (IGET_BYTE_QUICK, PREAMBLE (checked 2 (DoIGetQuick kPrimByte))),
     (IGET_CHAR_QUICK, PREAMBLE (checked 2 (DoIGetQuick kPrimChar))),
     (IGET_SHORT_QUICK, PREAMBLE (checked 2 (DoIGetQuick kPrimShort)))]"

definition sget_cases :: "(Code \<times> 'h handler) list" where
  "sget_cases = [
     (SGET_BOOLEAN, PREAMBLE (checked 2 (DoFieldGet StaticPrimitiveRead kPrimBoolean))),
     (SGET_BYTE, PREAMBLE (checked 2 (DoFieldGet StaticPrimitiveRead kPrimByte))),
     (SGET_CHAR, PREAMBLE (checked 2 (DoFieldGet StaticPrimitiveRead kPrimChar))),
     (SGET_SHORT, PREAMBLE (checked 2 (DoFieldGet StaticPrimitiveRead kPrimShort))),
     (SGET, PREAMBLE (checked 2 (DoFieldGet StaticPrimitiveRead kPrimInt))),
     (SGET_WIDE, PREAMBLE (checked 2 (DoFieldGet StaticPrimitiveRead kPrimLong))),
     (SGET_OBJECT, PREAMBLE (checked 2 (DoFieldGet StaticObjectRead kPrimNot)))]"

definition iput_cases :: "(Code \<times> 'h handler) list" where
  "iput_cases = [
     (IPUT_BOOLEAN, PREAMBLE (checked 2 (DoFieldPut InstancePrimitiveWrite kPrimBoolean))),
     (IPUT_BYTE, PREAMBLE (checked 2 (DoFieldPut InstancePrimitiveWrite kPrimByte))),
     (IPUT_CHAR, PREAMBLE (checked 2 (DoFieldPut InstancePrimitiveWrite kPrimChar))),
     (IPUT_SHORT, PREAMBLE (checked 2 (DoFieldPut InstancePrimitiveWrite kPrimShort))),
     (IPUT, PREAMBLE (checked 2 (DoFieldPut InstancePrimitiveWrite kPrimInt))),
     (IPUT_WIDE, PREAMBLE (checked 2 (DoFieldPut InstancePrimitiveWrite kPrimLong))),
     (IPUT_OBJECT, PREAMBLE (checked 2 (DoFieldPut InstanceObjectWrite kPrimNot))),
     (IPUT_QUICK, PREAMBLE (checked 2 (DoIPutQuick kPrimInt))),
     (IPUT_BOOLEAN_QUICK, PREAMBLE (checked 2 (DoIPutQuick kPrimBoolean))),
     (IPUT_BYTE_QUICK, PREAMBLE (checked 2 (DoIPutQuick kPrimByte))),
     (IPUT_CHAR_QUICK, PREAMBLE (checked 2 (DoIPutQuick kPrimChar))),
     (IPUT_SHORT_QUICK, PREAMBLE (checked 2 (DoIPutQuick kPrimShort))),
     (IPUT_WIDE_QUICK, PREAMBLE (checked 2 (DoIPutQuick kPrimLong))),
     (IPUT_OBJECT_QUICK, PREAMBLE (checked 2 (DoIPutQuick kPrimNot)))]"

definition sput_cases :: "(Code \<times> 'h handler) list" where
  "sput_cases = [
     (SPUT_BOOLEAN, PREAMBLE (checked 2 (DoFieldPut StaticPrimitiveWrite kPrimBoolean))),
     (SPUT_BYTE, PREAMBLE (checked 2 (DoFieldPut StaticPrimitiveWrite kPrimByte))),
     (SPUT_CHAR, PREAMBLE (checked 2 (DoFieldPut StaticPrimitiveWrite kPrimChar))),
     (SPUT_SHORT, PREAMBLE (checked 2 (DoFieldPut StaticPrimitiveWrite kPrimShort))),
     (SPUT, PREAMBLE (checked 2 (DoFieldPut StaticPrimitiveWrite kPrimInt))),
     (SPUT_WIDE, PREAMBLE (checked 2 (DoFieldPut StaticPrimitiveWrite kPrimLong))),
     (SPUT_OBJECT, PREAMBLE (checked 2 (DoFieldPut StaticObjectWrite kPrimNot)))]"

definition invoke_service ::
    "('h caller \<Rightarrow> Instruction \<Rightarrow> u16 \<Rightarrow> ShadowFrame \<Rightarrow> JValue \<Rightarrow> ('h, bool \<times> JValue) service) \<Rightarrow> 'h env \<Rightarrow> 'h istate
      \<Rightarrow> (bool \<times> 'h istate) option" where
  "invoke_service f env s = do {
     ((success, result), s) \<leftarrow> call (f (cal env) (cur env s) (cur env s 0) (frame s) (result_register s)) s;
     Some (success, s\<lparr>result_register := result\<rparr>)
   }"

definition invoke_cases :: "(Code \<times> 'h handler) list" where
  "invoke_cases = [
     (INVOKE_VIRTUAL, PREAMBLE (checked 3 (DoInvoke kVirtual False))),
     (INVOKE_VIRTUAL_RANGE, PREAMBLE (checked 3 (DoInvoke kVirtual True))),
     (INVOKE_SUPER, PREAMBLE (checked 3 (DoInvoke kSuper False))),
     (INVOKE_SUPER_RANGE, PREAMBLE (checked 3 (DoInvoke kSuper True))),
     (INVOKE_DIRECT, PREAMBLE (checked 3 (DoInvoke kDirect False))),
     (INVOKE_DIRECT_RANGE, PREAMBLE (checked 3 (DoInvoke kDirect True))),
     (INVOKE_INTERFACE, PREAMBLE (checked 3 (DoInvoke kInterface False))),
     (INVOKE_INTERFACE_RANGE, PREAMBLE (checked 3 (DoInvoke kInterface True))),
     (INVOKE_STATIC, PREAMBLE (checked 3 (DoInvoke kStatic False))),
     (INVOKE_STATIC_RANGE, PREAMBLE (checked 3 (DoInvoke kStatic True))),
     (INVOKE_VIRTUAL_QUICK, PREAMBLE (checked 3 (DoInvokeVirtualQuick False))),
     (INVOKE_VIRTUAL_RANGE_QUICK, PREAMBLE (checked 3 (DoInvokeVirtualQuick True))),
     (INVOKE_POLYMORPHIC, PREAMBLE (checked 4 (invoke_service (\<lambda>c. DoInvokePolymorphic c False)))),
     (INVOKE_POLYMORPHIC_RANGE, PREAMBLE (checked 4 (invoke_service (\<lambda>c. DoInvokePolymorphic c True)))),
     (INVOKE_CUSTOM, PREAMBLE (checked 3 (invoke_service (\<lambda>c. DoInvokeCustom c False)))),
     (INVOKE_CUSTOM_RANGE, PREAMBLE (checked 3 (invoke_service (\<lambda>c. DoInvokeCustom c True))))]"

section \<open>The interpreter\<close>

definition instruction_cases :: "fpu \<Rightarrow> (Code \<times> 'h handler) list" where
  "instruction_cases m =
     move_cases @ return_cases @ const_cases @ const_object_cases @ object_cases @ goto_cases @ compare_cases @ if_cases @ ifz_cases
     @ aget_cases @ aput_cases @ iget_cases @ sget_cases @ iput_cases @ sput_cases @ invoke_cases @ unary_cases m @ int_cases
     @ long_cases @ float_cases m @ int_2addr_cases @ long_2addr_cases @ float_2addr_cases m @ lit16_cases @ lit8_cases"

text \<open>One iteration of the loop.  An unused opcode has no case, and \<open>UnexpectedOpcode\<close> is fatal.\<close>

definition step :: "'h env \<Rightarrow> 'h istate \<Rightarrow> 'h outcome option" where
  "step env s =
     (let pc = GetDexPc s;
          s = stop_at pc s
      in case map_of (instruction_cases (fp env)) (Opcode (cur env s)) of None \<Rightarrow> None | Some handler \<Rightarrow> handler env pc s)"

partial_function (option) loop :: "'h env \<Rightarrow> 'h istate \<Rightarrow> (JValue \<times> 'h istate) option" where
  "loop env s = do {
     r \<leftarrow> step env s;
     case r of
       Return result s \<Rightarrow> Some (result, s)
     | Continue s \<Rightarrow> if \<not> interpret_one_instruction env then loop env s else Some (result_register s, stop_at (GetDexPc s) s)
   }"

definition ExecuteSwitchImpl ::
    "'h env \<Rightarrow> ShadowFrame \<Rightarrow> JValue \<Rightarrow> ref \<Rightarrow> 'h mem \<Rightarrow> (JValue \<times> 'h istate) option" where
  "ExecuteSwitchImpl env shadow_frame result e h =
     loop env \<lparr>frame = shadow_frame, result_register = result, inst = uint (GetDexPC shadow_frame), exception = e, heap = h\<rparr>"

end
