(* ===== verification/Interpreter_Invariant.thy ===== *)
theory Interpreter_Invariant
  imports Interpreter_Switch
begin

text \<open>
  What every instruction keeps of the frame it runs in, and how far it moves on.  The locale \<open>frame_contract\<close> says which
  operations may change a frame; its lemmas walk through the macros, the operations and the tables once, for any
  predicate that those operations keep.  The interpretation \<open>shape\<close> is for well-formed frames of one method.
\<close>

section \<open>Every result satisfies a predicate\<close>

definition holds :: "('a \<Rightarrow> bool) \<Rightarrow> 'a option \<Rightarrow> bool" where
  "holds Q m \<longleftrightarrow> (\<forall>r. m = Some r \<longrightarrow> Q r)"

named_theorems holds_intros

lemma holds_weaken: "holds P m \<Longrightarrow> (\<And>r. P r \<Longrightarrow> Q r) \<Longrightarrow> holds Q m"
  by (auto simp: holds_def)

lemma holds_Some [holds_intros]: "Q r \<Longrightarrow> holds Q (Some r)"
  by (simp add: holds_def)

lemma holds_None [holds_intros]: "holds Q None"
  by (simp add: holds_def)

lemma holds_bind [holds_intros]: "holds (\<lambda>x. holds Q (k x)) m \<Longrightarrow> holds Q (m \<bind> k)"
  by (cases m) (auto simp: holds_def)

lemma holds_map [holds_intros]: "holds (\<lambda>x. Q (f x)) m \<Longrightarrow> holds Q (map_option f m)"
  by (cases m) (auto simp: holds_def)

lemma holds_if [holds_intros]: "(c \<Longrightarrow> holds Q a) \<Longrightarrow> (\<not> c \<Longrightarrow> holds Q b) \<Longrightarrow> holds Q (if c then a else b)"
  by simp

lemma holds_prod [holds_intros]: "(\<And>a b. x = (a, b) \<Longrightarrow> holds Q (f a b)) \<Longrightarrow> holds Q (case x of (a, b) \<Rightarrow> f a b)"
  by (cases x) simp

lemma holds_option [holds_intros]:
  "(x = None \<Longrightarrow> holds Q a) \<Longrightarrow> (\<And>y. x = Some y \<Longrightarrow> holds Q (f y)) \<Longrightarrow> holds Q (case x of None \<Rightarrow> a | Some y \<Rightarrow> f y)"
  by (cases x) auto

lemma holds_Let [holds_intros]: "(\<And>y. y = x \<Longrightarrow> holds Q (f y)) \<Longrightarrow> holds Q (Let x f)"
  by (simp add: Let_def)

definition final :: "'h outcome \<Rightarrow> 'h istate" where
  "final r = (case r of Continue s \<Rightarrow> s | Return v s \<Rightarrow> s)"

lemma final_simps [simp]: "final (Continue s) = s" "final (Return v s) = s"
  by (simp_all add: final_def)

lemma frame_simps [simp]: "frame (Next_units n s) = frame s" "frame (RelativeAt_inst d s) = frame s" "frame (stop_at pc s) = SetDexPC pc (frame s)"
  by (simp_all add: Next_units_def RelativeAt_inst_def stop_at_def)

lemma holds_any: "(\<And>v. Q v) \<Longrightarrow> holds Q m"
  by (simp add: holds_def)

text \<open>Reads of the state: nothing is known of the value.\<close>

lemmas holds_reads = holds_any[of _ "GetVReg f i" for f i] holds_any[of _ "GetVRegReference f i" for f i]
  holds_any[of _ "GetVRegLong f i" for f i] holds_any[of _ "GetVRegFloat f i" for f i] holds_any[of _ "GetVRegDouble f i" for f i]
  holds_any[of _ "monitors f" for f] holds_any[of _ "arrays h a" for h a] holds_any[of _ "elements_of as h a" for as h a]
  holds_any[of _ "GetComponentType l h c" for l h c] holds_any[of _ "typed_JValue t x" for t x] holds_any[of _ "JValue_raw t x" for t x]
  holds_any[of _ "GetFieldValue t f i" for t f i] holds_any[of _ "arg_at l i" for l i] holds_any[of _ "arg_reg b l c i" for b l c i]
  holds_any[of _ "SetWithoutChecks env as ar a i v h" for env as ar a i v h]
  holds_any[of _ "RecordArrayElementsInTransaction env a n h" for env a n h]

section \<open>What every instruction keeps of a frame\<close>

text \<open>The method catches an exception of the instruction at \<open>p\<close> by going to \<open>q\<close>: the address that \<open>FindCatchBlock\<close> returns for
  some class of exception, in some state of the heap.\<close>

definition caught_at :: "'h env \<Rightarrow> int \<Rightarrow> int \<Rightarrow> bool" where
  "caught_at env p q \<longleftrightarrow>
     (\<exists>c h e d. fst (fst (FindCatchBlock (lnk env) c (word_of_int p) h e)) = d \<and> d \<noteq> kDexNoIndex \<and> q = p + sint (d - word_of_int p))"

lemma inst_simps [simp]: "inst (Next_units n s) = inst s + int n" "inst (stop_at pc s) = inst s"
  by (simp_all add: Next_units_def stop_at_def)

locale frame_contract =
  fixes I :: "ShadowFrame \<Rightarrow> bool"
  assumes SetVReg_I: "I f \<Longrightarrow> SetVReg f i v = Some f' \<Longrightarrow> I f'"
    and SetVRegReference_I: "I f \<Longrightarrow> SetVRegReference f i v = Some f' \<Longrightarrow> I f'"
    and SetVRegLong_I: "I f \<Longrightarrow> SetVRegLong f i x = Some f' \<Longrightarrow> I f'"
    and SetDexPC_I: "I f \<Longrightarrow> I (SetDexPC pc f)"
    and VisitShadowFrame_I: "I f \<Longrightarrow> VisitShadowFrame fwd f = Some f' \<Longrightarrow> I f'"
    and monitors_I: "I f \<Longrightarrow> I (f\<lparr>monitors := ms\<rparr>)"
begin

text \<open>A state at the instruction \<open>p\<close>, and the outcome of an instruction at \<open>p\<close> that is \<open>u\<close> units long.\<close>

abbreviation at :: "int \<Rightarrow> 'h istate \<Rightarrow> bool" where
  "at p s \<equiv> I (frame s) \<and> inst s = p"

definition kept :: "'h env \<Rightarrow> int \<Rightarrow> nat option \<Rightarrow> 'h outcome \<Rightarrow> bool" where
  "kept env p u r \<longleftrightarrow> I (frame (final r)) \<and> (\<forall>s n. r = Continue s \<and> u = Some n \<longrightarrow> inst s = p + int n \<or> caught_at env p (inst s))"

lemma kept_Return [simp]: "kept env p u (Return v s) = I (frame s)"
  by (simp add: kept_def)

lemma kept_Next [simp]: "I (frame s) \<Longrightarrow> inst s = p \<Longrightarrow> kept env p (Some n) (Continue (Next_units n s))"
  by (simp add: kept_def)

lemma kept_None [simp]: "kept env p None r = I (frame (final r))"
  by (simp add: kept_def)

definition keeps :: "nat option \<Rightarrow> 'h handler \<Rightarrow> bool" where
  "keeps u h \<longleftrightarrow> (\<forall>env p s. at p s \<longrightarrow> holds (kept env p u) (h env (word_of_int p) s))"

definition keeps_op :: "('h env \<Rightarrow> 'h istate \<Rightarrow> (bool \<times> 'h istate) option) \<Rightarrow> bool" where
  "keeps_op f \<longleftrightarrow> (\<forall>env p s. at p s \<longrightarrow> holds (\<lambda>r. at p (snd r)) (f env s))"

definition put_ok :: "(ShadowFrame \<Rightarrow> nat \<Rightarrow> 'v \<Rightarrow> ShadowFrame option) \<Rightarrow> bool" where
  "put_ok put \<longleftrightarrow> (\<forall>f i v. I f \<longrightarrow> holds I (put f i v))"

lemma put_ok_set [intro, simp]:
  "put_ok SetVReg" "put_ok SetVRegReference" "put_ok SetVRegLong" "put_ok SetVRegFloat" "put_ok SetVRegDouble"
  by (auto simp: put_ok_def holds_def SetVRegFloat_eq intro: SetVReg_I SetVRegReference_I SetVRegLong_I)

lemma holds_put: "put_ok put \<Longrightarrow> I f \<Longrightarrow> (\<And>f'. I f' \<Longrightarrow> Q f') \<Longrightarrow> holds Q (put f i v)"
  by (auto simp: put_ok_def holds_def)

lemma call_out_keeps:
  assumes "at p s" "\<And>r fwd s'. at p s' \<Longrightarrow> Q (r, fwd, s')"
  shows "holds Q (call_out f s)"
  using assms(1) by (auto simp: holds_def call_out_def split: prod.splits intro!: assms(2) intro: VisitShadowFrame_I)

lemma call_keeps:
  assumes "at p s" "\<And>r s'. at p s' \<Longrightarrow> Q (r, s')"
  shows "holds Q (call f s)"
  unfolding call_def by (rule holds_map, rule call_out_keeps[OF assms(1)]) (auto simp: assms(2))

lemma call_result:
  assumes "at p s" "\<And>s'. at p s' \<Longrightarrow> Q (fst (f (heap s) (exception s)), s')"
  shows "holds Q (call f s)"
proof -
  have "Q (r, s')" if c: "call f s = Some (r, s')" for r s'
  proof -
    have "r = fst (f (heap s) (exception s))" using c by (auto simp: call_def call_out_def split: prod.splits)
    moreover have "at p s'" using call_keeps[OF assms(1), of "\<lambda>(r, s'). at p s'" f] c by (simp add: holds_def)
    ultimately show ?thesis using assms(2) by simp
  qed
  then show ?thesis by (auto simp: holds_def)
qed

lemmas basic_keeps = call_out_keeps call_keeps holds_put[OF put_ok_set(1)] holds_put[OF put_ok_set(2)] holds_put[OF put_ok_set(3)]
  holds_put[OF put_ok_set(4)] holds_put[OF put_ok_set(5)]

lemma MonitorExit_loop_keeps: "at p s \<Longrightarrow> holds (at p) (MonitorExit_loop env i n s)"
  by (induction n arbitrary: i s) (auto intro!: holds_intros call_keeps holds_reads)

lemma CheckAll_keeps: "at p s \<Longrightarrow> holds (\<lambda>r. at p (snd r)) (CheckAllMonitorsReleasedOrThrow env s)"
  unfolding CheckAllMonitorsReleasedOrThrow_def
  by (auto intro!: holds_intros call_keeps holds_reads monitors_I holds_weaken[OF MonitorExit_loop_keeps])

lemma DoMonitorCheckOnExit_keeps:
  "at p s \<Longrightarrow> (\<And>b s'. at p s' \<Longrightarrow> Q (b, s')) \<Longrightarrow> holds Q (DoMonitorCheckOnExit env s)"
  unfolding DoMonitorCheckOnExit_def by (auto intro!: holds_intros holds_weaken[OF CheckAll_keeps])

lemma FindCatchBlock_keeps:
  assumes "at p s" "\<And>d b s'. at p s' \<Longrightarrow> d \<noteq> kDexNoIndex \<longrightarrow> caught_at env p (p + sint (d - word_of_int p)) \<Longrightarrow> Q ((d, b), s')"
  shows "holds Q (call (FindCatchBlock (lnk env) c (word_of_int p)) s)"
proof (rule call_result[OF assms(1)])
  fix s' :: "'a istate" assume "at p s'"
  then show "Q (fst (FindCatchBlock (lnk env) c (word_of_int p) (heap s) (exception s)), s')"
    using assms(2)[of s' "fst (fst (FindCatchBlock (lnk env) c (word_of_int p) (heap s) (exception s)))"]
    by (metis caught_at_def prod.collapse)
qed

lemma FindNext_keeps:
  "at p s \<Longrightarrow> holds (\<lambda>(d, s'). at p s' \<and> (d \<noteq> kDexNoIndex \<longrightarrow> caught_at env p (p + sint (d - word_of_int p))))
     (FindNextInstructionFollowingException env report (word_of_int p) s)"
  unfolding FindNextInstructionFollowingException_def Let_def
  by (auto intro!: holds_intros FindCatchBlock_keeps call_keeps[where f = "MethodUnwindEvent (instr env) pc" for pc] call_out_keeps)

lemma HANDLE_frame: "I (frame s) \<Longrightarrow> holds (kept env p None) (HANDLE_PENDING_EXCEPTION_WITH_INSTRUMENTATION report env pc s)"
  unfolding HANDLE_PENDING_EXCEPTION_WITH_INSTRUMENTATION_def GetDexPc_def
  by (auto intro!: holds_intros call_keeps holds_weaken[OF FindNext_keeps] DoMonitorCheckOnExit_keeps SetDexPC_I
      split: if_splits)

lemma HANDLE_keeps: "at p s \<Longrightarrow> holds (kept env p u) (HANDLE_PENDING_EXCEPTION_WITH_INSTRUMENTATION report env (word_of_int p) s)"
  unfolding HANDLE_PENDING_EXCEPTION_WITH_INSTRUMENTATION_def GetDexPc_def
  by (auto simp: kept_def RelativeAt_inst_def split: if_splits
      intro!: holds_intros call_keeps holds_weaken[OF FindNext_keeps] DoMonitorCheckOnExit_keeps SetDexPC_I)

lemma throw_and_handle_frame: "I (frame s) \<Longrightarrow> holds (kept env p None) (throw_and_handle x env pc s)"
  unfolding throw_and_handle_def by (auto intro!: holds_intros call_keeps HANDLE_frame simp del: kept_None)

lemma throw_and_handle_keeps: "at p s \<Longrightarrow> holds (kept env p u) (throw_and_handle x env (word_of_int p) s)"
  unfolding throw_and_handle_def by (auto intro!: holds_intros call_keeps HANDLE_keeps)

lemma POSSIBLY_keeps: "at p s \<Longrightarrow> holds (kept env p (Some n)) (POSSIBLY_HANDLE_PENDING_EXCEPTION b n env (word_of_int p) s)"
  unfolding POSSIBLY_HANDLE_PENDING_EXCEPTION_def by (auto intro!: holds_intros HANDLE_keeps)


subsection \<open>Macros\<close>

lemma HANDLE_MONITOR_CHECKS_keeps: "I (frame s) \<Longrightarrow> holds (kept env p None) (HANDLE_MONITOR_CHECKS env pc s)"
  unfolding HANDLE_MONITOR_CHECKS_def by (auto intro!: holds_intros DoMonitorCheckOnExit_keeps HANDLE_frame simp del: kept_None) (simp_all)

lemma andThen_keeps:
  assumes "holds (kept env p None) m" "\<And>s. I (frame s) \<Longrightarrow> holds (kept env p u) (k s)"
  shows "holds (kept env p u) (andThen m k)"
  using assms by (auto simp: holds_def andThen_def split: option.splits outcome.splits)

lemma DoDexPcMoveEvent_keeps: "at p s \<Longrightarrow> holds (\<lambda>r. at p (snd r)) (DoDexPcMoveEvent env b pc s)"
  unfolding DoDexPcMoveEvent_def by (auto simp: Let_def intro!: holds_intros call_out_keeps split: if_splits)

lemma PREAMBLE_keeps:
  assumes "keeps u h"
  shows "keeps u (PREAMBLE_SAVE b h)"
proof -
  have h: "at p s \<Longrightarrow> holds (kept env p u) (h env (word_of_int p) s)" for p env s using assms unfolding keeps_def by blast
  show ?thesis unfolding keeps_def PREAMBLE_SAVE_def by (auto intro!: holds_intros HANDLE_keeps h holds_weaken[OF DoDexPcMoveEvent_keeps])
qed

lemma BRANCH_INSTRUMENTATION_keeps: "I (frame s) \<Longrightarrow> holds (kept env p None) (BRANCH_INSTRUMENTATION offset env pc s)"
  unfolding BRANCH_INSTRUMENTATION_def by (auto intro!: holds_intros call_keeps SetDexPC_I)

lemma branch_to_keeps: "I (frame s) \<Longrightarrow> holds (kept env p None) (branch_to offset env pc s)"
  unfolding branch_to_def HANDLE_BACKWARD_BRANCH_def HOTNESS_UPDATE_def
  by (auto intro!: andThen_keeps BRANCH_INSTRUMENTATION_keeps holds_intros call_keeps SetDexPC_I)

lemma method_exit_keeps: "I (frame s) \<Longrightarrow> holds (kept env p u) (method_exit reload result env pc s)"
  unfolding method_exit_def
  by (auto intro!: andThen_keeps holds_intros call_keeps HANDLE_frame SetDexPC_I holds_any[of _ "reload s" for s])

lemma return_handler_keeps: "keeps u (return_handler v)"
  unfolding keeps_def return_handler_def
  by (auto intro!: holds_intros call_keeps andThen_keeps HANDLE_MONITOR_CHECKS_keeps method_exit_keeps holds_any[of _ "v env s" for env s])

lemma on_frame_keeps:
  assumes "\<And>i f. I f \<Longrightarrow> holds I (upd i f)"
  shows "at p s \<Longrightarrow> holds (kept env p (Some n)) (on_frame n upd env pc s)"
  unfolding on_frame_def by (auto intro!: holds_intros holds_weaken[OF assms])

lemma put_keeps: "put_ok put \<Longrightarrow> I f \<Longrightarrow> holds I (put f i v)"
  by (auto intro: holds_put)

lemma move_reg_keeps: "put_ok put \<Longrightarrow> keeps (Some n) (move_reg get put n a b)"
  unfolding keeps_def move_reg_def by (auto intro!: on_frame_keeps holds_intros holds_any[of _ "get f i" for f i] intro: put_keeps)

lemma unary_op_keeps: "put_ok put \<Longrightarrow> keeps (Some 1) (unary_op get put op)"
  unfolding keeps_def unary_op_def by (auto intro!: on_frame_keeps holds_intros holds_any[of _ "get f i" for f i] intro: put_keeps)

lemma binary_op_keeps: "put_ok put \<Longrightarrow> keeps (Some 2) (binary_op get1 get2 put op)"
  unfolding keeps_def binary_op_def
  by (auto intro!: on_frame_keeps holds_intros holds_any[of _ "get1 f i" for f i] holds_any[of _ "get2 f i" for f i] intro: put_keeps)

lemma binary_op_2addr_keeps: "put_ok put \<Longrightarrow> keeps (Some 1) (binary_op_2addr get1 get2 put op)"
  unfolding keeps_def binary_op_2addr_def
  by (auto intro!: on_frame_keeps holds_intros holds_any[of _ "get1 f i" for f i] holds_any[of _ "get2 f i" for f i] intro: put_keeps)

lemmas compute_keeps = move_reg_keeps unary_op_keeps binary_op_keeps binary_op_2addr_keeps

lemma literal_keeps: "keeps (Some 2) (lit16_op op16)" "keeps (Some 2) (lit8_op op8)" "keeps (Some n) (const_op n dst val)"
  unfolding keeps_def lit16_op_def lit8_op_def const_op_def
  by (auto intro!: on_frame_keeps holds_intros basic_keeps holds_reads)

lemma checked_keeps:
  assumes "keeps_op f"
  shows "keeps (Some n) (checked n f)" "keeps (Some n) (checked_pending n f)"
proof -
  have "at p s \<Longrightarrow> holds (\<lambda>r. at p (snd r)) (f env s)" for p env s using assms unfolding keeps_op_def by blast
  note f = holds_weaken[OF this]
  show "keeps (Some n) (checked n f)" "keeps (Some n) (checked_pending n f)"
    unfolding keeps_def checked_def checked_pending_def by (auto intro!: holds_intros POSSIBLY_keeps f)
qed

lemma with_operands_keeps:
  assumes "\<And>env p r x y s. at p s \<Longrightarrow> holds (\<lambda>r. at p (snd r)) (op env r x y s)"
  shows "keeps_op (with_operands get a b c op)"
  unfolding keeps_op_def with_operands_def by (auto intro!: holds_intros assms holds_any[of _ "get f i" for f i])

lemma with_literal_keeps:
  assumes "\<And>env p r x y s. at p s \<Longrightarrow> holds (\<lambda>r. at p (snd r)) (op env r x y s)"
  shows "keeps_op (with_literal a b c op)"
  unfolding keeps_op_def with_literal_def by (auto intro!: holds_intros assms holds_reads)

lemma divide_keeps:
  assumes "at p s"
  shows "holds (\<lambda>r. at p (snd r)) (DoIntDivide env r x y s)" "holds (\<lambda>r. at p (snd r)) (DoIntRemainder env r x y s)"
    "holds (\<lambda>r. at p (snd r)) (DoLongDivide env r u v s)" "holds (\<lambda>r. at p (snd r)) (DoLongRemainder env r u v s)"
  using assms unfolding DoIntDivide_def DoIntRemainder_def DoLongDivide_def DoLongRemainder_def
  by (auto intro!: holds_intros basic_keeps)

subsection \<open>Objects and arrays\<close>

lemma store_object_keeps: "at p s \<Longrightarrow> holds (kept env p (Some n)) (store_object n dst obj env (word_of_int p) s)"
  unfolding store_object_def by (auto intro!: holds_intros HANDLE_keeps on_frame_keeps basic_keeps)

lemma AddMonitor_keeps: "at p s \<Longrightarrow> at p (AddMonitor obj s)"
  by (simp add: AddMonitor_def monitors_I)

lemma RemoveMonitor_keeps: "at p s \<Longrightarrow> holds (at p) (RemoveMonitorOrThrow env obj s)"
  unfolding RemoveMonitorOrThrow_def by (auto intro!: holds_intros call_keeps monitors_I)

lemma monitor_op_keeps: "keeps (Some 1) (monitor_op DoMonitorEnter)" "keeps (Some 1) (monitor_op DoMonitorExit)"
  unfolding keeps_def monitor_op_def DoMonitorEnter_def DoMonitorExit_def
  by (auto intro!: holds_intros holds_reads call_out_keeps POSSIBLY_keeps throw_and_handle_keeps AddMonitor_keeps
      holds_weaken[OF RemoveMonitor_keeps])

lemma object_keeps: "keeps (Some 2) check_cast" "keeps (Some 2) instance_of" "keeps (Some 1) array_length" "keeps (Some 2) new_instance"
    "keeps (Some 2) new_array" "keeps u throw"
  unfolding keeps_def check_cast_def instance_of_def array_length_def new_instance_def new_array_def throw_def
  by (auto intro!: holds_intros holds_reads basic_keeps on_frame_keeps HANDLE_keeps throw_and_handle_keeps store_object_keeps)

lemma FillArrayData_keeps: "at p s \<Longrightarrow> holds (\<lambda>r. at p (snd r)) (FillArrayData env obj payload s)"
  unfolding FillArrayData_def Let_def
  by (auto intro!: holds_intros holds_reads call_keeps holds_any[of _ "case_array_data a b c d e f g x" for a b c d e f g x])

lemma fill_array_data_keeps: "keeps (Some 3) fill_array_data"
  unfolding keeps_def fill_array_data_def Let_def
  by (auto intro!: holds_intros holds_reads HANDLE_keeps holds_weaken[OF FillArrayData_keeps])

lemma FilledNewArray_loop_keeps: "at p s \<Longrightarrow> holds (at p) (FilledNewArray_loop env b a src i n s)"
proof (induction "n - i" arbitrary: i s)
  case 0
  then show ?case by (simp add: FilledNewArray_loop.simps holds_Some)
next
  case (Suc k)
  then show ?case
    by (subst FilledNewArray_loop.simps)
      (auto intro!: holds_intros holds_reads holds_any[of _ "src i" for i] Suc.hyps)
qed

lemma DoFilledNewArray_keeps: "keeps_op (DoFilledNewArray is_range)"
  unfolding keeps_op_def DoFilledNewArray_def Let_def
  by (auto intro!: holds_intros holds_reads call_keeps holds_weaken[OF FilledNewArray_loop_keeps])

lemma CheckIsValidIndex_keeps:
  assumes "at p s" "\<And>b s. at p s \<Longrightarrow> Q (b, s)"
  shows "holds Q (CheckIsValidIndex env index n s)"
  unfolding CheckIsValidIndex_def using assms by (auto intro!: holds_intros call_keeps)

lemma CheckAssignable_keeps:
  assumes "at p s" "\<And>b s. at p s \<Longrightarrow> Q (b, s)"
  shows "holds Q (CheckAssignable env a obj s)"
  unfolding CheckAssignable_def using assms by (auto intro!: holds_intros holds_reads call_keeps)

lemma aget_keeps:
  assumes "put_ok put"
  shows "keeps (Some 2) (aget as put conv)"
  unfolding keeps_def aget_def
  by (auto intro!: holds_intros holds_reads CheckIsValidIndex_keeps HANDLE_keeps throw_and_handle_keeps on_frame_keeps put_keeps[OF assms])

lemma aput_keeps: "keeps (Some 2) (aput as array get conv)" "keeps (Some 2) aput_object"
  unfolding keeps_def aput_def aput_object_def
  by (auto intro!: holds_intros holds_reads CheckIsValidIndex_keeps CheckAssignable_keeps HANDLE_keeps throw_and_handle_keeps
      holds_any[of _ "get f i" for f i])

end

section \<open>The tables of cases\<close>

lemmas arithmetic_tables = unary_cases_def int_cases_def long_cases_def float_cases_def int_2addr_cases_def long_2addr_cases_def
  float_2addr_cases_def lit16_cases_def lit8_cases_def compare_cases_def

lemmas other_tables = move_cases_def return_cases_def const_cases_def const_object_cases_def object_cases_def goto_cases_def if_cases_def
  ifz_cases_def aget_cases_def aput_cases_def iget_cases_def sget_cases_def iput_cases_def sput_cases_def invoke_cases_def

context frame_contract
begin

subsection \<open>Fields\<close>

lemma set_typed_vreg_keeps: "I f \<Longrightarrow> holds I (set_typed_vreg t f r v)"
  by (cases t) (auto simp: set_typed_vreg_def intro!: holds_intros basic_keeps)

lemma DoFieldGetCommon_keeps: "at p s \<Longrightarrow> holds (\<lambda>r. at p (snd r)) (DoFieldGetCommon t env obj fld s)"
  unfolding DoFieldGetCommon_def by (auto intro!: holds_intros holds_reads call_out_keeps)

lemma DoFieldPutCommon_keeps: "at p s \<Longrightarrow> holds (\<lambda>r. at p (snd r)) (DoFieldPutCommon t env obj fld v s)"
  unfolding DoFieldPutCommon_def Let_def by (auto intro!: holds_intros holds_reads call_out_keeps call_keeps)

lemma field_keeps: "keeps_op (DoFieldGet ft t)" "keeps_op (DoFieldPut ft t)" "keeps_op (DoIGetQuick t)" "keeps_op (DoIPutQuick t)"
  unfolding keeps_op_def DoFieldGet_def DoFieldPut_def DoIGetQuick_def DoIPutQuick_def Let_def
  by (auto intro!: holds_intros holds_reads call_out_keeps call_keeps holds_weaken[OF set_typed_vreg_keeps]
      holds_weaken[OF DoFieldGetCommon_keeps] DoFieldPutCommon_keeps)

subsection \<open>Calls\<close>

lemma SetStringInit_loop_keeps: "I f \<Longrightarrow> holds I (SetStringInit_loop e r i n f)"
proof (induction "n - i" arbitrary: i f)
  case 0
  then show ?case by (simp add: SetStringInit_loop.simps holds_Some)
next
  case (Suc k)
  then show ?case
    by (subst SetStringInit_loop.simps) (auto intro!: holds_intros holds_reads basic_keeps Suc.hyps)
qed

lemma SetStringInit_keeps: "I f \<Longrightarrow> holds I (SetStringInitValueToAllAliases f r v)"
  unfolding SetStringInitValueToAllAliases_def
  by (auto intro!: holds_intros holds_reads basic_keeps SetStringInit_loop_keeps)

lemma CheckedArguments_loop_keeps:
  "at p s \<Longrightarrow> holds (\<lambda>(ok, f, s). at p s) (CheckedArguments_loop env m src n k d a f s)"
proof (induction "n - d" arbitrary: k d a f s rule: less_induct)
  case less
  show ?case
    by (subst CheckedArguments_loop.simps)
      (auto simp: Let_def less.prems intro!: holds_intros holds_reads call_out_keeps call_keeps less.hyps holds_any[of _ "src a"]
        holds_any[of _ "VisitShadowFrame fwd g" for fwd g] holds_any[of _ "SetVRegReference g d r" for g r]
        holds_any[of _ "SetVReg g d r" for g r] holds_any[of _ "SetVRegLong g d r" for g r])
qed

lemma CheckedArguments_keeps: "at p s \<Longrightarrow> holds (\<lambda>(ok, f, s). at p s) (CheckedArguments env m src n d f s)"
  unfolding CheckedArguments_def
  by (auto intro!: holds_intros holds_reads CheckedArguments_loop_keeps holds_any[of _ "src a" for a]
      holds_any[of _ "SetVRegReference g d r" for g r])

lemma DoCall_keeps: "at p s \<Longrightarrow> holds (\<lambda>r. at p (snd r)) (DoCall is_range check env m s)"
  unfolding DoCall_def DoCallCommon_def Let_def
  by (auto intro!: holds_intros holds_reads call_keeps holds_weaken[OF CheckedArguments_keeps] holds_weaken[OF SetStringInit_keeps]
      holds_any[of _ "CopyRegisters a b c d e f g" for a b c d e f g])

lemma invoke_method_keeps: "at p s \<Longrightarrow> holds (\<lambda>r. at p (snd r)) (invoke_method v is_range check env m r s)"
  unfolding invoke_method_def Let_def by (auto intro!: holds_intros call_keeps DoCall_keeps)

lemma invoke_keeps: "keeps_op (DoInvoke type is_range)" "keeps_op (DoInvokeVirtualQuick is_range)" "keeps_op (invoke_service f)"
  unfolding keeps_op_def DoInvoke_def DoInvokeVirtualQuick_def invoke_service_def Let_def
  by (auto intro!: holds_intros holds_reads call_keeps invoke_method_keeps)

subsection \<open>The tables\<close>

lemma control_keeps: "keeps None (goto offset)" "keeps None (switch_op op)" "keeps None (if_op rel)" "keeps None (ifz_op rel)"
  unfolding keeps_def goto_def switch_op_def if_op_def ifz_op_def branch_if_def
  by (auto intro!: holds_intros holds_reads branch_to_keeps andThen_keeps BRANCH_INSTRUMENTATION_keeps)

lemma return_object_keeps: "keeps u return_object"
  unfolding keeps_def return_object_def return_object_exit_def Let_def
  by (auto intro!: holds_intros holds_reads call_keeps andThen_keeps HANDLE_MONITOR_CHECKS_keeps HANDLE_frame throw_and_handle_frame
      method_exit_keeps)

lemma move_case_keeps:
  "keeps (Some n) (\<lambda>env pc s. on_frame n (\<lambda>i f. SetVReg f (r i) (g1 s)) env pc s)"
  "keeps (Some n) (\<lambda>env pc s. on_frame n (\<lambda>i f. SetVRegLong f (r i) (g2 s)) env pc s)"
  "keeps (Some n) (\<lambda>env pc s. on_frame n (\<lambda>i f. SetVRegReference f (r i) (g3 s)) env pc s)"
  "keeps (Some 1) move_exception"
  unfolding keeps_def move_exception_def by (auto intro!: on_frame_keeps basic_keeps holds_intros)

lemma on_frame_case_keeps: "(\<And>i f. I f \<Longrightarrow> holds I (upd i f)) \<Longrightarrow> keeps (Some n) (on_frame n upd)"
  unfolding keeps_def by (auto intro: on_frame_keeps)

lemma const_object_case_keeps:
  "keeps (Some n) (\<lambda>env pc s. do { (str, s) \<leftarrow> call (f env s) s; store_object n dst str env pc s })"
  unfolding keeps_def by (auto intro!: holds_intros call_keeps store_object_keeps)

lemmas case_keeps = PREAMBLE_keeps compute_keeps literal_keeps checked_keeps with_operands_keeps with_literal_keeps divide_keeps
  object_keeps monitor_op_keeps fill_array_data_keeps DoFilledNewArray_keeps aget_keeps aput_keeps field_keeps invoke_keeps
  control_keeps return_object_keeps return_handler_keeps move_case_keeps const_object_case_keeps on_frame_case_keeps put_ok_set

end

section \<open>The tables keep the frame and move on by the size of the instruction\<close>

text \<open>How far an instruction that does not branch moves on: its size, from the instruction table.\<close>

definition units :: "Code \<Rightarrow> nat option" where
  "units c = (if FlagsOf c AND (kBranch OR kSwitch) \<noteq> 0 then None
     else Some (if c = NOP then 1 else nat (InstructionSizeInCodeUnitsByOpcode c (FormatOf c))))"

definition unit_list :: "nat option list" where
  "unit_list = [
     Some 1, Some 1, Some 2, Some 3, Some 1, Some 2, Some 3, Some 1, Some 2, Some 3, Some 1, Some 1, Some 1, Some 1, Some 1, Some 1,
     Some 1, Some 1, Some 1, Some 2, Some 3, Some 2, Some 2, Some 3, Some 5, Some 2, Some 2, Some 3, Some 2, Some 1, Some 1, Some 2,
     Some 2, Some 1, Some 2, Some 2, Some 3, Some 3, Some 3, Some 1, None, None, None, None, None, Some 2, Some 2, Some 2,
     Some 2, Some 2, None, None, None, None, None, None, None, None, None, None, None, None, Some 1, Some 1,
     Some 1, Some 1, Some 1, Some 1, Some 2, Some 2, Some 2, Some 2, Some 2, Some 2, Some 2, Some 2, Some 2, Some 2, Some 2, Some 2,
     Some 2, Some 2, Some 2, Some 2, Some 2, Some 2, Some 2, Some 2, Some 2, Some 2, Some 2, Some 2, Some 2, Some 2, Some 2, Some 2,
     Some 2, Some 2, Some 2, Some 2, Some 2, Some 2, Some 2, Some 2, Some 2, Some 2, Some 2, Some 2, Some 2, Some 2, Some 3, Some 3,
     Some 3, Some 3, Some 3, Some 1, Some 3, Some 3, Some 3, Some 3, Some 3, Some 1, Some 1, Some 1, Some 1, Some 1, Some 1, Some 1,
     Some 1, Some 1, Some 1, Some 1, Some 1, Some 1, Some 1, Some 1, Some 1, Some 1, Some 1, Some 1, Some 1, Some 1, Some 1, Some 1,
     Some 2, Some 2, Some 2, Some 2, Some 2, Some 2, Some 2, Some 2, Some 2, Some 2, Some 2, Some 2, Some 2, Some 2, Some 2, Some 2,
     Some 2, Some 2, Some 2, Some 2, Some 2, Some 2, Some 2, Some 2, Some 2, Some 2, Some 2, Some 2, Some 2, Some 2, Some 2, Some 2,
     Some 1, Some 1, Some 1, Some 1, Some 1, Some 1, Some 1, Some 1, Some 1, Some 1, Some 1, Some 1, Some 1, Some 1, Some 1, Some 1,
     Some 1, Some 1, Some 1, Some 1, Some 1, Some 1, Some 1, Some 1, Some 1, Some 1, Some 1, Some 1, Some 1, Some 1, Some 1, Some 1,
     Some 2, Some 2, Some 2, Some 2, Some 2, Some 2, Some 2, Some 2, Some 2, Some 2, Some 2, Some 2, Some 2, Some 2, Some 2, Some 2,
     Some 2, Some 2, Some 2, Some 2, Some 2, Some 2, Some 2, Some 2, Some 2, Some 3, Some 3, Some 2, Some 2, Some 2, Some 2, Some 2,
     Some 2, Some 2, Some 2, Some 1, Some 1, Some 1, Some 1, Some 1, Some 1, Some 1, Some 4, Some 4, Some 3, Some 3, Some 1, Some 1]"

lemma units_list: "map units (map of_nat [0..<256]) = unit_list"
  by code_simp

lemma units_nth: "units c = unit_list ! unat c"
proof -
  have "unat c < 256" using unsigned_less[of c] by simp
  then show ?thesis using arg_cong[OF units_list, of "\<lambda>xs. xs ! unat c"] by simp
qed

lemma ball_cases: "(\<forall>(c, h) \<in> set []. P c h) = True" "(\<forall>(c, h) \<in> set ((c', h') # cs). P c h) = (P c' h' \<and> (\<forall>(c, h) \<in> set cs. P c h))"
  by simp_all

context frame_contract
begin

definition fits :: "Code \<Rightarrow> 'h handler \<Rightarrow> bool" where
  "fits c h \<longleftrightarrow> keeps (units c) h"

lemma fitsI: "units c = u \<Longrightarrow> keeps u h \<Longrightarrow> fits c h"
  by (simp add: fits_def)

lemmas case_keeps_Suc = case_keeps[unfolded One_nat_def]

lemma arithmetic_tables_keep:
  "\<forall>(c, h) \<in> set (unary_cases m). fits c h" "\<forall>(c, h) \<in> set int_cases. fits c h" "\<forall>(c, h) \<in> set long_cases. fits c h"
  "\<forall>(c, h) \<in> set (float_cases m). fits c h" "\<forall>(c, h) \<in> set int_2addr_cases. fits c h" "\<forall>(c, h) \<in> set long_2addr_cases. fits c h"
  "\<forall>(c, h) \<in> set (float_2addr_cases m). fits c h" "\<forall>(c, h) \<in> set lit16_cases. fits c h" "\<forall>(c, h) \<in> set lit8_cases. fits c h"
  "\<forall>(c, h) \<in> set compare_cases. fits c h"
  by (simp_all only: arithmetic_tables ball_cases One_nat_def)
    (intro conjI TrueI; rule fitsI, (simp add: units_nth unit_list_def; fail), intro case_keeps_Suc; assumption)+

lemma other_tables_keep:
  "\<forall>(c, h) \<in> set move_cases. fits c h" "\<forall>(c, h) \<in> set return_cases. fits c h" "\<forall>(c, h) \<in> set const_cases. fits c h"
  "\<forall>(c, h) \<in> set const_object_cases. fits c h" "\<forall>(c, h) \<in> set object_cases. fits c h" "\<forall>(c, h) \<in> set goto_cases. fits c h"
  "\<forall>(c, h) \<in> set if_cases. fits c h" "\<forall>(c, h) \<in> set ifz_cases. fits c h" "\<forall>(c, h) \<in> set aget_cases. fits c h"
  "\<forall>(c, h) \<in> set aput_cases. fits c h" "\<forall>(c, h) \<in> set iget_cases. fits c h" "\<forall>(c, h) \<in> set sget_cases. fits c h"
  "\<forall>(c, h) \<in> set iput_cases. fits c h" "\<forall>(c, h) \<in> set sput_cases. fits c h" "\<forall>(c, h) \<in> set invoke_cases. fits c h"
  by (simp_all only: other_tables ball_cases One_nat_def)
    (intro conjI TrueI; rule fitsI, (simp add: units_nth unit_list_def; fail), intro case_keeps_Suc basic_keeps holds_Some; assumption)+

lemma instruction_keeps:
  assumes "(c, h) \<in> set (instruction_cases m)"
  shows "keeps (units c) h"
proof -
  have "\<forall>(c, h) \<in> set (instruction_cases m). fits c h"
    unfolding instruction_cases_def set_append ball_Un by (intro conjI arithmetic_tables_keep other_tables_keep)
  then show ?thesis using assms unfolding fits_def by fast
qed

lemma step_keeps:
  assumes "I (frame s)"
  shows "holds (kept env (inst s) (units (Opcode (cur env s)))) (step env s)"
proof -
  have "holds (kept env (inst s) (units c)) (h env (GetDexPc s) (stop_at pc s))" if "map_of (instruction_cases (fp env)) c = Some h" for h c pc
  proof -
    have "keeps (units c) h" using that by (blast dest: map_of_SomeD instruction_keeps)
    moreover have "at (inst s) (stop_at pc s)" using SetDexPC_I[OF assms] by simp
    ultimately show ?thesis unfolding keeps_def GetDexPc_def by blast
  qed
  then show ?thesis unfolding step_def Let_def by (auto intro: holds_None split: option.split simp: cur_def)
qed

lemma loop_keeps:
  assumes "loop env s = Some (r, s')" "I (frame s)"
  shows "I (frame s')"
proof -
  have "I (frame s) \<longrightarrow> I (frame (snd (r, s')))"
  proof (rule loop.raw_induct[of "\<lambda>env s y. I (frame s) \<longrightarrow> I (frame (snd y))", OF _ assms(1)], intro impI)
    fix rec :: "'h env \<Rightarrow> 'h istate \<Rightarrow> (JValue \<times> 'h istate) option" and env s y
    assume rec: "\<And>env s y. rec env s = Some y \<Longrightarrow> I (frame s) \<longrightarrow> I (frame (snd y))" and I: "I (frame s)"
      and y: "(do { r \<leftarrow> step env s;
        case r of Return result s \<Rightarrow> Some (result, s)
        | Continue s \<Rightarrow> if \<not> interpret_one_instruction env then rec env s else Some (result_register s, stop_at (GetDexPc s) s) }) = Some y"
    obtain o1 where o1: "step env s = Some o1" using y by (cases "step env s") auto
    then have "I (frame (final o1))" using step_keeps[OF I, of env] by (simp add: holds_def kept_def)
    then show "I (frame (snd y))" using y o1 rec by (cases o1) (auto simp: SetDexPC_I split: if_splits)
  qed
  then show ?thesis using assms(2) by simp
qed

end

section \<open>The shape of a frame\<close>

definition frame_shape :: "nat \<Rightarrow> nat \<Rightarrow> ShadowFrame \<Rightarrow> bool" where
  "frame_shape n m f \<longleftrightarrow> frame_ok f \<and> number_of_vregs f = n \<and> sf_method f = m"

lemma SetDexPC_fields [simp]: "number_of_vregs (SetDexPC pc f) = number_of_vregs f" "sf_method (SetDexPC pc f) = sf_method f"
    "vregs (SetDexPC pc f) = vregs f" "monitors (SetDexPC pc f) = monitors f"
  by (simp_all add: SetDexPC_def)

lemma set_method:
  "SetVReg f i v = Some f' \<Longrightarrow> sf_method f' = sf_method f" "SetVRegReference f i v = Some f' \<Longrightarrow> sf_method f' = sf_method f"
  "SetVRegLong f i x = Some f' \<Longrightarrow> sf_method f' = sf_method f"
  by (auto simp: frame_defs split: if_splits)

lemma VisitShadowFrame_loop_method: "VisitShadowFrame_loop fwd n i f = Some f' \<Longrightarrow> sf_method f' = sf_method f"
proof (induction "n - i" arbitrary: i f)
  case 0
  then show ?case by (simp add: VisitShadowFrame_loop.simps)
next
  case (Suc k)
  then have i: "i < n" "k = n - (i + 1)" by auto
  obtain ref f1 where f1: "GetVRegReference f i = Some ref" "(if ref \<noteq> 0 \<and> fwd ref \<noteq> ref then SetVRegReference f i (fwd ref) else Some f) = Some f1"
    "VisitShadowFrame_loop fwd n (i + 1) f1 = Some f'"
    using Suc.prems i(1) by (subst (asm) VisitShadowFrame_loop.simps) (auto simp only: if_True bind_eq_Some_conv)
  then show ?case using Suc.hyps(1)[OF i(2) f1(3)] set_method(2) by (auto split: if_splits)
qed

interpretation shape: frame_contract "frame_shape n m" for n m
proof
  fix f f' :: ShadowFrame and i :: nat and v :: u32 and x :: u64 and fwd
  show "frame_shape n m f \<Longrightarrow> SetVReg f i v = Some f' \<Longrightarrow> frame_shape n m f'"
    using frame_ok_SetVReg[of f i v f'] set_method(1)[of f i v f'] set_reads(1)[of f i v f'] by (simp add: frame_shape_def)
  show "frame_shape n m f \<Longrightarrow> SetVRegReference f i v = Some f' \<Longrightarrow> frame_shape n m f'"
    using frame_ok_SetVRegReference[of f i v f'] set_method(2)[of f i v f'] set_ref_reads(1)[of f i v f'] by (simp add: frame_shape_def)
  show "frame_shape n m f \<Longrightarrow> SetVRegLong f i x = Some f' \<Longrightarrow> frame_shape n m f'"
    using frame_ok_SetVRegLong[of f i x f'] set_method(3)[of f i x f'] set_long_reads(1)[of f i x f'] by (simp add: frame_shape_def)
  assume "frame_shape n m f" and v: "VisitShadowFrame fwd f = Some f'"
  then have f: "frame_ok f" "number_of_vregs f = n" "sf_method f = m" by (auto simp: frame_shape_def)
  obtain g where g: "VisitShadowFrame_loop fwd (number_of_vregs f) 0 f = Some g" "f' = VisitMonitors fwd g"
    using v by (auto simp: VisitShadowFrame_def)
  then show "frame_shape n m f'"
    using VisitShadowFrame_loop_ok[OF f(1), of 0 fwd] VisitShadowFrame_loop_method[OF g(1)] f
    by (auto simp: frame_shape_def VisitMonitors_def frame_ok_def)
qed (simp_all add: frame_shape_def)

section \<open>Runs of bounded length\<close>

text \<open>The loop with at most \<open>n\<close> iterations, which evaluates; it agrees with the loop.\<close>

primrec run :: "nat \<Rightarrow> 'h env \<Rightarrow> 'h istate \<Rightarrow> (JValue \<times> 'h istate) option" where
  "run 0 env s = None"
| "run (Suc n) env s = do {
     r \<leftarrow> step env s;
     case r of
       Return result s \<Rightarrow> Some (result, s)
     | Continue s \<Rightarrow> if \<not> interpret_one_instruction env then run n env s else Some (result_register s, stop_at (GetDexPc s) s)
   }"

lemma run_loop: "run n env s = Some r \<Longrightarrow> loop env s = Some r"
proof (induction n arbitrary: s)
  case (Suc n)
  then show ?case by (subst loop.simps) (auto simp: bind_eq_Some_conv split: outcome.splits if_splits)
qed simp

section \<open>An environment in which nothing happens\<close>

text \<open>No listeners, no compiler and no collection; every allocation and resolution fails.  Exceptions are thrown as the
  object 1 and are not caught.\<close>

definition quiet :: "'r \<Rightarrow> ('h, 'r) service" where
  "quiet r h e = (r, h, id, e)"

definition quiet_instrumentation :: "'h instrumentation" where
  "quiet_instrumentation = \<lparr>HasDexPcListeners = \<lambda>_. False, DexPcMovedEvent = \<lambda>_. quiet (), HasBranchListeners = \<lambda>_. False,
     Branch_event = \<lambda>_ _. quiet (), HasMethodExitListeners = \<lambda>_. False, MethodExitEvent = \<lambda>_ _. quiet (),
     HasExceptionCaughtListeners = \<lambda>_. False, IsExceptionThrownByCurrentMethod = \<lambda>_ _. False, ExceptionCaughtEvent = \<lambda>_. quiet (),
     MethodUnwindEvent = \<lambda>_. quiet (), HasFieldReadListeners = \<lambda>_. False, FieldReadEvent = \<lambda>_ _ _. quiet (),
     HasFieldWriteListeners = \<lambda>_. False, FieldWriteEvent = \<lambda>_ _ _ _. quiet (), HasInvokeVirtualOrInterfaceListeners = \<lambda>_. False,
     InvokeVirtualOrInterface = \<lambda>_ _ _. quiet ()\<rparr>"

definition quiet_linker :: "'h linker" where
  "quiet_linker = \<lparr>FindCatchBlock = \<lambda>_ _. quiet (kDexNoIndex, False), ResolveString = \<lambda>_. quiet 0, ResolveVerifyAndClinit = \<lambda>_ _. quiet 0,
     GetReturnType = quiet 0, InstanceOf = \<lambda>_ _ _. False, VerifierInstanceOf = \<lambda>_ _ _. False, ObjectIsThrowable = \<lambda>_ _. False,
     IsStringClass = \<lambda>_ _. False, ObjectIsFinalizable = \<lambda>_ _. False, GetClass = \<lambda>_ _. 0, GetComponentType = \<lambda>_ _. None,
     FindFieldFromCode = \<lambda>_ _ _ _. quiet None, GetDeclaringClass = \<lambda>_ _. 0, IsStaticField = \<lambda>_. False, GetFieldType = \<lambda>_. quiet 0,
     ArtField_Get = \<lambda>_ _ _ _. 0, ArtField_Set = \<lambda>_ _ _ _ _ h. h, FindInstanceFieldWithOffset = \<lambda>_ _ _. 0,
     GetField = \<lambda>_ _ _ _. 0, SetField = \<lambda>_ _ _ _ _ h. h\<rparr>"

definition quiet_caller :: "'h caller" where
  "quiet_caller = \<lparr>FindMethodFromCode = \<lambda>_ _ _ r. quiet (None, r), GetEmbeddedVTableEntry = \<lambda>_ _ _. None, IsInvokable = \<lambda>_ _. True,
     JitInvokeVirtualOrInterface = \<lambda>_ _ _ h. h, IsStringConstructor = \<lambda>_. False, StringInitToStringFactory = id,
     GetCodeItem_registers_size = \<lambda>_. None, UseInterpreterEntrypoint = \<lambda>_ _. True, IsStaticMethod = \<lambda>_. True, GetShorty = \<lambda>_. ''V'',
     ResolveParameterType = \<lambda>_ _. quiet 0, PerformCall = \<lambda>_ _ _ r _. quiet r, DoInvokePolymorphic = \<lambda>_ _ _ _ r. quiet (True, r),
     DoInvokeCustom = \<lambda>_ _ _ _ r. quiet (True, r)\<rparr>"

definition quiet_allocator :: "'h allocator" where
  "quiet_allocator = \<lparr>AllocEmptyString = quiet 0, AllocObjectFromCode = \<lambda>_. quiet 0, AllocArrayFromCode = \<lambda>_ _ _. quiet 0,
     Array_Alloc = \<lambda>_ _. quiet 0, AbortTransactionF = quiet (), RecordWriteArray = \<lambda>_ _ _ h. h\<rparr>"

definition quiet_fpu :: fpu where
  "quiet_fpu = \<lparr>fadd32 = \<lambda>x _. x, fsub32 = \<lambda>x _. x, fmul32 = \<lambda>x _. x, fdiv32 = \<lambda>x _. x, fmodf = \<lambda>x _. x, fadd64 = \<lambda>x _. x,
     fsub64 = \<lambda>x _. x, fmul64 = \<lambda>x _. x, fdiv64 = \<lambda>x _. x, fmod = \<lambda>x _. x, int_to_float = \<lambda>_. 0, int_to_double = \<lambda>_. 0,
     long_to_float = \<lambda>_. 0, long_to_double = \<lambda>_. 0, float_to_double = \<lambda>_. 0, double_to_float = \<lambda>_. 0\<rparr>"

definition quiet_env :: "u16 list \<Rightarrow> 'h env" where
  "quiet_env code = \<lparr>insns = (\<lambda>i. if 0 \<le> i \<and> nat i < length code then code ! nat i else 0), do_access_check = False,
     transaction_active = False, interpret_one_instruction = False, jit = False, instr = quiet_instrumentation, lnk = quiet_linker,
     cal = quiet_caller, alloc = quiet_allocator, fp = quiet_fpu, suspend = quiet (), Throw = \<lambda>_ h e. ((), h, id, 1),
     MaybeDoOnStackReplacement = \<lambda>_ _. quiet None, AddSamples = \<lambda>_. quiet (), MonitorEnter = \<lambda>_. quiet (), MonitorExit = \<lambda>_. quiet (),
     MustCountLocks = \<lambda>_. False\<rparr>"

definition no_heap :: "unit mem" where
  "no_heap = \<lparr>arrays = \<lambda>_. None, rest = ()\<rparr>"

text \<open>\<open>const/4 v0, 3; mul-int/2addr v0, v0; return v0\<close>\<close>

definition square_program :: "u16 list" where
  "square_program = [0x3012, 0x00b2, 0x000f]"

text \<open>C4: A run of the switch interpreter leaves a frame of the same method with the same number of registers, in which
  every register that is marked as a reference holds that reference, whatever the program does and whatever the runtime
  around it does, collections that move objects included.\<close>

theorem ExecuteSwitchImpl_frame:
  assumes "frame_ok f" "ExecuteSwitchImpl env f r e h = Some (v, s')"
  shows "frame_ok (frame s') \<and> number_of_vregs (frame s') = number_of_vregs f \<and> sf_method (frame s') = sf_method f"
  using shape.loop_keeps[of env _ v s' "number_of_vregs f" "sf_method f"] assms by (simp add: ExecuteSwitchImpl_def frame_shape_def)

lemma run_square:
  "map_option (\<lambda>(v, s). (v, vregs (frame s))) (run 3 (quiet_env square_program)
     \<lparr>frame = ShadowFrame_new 1 0 0, result_register = 0, inst = 0, exception = 0, heap = no_heap\<rparr>) = Some (9, [9, 0])"
  by code_simp

theorem ExecuteSwitchImpl_frame_witness:
  "frame_ok (ShadowFrame_new 1 0 0)
   \<and> (\<exists>s. ExecuteSwitchImpl (quiet_env square_program) (ShadowFrame_new 1 0 0) 0 0 no_heap = Some (9, s) \<and> frame_ok (frame s))"
proof -
  obtain s where "run 3 (quiet_env square_program)
      \<lparr>frame = ShadowFrame_new 1 0 0, result_register = 0, inst = 0, exception = 0, heap = no_heap\<rparr> = Some (9, s)"
    using run_square by auto
  then have r: "ExecuteSwitchImpl (quiet_env square_program) (ShadowFrame_new 1 0 0) 0 0 no_heap = Some (9, s)"
    using run_loop by (simp add: ExecuteSwitchImpl_def GetDexPC_def ShadowFrame_new_def)
  then show ?thesis using ExecuteSwitchImpl_frame[OF frame_ok_new r] frame_ok_new by blast
qed

end
