(* ===== verification/Interpreter_Arithmetic.thy ===== *)
theory Interpreter_Arithmetic
  imports Interpreter_Invariant
begin

text \<open>
  The integer instructions of the interpreter compute what the Java language says, in each of their four operand
  forms.
\<close>

section \<open>Dispatch\<close>

lemma distinct_cases: "distinct (map fst (instruction_cases m))"
  by (simp add: instruction_cases_def arithmetic_tables other_tables)

lemma cur_simps [simp]: "cur env (stop_at pc s) = cur env s" "cur env (s\<lparr>frame := f\<rparr>) = cur env s" "inst (stop_at pc s) = inst s"
    "exception (stop_at pc s) = exception s" "heap (stop_at pc s) = heap s" "result_register (stop_at pc s) = result_register s"
  by (simp_all add: cur_def stop_at_def)

lemma get_SetDexPC [simp]: "GetVReg (SetDexPC pc f) = GetVReg f" "GetVRegReference (SetDexPC pc f) = GetVRegReference f"
    "GetVRegLong (SetDexPC pc f) = GetVRegLong f"
  by (simp_all add: fun_eq_iff frame_defs)

lemma step_case:
  assumes "(Opcode (cur env s), h) \<in> set (instruction_cases (fp env))"
  shows "step env s = h env (GetDexPc s) (stop_at (GetDexPc s) s)"
proof -
  have "map_of (instruction_cases (fp env)) (Opcode (cur env s)) = Some h"
    using assms by (simp add: map_of_eq_Some_iff distinct_cases)
  then show ?thesis by (simp add: step_def Let_def)
qed

text \<open>Where no listener watches the instructions, the preamble does nothing.\<close>

lemma step_quiet:
  assumes "(Opcode (cur env s), PREAMBLE h) \<in> set (instruction_cases (fp env))" "\<not> HasDexPcListeners (instr env) (heap s)"
  shows "step env s = h env (GetDexPc s) (stop_at (GetDexPc s) s)"
  using step_case[OF assms(1)] assms(2) by (simp add: PREAMBLE_SAVE_def)

section \<open>Arithmetic as the Java language defines it\<close>

datatype binop = Add | Sub | Rsub | Mul | Div | Rem | And | Or | Xor | Shl | Shr | Ushr

text \<open>On the values of the operands, \<open>w\<close> bits wide.  Division drops the fraction and a shift uses the low bits of its
  distance; the result is taken modulo \<open>2 ^ w\<close>.\<close>

definition java_binop :: "nat \<Rightarrow> binop \<Rightarrow> int \<Rightarrow> int \<Rightarrow> int" where
  "java_binop w op x y =
     (case op of
        Add \<Rightarrow> x + y | Sub \<Rightarrow> x - y | Rsub \<Rightarrow> y - x | Mul \<Rightarrow> x * y | Div \<Rightarrow> x sdiv y | Rem \<Rightarrow> x smod y
      | And \<Rightarrow> x AND y | Or \<Rightarrow> x OR y | Xor \<Rightarrow> x XOR y
      | Shl \<Rightarrow> x * 2 ^ nat (y mod int w) | Shr \<Rightarrow> x div 2 ^ nat (y mod int w)
      | Ushr \<Rightarrow> (x mod 2 ^ w) div 2 ^ nat (y mod int w))"

datatype operand_form = F23x | F12x | F22s | F22b

text \<open>The destination, the two operands, and the size of an instruction of each form.\<close>

definition int_operands :: "operand_form \<Rightarrow> Instruction \<Rightarrow> ShadowFrame \<Rightarrow> (nat \<times> u32 \<times> u32 \<times> nat) option" where
  "int_operands form i f =
     (case form of
        F23x \<Rightarrow> do { x \<leftarrow> GetVReg f (b23x i); y \<leftarrow> GetVReg f (c23x i); Some (a23x i, x, y, 2) }
      | F12x \<Rightarrow> do { x \<leftarrow> GetVReg f (a12x i); y \<leftarrow> GetVReg f (b12x i); Some (a12x i, x, y, 1) }
      | F22s \<Rightarrow> do { x \<leftarrow> GetVReg f (b22s i); Some (a22s i, x, scast (VRegC_22s i), 2) }
      | F22b \<Rightarrow> do { x \<leftarrow> GetVReg f (b22b i); Some (a22b i, x, scast (VRegC_22b i), 2) })"

definition int_instructions :: "(Code \<times> operand_form \<times> binop) list" where
  "int_instructions = [
     (ADD_INT, F23x, Add), (SUB_INT, F23x, Sub), (MUL_INT, F23x, Mul), (DIV_INT, F23x, Div), (REM_INT, F23x, Rem), (SHL_INT, F23x, Shl),
     (SHR_INT, F23x, Shr), (USHR_INT, F23x, Ushr), (AND_INT, F23x, And), (OR_INT, F23x, Or), (XOR_INT, F23x, Xor),
     (ADD_INT_2ADDR, F12x, Add), (SUB_INT_2ADDR, F12x, Sub), (MUL_INT_2ADDR, F12x, Mul), (DIV_INT_2ADDR, F12x, Div), (REM_INT_2ADDR, F12x, Rem),
     (SHL_INT_2ADDR, F12x, Shl), (SHR_INT_2ADDR, F12x, Shr), (USHR_INT_2ADDR, F12x, Ushr), (AND_INT_2ADDR, F12x, And), (OR_INT_2ADDR, F12x, Or),
     (XOR_INT_2ADDR, F12x, Xor),
     (ADD_INT_LIT16, F22s, Add), (RSUB_INT, F22s, Rsub), (MUL_INT_LIT16, F22s, Mul), (DIV_INT_LIT16, F22s, Div), (REM_INT_LIT16, F22s, Rem),
     (AND_INT_LIT16, F22s, And), (OR_INT_LIT16, F22s, Or), (XOR_INT_LIT16, F22s, Xor),
     (ADD_INT_LIT8, F22b, Add), (RSUB_INT_LIT8, F22b, Rsub), (MUL_INT_LIT8, F22b, Mul), (DIV_INT_LIT8, F22b, Div), (REM_INT_LIT8, F22b, Rem),
     (AND_INT_LIT8, F22b, And), (OR_INT_LIT8, F22b, Or), (XOR_INT_LIT8, F22b, Xor), (SHL_INT_LIT8, F22b, Shl), (SHR_INT_LIT8, F22b, Shr),
     (USHR_INT_LIT8, F22b, Ushr)]"

lemma word_of_int_java:
  fixes x y :: "'a::len word"
  shows "word_of_int (sint x + sint y) = x + y" "word_of_int (sint x - sint y) = x - y" "word_of_int (sint x * sint y) = x * y"
    "word_of_int (sint x AND sint y) = x AND y" "word_of_int (sint x OR sint y) = x OR y" "word_of_int (sint x XOR sint y) = x XOR y"
proof -
  show "word_of_int (sint x + sint y) = x + y" by simp
  show "word_of_int (sint x - sint y) = x - y" by simp
  show "word_of_int (sint x * sint y) = x * y" by simp
  show "word_of_int (sint x AND sint y) = x AND y" "word_of_int (sint x OR sint y) = x OR y" "word_of_int (sint x XOR sint y) = x XOR y"
    by (rule bit_eqI, auto simp: bit_simps)+
qed

lemma shift_amount:
  fixes y :: "'b::len word"
  assumes "m < LENGTH('b)"
  shows "unat (y AND mask m) = nat (sint y mod 2 ^ m)"
proof -
  have "take_bit m (sint y) = take_bit m (uint y)"
    using assms by (simp add: sint_uint take_bit_signed_take_bit)
  moreover have "unat (y AND mask m) = nat (take_bit m (uint y))"
    by (simp only: take_bit_eq_mask[symmetric] unsigned_take_bit_eq unat_eq_nat_uint[of y] nat_take_bit_eq[symmetric, OF uint_ge_0] take_bit_nat_def)
       (simp add: unsigned_take_bit_eq take_bit_nat_eq nat_mod_distrib take_bit_eq_mod nat_power_eq)
  ultimately show ?thesis by (simp add: take_bit_eq_mod)
qed

lemma shift_java:
  fixes x :: "'a::len word" and y :: "'b::len word"
  assumes "m < LENGTH('b)" "m \<le> LENGTH('a)" "2 ^ m = LENGTH('a)"
  shows "word_of_int (java_binop (LENGTH('a)) Shl (sint x) (sint y)) = shift_left m x y"
    "word_of_int (java_binop (LENGTH('a)) Shr (sint x) (sint y)) = shift_right m x y"
    "word_of_int (java_binop (LENGTH('a)) Ushr (sint x) (sint y)) = ushift_right m x y"
proof -
  have k: "nat (sint y mod int (LENGTH('a))) = unat (y AND mask m)"
    unfolding shift_amount[OF assms(1)] by (simp add: assms(3)[symmetric])
  let ?k = "unat (y AND mask m)"
  show "word_of_int (java_binop (LENGTH('a)) Shl (sint x) (sint y)) = shift_left m x y"
    by (simp add: java_binop_def k shift_left_def push_bit_eq_mult)
  have s: "sint x div 2 ^ ?k = sint (signed_drop_bit ?k x)"
    by (simp add: sint_signed_drop_bit_eq drop_bit_eq_div)
  show "word_of_int (java_binop (LENGTH('a)) Shr (sint x) (sint y)) = shift_right m x y"
    unfolding java_binop_def binop.case k shift_right_def s by simp
  have "sint x mod 2 ^ LENGTH('a) = uint x"
    by (metis take_bit_eq_mod uint_sint)
  then have "word_of_int (java_binop (LENGTH('a)) Ushr (sint x) (sint y)) = (word_of_int (uint x div 2 ^ ?k) :: 'a word)"
    by (simp add: java_binop_def k)
  also have "\<dots> = drop_bit ?k x"
    by (rule bit_eqI) (auto simp: bit_simps drop_bit_eq_div[symmetric])
  finally show "word_of_int (java_binop (LENGTH('a)) Ushr (sint x) (sint y)) = ushift_right m x y"
    by (simp add: ushift_right_def)
qed

lemma binop_java:
  fixes x y :: "'a::len word"
  shows "word_of_int (java_binop w Add (sint x) (sint y)) = (SafeAdd x y :: 'a word)"
    "word_of_int (java_binop w Sub (sint x) (sint y)) = (SafeSub x y :: 'a word)"
    "word_of_int (java_binop w Mul (sint x) (sint y)) = (SafeMul x y :: 'a word)"
    "word_of_int (java_binop w And (sint x) (sint y)) = x AND y"
    "word_of_int (java_binop w Or (sint x) (sint y)) = x OR y"
    "word_of_int (java_binop w Xor (sint x) (sint y)) = x XOR y"
    "word_of_int (java_binop w Div (sint x) (sint y)) = quotient x y"
    "word_of_int (java_binop w Rem (sint x) (sint y)) = remainder x y"
  unfolding java_binop_def SafeAdd_def SafeSub_def SafeMul_def quotient_def remainder_def by (simp_all add: word_of_int_java)

lemma overflow_java:
  "quotient kMinInt (-1) = kMinInt" "remainder kMinInt (-1) = 0" "quotient kMinLong (-1) = kMinLong" "remainder kMinLong (-1) = 0"
  by (simp_all add: quotient_def remainder_def kMinInt_def kMinLong_def signed_divide_int_def signed_modulo_int_def)


lemma scast_java:
  fixes x :: u32
  shows "word_of_int (java_binop w Add (sint x) (sint (scast (y16::u16) :: u32))) = (SafeAdd x y16 :: u32)"
    "word_of_int (java_binop w Add (sint x) (sint (scast (y8::u8) :: u32))) = (SafeAdd x y8 :: u32)"
    "word_of_int (java_binop w Mul (sint x) (sint (scast y16 :: u32))) = (SafeMul x y16 :: u32)"
    "word_of_int (java_binop w Mul (sint x) (sint (scast y8 :: u32))) = (SafeMul x y8 :: u32)"
    "word_of_int (java_binop w Rsub (sint x) (sint (scast y16 :: u32))) = (SafeSub y16 x :: u32)"
    "word_of_int (java_binop w Rsub (sint x) (sint (scast y8 :: u32))) = (SafeSub y8 x :: u32)"
  unfolding java_binop_def SafeAdd_def SafeSub_def SafeMul_def by (simp_all add: word_of_int_java)

lemma lit8_shift_java:
  fixes x :: u32 and y :: u8
  shows "word_of_int (java_binop 32 Shl (sint x) (sint (scast y :: u32))) = shift_left 5 x y"
    "word_of_int (java_binop 32 Shr (sint x) (sint (scast y :: u32))) = shift_right 5 x y"
    "word_of_int (java_binop 32 Ushr (sint x) (sint (scast y :: u32))) = ushift_right 5 x y"
  using shift_java[of 5 x y] by (simp_all add: sint_up_scast is_up)

lemma int_shift_java:
  fixes x y :: u32
  shows "word_of_int (java_binop 32 Shl (sint x) (sint y)) = shift_left 5 x y"
    "word_of_int (java_binop 32 Shr (sint x) (sint y)) = shift_right 5 x y"
    "word_of_int (java_binop 32 Ushr (sint x) (sint y)) = ushift_right 5 x y"
  using shift_java[of 5 x y] by simp_all

lemmas int_java = binop_java scast_java lit8_shift_java int_shift_java

text \<open>What an arithmetic instruction does, given its operands.\<close>

definition apply_int :: "binop \<Rightarrow> (nat \<times> u32 \<times> u32 \<times> nat) \<Rightarrow> 'h handler" where
  "apply_int op = (\<lambda>(a, x, y, n) env pc s.
     if op \<in> {Div, Rem} \<and> y = 0 then throw_and_handle DivideByZero env pc s
     else do {
       f \<leftarrow> SetVReg (frame s) a (word_of_int (java_binop 32 op (sint x) (sint y)));
       Some (Continue (Next_units n (s\<lparr>frame := f\<rparr>)))
     })"

definition int_case :: "operand_form \<Rightarrow> binop \<Rightarrow> 'h handler" where
  "int_case form op env pc s = do { ops \<leftarrow> int_operands form (cur env s) (frame s); apply_int op ops env pc s }"

lemma throw_checked:
  "(do { (ok, s) \<leftarrow> map_option (\<lambda>(_, s). (False, s)) (call (Throw env e) s); POSSIBLY_HANDLE_PENDING_EXCEPTION (\<not> ok) n env pc s })
     = throw_and_handle e env pc s"
  by (cases "call (Throw env e) s") (auto simp: throw_and_handle_def POSSIBLY_HANDLE_PENDING_EXCEPTION_def)

lemma store_checked:
  "(do { (ok, s) \<leftarrow> map_option (\<lambda>f. (True, s\<lparr>frame := f\<rparr>)) m; POSSIBLY_HANDLE_PENDING_EXCEPTION (\<not> ok) n env pc s })
     = (do { f \<leftarrow> m; Some (Continue (Next_units n (s\<lparr>frame := f\<rparr>))) })"
  by (cases m) (auto simp: POSSIBLY_HANDLE_PENDING_EXCEPTION_def)

lemma overflow_branch:
  "(if x = kMinInt \<and> y = -1 then g kMinInt else g (quotient x y)) = g (quotient x y)"
  "(if x = kMinInt \<and> y = -1 then g 0 else g (remainder x y)) = g (remainder x y)"
  "(if u = kMinLong \<and> v = -1 then k kMinLong else k (quotient u v)) = k (quotient u v)"
  "(if u = kMinLong \<and> v = -1 then k 0 else k (remainder u v)) = k (remainder u v)"
  using overflow_java by (auto simp del: overflow_java)

lemma divide_eqs:
  "DoIntDivide env a x y s = (if y = 0 then map_option (\<lambda>(_, s). (False, s)) (call (Throw env DivideByZero) s)
     else map_option (\<lambda>f. (True, s\<lparr>frame := f\<rparr>)) (SetVReg (frame s) a (quotient x y)))"
  "DoIntRemainder env a x y s = (if y = 0 then map_option (\<lambda>(_, s). (False, s)) (call (Throw env DivideByZero) s)
     else map_option (\<lambda>f. (True, s\<lparr>frame := f\<rparr>)) (SetVReg (frame s) a (remainder x y)))"
  "DoLongDivide env a u v s = (if v = 0 then map_option (\<lambda>(_, s). (False, s)) (call (Throw env DivideByZero) s)
     else map_option (\<lambda>f. (True, s\<lparr>frame := f\<rparr>)) (SetVRegLong (frame s) a (quotient u v)))"
  "DoLongRemainder env a u v s = (if v = 0 then map_option (\<lambda>(_, s). (False, s)) (call (Throw env DivideByZero) s)
     else map_option (\<lambda>f. (True, s\<lparr>frame := f\<rparr>)) (SetVRegLong (frame s) a (remainder u v)))"
  unfolding DoIntDivide_def DoIntRemainder_def DoLongDivide_def DoLongRemainder_def overflow_branch by (rule refl)+

lemma divide_java:
  "(do { (ok, s) \<leftarrow> DoIntDivide env a x y s; POSSIBLY_HANDLE_PENDING_EXCEPTION (\<not> ok) n env pc s }) = apply_int Div (a, x, y, n) env pc s"
  "(do { (ok, s) \<leftarrow> DoIntRemainder env a x y s; POSSIBLY_HANDLE_PENDING_EXCEPTION (\<not> ok) n env pc s }) = apply_int Rem (a, x, y, n) env pc s"
  unfolding divide_eqs by (cases "y = 0"; simp only: if_True if_False throw_checked store_checked; simp add: apply_int_def binop_java)+

lemma compute_int:
  assumes "op \<notin> {Div, Rem}"
  shows "(\<And>x y. word_of_int (java_binop 32 op (sint x) (sint y)) = g x y) \<Longrightarrow> binary_op GetVReg GetVReg SetVReg g = int_case F23x op"
    "(\<And>x y. word_of_int (java_binop 32 op (sint x) (sint y)) = g x y) \<Longrightarrow> binary_op_2addr GetVReg GetVReg SetVReg g = int_case F12x op"
    "(\<And>x y. word_of_int (java_binop 32 op (sint x) (sint (scast y :: u32))) = g16 x y) \<Longrightarrow> lit16_op g16 = int_case F22s op"
    "(\<And>x y. word_of_int (java_binop 32 op (sint x) (sint (scast y :: u32))) = g8 x y) \<Longrightarrow> lit8_op g8 = int_case F22b op"
  using assms by (intro ext; simp add: binary_op_def binary_op_2addr_def lit16_op_def lit8_op_def int_case_def apply_int_def on_frame_def int_operands_def)+

lemma divide_int:
  "checked 2 (with_operands GetVReg a23x b23x c23x DoIntDivide) = int_case F23x Div"
  "checked 2 (with_operands GetVReg a23x b23x c23x DoIntRemainder) = int_case F23x Rem"
  "checked 1 (with_operands GetVReg a12x a12x b12x DoIntDivide) = int_case F12x Div"
  "checked 1 (with_operands GetVReg a12x a12x b12x DoIntRemainder) = int_case F12x Rem"
  "checked 2 (with_literal a22s b22s (\<lambda>i. scast (VRegC_22s i)) DoIntDivide) = int_case F22s Div"
  "checked 2 (with_literal a22s b22s (\<lambda>i. scast (VRegC_22s i)) DoIntRemainder) = int_case F22s Rem"
  "checked 2 (with_literal a22b b22b (\<lambda>i. scast (VRegC_22b i)) DoIntDivide) = int_case F22b Div"
  "checked 2 (with_literal a22b b22b (\<lambda>i. scast (VRegC_22b i)) DoIntRemainder) = int_case F22b Rem"
  by (intro ext; simp add: checked_def with_operands_def with_literal_def int_case_def int_operands_def divide_java)+

lemma safe_scast:
  "SafeAdd (x::u32) (scast (y::u16) :: u32) = (SafeAdd x y :: u32)" "SafeAdd (x::u32) (scast (z::u8) :: u32) = (SafeAdd x z :: u32)"
  "SafeMul (x::u32) (scast (y::u16) :: u32) = (SafeMul x y :: u32)" "SafeMul (x::u32) (scast (z::u8) :: u32) = (SafeMul x z :: u32)"
  by (simp_all add: SafeAdd_def SafeMul_def)

lemma shift_scast:
  fixes x :: u32 and z :: u8
  shows "shift_left 5 x (scast z :: u32) = shift_left 5 x z" "shift_right 5 x (scast z :: u32) = shift_right 5 x z"
    "ushift_right 5 x (scast z :: u32) = ushift_right 5 x z"
  using int_shift_java[of x "scast z"] lit8_shift_java[of x z] by simp_all

lemma int_tables:
  "int_cases @ int_2addr_cases @ lit16_cases @ lit8_cases = map (\<lambda>(c, form, op). (c, PREAMBLE (int_case form op))) int_instructions"
  unfolding arithmetic_tables divide_int int_instructions_def list.map prod.case append.simps
  by (simp only: list.inject prod.inject simp_thms,
      (intro conjI TrueI refl arg_cong[of _ _ "PREAMBLE_SAVE False"] compute_int; simp add: int_java safe_scast shift_scast)+)

lemma int_case_mem:
  assumes "(c, form, op) \<in> set int_instructions"
  shows "(c, PREAMBLE (int_case form op)) \<in> set (instruction_cases m)"
proof -
  have "(c, PREAMBLE (int_case form op)) \<in> set (int_cases @ int_2addr_cases @ lit16_cases @ lit8_cases)"
    unfolding int_tables set_map using assms by force
  then show ?thesis by (auto simp: instruction_cases_def)
qed

text \<open>C5: Every integer instruction, in each of its forms (three registers, two registers, 16-bit and 8-bit
  literal), stores the value that the Java language defines for the operation, wrapped to 32 bits, in its destination
  and moves on by its own size.  Division and remainder by zero throw instead; the quotient of the smallest integer by
  minus one wraps.\<close>

theorem int_arithmetic_java:
  assumes "(Opcode (cur env s), form, op) \<in> set int_instructions" "\<not> HasDexPcListeners (instr env) (heap s)"
  shows "step env s = (let pc = GetDexPc s; s' = stop_at pc s in do {
      (a, x, y, n) \<leftarrow> int_operands form (cur env s) (frame s);
      if op \<in> {Div, Rem} \<and> y = 0 then throw_and_handle DivideByZero env pc s'
      else do {
        f \<leftarrow> SetVReg (frame s') a (word_of_int (java_binop 32 op (sint x) (sint y)));
        Some (Continue (Next_units n (s'\<lparr>frame := f\<rparr>)))
      }
    })"
  unfolding step_quiet[OF int_case_mem[OF assms(1)] assms(2)]
  by (cases form; simp add: int_case_def apply_int_def Let_def int_operands_def)


theorem int_arithmetic_java_witness:
  "let env = quiet_env [0x0193, 0x0100]; s = \<lparr>frame = ShadowFrame_new 2 0 0, result_register = 0, inst = 0, exception = 0, heap = no_heap\<rparr>
   in (Opcode (cur env s), F23x, Div) \<in> set int_instructions \<and> \<not> HasDexPcListeners (instr env) (heap s)
      \<and> step env s = throw_and_handle DivideByZero env 0 (stop_at 0 s)"
proof -
  define env :: "unit env" where "env = quiet_env [0x0193, 0x0100]"
  define s :: "unit istate" where "s = \<lparr>frame = ShadowFrame_new 2 0 0, result_register = 0, inst = 0, exception = 0, heap = no_heap\<rparr>"
  have i: "cur env s 0 = 0x0193" "cur env s 1 = 0x0100" by (simp_all add: env_def s_def cur_def RelativeAt_def quiet_env_def)
  have o1: "Opcode (cur env s) = DIV_INT" using i by (simp add: Opcode_def Fetch16_def)
  have ops: "int_operands F23x (cur env s) (frame s) = Some (1, 0, 0, 2)"
    using i by (simp add: int_operands_def VRegA_23x_def VRegB_23x_def VRegC_23x_def InstAA_def Fetch16_def s_def ShadowFrame_new_def frame_defs)
  have c: "(Opcode (cur env s), F23x, Div) \<in> set int_instructions" unfolding o1 by (simp add: int_instructions_def)
  have q: "\<not> HasDexPcListeners (instr env) (heap s)" by (simp add: env_def quiet_env_def quiet_instrumentation_def)
  have "step env s = throw_and_handle DivideByZero env 0 (stop_at 0 s)"
    unfolding int_arithmetic_java[OF c q] using ops by (simp add: Let_def GetDexPc_def s_def)
  then show ?thesis using c q by (simp add: env_def s_def Let_def)
qed

section \<open>Long arithmetic\<close>

text \<open>The distance of a shift is an \<open>int\<close>; the other operands are \<open>long\<close>.\<close>

definition long_operands :: "operand_form \<Rightarrow> binop \<Rightarrow> Instruction \<Rightarrow> ShadowFrame \<Rightarrow> (nat \<times> u64 \<times> int \<times> nat) option" where
  "long_operands form op i f =
     (let (a, b, c, n) = (case form of F12x \<Rightarrow> (a12x i, a12x i, b12x i, 1) | _ \<Rightarrow> (a23x i, b23x i, c23x i, 2)) in do {
        x \<leftarrow> GetVRegLong f b;
        y \<leftarrow> (if op \<in> {Shl, Shr, Ushr} then map_option sint (GetVReg f c) else map_option sint (GetVRegLong f c));
        Some (a, x, y, n)
      })"

definition long_instructions :: "(Code \<times> operand_form \<times> binop) list" where
  "long_instructions = [
     (ADD_LONG, F23x, Add), (SUB_LONG, F23x, Sub), (MUL_LONG, F23x, Mul), (DIV_LONG, F23x, Div), (REM_LONG, F23x, Rem), (AND_LONG, F23x, And),
     (OR_LONG, F23x, Or), (XOR_LONG, F23x, Xor), (SHL_LONG, F23x, Shl), (SHR_LONG, F23x, Shr), (USHR_LONG, F23x, Ushr),
     (ADD_LONG_2ADDR, F12x, Add), (SUB_LONG_2ADDR, F12x, Sub), (MUL_LONG_2ADDR, F12x, Mul), (DIV_LONG_2ADDR, F12x, Div),
     (REM_LONG_2ADDR, F12x, Rem), (AND_LONG_2ADDR, F12x, And), (OR_LONG_2ADDR, F12x, Or), (XOR_LONG_2ADDR, F12x, Xor),
     (SHL_LONG_2ADDR, F12x, Shl), (SHR_LONG_2ADDR, F12x, Shr), (USHR_LONG_2ADDR, F12x, Ushr)]"

definition apply_long :: "binop \<Rightarrow> (nat \<times> u64 \<times> int \<times> nat) \<Rightarrow> 'h handler" where
  "apply_long op = (\<lambda>(a, x, y, n) env pc s.
     if op \<in> {Div, Rem} \<and> y = 0 then throw_and_handle DivideByZero env pc s
     else do {
       f \<leftarrow> SetVRegLong (frame s) a (word_of_int (java_binop 64 op (sint x) y));
       Some (Continue (Next_units n (s\<lparr>frame := f\<rparr>)))
     })"

definition long_case :: "operand_form \<Rightarrow> binop \<Rightarrow> 'h handler" where
  "long_case form op env pc s = do { ops \<leftarrow> long_operands form op (cur env s) (frame s); apply_long op ops env pc s }"

text \<open>Throwing leaves an exception pending.\<close>

definition throws :: "'h env \<Rightarrow> bool" where
  "throws env \<longleftrightarrow> (\<forall>x h e. snd (snd (snd (Throw env x h e))) \<noteq> 0)"

lemma throws_call: "throws env \<Longrightarrow> call (Throw env x) s = Some (r, s') \<Longrightarrow> exception s' \<noteq> 0"
  by (auto simp: throws_def call_def call_out_def split: prod.splits) (metis snd_conv)

lemma long_shift_java:
  fixes x :: u64 and y :: u32
  shows "word_of_int (java_binop 64 Shl (sint x) (sint y)) = shift_left 6 x y"
    "word_of_int (java_binop 64 Shr (sint x) (sint y)) = shift_right 6 x y"
    "word_of_int (java_binop 64 Ushr (sint x) (sint y)) = ushift_right 6 x y"
  using shift_java[of 6 x y] by simp_all

lemma compute_long:
  assumes "op \<notin> {Div, Rem, Shl, Shr, Ushr}" "\<And>x y. word_of_int (java_binop 64 op (sint x) (sint y)) = g x y"
  shows "binary_op GetVRegLong GetVRegLong SetVRegLong g = long_case F23x op"
    "binary_op_2addr GetVRegLong GetVRegLong SetVRegLong g = long_case F12x op"
  using assms by (intro ext; simp add: binary_op_def binary_op_2addr_def long_case_def apply_long_def on_frame_def long_operands_def
      Option.bind_map_option comp_def)+

lemma shift_long:
  assumes "op \<in> {Shl, Shr, Ushr}" "\<And>x y. word_of_int (java_binop 64 op (sint x) (sint y)) = g x y"
  shows "binary_op GetVRegLong GetVReg SetVRegLong g = long_case F23x op"
    "binary_op_2addr GetVRegLong GetVReg SetVRegLong g = long_case F12x op"
  using assms by (intro ext; auto simp: binary_op_def binary_op_2addr_def long_case_def apply_long_def on_frame_def long_operands_def
      Option.bind_map_option comp_def)+

lemma sint_eq_0: "(sint (y::'a::len word) = 0) = (y = 0)"
proof
  assume "sint y = 0"
  then have "word_of_int (sint y) = (0 :: 'a word)" by simp
  then show "y = 0" by (simp del: of_int_0)
qed simp

lemma divide_long:
  assumes t: "throws env" and e: "exception s = 0"
  shows "(do { (_, s) \<leftarrow> DoLongDivide env a x y s; POSSIBLY_HANDLE_PENDING_EXCEPTION (exception s \<noteq> 0) n env pc s })
      = apply_long Div (a, x, sint y, n) env pc s"
    "(do { (_, s) \<leftarrow> DoLongRemainder env a x y s; POSSIBLY_HANDLE_PENDING_EXCEPTION (exception s \<noteq> 0) n env pc s })
      = apply_long Rem (a, x, sint y, n) env pc s"
proof -
  have thrown: "(do { (_, s) \<leftarrow> map_option (\<lambda>(_, s). (False, s)) (call (Throw env DivideByZero) s);
      POSSIBLY_HANDLE_PENDING_EXCEPTION (exception s \<noteq> 0) n env pc s }) = throw_and_handle DivideByZero env pc s"
  proof (cases "call (Throw env DivideByZero) s")
    case (Some p)
    obtain r s' where p: "p = (r, s')" by (cases p)
    then show ?thesis using Some throws_call[OF t, of DivideByZero s r s'] by (simp add: throw_and_handle_def POSSIBLY_HANDLE_PENDING_EXCEPTION_def)
  qed (simp add: throw_and_handle_def)
  have stored: "(do { (_, s) \<leftarrow> map_option (\<lambda>f. (True, s\<lparr>frame := f\<rparr>)) m;
      POSSIBLY_HANDLE_PENDING_EXCEPTION (exception s \<noteq> 0) n env pc s }) = (do { f \<leftarrow> m; Some (Continue (Next_units n (s\<lparr>frame := f\<rparr>))) })" for m
    using e by (cases m) (auto simp: POSSIBLY_HANDLE_PENDING_EXCEPTION_def)
  show "(do { (_, s) \<leftarrow> DoLongDivide env a x y s; POSSIBLY_HANDLE_PENDING_EXCEPTION (exception s \<noteq> 0) n env pc s })
      = apply_long Div (a, x, sint y, n) env pc s"
    "(do { (_, s) \<leftarrow> DoLongRemainder env a x y s; POSSIBLY_HANDLE_PENDING_EXCEPTION (exception s \<noteq> 0) n env pc s })
      = apply_long Rem (a, x, sint y, n) env pc s"
    unfolding divide_eqs
    by (cases "y = 0"; simp only: if_True if_False thrown stored; simp add: apply_long_def binop_java sint_eq_0)+
qed

lemma divide_long_case:
  assumes "throws env" "exception s = 0"
  shows "checked_pending 2 (with_operands GetVRegLong a23x b23x c23x DoLongDivide) env pc s = long_case F23x Div env pc s"
    "checked_pending 2 (with_operands GetVRegLong a23x b23x c23x DoLongRemainder) env pc s = long_case F23x Rem env pc s"
    "checked_pending 1 (with_operands GetVRegLong a12x a12x b12x DoLongDivide) env pc s = long_case F12x Div env pc s"
    "checked_pending 1 (with_operands GetVRegLong a12x a12x b12x DoLongRemainder) env pc s = long_case F12x Rem env pc s"
  by (simp_all add: checked_pending_def with_operands_def long_case_def long_operands_def divide_long[OF assms] Option.bind_map_option comp_def)

definition implements_long :: "'h handler \<Rightarrow> operand_form \<Rightarrow> binop \<Rightarrow> bool" where
  "implements_long h form op \<longleftrightarrow> (\<exists>h'. h = PREAMBLE h' \<and>
     (\<forall>env pc s. throws env \<longrightarrow> exception s = 0 \<longrightarrow> h' env pc s = long_case form op env pc s))"

lemma implements_longI: "implements_long (PREAMBLE (long_case form op)) form op"
  by (auto simp: implements_long_def)

lemma implements_long_divide:
  "implements_long (PREAMBLE (checked_pending 2 (with_operands GetVRegLong a23x b23x c23x DoLongDivide))) F23x Div"
  "implements_long (PREAMBLE (checked_pending 2 (with_operands GetVRegLong a23x b23x c23x DoLongRemainder))) F23x Rem"
  "implements_long (PREAMBLE (checked_pending 1 (with_operands GetVRegLong a12x a12x b12x DoLongDivide))) F12x Div"
  "implements_long (PREAMBLE (checked_pending 1 (with_operands GetVRegLong a12x a12x b12x DoLongRemainder))) F12x Rem"
  unfolding implements_long_def using divide_long_case by blast+

lemma long_tables:
  "list_all2 (\<lambda>(c, h) (c', form, op). c = c' \<and> implements_long h form op) (long_cases @ long_2addr_cases) long_instructions"
proof -
  note c = compute_long[of Add, OF _ binop_java(1)] compute_long[of Sub, OF _ binop_java(2)] compute_long[of Mul, OF _ binop_java(3)]
    compute_long[of And, OF _ binop_java(4)] compute_long[of Or, OF _ binop_java(5)] compute_long[of Xor, OF _ binop_java(6)]
    shift_long[of Shl, OF _ long_shift_java(1)] shift_long[of Shr, OF _ long_shift_java(2)] shift_long[of Ushr, OF _ long_shift_java(3)]
  show ?thesis
    by (simp add: arithmetic_tables long_instructions_def c implements_longI implements_long_divide implements_long_divide[unfolded One_nat_def])
qed

lemma long_case_mem:
  assumes "(c, form, op) \<in> set long_instructions"
  shows "\<exists>h :: 'h handler. (c, h) \<in> set (instruction_cases m) \<and> implements_long h form op"
proof -
  note t = long_tables[where 'a = 'h]
  obtain i where i: "i < length long_instructions" "long_instructions ! i = (c, form, op)"
    using assms by (auto simp: in_set_conv_nth)
  obtain h :: "'h handler" where h: "(long_cases @ long_2addr_cases) ! i = (c, h)" "implements_long h form op"
    using list_all2_nthD2[OF t i(1)] i by (auto split: prod.splits)
  have "(c, h) \<in> set (long_cases @ long_2addr_cases)" 
    unfolding h(1)[symmetric] by (rule nth_mem) (use i(1) list_all2_lengthD[OF t] in simp)
  then show ?thesis using h(2) by (auto simp: instruction_cases_def)
qed

text \<open>C17: Every long instruction, with three registers or two, stores the value that the Java language defines for the
  operation, wrapped to 64 bits, and moves on by its own size; division and remainder by zero throw.\<close>

theorem long_arithmetic_java:
  assumes "(Opcode (cur env s), form, op) \<in> set long_instructions" "\<not> HasDexPcListeners (instr env) (heap s)"
    "throws env" "exception s = 0"
  shows "step env s = (let pc = GetDexPc s; s' = stop_at pc s in do {
      (a, x, y, n) \<leftarrow> long_operands form op (cur env s) (frame s);
      if op \<in> {Div, Rem} \<and> y = 0 then throw_and_handle DivideByZero env pc s'
      else do {
        f \<leftarrow> SetVRegLong (frame s') a (word_of_int (java_binop 64 op (sint x) y));
        Some (Continue (Next_units n (s'\<lparr>frame := f\<rparr>)))
      }
    })"
proof -
  obtain h where h: "(Opcode (cur env s), PREAMBLE h) \<in> set (instruction_cases (fp env))"
    "\<And>pc s. exception s = 0 \<Longrightarrow> h env pc s = long_case form op env pc s"
    using long_case_mem[OF assms(1), of "fp env"] assms(3) by (auto simp: implements_long_def)
  show ?thesis unfolding step_quiet[OF h(1) assms(2)]
    by (cases form; simp add: h(2) assms(4) long_case_def apply_long_def Let_def long_operands_def)
qed

theorem long_arithmetic_java_witness:
  "let env = quiet_env [0x009e]; s = \<lparr>frame = ShadowFrame_new 2 0 0, result_register = 0, inst = 0, exception = 0, heap = no_heap\<rparr>
   in (Opcode (cur env s), F23x, Div) \<in> set long_instructions \<and> \<not> HasDexPcListeners (instr env) (heap s) \<and> throws env \<and> exception s = 0
      \<and> step env s = throw_and_handle DivideByZero env 0 (stop_at 0 s)"
proof -
  define env :: "unit env" where "env = quiet_env [0x009e]"
  define s :: "unit istate" where "s = \<lparr>frame = ShadowFrame_new 2 0 0, result_register = 0, inst = 0, exception = 0, heap = no_heap\<rparr>"
  have i: "cur env s 0 = 0x009e" "cur env s 1 = 0" by (simp_all add: env_def s_def cur_def RelativeAt_def quiet_env_def)
  have o1: "Opcode (cur env s) = DIV_LONG" using i by (simp add: Opcode_def Fetch16_def)
  have ops: "long_operands F23x Div (cur env s) (frame s) = Some (0, 0, 0, 2)"
    using i by (simp add: long_operands_def VRegA_23x_def VRegB_23x_def VRegC_23x_def InstAA_def Fetch16_def s_def ShadowFrame_new_def frame_defs)
  have c: "(Opcode (cur env s), F23x, Div) \<in> set long_instructions" unfolding o1 by (simp add: long_instructions_def)
  have q: "\<not> HasDexPcListeners (instr env) (heap s)" "throws env" "exception s = 0"
    by (simp_all add: env_def s_def quiet_env_def quiet_instrumentation_def throws_def)
  have "step env s = throw_and_handle DivideByZero env 0 (stop_at 0 s)"
    unfolding long_arithmetic_java[OF c q] using ops by (simp add: Let_def GetDexPc_def s_def)
  then show ?thesis using c q by (simp add: env_def s_def Let_def)
qed

end
