(* ===== verification/Interpreter_Flow.thy ===== *)
theory Interpreter_Flow
  imports Interpreter_Arithmetic
begin

text \<open>
  The control flow of the switch interpreter: how far an instruction moves on, where a branch and a switch go, and what a
  return does.
\<close>

section \<open>How far an instruction moves on\<close>

lemma unit_list_pos: "i < length unit_list \<Longrightarrow> unit_list ! i \<noteq> Some 0"
proof -
  have "Some 0 \<notin> set unit_list" by (simp add: unit_list_def)
  then show "i < length unit_list \<Longrightarrow> unit_list ! i \<noteq> Some 0" by (metis nth_mem)
qed

lemma units_pos: "units c \<noteq> Some 0"
proof -
  have "length unit_list = 256" by (simp add: unit_list_def)
  then show ?thesis using unit_list_pos[of "unat c"] unsigned_less[of c] by (simp add: units_nth)
qed

text \<open>The data of switches and of arrays stands between the instructions; it starts with a \<open>nop\<close> that has a signature.\<close>

definition data_table :: "Instruction \<Rightarrow> bool" where
  "data_table i \<longleftrightarrow> i 0 \<in> {kPackedSwitchSignature, kSparseSwitchSignature, kArrayDataSignature}"

lemma SizeInCodeUnits_units:
  assumes "units (Opcode i) = Some n" "\<not> data_table i"
  shows "SizeInCodeUnits i = Some n"
proof (cases "Opcode i = NOP")
  case True
  have "(ucast (ucast (i 0 AND 0xff) :: u8) :: u16) = i 0 AND 0xff" by (rule bit_word_eqI) (auto simp: bit_simps and_ff_take_bit)
  then have "i 0 AND 0xff = 0" using True by (simp add: Opcode_def Fetch16_def)
  moreover have "n = 1" using assms(1) True by (simp add: units_nth unit_list_def)
  moreover have "InstructionSizeInCodeUnitsByOpcode 0 (FormatOf 0) = -1" by code_simp
  ultimately show ?thesis using True assms(2) by (simp add: SizeInCodeUnits_def SizeInCodeUnitsComplexOpcode_def data_table_def)
next
  case False
  have "n \<noteq> 0" using assms(1) units_pos by metis
  moreover have "n = nat (InstructionSizeInCodeUnitsByOpcode (Opcode i) (FormatOf (Opcode i)))"
    using assms(1) False by (simp add: units_def split: if_splits)
  ultimately show ?thesis by (simp add: SizeInCodeUnits_def Let_def)
qed

lemma ends_keep:
  assumes "c \<in> {RETURN_VOID, RETURN, RETURN_WIDE, RETURN_OBJECT, RETURN_VOID_NO_BARRIER, THROW}"
  shows "\<exists>h :: 'h handler. (c, h) \<in> set (instruction_cases m) \<and> (\<forall>u. shape.keeps n k u h)"
proof -
  have r: "\<forall>(c, h :: 'h handler) \<in> set return_cases. \<forall>u. shape.keeps n k u h"
    by (simp only: return_cases_def ball_cases)
      (intro conjI allI TrueI shape.PREAMBLE_keeps shape.return_handler_keeps shape.return_object_keeps)
  have t: "(THROW, PREAMBLE throw :: 'h handler) \<in> set object_cases" by (simp add: object_cases_def)
  have k: "shape.keeps n k u (PREAMBLE throw :: 'h handler)" for u by (intro shape.PREAMBLE_keeps shape.object_keeps)
  show ?thesis
  proof (cases "c = THROW")
    case True
    then show ?thesis using t k by (intro exI[of _ "PREAMBLE throw"]) (simp add: instruction_cases_def)
  next
    case False
    then have "c \<in> fst ` set (return_cases :: (Code \<times> 'h handler) list)" using assms by (simp add: return_cases_def) blast
    then obtain h :: "'h handler" where h: "(c, h) \<in> set return_cases" by force
    then show ?thesis using bspec[OF r h] by (intro exI[of _ h]) (simp add: instruction_cases_def)
  qed
qed

lemma return_codes: "FlagsOf c AND kReturn \<noteq> 0 \<Longrightarrow> c \<in> {RETURN_VOID, RETURN, RETURN_WIDE, RETURN_OBJECT, RETURN_VOID_NO_BARRIER}"
proof -
  have "\<forall>c \<in> set (map of_nat [0..<256]). FlagsOf c AND kReturn \<noteq> 0 \<longrightarrow>
      c \<in> set [RETURN_VOID, RETURN, RETURN_WIDE, RETURN_OBJECT, RETURN_VOID_NO_BARRIER]" by code_simp
  moreover have "c \<in> set (map of_nat [0..<256])"
    using unsigned_less[of c] by (auto intro!: image_eqI[of _ _ "unat c"])
  ultimately show "FlagsOf c AND kReturn \<noteq> 0 \<Longrightarrow> ?thesis" by auto
qed

lemma step_next:
  assumes "frame_ok (frame s)" "step env s = Some (Continue s')" "units (Opcode (cur env s)) = Some n"
  shows "inst s' = inst s + int n \<or> caught_at env (inst s) (inst s')"
proof -
  have "holds (shape.kept (number_of_vregs (frame s)) (sf_method (frame s)) env (inst s) (units (Opcode (cur env s)))) (step env s)"
    using assms(1) by (intro shape.step_keeps) (simp add: frame_shape_def)
  then show ?thesis using assms(2,3) by (simp add: holds_def shape.kept_def)
qed

lemma step_ends:
  fixes env :: "'h env"
  assumes "frame_ok (frame s)" "step env s = Some (Continue s')" "IsReturn (cur env s) \<or> Opcode (cur env s) = THROW"
  shows "caught_at env (inst s) (inst s')"
proof -
  let ?n = "number_of_vregs (frame s)" and ?m = "sf_method (frame s)" and ?pc = "GetDexPc s"
  have "Opcode (cur env s) \<in> {RETURN_VOID, RETURN, RETURN_WIDE, RETURN_OBJECT, RETURN_VOID_NO_BARRIER, THROW}"
    using assms(3) return_codes by (auto simp: IsReturn_def)
  from ends_keep[OF this, of "fp env" ?n ?m] obtain h :: "'h handler" where
    h: "(Opcode (cur env s), h) \<in> set (instruction_cases (fp env))" "\<And>u. shape.keeps ?n ?m u h" by blast
  have "h env ?pc (stop_at ?pc s) = Some (Continue s')" using step_case[OF h(1)] assms(2) by simp
  moreover have "shape.at ?n ?m (inst s) (stop_at ?pc s)" using assms(1) by (simp add: frame_shape_def)
  then have "holds (shape.kept ?n ?m env (inst s) (Some k)) (h env ?pc (stop_at ?pc s))" for k
    using h(2)[of "Some k"] unfolding shape.keeps_def GetDexPc_def by blast
  ultimately have "inst s' = inst s + int k \<or> ?thesis" for k by (simp add: holds_def shape.kept_def)
  from this[of 0] this[of 1] show ?thesis by auto
qed

text \<open>C15: An instruction that is neither a branch nor a switch moves on by exactly the size that the instruction table gives it,
  unless it throws an exception that the method catches, and then it goes on at the address that \<open>FindCatchBlock\<close> gives for
  the instruction.  A return or a throw goes on only at such an address.\<close>

theorem step_moves_on:
  assumes "frame_ok (frame s)" "step env s = Some (Continue s')" "\<not> IsBranch (cur env s)" "\<not> IsSwitch (cur env s)"
    "\<not> data_table (cur env s)" "\<not> caught_at env (inst s) (inst s')"
  shows "SizeInCodeUnits (cur env s) = Some (nat (inst s' - inst s)) \<and> inst s < inst s'
    \<and> \<not> IsReturn (cur env s) \<and> Opcode (cur env s) \<noteq> THROW"
proof -
  have "FlagsOf (Opcode (cur env s)) AND (kBranch OR kSwitch) = 0"
    using assms(3,4) by (simp only: IsBranch_def IsSwitch_def bit.conj_disj_distrib not_not) simp
  then obtain n where n: "units (Opcode (cur env s)) = Some n" by (simp add: units_def)
  then have "inst s' = inst s + int n" using step_next[OF assms(1,2) n] assms(6) by blast
  moreover have "n \<noteq> 0" using n units_pos by metis
  ultimately show ?thesis using SizeInCodeUnits_units[OF n assms(5)] step_ends[OF assms(1,2)] assms(6) by auto
qed

lemma step_const_witness:
  "case step (quiet_env [0x0113, 7]) \<lparr>frame = ShadowFrame_new 2 0 0, result_register = 0, inst = 0, exception = 0, heap = no_heap\<rparr>
   of Some (Continue s) \<Rightarrow> inst s = 2 \<and> vregs (frame s) = [0, 7, 0, 0] | _ \<Rightarrow> False"
  by code_simp

theorem step_moves_on_witness:
  "let env = quiet_env [0x0113, 7]; s = \<lparr>frame = ShadowFrame_new 2 0 0, result_register = 0, inst = 0, exception = 0, heap = no_heap\<rparr>
   in frame_ok (frame s) \<and> SizeInCodeUnits (cur env s) = Some 2
      \<and> (\<exists>s'. step env s = Some (Continue s') \<and> inst s' = 2)"
proof -
  define env :: "unit env" where "env = quiet_env [0x0113, 7]"
  define s :: "unit istate" where "s = \<lparr>frame = ShadowFrame_new 2 0 0, result_register = 0, inst = 0, exception = 0, heap = no_heap\<rparr>"
  have i: "cur env s 0 = 0x0113" by (simp add: env_def s_def cur_def RelativeAt_def quiet_env_def)
  then have o1: "Opcode (cur env s) = CONST_16" by (simp add: Opcode_def Fetch16_def)
  have "FlagsOf CONST_16 AND kBranch = 0" "FlagsOf CONST_16 AND kSwitch = 0" by code_simp+
  then have f: "\<not> IsBranch (cur env s)" "\<not> IsSwitch (cur env s)" by (simp_all add: IsBranch_def IsSwitch_def o1)
  have k: "frame_ok (frame s)" by (simp add: s_def frame_ok_new)
  have n: "\<not> caught_at env p q" for p q by (simp add: caught_at_def env_def quiet_env_def quiet_linker_def quiet_def)
  obtain s' where r: "step env s = Some (Continue s')" "inst s' = 2"
    using step_const_witness unfolding env_def s_def by (auto split: option.splits outcome.splits)
  have "SizeInCodeUnits (cur env s) = Some (nat (inst s' - inst s))"
    using step_moves_on[OF k r(1) f _ n] i by (simp add: data_table_def kPackedSwitchSignature_def kSparseSwitchSignature_def kArrayDataSignature_def)
  then show ?thesis using k r unfolding Let_def env_def s_def by (auto simp: s_def)
qed

section \<open>Switches\<close>

text \<open>The table that a payload stands for, and the offset it gives: execution continues after the instruction, which has
  3 units, if no case matches.\<close>

definition packed_table :: "Instruction \<Rightarrow> (u32 \<times> u32) list" where
  "packed_table p = map (\<lambda>i. (Fetch32 p 2 + of_nat i, Fetch32 p (4 + 2 * i))) [0..<unat (p 1)]"

definition sparse_table :: "Instruction \<Rightarrow> (u32 \<times> u32) list" where
  "sparse_table p = map (\<lambda>i. (Fetch32 p (2 + 2 * i), Fetch32 p (2 + 2 * unat (p 1) + 2 * i))) [0..<unat (p 1)]"

definition switch_target :: "(u32 \<times> u32) list \<Rightarrow> u32 \<Rightarrow> u32" where
  "switch_target table v = (case map_of table v of Some offset \<Rightarrow> offset | None \<Rightarrow> 3)"

lemma map_of_index_Some:
  assumes "inj_on keys {..<n}" "i < n"
  shows "map_of (map (\<lambda>i. (keys i, entries i)) [0..<n]) (keys i) = Some (entries i)"
proof (rule map_of_is_SomeI)
  show "distinct (map fst (map (\<lambda>i. (keys i, entries i)) [0..<n]))"
    using assms(1) by (simp add: o_def distinct_map inj_on_def)
qed (use assms(2) in auto)

lemma map_of_index_None: "(\<And>i. i < n \<Longrightarrow> keys i \<noteq> v) \<Longrightarrow> map_of (map (\<lambda>i. (keys i, entries i)) [0..<n]) v = None"
  unfolding map_of_eq_None_iff by fastforce

lemma small_index:
  assumes "i < unat (n :: u16)"
  shows "unat (of_nat i :: u32) = i" "sint (of_nat i :: u32) = int i"
proof -
  have "i < 2 ^ 16" using assms unsigned_less[where ?'a=nat, of n] by simp
  then show u: "unat (of_nat i :: u32) = i" by (simp add: unat_of_nat take_bit_nat_def)
  have "sint (of_nat i :: u32) = signed_take_bit 31 (int (unat (of_nat i :: u32)))" by (simp add: sint_uint)
  then show "sint (of_nat i :: u32) = int i" using \<open>i < 2 ^ 16\<close> unfolding u by (simp add: signed_take_bit_int_eq_self)
qed

lemma packed_index: "(0 \<le> sint x \<and> sint x < uint (n :: u16)) = (\<exists>i < unat n. (x :: u32) = of_nat i)"
proof
  assume l: "0 \<le> sint x \<and> sint x < uint n"
  then have "x = of_nat (nat (sint x))" by (simp only: of_nat_nat of_int_sint scast_id)
  moreover have "nat (sint x) < unat n" using l by (simp add: nat_less_iff)
  ultimately show "\<exists>i < unat n. x = of_nat i" by blast
next
  assume "\<exists>i < unat n. x = of_nat i"
  then obtain i where i: "i < unat n" "x = of_nat i" by blast
  then show "0 \<le> sint x \<and> sint x < uint n" using small_index(2)[OF i(1)] by simp (metis of_nat_less_iff uint_nat)
qed

lemma DoPackedSwitch_table: "DoPackedSwitch p v = switch_target (packed_table p) v"
proof -
  define k where "k = Fetch32 p 2"
  have inj: "inj_on (\<lambda>i. k + of_nat i) {..<unat (p 1)}"
  proof (rule inj_onI)
    fix i j
    assume "i \<in> {..<unat (p 1)}" "j \<in> {..<unat (p 1)}" "k + of_nat i = k + of_nat j"
    then show "i = j" using small_index(1)[of i "p 1"] small_index(1)[of j "p 1"] by (metis add_left_cancel lessThan_iff)
  qed
  have t: "packed_table p = map (\<lambda>i. (k + of_nat i, Fetch32 p (4 + 2 * i))) [0..<unat (p 1)]" by (simp add: packed_table_def k_def)
  have d: "DoPackedSwitch p v = (if \<exists>i < unat (p 1). v - k = of_nat i then Fetch32 p (4 + 2 * nat (sint (v - k))) else 3)"
  proof (cases "p 1 = 0")
    case False
    then show ?thesis unfolding DoPackedSwitch_def Let_def k_def packed_index by (simp only: if_False)
  qed (simp add: DoPackedSwitch_def)
  show ?thesis
  proof (cases "\<exists>i < unat (p 1). v - k = of_nat i")
    case True
    then obtain i where i: "i < unat (p 1)" "v - k = of_nat i" by blast
    then have v: "v = k + of_nat i" by (metis add.commute diff_add_cancel)
    have "DoPackedSwitch p v = Fetch32 p (4 + 2 * i)" using d True i(2) small_index(2)[OF i(1)] by simp
    moreover have "map_of (packed_table p) v = Some (Fetch32 p (4 + 2 * i))"
      unfolding t v by (rule map_of_index_Some[OF inj i(1)])
    ultimately show ?thesis by (simp add: switch_target_def)
  next
    case False
    have "k + of_nat i \<noteq> v" if "i < unat (p 1)" for i
      using False that by (metis add_diff_cancel_left')
    then have "map_of (packed_table p) v = None" unfolding t by (rule map_of_index_None)
    then show ?thesis using d[unfolded if_not_P[OF False]] by (simp add: switch_target_def)
  qed
qed

lemma SparseSwitch_loop_found:
  assumes "0 \<le> lo" "hi < int n" "\<And>i j. i < j \<Longrightarrow> j < n \<Longrightarrow> sint (keys i) < sint (keys j)" "i < n" "keys i = v" "lo \<le> int i" "int i \<le> hi"
  shows "SparseSwitch_loop keys entries v lo hi = entries i"
  using assms
proof (induction keys entries v lo hi rule: SparseSwitch_loop.induct)
  case (1 keys entries v lo hi)
  define m where "m = nat ((lo + hi) div 2)"
  have m: "(lo + hi) div 2 = int m" "lo \<le> int m" "int m \<le> hi" "m < n" using 1(3,4,8,9) by (auto simp: m_def)
  have mono: "sint (keys a) < sint (keys b) \<longleftrightarrow> a < b" if "a < n" "b < n" for a b
    using 1(5)[of a b] 1(5)[of b a] that by (metis less_asym linorder_neqE_nat order_less_irrefl)
  have "lo \<le> hi" using 1(8,9) by simp
  note l = SparseSwitch_loop.simps[of keys entries v lo hi] and IH = 1(1,2)[OF \<open>lo \<le> hi\<close> m(1)[symmetric] refl]
  consider "i < m" | "i = m" | "m < i" by linarith
  then show ?case
  proof cases
    assume i: "i < m"
    then have "sint v < sint (keys m)" using mono[of i m] 1(6,7) m by simp
    moreover have "SparseSwitch_loop keys entries v lo (int m - 1) = entries i"
      using IH(1) calculation 1(3-9) m i by simp
    ultimately show ?thesis using l \<open>lo \<le> hi\<close> m by (simp add: Let_def)
  next
    assume i: "m < i"
    then have "sint (keys m) < sint v" using mono[of m i] 1(6,7) m by simp
    moreover have "SparseSwitch_loop keys entries v (int m + 1) hi = entries i"
      using IH(2) calculation 1(3-9) m i by simp
    ultimately show ?thesis using l \<open>lo \<le> hi\<close> m by (simp add: Let_def)
  qed (use l m 1(7) \<open>lo \<le> hi\<close> in \<open>simp add: Let_def\<close>)
qed

lemma SparseSwitch_loop_missing:
  assumes "0 \<le> lo" "hi < int n" "\<And>i. i < n \<Longrightarrow> keys i \<noteq> v"
  shows "SparseSwitch_loop keys entries v lo hi = 3"
  using assms
proof (induction keys entries v lo hi rule: SparseSwitch_loop.induct)
  case (1 keys entries v lo hi)
  note l = SparseSwitch_loop.simps[of keys entries v lo hi]
  show ?case
  proof (cases "lo \<le> hi")
    case True
    define m where "m = nat ((lo + hi) div 2)"
    have m: "(lo + hi) div 2 = int m" "m < n" using 1(3,4) True by (auto simp: m_def)
    have "sint v \<noteq> sint (keys m)" using 1(5)[OF m(2)] by (metis signed_word_eqI)
    moreover note IH = 1(1,2)[OF True m(1)[symmetric] refl]
    ultimately show ?thesis using l True m IH 1(3-5) by (auto simp: Let_def)
  qed (use l in simp)
qed

lemma DoSparseSwitch_table:
  assumes "sorted_wrt (\<lambda>x y. sint x < sint y) (map fst (sparse_table p))"
  shows "DoSparseSwitch p v = switch_target (sparse_table p) v"
proof -
  let ?n = "unat (p 1)" and ?k = "\<lambda>i. Fetch32 p (2 + 2 * i)" and ?e = "\<lambda>i. Fetch32 p (2 + 2 * unat (p 1) + 2 * i)"
  have less: "sint (?k i) < sint (?k j)" if "i < j" "j < ?n" for i j
    using assms that by (auto simp: sparse_table_def sorted_wrt_iff_nth_less)
  have inj: "inj_on ?k {..<?n}" by (rule inj_onI) (metis lessThan_iff less linorder_neqE_nat order_less_irrefl)
  have size: "uint (p 1) - 1 < int ?n" "int ?n = uint (p 1)" by simp_all
  have z: "p 1 = 0 \<longleftrightarrow> ?n = 0" by (metis unat_eq_zero)
  show ?thesis
  proof (cases "\<exists>i < ?n. ?k i = v")
    case True
    then obtain i where i: "i < ?n" "?k i = v" by blast
    then have "0 \<le> int i" "int i \<le> uint (p 1) - 1" "p 1 \<noteq> 0" using size(2) z by linarith+
    then have "DoSparseSwitch p v = ?e i"
      unfolding DoSparseSwitch_def Let_def using SparseSwitch_loop_found[of 0 "uint (p 1) - 1" ?n ?k i v ?e, OF order_refl size(1) less i] by (simp only: if_False)
    moreover have "map_of (sparse_table p) v = Some (?e i)"
      unfolding sparse_table_def i(2)[symmetric] by (rule map_of_index_Some[OF inj i(1)])
    ultimately show ?thesis by (simp add: switch_target_def)
  next
    case False
    then have "map_of (sparse_table p) v = None" unfolding sparse_table_def by (intro map_of_index_None) blast
    moreover have "SparseSwitch_loop ?k ?e v 0 (uint (p 1) - 1) = 3"
      using False by (intro SparseSwitch_loop_missing[OF order_refl size(1)]) blast
    then have "DoSparseSwitch p v = 3" unfolding DoSparseSwitch_def Let_def by (simp only: if_cancel)
    ultimately show ?thesis by (simp add: switch_target_def)
  qed
qed

text \<open>C16: A switch instruction branches to the offset that its table gives for the tested value, and moves on if there is
  none: the packed form for every payload, keys that wrap around included, and the binary search of the sparse form if the
  keys are in ascending order.\<close>

theorem switch_takes_case:
  assumes "Opcode (cur env s) = PACKED_SWITCH \<and> table = packed_table (payload_of env s)
      \<or> Opcode (cur env s) = SPARSE_SWITCH \<and> table = sparse_table (payload_of env s) \<and> sorted_wrt (\<lambda>x y. sint x < sint y) (map fst table)"
    "GetVReg (frame s) (a31t (cur env s)) = Some v" "\<not> HasDexPcListeners (instr env) (heap s)"
  shows "step env s = branch_to (switch_target table v) env (GetDexPc s) (stop_at (GetDexPc s) s)"
proof -
  have p: "payload_of env (stop_at pc s) = payload_of env s" for pc by (simp add: payload_of_def)
  have q: "(PACKED_SWITCH, PREAMBLE (switch_op DoPackedSwitch)) \<in> set (instruction_cases (fp env))"
    "(SPARSE_SWITCH, PREAMBLE (switch_op DoSparseSwitch)) \<in> set (instruction_cases (fp env))"
    by (simp_all add: instruction_cases_def goto_cases_def)
  from assms(1) show ?thesis
  proof (elim disjE conjE)
    assume o: "Opcode (cur env s) = PACKED_SWITCH" and t: "table = packed_table (payload_of env s)"
    show ?thesis using step_quiet[of env s "switch_op DoPackedSwitch"] q(1) o t assms(2,3)
      by (simp add: switch_op_def p DoPackedSwitch_table)
  next
    assume o: "Opcode (cur env s) = SPARSE_SWITCH" and t: "table = sparse_table (payload_of env s)"
      and k: "sorted_wrt (\<lambda>x y. sint x < sint y) (map fst table)"
    show ?thesis using step_quiet[of env s "switch_op DoSparseSwitch"] q(2) o t assms(2,3) DoSparseSwitch_table[OF k[unfolded t]]
      by (simp add: switch_op_def p)
  qed
qed

theorem switch_takes_case_witness:
  "let env = quiet_env [0x002c, 3, 0, 0x0200, 2, 0xffff, 0xffff, 0, 0, 7, 0, 9, 0];
       s = \<lparr>frame = ShadowFrame_new 1 0 0, result_register = 0, inst = 0, exception = 0, heap = no_heap\<rparr>;
       table = sparse_table (payload_of env s)
   in sorted_wrt (\<lambda>x y. sint x < sint y) (map fst table) \<and> table = [(-1, 7), (0, 9)]
      \<and> step env s = branch_to 9 env 0 (stop_at 0 s)"
proof -
  define env :: "unit env" where "env = quiet_env [0x002c, 3, 0, 0x0200, 2, 0xffff, 0xffff, 0, 0, 7, 0, 9, 0]"
  define s :: "unit istate" where "s = \<lparr>frame = ShadowFrame_new 1 0 0, result_register = 0, inst = 0, exception = 0, heap = no_heap\<rparr>"
  define table where "table = sparse_table (payload_of env s)"
  have t: "table = [(-1, 7), (0, 9)]" unfolding table_def env_def s_def by code_simp
  have o: "Opcode (cur env s) = SPARSE_SWITCH" "GetVReg (frame s) (a31t (cur env s)) = Some 0" unfolding env_def s_def by code_simp+
  have k: "sorted_wrt (\<lambda>x y. sint x < sint y) (map fst table)" unfolding t by simp
  have q: "\<not> HasDexPcListeners (instr env) (heap s)" by (simp add: env_def quiet_env_def quiet_instrumentation_def)
  have "GetDexPc s = 0" by (simp add: s_def GetDexPc_def)
  moreover have "switch_target table 0 = 9" by (simp add: t switch_target_def)
  ultimately have "step env s = branch_to 9 env 0 (stop_at 0 s)"
    using switch_takes_case[OF _ o(2) q, of table] o(1) k table_def by simp
  then show ?thesis using k t unfolding table_def env_def s_def Let_def by blast
qed

end
