(* ===== verification/Interpreter_Arrays.thy ===== *)
theory Interpreter_Arrays
  imports Interpreter_Flow
begin

text \<open>
  The array instructions of the interpreter: what a load and a store do to an array that is seen as the Java language sees it,
  and what the raw copy behind \<open>fill-array-data\<close> does where the payload has the width of the elements.
\<close>

section \<open>Arrays as the Java language sees them\<close>

definition element_type :: "array_data \<Rightarrow> PrimitiveType" where
  "element_type d = (case d of BooleanArray _ \<Rightarrow> kPrimBoolean | ByteArray _ \<Rightarrow> kPrimByte | CharArray _ \<Rightarrow> kPrimChar
     | ShortArray _ \<Rightarrow> kPrimShort | IntArray _ \<Rightarrow> kPrimInt | LongArray _ \<Rightarrow> kPrimLong | ObjectArray _ \<Rightarrow> kPrimNot)"

text \<open>The value of an element; a reference is its address.\<close>

definition element :: "array_data \<Rightarrow> nat \<Rightarrow> int" where
  "element d i = (case d of BooleanArray xs \<Rightarrow> uint (xs ! i) | ByteArray xs \<Rightarrow> sint (xs ! i) | CharArray xs \<Rightarrow> uint (xs ! i)
     | ShortArray xs \<Rightarrow> sint (xs ! i) | IntArray xs \<Rightarrow> sint (xs ! i) | LongArray xs \<Rightarrow> sint (xs ! i) | ObjectArray xs \<Rightarrow> uint (xs ! i))"

text \<open>A value stored in an element keeps the bits that the type of the element has.\<close>

definition narrow :: "PrimitiveType \<Rightarrow> int \<Rightarrow> int" where
  "narrow t x = (case t of kPrimBoolean \<Rightarrow> take_bit 8 x | kPrimByte \<Rightarrow> signed_take_bit 7 x | kPrimChar \<Rightarrow> take_bit 16 x
     | kPrimShort \<Rightarrow> signed_take_bit 15 x | _ \<Rightarrow> x)"

text \<open>The value of a register that is read at a type.\<close>

definition reg_value :: "PrimitiveType \<Rightarrow> ShadowFrame \<Rightarrow> nat \<Rightarrow> int option" where
  "reg_value t f r = (if t = kPrimLong then if r + 1 < number_of_vregs f then map_option sint (GetVRegLong f r) else None
     else if t = kPrimNot then map_option uint (GetVRegReference f r) else map_option sint (GetVReg f r))"

text \<open>The instructions that access an array of each kind.\<close>

definition aget_code :: "array_data \<Rightarrow> Code" where
  "aget_code d = (case d of BooleanArray _ \<Rightarrow> AGET_BOOLEAN | ByteArray _ \<Rightarrow> AGET_BYTE | CharArray _ \<Rightarrow> AGET_CHAR
     | ShortArray _ \<Rightarrow> AGET_SHORT | IntArray _ \<Rightarrow> AGET | LongArray _ \<Rightarrow> AGET_WIDE | ObjectArray _ \<Rightarrow> AGET_OBJECT)"

definition aput_code :: "array_data \<Rightarrow> Code" where
  "aput_code d = (case d of BooleanArray _ \<Rightarrow> APUT_BOOLEAN | ByteArray _ \<Rightarrow> APUT_BYTE | CharArray _ \<Rightarrow> APUT_CHAR
     | ShortArray _ \<Rightarrow> APUT_SHORT | IntArray _ \<Rightarrow> APUT | LongArray _ \<Rightarrow> APUT_WIDE | ObjectArray _ \<Rightarrow> APUT_OBJECT)"

section \<open>Loads\<close>

lemma stop_at_frame [simp]: "frame_ok (frame (stop_at pc s)) = frame_ok (frame s)"
    "number_of_vregs (frame (stop_at pc s)) = number_of_vregs (frame s)" "GetVReg (frame (stop_at pc s)) = GetVReg (frame s)"
    "GetVRegReference (frame (stop_at pc s)) = GetVRegReference (frame s)" "GetVRegLong (frame (stop_at pc s)) = GetVRegLong (frame s)"
    "(stop_at pc s)\<lparr>frame := f\<rparr> = s\<lparr>frame := f\<rparr>"
  by (simp_all add: stop_at_def)

text \<open>A load or a store that fails its checks throws.\<close>

definition access_throws :: "ref \<Rightarrow> nat \<Rightarrow> u32 \<Rightarrow> Thrown option" where
  "access_throws a len index =
     (if a = 0 then Some NullPointer else if len \<le> unat index then Some (ArrayIndexOutOfBounds index len) else None)"

lemma sint_conversions:
  "sint (ucast (x::u8) :: u32) = uint x" "sint (ucast (y::u16) :: u32) = uint y"
  "sint (scast (x::u8) :: u32) = sint x" "sint (scast (y::u16) :: u32) = sint y"
proof -
  have "uint x < 2 ^ 8" "uint y < 2 ^ 16" "- (2 ^ 31) \<le> uint x" "- (2 ^ 31) \<le> uint y"
    using uint_lt2p[of x] uint_lt2p[of y] order_trans[OF _ uint_ge_0[of x]] order_trans[OF _ uint_ge_0[of y]] by simp_all
  then show "sint (ucast x :: u32) = uint x" "sint (ucast y :: u32) = uint y"
    by (simp_all add: sint_uint unsigned_ucast_eq signed_take_bit_int_eq_self take_bit_int_eq_self)
qed (simp_all add: sint_up_scast is_up)

lemmas array_views = element_type_def element_def GetLength_def aget_code_def aput_code_def AsBooleanArray_def AsByteArray_def
  AsCharArray_def AsShortArray_def AsIntArray_def AsLongArray_def AsObjectArray_def

context vreg_access
begin

lemma aget_loads:
  fixes env :: "'h env"
  assumes c: "(Opcode (cur env s), PREAMBLE (aget as set conv) :: 'h handler) \<in> List.set aget_cases"
    and q: "\<not> HasDexPcListeners (instr env) (heap s)" and ok: "frame_ok (frame s)"
    and r: "a23x (cur env s) + width \<le> number_of_vregs (frame s)"
    and g: "GetVRegReference (frame s) (b23x (cur env s)) = Some a" "GetVReg (frame s) (c23x (cur env s)) = Some index"
    and d: "a \<noteq> 0 \<longrightarrow> arrays (heap s) a = Some d" "as d = Some xs" "GetLength d = length xs"
    and v: "\<And>f. number_of_vregs f = number_of_vregs (frame s) \<Longrightarrow> get f (a23x (cur env s)) = Some (conv (xs ! unat index)) \<Longrightarrow>
      reg_value t f (a23x (cur env s)) = Some (element d (unat index))"
  shows "case access_throws a (GetLength d) index of
      Some x \<Rightarrow> step env s = throw_and_handle x env (GetDexPc s) (stop_at (GetDexPc s) s)
    | None \<Rightarrow> \<exists>f. step env s = Some (Continue (Next_units 2 (s\<lparr>frame := f\<rparr>))) \<and> frame_ok f
        \<and> reg_value t f (a23x (cur env s)) = Some (element d (unat index))"
proof -
  let ?pc = "GetDexPc s"
  have step: "step env s = aget as set conv env ?pc (stop_at ?pc s)"
    using c q by (intro step_quiet) (simp_all add: instruction_cases_def)
  obtain f where f: "set (frame (stop_at ?pc s)) (a23x (cur env s)) (conv (xs ! unat index)) = Some f"
    using set_in_range[of "frame (stop_at ?pc s)"] ok r by fastforce
  then have "frame_ok f" "reg_value t f (a23x (cur env s)) = Some (element d (unat index))"
    using set_ok[of "frame (stop_at ?pc s)"] get_set[of "frame (stop_at ?pc s)"] ok v by fastforce+
  then show ?thesis
    using g d f by (cases "call (Throw env (ArrayIndexOutOfBounds index (length xs))) (stop_at ?pc s)")
      (auto simp: step aget_def access_throws_def CheckIsValidIndex_def on_frame_def throw_and_handle_def elements_of_def)
qed

end

text \<open>C18: An array load with a null array or an index out of range throws the exception Java prescribes, negative
  indices included; otherwise it leaves the element, extended as its type demands, in the destination register and moves on.\<close>

theorem array_load:
  fixes env :: "'h env"
  assumes "Opcode (cur env s) = aget_code d" "frame_ok (frame s)" "\<not> HasDexPcListeners (instr env) (heap s)"
    "GetVRegReference (frame s) (b23x (cur env s)) = Some a" "GetVReg (frame s) (c23x (cur env s)) = Some index"
    "reg_value (element_type d) (frame s) (a23x (cur env s)) \<noteq> None" "a \<noteq> 0 \<longrightarrow> arrays (heap s) a = Some d"
  shows "case access_throws a (GetLength d) index of
      Some x \<Rightarrow> step env s = throw_and_handle x env (GetDexPc s) (stop_at (GetDexPc s) s)
    | None \<Rightarrow> \<exists>f. step env s = Some (Continue (Next_units 2 (s\<lparr>frame := f\<rparr>))) \<and> frame_ok f
        \<and> reg_value (element_type d) f (a23x (cur env s)) = Some (element d (unat index))"
proof -
  have r: "a23x (cur env s) + (if element_type d = kPrimLong then 2 else 1) \<le> number_of_vregs (frame s)"
    using assms(2,6) by (auto simp: reg_value_def get_eqs split: if_splits)
  note int = int_reg.aget_loads[OF _ assms(3,2) _ assms(4,5,7)] and long = long_reg.aget_loads[OF _ assms(3,2) _ assms(4,5,7)]
    and reference = reference_reg.aget_loads[OF _ assms(3,2) _ assms(4,5,7)]
  note simps = array_views aget_cases_def assms(1) reg_value_def sint_conversions
  show ?thesis
  proof (cases d)
    case (BooleanArray xs)
    then show ?thesis using r by (intro int[of AsBooleanArray ucast]) (auto simp: simps)
  next
    case (ByteArray xs)
    then show ?thesis using r by (intro int[of AsByteArray scast]) (auto simp: simps)
  next
    case (CharArray xs)
    then show ?thesis using r by (intro int[of AsCharArray ucast]) (auto simp: simps)
  next
    case (ShortArray xs)
    then show ?thesis using r by (intro int[of AsShortArray scast]) (auto simp: simps)
  next
    case (IntArray xs)
    then show ?thesis using r by (intro int[of AsIntArray id]) (auto simp: simps)
  next
    case (LongArray xs)
    then show ?thesis using r by (intro long[of AsLongArray id]) (auto simp: simps)
  next
    case (ObjectArray xs)
    then show ?thesis using r by (intro reference[of AsObjectArray id]) (auto simp: simps)
  qed
qed

section \<open>Stores\<close>

lemma narrow_conversions:
  "uint (ucast (v::u32) :: u8) = take_bit 8 (sint v)" "uint (ucast v :: u16) = take_bit 16 (sint v)"
  "sint (ucast v :: u8) = signed_take_bit 7 (sint v)" "sint (ucast v :: u16) = signed_take_bit 15 (sint v)"
proof -
  have t: "take_bit k (sint v) = take_bit k (uint v)" if "k \<le> 31" for k
    using that by (simp add: sint_uint take_bit_signed_take_bit)
  then show "uint (ucast v :: u8) = take_bit 8 (sint v)" "uint (ucast v :: u16) = take_bit 16 (sint v)"
    by (simp_all add: unsigned_ucast_eq)
  have "signed_take_bit k (sint v) = signed_take_bit k (uint v)" if "k < 31" for k
    using t[of "Suc k"] that by (simp flip: signed_take_bit_eq_iff_take_bit_eq)
  then show "sint (ucast v :: u8) = signed_take_bit 7 (sint v)" "sint (ucast v :: u16) = signed_take_bit 15 (sint v)"
    by (simp_all add: sint_uint unsigned_ucast_eq signed_take_bit_take_bit)
qed

text \<open>Whether a reference may be stored in an array of objects.\<close>

definition assignable :: "'h env \<Rightarrow> 'h mem \<Rightarrow> ref \<Rightarrow> ref \<Rightarrow> bool" where
  "assignable env h a val \<longleftrightarrow> val = 0
     \<or> (case GetComponentType (lnk env) h (GetClass (lnk env) h a) of None \<Rightarrow> False | Some (c, _) \<Rightarrow> InstanceOf (lnk env) h val c)"

definition store_throws :: "'h env \<Rightarrow> 'h mem \<Rightarrow> array_data \<Rightarrow> ref \<Rightarrow> u32 \<Rightarrow> int \<Rightarrow> Thrown option" where
  "store_throws env h d a index v =
     (case access_throws a (GetLength d) index of
        Some x \<Rightarrow> Some x
      | None \<Rightarrow> if element_type d = kPrimNot \<and> \<not> assignable env h a (word_of_int v) then Some (ArrayStore a (word_of_int v)) else None)"

text \<open>The array after a store.\<close>

definition stored :: "array_data \<Rightarrow> nat \<Rightarrow> int \<Rightarrow> array_data \<Rightarrow> bool" where
  "stored d i v d' \<longleftrightarrow> element_type d' = element_type d \<and> GetLength d' = GetLength d
     \<and> (\<forall>j < GetLength d. element d' j = (if j = i then narrow (element_type d) v else element d j))"

lemma aput_stores:
  fixes env :: "'h env"
  assumes c: "(Opcode (cur env s), PREAMBLE (aput as array get conv) :: 'h handler) \<in> set aput_cases"
    and q: "\<not> HasDexPcListeners (instr env) (heap s)" and x: "\<not> transaction_active env"
    and g: "GetVRegReference (frame s) (b23x (cur env s)) = Some a" "GetVReg (frame s) (c23x (cur env s)) = Some index"
    and d: "a \<noteq> 0 \<longrightarrow> arrays (heap s) a = Some d" "as d = Some xs" "GetLength d = length xs" "element_type d \<noteq> kPrimNot"
    and val: "get (frame (stop_at (GetDexPc s) s)) (a23x (cur env s)) = Some val"
    and n: "unat index < length xs \<Longrightarrow> stored d (unat index) v (array (xs[unat index := conv val]))"
  shows "case store_throws env (heap s) d a index v of
      Some x \<Rightarrow> step env s = throw_and_handle x env (GetDexPc s) (stop_at (GetDexPc s) s)
    | None \<Rightarrow> \<exists>d'. step env s = Some (Continue (Next_units 2 ((stop_at (GetDexPc s) s)\<lparr>heap := update_array a d' (heap s)\<rparr>)))
        \<and> stored d (unat index) v d'"
proof -
  let ?pc = "GetDexPc s"
  have step: "step env s = aput as array get conv env ?pc (stop_at ?pc s)"
    using c q by (intro step_quiet) (simp_all add: instruction_cases_def)
  then show ?thesis
    using g d x val n by (cases "call (Throw env (ArrayIndexOutOfBounds index (length xs))) (stop_at ?pc s)")
      (auto simp: aput_def access_throws_def store_throws_def CheckIsValidIndex_def throw_and_handle_def elements_of_def SetWithoutChecks_def)
qed

lemma aput_object_stores:
  fixes env :: "'h env"
  assumes c: "Opcode (cur env s) = APUT_OBJECT"
    and q: "\<not> HasDexPcListeners (instr env) (heap s)" and x: "\<not> transaction_active env"
    and g: "GetVRegReference (frame s) (b23x (cur env s)) = Some a" "GetVReg (frame s) (c23x (cur env s)) = Some index"
    and d: "a \<noteq> 0 \<longrightarrow> arrays (heap s) a = Some (ObjectArray xs)"
      "GetComponentType (lnk env) (heap s) (GetClass (lnk env) (heap s) a) \<noteq> None"
    and val: "GetVRegReference (frame s) (a23x (cur env s)) = Some val"
  shows "case store_throws env (heap s) (ObjectArray xs) a index (uint val) of
      Some x \<Rightarrow> step env s = throw_and_handle x env (GetDexPc s) (stop_at (GetDexPc s) s)
    | None \<Rightarrow> \<exists>d'. step env s = Some (Continue (Next_units 2 ((stop_at (GetDexPc s) s)\<lparr>heap := update_array a d' (heap s)\<rparr>)))
        \<and> stored (ObjectArray xs) (unat index) (uint val) d'"
proof -
  let ?pc = "GetDexPc s"
  have "(APUT_OBJECT, PREAMBLE aput_object :: 'h handler) \<in> set (instruction_cases (fp env))" by (simp add: instruction_cases_def aput_cases_def)
  then have step: "step env s = aput_object env ?pc (stop_at ?pc s)" using c q by (intro step_quiet) simp_all
  have n: "unat index < length xs \<Longrightarrow> stored (ObjectArray xs) (unat index) (uint val) (ObjectArray (xs[unat index := val]))"
    by (simp add: stored_def array_views narrow_def nth_list_update)
  obtain cl k where "GetComponentType (lnk env) (heap s) (GetClass (lnk env) (heap s) a) = Some (cl, k)" using d(2) by auto
  then show ?thesis
    using step g d x val n by (cases "call (Throw env (ArrayIndexOutOfBounds index (length xs))) (stop_at ?pc s)";
      cases "call (Throw env (ArrayStore a val)) (stop_at ?pc s)")
      (auto simp: aput_object_def access_throws_def store_throws_def assignable_def CheckIsValidIndex_def CheckAssignable_def throw_and_handle_def
        elements_of_def SetWithoutChecks_def array_views)
qed

text \<open>C19: An array store with a null array, an index out of range or a reference of the wrong class throws the exception
  Java prescribes; otherwise it changes that one element of that one array, to the value of the register cut to the type of
  the element, and nothing else of the state but the program counter.\<close>

theorem array_store:
  fixes env :: "'h env"
  assumes "Opcode (cur env s) = aput_code d" "\<not> HasDexPcListeners (instr env) (heap s)" "\<not> transaction_active env"
    "GetVRegReference (frame s) (b23x (cur env s)) = Some a" "GetVReg (frame s) (c23x (cur env s)) = Some index"
    "reg_value (element_type d) (frame s) (a23x (cur env s)) = Some v" "a \<noteq> 0 \<longrightarrow> arrays (heap s) a = Some d"
    "element_type d = kPrimNot \<longrightarrow> GetComponentType (lnk env) (heap s) (GetClass (lnk env) (heap s) a) \<noteq> None"
  shows "case store_throws env (heap s) d a index v of
      Some x \<Rightarrow> step env s = throw_and_handle x env (GetDexPc s) (stop_at (GetDexPc s) s)
    | None \<Rightarrow> \<exists>d'. step env s = Some (Continue (Next_units 2 ((stop_at (GetDexPc s) s)\<lparr>heap := update_array a d' (heap s)\<rparr>)))
        \<and> stored d (unat index) v d'"
proof -
  note store = aput_stores[OF _ assms(2-5,7)]
  note simps = array_views aput_cases_def assms(1) reg_value_def narrow_conversions narrow_def stored_def nth_list_update
  obtain x y where r: "element_type d \<noteq> kPrimNot \<Longrightarrow> element_type d \<noteq> kPrimLong \<Longrightarrow> GetVReg (frame s) (a23x (cur env s)) = Some x \<and> v = sint x"
    "element_type d = kPrimLong \<Longrightarrow> GetVRegLong (frame s) (a23x (cur env s)) = Some y \<and> v = sint y"
    using assms(6) by (fastforce simp: reg_value_def split: if_splits)
  show ?thesis
  proof (cases d)
    case (BooleanArray xs)
    then show ?thesis using r by (intro store[of AsBooleanArray BooleanArray GetVReg ucast]) (auto simp: simps)
  next
    case (ByteArray xs)
    then show ?thesis using r by (intro store[of AsByteArray ByteArray GetVReg ucast]) (auto simp: simps)
  next
    case (CharArray xs)
    then show ?thesis using r by (intro store[of AsCharArray CharArray GetVReg ucast]) (auto simp: simps)
  next
    case (ShortArray xs)
    then show ?thesis using r by (intro store[of AsShortArray ShortArray GetVReg ucast]) (auto simp: simps)
  next
    case (IntArray xs)
    then show ?thesis using r by (intro store[of AsIntArray IntArray GetVReg id]) (auto simp: simps)
  next
    case (LongArray xs)
    then show ?thesis using r by (intro store[of AsLongArray LongArray GetVRegLong id]) (auto simp: simps)
  next
    case (ObjectArray xs)
    then obtain val where val: "GetVRegReference (frame s) (a23x (cur env s)) = Some val" "v = uint val"
      using assms(6) by (auto simp: reg_value_def element_type_def)
    show ?thesis unfolding ObjectArray val(2)
      by (rule aput_object_stores[OF _ assms(2-5)]) (use assms val ObjectArray in \<open>simp_all add: array_views\<close>)
  qed
qed

section \<open>A load and a store\<close>

text \<open>\<open>aget-byte v0, v1, v2\<close> and \<open>aput-byte v0, v1, v2\<close> on the array 5, whose elements are 7 and 128.\<close>

definition byte_heap :: "unit mem" where
  "byte_heap = \<lparr>arrays = (\<lambda>a. if a = 5 then Some (ByteArray [7, 128]) else None), rest = ()\<rparr>"

definition byte_state :: "u32 \<Rightarrow> unit istate" where
  "byte_state v0 = \<lparr>frame = (ShadowFrame_new 3 0 0)\<lparr>vregs := [v0, 5, 1, 0, 5, 0]\<rparr>, result_register = 0, inst = 0, exception = 0, heap = byte_heap\<rparr>"

lemma byte_state_ok: "frame_ok (frame (byte_state v0))"
  by (simp add: byte_state_def frame_ok_def ShadowFrame_new_def less_Suc_eq numeral_eq_Suc)

theorem array_load_witness:
  "let env = quiet_env [0x0048, 0x0201]; s = byte_state 0
   in frame_ok (frame s) \<and> Opcode (cur env s) = aget_code (ByteArray [7, 128])
      \<and> (\<exists>f. step env s = Some (Continue (Next_units 2 (s\<lparr>frame := f\<rparr>))) \<and> reg_value kPrimByte f 0 = Some (-128))"
proof -
  define env :: "unit env" where "env = quiet_env [0x0048, 0x0201]"
  have c: "Opcode (cur env (byte_state 0)) = aget_code (ByteArray [7, 128])"
    "GetVRegReference (frame (byte_state 0)) (b23x (cur env (byte_state 0))) = Some 5"
    "GetVReg (frame (byte_state 0)) (c23x (cur env (byte_state 0))) = Some 1" "a23x (cur env (byte_state 0)) = 0"
    "reg_value kPrimByte (frame (byte_state 0)) 0 \<noteq> None" "arrays (heap (byte_state 0)) 5 = Some (ByteArray [7, 128])"
    "access_throws 5 (GetLength (ByteArray [7, 128])) 1 = None" "element (ByteArray [7, 128]) (unat (1 :: u32)) = -128"
    unfolding env_def by code_simp+
  have q: "\<not> HasDexPcListeners (instr env) (heap (byte_state 0))" by (simp add: env_def quiet_env_def quiet_instrumentation_def)
  have "\<exists>f. step env (byte_state 0) = Some (Continue (Next_units 2 ((byte_state 0)\<lparr>frame := f\<rparr>))) \<and> reg_value kPrimByte f 0 = Some (-128)"
    using array_load[OF c(1) byte_state_ok q c(2,3)] c(4-8) by (auto simp: element_type_def)
  then show ?thesis using byte_state_ok c(1) unfolding Let_def env_def by blast
qed

theorem array_store_witness:
  "let env = quiet_env [0x004f, 0x0201]; s = byte_state 511
   in Opcode (cur env s) = aput_code (ByteArray [7, 128])
      \<and> (\<exists>d'. step env s = Some (Continue (Next_units 2 ((stop_at 0 s)\<lparr>heap := update_array 5 d' (heap s)\<rparr>))) \<and> element d' 0 = 7 \<and> element d' 1 = -1)"
proof -
  define env :: "unit env" where "env = quiet_env [0x004f, 0x0201]"
  define d where "d = ByteArray [7, 128]"
  have c: "Opcode (cur env (byte_state 511)) = aput_code d"
    "GetVRegReference (frame (byte_state 511)) (b23x (cur env (byte_state 511))) = Some 5"
    "GetVReg (frame (byte_state 511)) (c23x (cur env (byte_state 511))) = Some 1" "element_type d = kPrimByte"
    "reg_value (element_type d) (frame (byte_state 511)) (a23x (cur env (byte_state 511))) = Some 511"
    "arrays (heap (byte_state 511)) 5 = Some d" "store_throws env (heap (byte_state 511)) d 5 1 511 = None" "GetLength d = 2" "element d 0 = 7"
    "narrow kPrimByte 511 = -1" "GetDexPc (byte_state 511) = 0"
    unfolding env_def d_def by code_simp+
  have q: "\<not> HasDexPcListeners (instr env) (heap (byte_state 511))" "\<not> transaction_active env"
    by (simp_all add: env_def quiet_env_def quiet_instrumentation_def)
  obtain d' where d': "step env (byte_state 511) = Some (Continue (Next_units 2 ((stop_at 0 (byte_state 511))\<lparr>heap := update_array 5 d' (heap (byte_state 511))\<rparr>)))"
    "stored d (unat (1 :: u32)) 511 d'"
    using array_store[OF c(1) q c(2,3,5)] c(4,6,7,11) by auto
  then have "element d' 0 = 7" "element d' 1 = -1" using c(4,8-10) by (auto simp: stored_def)
  then show ?thesis using d'(1) c(1) unfolding Let_def env_def d_def by blast
qed

section \<open>Arrays filled from a payload\<close>

lemma bit_word_of_bytes:
  "bit (word_of_bytes bs :: 'a::len word) j \<longleftrightarrow> j < LENGTH('a) \<and> j div 8 < length bs \<and> bit (bs ! (j div 8)) (j mod 8)"
proof (induction bs arbitrary: j)
  case Nil then show ?case by (simp add: word_of_bytes_def)
next
  case (Cons b bs)
  have "word_of_bytes (b # bs) = (ucast b :: 'a word) OR push_bit 8 (word_of_bytes bs)" by (simp add: word_of_bytes_def)
  moreover have "j < 8 \<or> (\<exists>i. j = i + 8)" by presburger
  moreover have "(i + 8) mod 8 = i mod (8::nat)" "(i + 8) div 8 = Suc (i div (8::nat))" for i by simp_all
  moreover have "\<not> bit b (i + 8)" for i using bit_imp_le_length[of b "i + 8"] by auto
  ultimately show ?case using Cons.IH by (auto simp: bit_simps)
qed

lemma word_of_bytes_of_word:
  assumes "LENGTH('a) = 8 * n"
  shows "word_of_bytes (bytes_of_word n w) = (w :: 'a::len word)"
proof (rule bit_eqI)
  fix j assume "possible_bit TYPE('a word) j"
  then have "j < 8 * n" using assms by simp
  then have "j div 8 < n" by (simp add: less_mult_imp_div_less mult.commute)
  then show "bit (word_of_bytes (bytes_of_word n w) :: 'a word) j = bit w j"
    using \<open>j < 8 * n\<close> assms by (simp add: bit_word_of_bytes bytes_of_word_def bit_simps)
qed

lemma concat_block:
  assumes "\<And>x. length (f x) = n" "i < length xs"
  shows "take n (drop (i * n) (concat (map f xs))) = f (xs ! i)"
  using assms(2)
proof (induction xs arbitrary: i)
  case (Cons x xs) then show ?case using assms(1) by (cases i) (simp_all add: drop_drop[symmetric] del: drop_drop)
qed simp

text \<open>Where the payload has the width of the elements, its elements replace the first ones of the array.\<close>

lemma copy_payload_same_width:
  assumes "IsPowerOfTwo width" "unat width = n" "LENGTH('a) = 8 * n" "m \<le> length xs"
  shows "copy_payload payload width width (m * n) (xs :: 'a::len word list) =
    Some (map (\<lambda>i. word_of_bytes (map (\<lambda>k. payload_byte payload (i * n + k)) [0..<n])) [0..<m] @ drop m xs)"
proof -
  obtain base where base: "Array_DataOffset width = Some base" using assms(1) by (simp add: Array_DataOffset_def)
  have n: "0 < n" using assms(3) by (cases n) simp_all
  define c where "c = concat (map (bytes_of_word n) xs)"
  have len: "length (bytes_of_word n x) = n" for x :: "'a word" by (simp add: bytes_of_word_def)
  have c: "take n (drop (i * n) c) = bytes_of_word n (xs ! i)" if "i < length xs" for i
    unfolding c_def by (rule concat_block) (use len that in auto)
  have fit: "m * n \<le> n * length xs" using assms(4) by (simp add: mult.commute)
  let ?b = "map (payload_byte payload) [0..<m * n] @ drop (m * n) c"
  have el: "word_of_bytes (take n (drop (i * n) ?b)) =
      (if i < m then word_of_bytes (map (\<lambda>k. payload_byte payload (i * n + k)) [0..<n]) else xs ! i)"
    if i: "i < length xs" for i
  proof (cases "i < m")
    case True
    then have "i * n + n \<le> m * n" using mult_le_mono1[of "Suc i" m n] by simp
    then have "take n (drop (i * n) ?b) = map (\<lambda>k. payload_byte payload (i * n + k)) [0..<n]"
      by (intro nth_equalityI) (simp_all add: nth_append drop_map)
    with True show ?thesis by simp
  next
    case False
    then have "drop (i * n) ?b = drop (i * n) c" using mult_le_mono1[of m i n] by simp
    with False show ?thesis using c[OF i] word_of_bytes_of_word[OF assms(3)] by simp
  qed
  have "copy_payload payload width width (m * n) xs = Some (map (\<lambda>i. word_of_bytes (take n (drop (i * n) ?b))) [0..<length xs])"
    if "m \<noteq> 0"
    using base that n fit by (simp add: copy_payload_def assms(2) Let_def c_def[symmetric])
  moreover have "map (\<lambda>i. word_of_bytes (take n (drop (i * n) ?b))) [0..<length xs] =
    map (\<lambda>i. word_of_bytes (map (\<lambda>k. payload_byte payload (i * n + k)) [0..<n])) [0..<m] @ drop m xs"
    using assms(4) el by (intro nth_equalityI) (auto simp: nth_append)
  ultimately show ?thesis using base by (cases "m = 0") (simp_all add: copy_payload_def)
qed

end
