(* ===== verification/Interpreter_Calls.thy ===== *)
theory Interpreter_Calls
  imports Interpreter_Arrays "HOL-Library.Multiset"
begin

text \<open>
  Calls, string constructors, structured locking and returns of the interpreter: what a callee finds in its frame, which registers
  a new string reaches, which locks a frame counts, and that a return ends the method.
\<close>

section \<open>Registers of two frames\<close>

text \<open>Both halves of a register.\<close>

definition reg_of :: "ShadowFrame \<Rightarrow> nat \<Rightarrow> u32 \<times> ref" where
  "reg_of f i = (vregs f ! i, vregs f ! (number_of_vregs f + i))"

lemma reg_of_set:
  assumes "frame_ok f" "SetVReg f i v = Some f'" "j < number_of_vregs f"
  shows "reg_of f' j = (if j = i then (v, 0) else reg_of f j)"
  using set_reads[OF assms(1,2)] assms(3) by (simp add: reg_of_def)

lemma reg_of_set_ref:
  assumes "frame_ok f" "SetVRegReference f i v = Some f'" "j < number_of_vregs f"
  shows "reg_of f' j = (if j = i then (v, v) else reg_of f j)"
  using set_ref_reads[OF assms(1,2)] assms(3) by (simp add: reg_of_def)

text \<open>Visiting a frame with the identity changes nothing.\<close>

lemma VisitShadowFrame_loop_id: "frame_ok f \<Longrightarrow> VisitShadowFrame_loop id (number_of_vregs f) i f = Some f"
proof (induction "id :: ref \<Rightarrow> ref" "number_of_vregs f" i f rule: VisitShadowFrame_loop.induct)
  case (1 i f)
  then show ?case by (subst VisitShadowFrame_loop.simps) (auto simp: get_eqs)
qed

lemma VisitShadowFrame_id: "frame_ok f \<Longrightarrow> VisitShadowFrame id f = Some f"
  by (simp add: VisitShadowFrame_def VisitShadowFrame_loop_id VisitMonitors_def list.map_id0 option.map_id)

text \<open>What a visit by the collector makes of a register.\<close>

definition forward_reg :: "(ref \<Rightarrow> ref) \<Rightarrow> u32 \<times> ref \<Rightarrow> u32 \<times> ref" where
  "forward_reg fwd r = (if snd r = 0 then (fst r, 0) else (fwd (snd r), fwd (snd r)))"

lemma vregs_only: "f' = f\<lparr>vregs := xs\<rparr> \<Longrightarrow> f' = f\<lparr>vregs := vregs f'\<rparr>"
  by simp

lemma VisitShadowFrame_loop_rest: "frame_ok f \<Longrightarrow> VisitShadowFrame_loop fwd (number_of_vregs f) i f = Some f' \<Longrightarrow> f' = f\<lparr>vregs := vregs f'\<rparr>"
proof (induction fwd "number_of_vregs f" i f rule: VisitShadowFrame_loop.induct)
  case (1 fwd i f)
  show ?case
  proof (cases "i < number_of_vregs f")
    case True
    then obtain r f1 where r: "GetVRegReference f i = Some r" "(if r \<noteq> 0 \<and> fwd r \<noteq> r then SetVRegReference f i (fwd r) else Some f) = Some f1"
        "VisitShadowFrame_loop fwd (number_of_vregs f) (i + 1) f1 = Some f'"
      using 1(3) by (subst (asm) VisitShadowFrame_loop.simps) (auto simp only: if_True bind_eq_Some_conv)
    have f1: "frame_ok f1" "f1 = f\<lparr>vregs := vregs f1\<rparr>"
      using r(2) 1(2) frame_ok_SetVRegReference[OF 1(2)] vregs_only[OF SetVRegReference_Some(2)[OF 1(2)]] by (auto split: if_splits)
    then have n: "number_of_vregs f = number_of_vregs f1" by (metis ShadowFrame.select_convs(1) ShadowFrame.surjective ShadowFrame.update_convs(2))
    have "f' = f1\<lparr>vregs := vregs f'\<rparr>" using 1(1)[OF True r(1,2) n f1(1)] r(3) n by simp
    then show ?thesis using f1(2) by (metis ShadowFrame.surjective ShadowFrame.update_convs(2))
  next
    case False
    then show ?thesis using 1(3) by (simp add: VisitShadowFrame_loop.simps)
  qed
qed

lemma VisitShadowFrame_regs:
  assumes "frame_ok f"
  shows "\<exists>f'. VisitShadowFrame fwd f = Some f' \<and> frame_ok f'
    \<and> f' = f\<lparr>vregs := vregs f', monitors := map_option (map fwd) (monitors f)\<rparr> \<and> (\<forall>i < number_of_vregs f. reg_of f' i = forward_reg fwd (reg_of f i))"
proof -
  obtain g where g: "VisitShadowFrame_loop fwd (number_of_vregs f) 0 f = Some g" "frame_ok g" "number_of_vregs g = number_of_vregs f"
      "\<And>i. i < number_of_vregs f \<Longrightarrow> (vregs g ! i, vregs g ! (number_of_vregs f + i)) = visited fwd f i"
    using VisitShadowFrame_loop_ok[OF assms, of 0 fwd] by auto
  note r = VisitShadowFrame_loop_rest[OF assms g(1)]
  have "VisitMonitors fwd g = f\<lparr>vregs := vregs g, monitors := map_option (map fwd) (monitors f)\<rparr>"
    by (subst r) (simp add: VisitMonitors_def, metis ShadowFrame.select_convs(6) ShadowFrame.surjective ShadowFrame.update_convs(2) r)
  moreover have "frame_ok (VisitMonitors fwd g)" using g(2) by simp
  ultimately show ?thesis using g
    by (intro exI[of _ "VisitMonitors fwd g"]) (auto simp: VisitShadowFrame_def reg_of_def forward_reg_def visited_def Let_def simp del: frame_ok_monitors)
qed

lemma call_out_regs:
  assumes "frame_ok (frame s)" "f (heap s) (exception s) = (r, h, fwd, e)"
  shows "\<exists>fr. call_out f s = Some (r, fwd, s\<lparr>heap := h, exception := e, frame := fr\<rparr>) \<and> frame_ok fr
    \<and> fr = (frame s)\<lparr>vregs := vregs fr, monitors := map_option (map fwd) (monitors (frame s))\<rparr>
    \<and> (\<forall>i < number_of_vregs (frame s). reg_of fr i = forward_reg fwd (reg_of (frame s) i))"
  using VisitShadowFrame_regs[OF assms(1), of fwd] by (auto simp: call_out_def assms(2))

lemma AssignRegister_copies:
  assumes f: "frame_ok f" "i < number_of_vregs f" and g: "frame_ok g" "d < number_of_vregs g"
  shows "\<exists>g'. AssignRegister g f d i = Some g' \<and> frame_ok g' \<and> g' = g\<lparr>vregs := vregs g'\<rparr>
    \<and> (\<forall>j < number_of_vregs g. reg_of g' j = (if j = d then reg_of f i else reg_of g j))"
proof -
  have get: "GetVReg f i = Some (fst (reg_of f i))" "GetVRegReference f i = Some (snd (reg_of f i))"
    using f by (simp_all add: get_eqs reg_of_def)
  show ?thesis
  proof (cases "fst (reg_of f i) = snd (reg_of f i)")
    case True
    obtain g' where g': "SetVRegReference g d (snd (reg_of f i)) = Some g'" using write_in_range(2)[OF g] by blast
    then show ?thesis using True get frame_ok_SetVRegReference[OF g(1) g'] SetVRegReference_Some(2)[OF g(1) g'] reg_of_set_ref[OF g(1) g']
      by (simp add: AssignRegister_def prod_eq_iff)
  next
    case False
    obtain g' where g': "SetVReg g d (fst (reg_of f i)) = Some g'" using write_in_range(1)[OF g] by blast
    moreover have "snd (reg_of f i) = 0" using frame_okD[OF f] False by (auto simp: reg_of_def)
    ultimately show ?thesis using False get frame_ok_SetVReg[OF g(1) g'] SetVReg_Some(2)[OF g(1) g'] reg_of_set[OF g(1) g']
      by (simp add: AssignRegister_def prod_eq_iff)
  qed
qed

section \<open>Calls\<close>

text \<open>The method that a call reaches, the number of its arguments, the register of the caller with the argument \<open>i\<close>, and the number of
  registers of the callee.  A constructor of \<open>String\<close> is replaced by a factory, which does not get the string under construction.\<close>

definition call_method :: "'h env \<Rightarrow> nat \<Rightarrow> nat" where
  "call_method env m = (if IsStringConstructor (cal env) m then StringInitToStringFactory (cal env) m else m)"

definition call_inputs :: "'h env \<Rightarrow> nat \<Rightarrow> u16 \<Rightarrow> nat" where
  "call_inputs env m inputs = (if IsStringConstructor (cal env) m then unat inputs - 1 else unat inputs)"

definition call_src :: "bool \<Rightarrow> 'h env \<Rightarrow> nat \<Rightarrow> u32 list \<Rightarrow> nat \<Rightarrow> nat \<Rightarrow> nat" where
  "call_src is_range env m arg vregC i = the (arg_reg is_range arg vregC (if IsStringConstructor (cal env) m then i + 1 else i))"

definition callee_registers :: "'h env \<Rightarrow> 'h mem \<Rightarrow> nat \<Rightarrow> u16 \<Rightarrow> nat" where
  "callee_registers env h m inputs =
     (case GetCodeItem_registers_size (cal env) (call_method env m) of
        Some n \<Rightarrow> if UseInterpreterEntrypoint (cal env) h (call_method env m) then unat n else unat inputs
      | None \<Rightarrow> call_inputs env m inputs)"

text \<open>A frame of \<open>n\<close> registers whose last ones are \<open>args\<close> and whose others are zero.\<close>

definition callee_frame :: "nat \<Rightarrow> nat \<Rightarrow> (u32 \<times> ref) list \<Rightarrow> ShadowFrame" where
  "callee_frame n m args =
     (let regs = replicate (n - length args) (0, 0) @ args in (ShadowFrame_new n m 0)\<lparr>vregs := map fst regs @ map snd regs\<rparr>)"

text \<open>A frame under construction, with the first \<open>k\<close> arguments from register \<open>first\<close> on.\<close>

definition building :: "nat \<Rightarrow> nat \<Rightarrow> ShadowFrame \<Rightarrow> (nat \<Rightarrow> nat) \<Rightarrow> nat \<Rightarrow> nat \<Rightarrow> ShadowFrame \<Rightarrow> bool" where
  "building n m fr src first k f \<longleftrightarrow> frame_ok f \<and> f = (ShadowFrame_new n m 0)\<lparr>vregs := vregs f\<rparr>
     \<and> (\<forall>j < n. reg_of f j = (if first \<le> j \<and> j < first + k then reg_of fr (src (j - first)) else (0, 0)))"

lemma building_size: "building n m fr src first k f \<Longrightarrow> number_of_vregs f = n"
  by (metis building_def ShadowFrame.select_convs(1) ShadowFrame.surjective ShadowFrame.update_convs(2) ShadowFrame_new_def)

lemma building_new: "building n m fr src first 0 (ShadowFrame_new n m 0)"
  using frame_ok_new[of n m 0] by (auto simp: building_def ShadowFrame_new_def reg_of_def)

lemma building_done:
  assumes "building n m fr src first k f" "first + k = n"
  shows "f = callee_frame n m (map (\<lambda>i. reg_of fr (src i)) [0..<k])"
proof -
  define regs where "regs = replicate first (0, 0) @ map (\<lambda>i. reg_of fr (src i)) [0..<k]"
  have n: "length regs = n" "n - k = first" using assms(2) by (simp_all add: regs_def)
  have l: "length (vregs f) = n + n" using assms(1) frame_ok_length[of f] building_size[OF assms(1)] by (simp add: building_def)
  have r: "reg_of f j = regs ! j" if "j < n" for j
    using assms that by (auto simp: building_def regs_def nth_append)
  have "vregs f = map fst regs @ map snd regs"
  proof (rule nth_equalityI)
    fix j assume "j < length (vregs f)"
    then show "vregs f ! j = (map fst regs @ map snd regs) ! j"
      using r[of j] r[of "j - n"] n(1) l building_size[OF assms(1)] by (auto simp: nth_append reg_of_def prod_eq_iff not_less)
  qed (simp add: l n)
  moreover have "f = (ShadowFrame_new n m 0)\<lparr>vregs := vregs f\<rparr>" using assms(1) by (simp add: building_def)
  ultimately show ?thesis using n(2) by (simp add: callee_frame_def regs_def)
qed

lemma building_step:
  assumes "building n m fr src first k f" "first + k < n" "frame_ok f'" "f' = f\<lparr>vregs := vregs f'\<rparr>"
    "\<And>j. j < n \<Longrightarrow> reg_of f' j = (if j = first + k then reg_of fr (src k) else reg_of f j)"
  shows "building n m fr src first (Suc k) f'"
proof -
  have "f' = (ShadowFrame_new n m 0)\<lparr>vregs := vregs f'\<rparr>"
    using assms(1,4) unfolding building_def by (metis ShadowFrame.surjective ShadowFrame.update_convs(2))
  then show ?thesis using assms by (auto simp: building_def less_Suc_eq)
qed

lemma building_visit:
  assumes "building n m fr src first k f" "VisitShadowFrame fwd f = Some f'"
    "\<And>i. i < k \<Longrightarrow> reg_of fr' (src i) = forward_reg fwd (reg_of fr (src i))"
  shows "building n m fr' src first k f'"
proof -
  have f: "frame_ok f" "f = (ShadowFrame_new n m 0)\<lparr>vregs := vregs f\<rparr>" using assms(1) by (auto simp: building_def)
  then have mo: "monitors f = None" by (metis ShadowFrame.select_convs(6) ShadowFrame.surjective ShadowFrame.update_convs(2) ShadowFrame_new_def)
  have f': "frame_ok f'" "f' = f\<lparr>vregs := vregs f', monitors := None\<rparr>" "\<And>i. i < n \<Longrightarrow> reg_of f' i = forward_reg fwd (reg_of f i)"
    using VisitShadowFrame_regs[OF f(1), of fwd] assms(2) mo building_size[OF assms(1)] by auto
  have "f' = (ShadowFrame_new n m 0)\<lparr>vregs := vregs f'\<rparr>"
    using f'(2) f(2) by (metis (no_types) ShadowFrame.surjective ShadowFrame.update_convs(2,6) ShadowFrame_new_def)
  then show ?thesis using assms(1,3) f'(1,3) by (auto simp: building_def forward_reg_def)
qed

lemma CopyRegisters_loop_copies:
  assumes "frame_ok fr" "first + num = n" "\<And>i. i < num \<Longrightarrow> src_reg i = Some (src i) \<and> src i < number_of_vregs fr" "k \<le> num"
    "building n m fr src first k f"
  shows "CopyRegisters_loop fr src_reg first k num f = Some (callee_frame n m (map (\<lambda>i. reg_of fr (src i)) [0..<num]))"
  using assms
proof (induction fr src_reg first k num f rule: CopyRegisters_loop.induct)
  case (1 fr src_reg first k num f)
  note step = CopyRegisters_loop.simps[of fr src_reg first k num f]
  show ?case
  proof (cases "k < num")
    case True
    have f: "frame_ok f" "number_of_vregs f = n" using 1(6) building_size[OF 1(6)] by (auto simp: building_def)
    obtain f1 where f1: "AssignRegister f fr (first + k) (src k) = Some f1" "frame_ok f1" "f1 = f\<lparr>vregs := vregs f1\<rparr>"
      "\<And>j. j < n \<Longrightarrow> reg_of f1 j = (if j = first + k then reg_of fr (src k) else reg_of f j)"
      using AssignRegister_copies[OF 1(2) _ f(1), of "src k" "first + k"] 1(3,4) True f(2) by auto
    have "building n m fr src first (k + 1) f1" using building_step[OF 1(6) _ f1(2-4)] 1(3) True by simp
    then show ?thesis using step True f1(1) 1(1)[OF True, of "src k" f1] 1(2-4) by simp
  next
    case False
    then have "k = num" using 1(5) by simp
    then show ?thesis using step building_done[OF 1(6)] 1(3) by simp
  qed
qed

text \<open>The parameters of a method are the letters of its shorty.  The words of a parameter; the arguments that are references, with the
  number of the parameter and of the argument; and the arguments of a caller that passes what the parameters ask for: a register with a
  reference or null for an object, a pair of registers for a \<open>long\<close> or \<open>double\<close>.\<close>

definition wide_param :: "char \<Rightarrow> bool" where
  "wide_param c \<longleftrightarrow> c = CHR ''J'' \<or> c = CHR ''D''"

primrec param_words :: "string \<Rightarrow> nat" where
  "param_words [] = 0"
| "param_words (c # cs) = (if wide_param c then 2 else 1) + param_words cs"

primrec param_refs :: "nat \<Rightarrow> nat \<Rightarrow> string \<Rightarrow> (nat \<times> nat) list" where
  "param_refs p k [] = []"
| "param_refs p k (c # cs) =
     (if c = CHR ''L'' then (p, k) # param_refs (p + 1) (k + 1) cs else param_refs (p + 1) (k + (if wide_param c then 2 else 1)) cs)"

primrec typed_args :: "ShadowFrame \<Rightarrow> (nat \<Rightarrow> nat) \<Rightarrow> nat \<Rightarrow> string \<Rightarrow> bool" where
  "typed_args fr src k [] \<longleftrightarrow> True"
| "typed_args fr src k (c # cs) \<longleftrightarrow>
     (if c = CHR ''L'' then fst (reg_of fr (src k)) = snd (reg_of fr (src k)) \<and> typed_args fr src (k + 1) cs
      else if wide_param c then src (k + 1) = src k + 1 \<and> snd (reg_of fr (src k)) = 0 \<and> snd (reg_of fr (src k + 1)) = 0 \<and> typed_args fr src (k + 2) cs
      else snd (reg_of fr (src k)) = 0 \<and> typed_args fr src (k + 1) cs)"

text \<open>The checks alone: the class of every parameter whose argument is an object is resolved, and the object must be an instance.\<close>

fun check_params :: "'h env \<Rightarrow> nat \<Rightarrow> (nat \<Rightarrow> nat) \<Rightarrow> (nat \<times> nat) list \<Rightarrow> 'h istate \<Rightarrow> (bool \<times> 'h istate) option" where
  "check_params env method src [] s = Some (True, s)"
| "check_params env method src ((p, k) # ps) s =
     (let ref = snd (reg_of (frame s) (src k))
      in if ref = 0 then check_params env method src ps s
         else do {
           (arg_type, fwd, s) \<leftarrow> call_out (ResolveParameterType (cal env) method p) s;
           if arg_type = 0 then if exception s = 0 then None else Some (False, s)
           else if \<not> VerifierInstanceOf (lnk env) (heap s) (visit fwd ref) arg_type
           then map_option (\<lambda>(_, s). (False, s)) (call (Throw env InternalError) s)
           else check_params env method src ps s
         })"

lemma building_sets:
  assumes "building n m fr src first k f" "first + k < n"
  shows "reg_of fr (src k) = (v, 0) \<Longrightarrow> \<exists>f1. SetVReg f (first + k) v = Some f1 \<and> building n m fr src first (Suc k) f1"
    "reg_of fr (src k) = (v, v) \<Longrightarrow> \<exists>f1. SetVRegReference f (first + k) v = Some f1 \<and> building n m fr src first (Suc k) f1"
proof -
  have f: "frame_ok f" "first + k < number_of_vregs f" using assms building_size[OF assms(1)] by (auto simp: building_def)
  obtain g where g: "SetVReg f (first + k) v = Some g" using write_in_range(1)[OF f] by blast
  show "\<exists>f1. SetVReg f (first + k) v = Some f1 \<and> building n m fr src first (Suc k) f1" if "reg_of fr (src k) = (v, 0)"
    using building_step[OF assms frame_ok_SetVReg[OF f(1) g] vregs_only[OF SetVReg_Some(2)[OF f(1) g]]] reg_of_set[OF f(1) g]
      building_size[OF assms(1)] that g by auto
  obtain h where h: "SetVRegReference f (first + k) v = Some h" using write_in_range(2)[OF f] by blast
  show "\<exists>f1. SetVRegReference f (first + k) v = Some f1 \<and> building n m fr src first (Suc k) f1" if "reg_of fr (src k) = (v, v)"
    using building_step[OF assms frame_ok_SetVRegReference[OF f(1) h] vregs_only[OF SetVRegReference_Some(2)[OF f(1) h]]]
      reg_of_set_ref[OF f(1) h] building_size[OF assms(1)] that h by auto
qed

lemma wide_halves:
  "(ucast (push_bit 32 (ucast hi) OR ucast lo :: u64) :: u32) = lo" "(ucast (drop_bit 32 (push_bit 32 (ucast hi) OR ucast lo :: u64)) :: u32) = hi"
proof -
  have "\<not> bit lo (32 + n)" for n using bit_imp_le_length[of lo "32 + n"] by auto
  then show "(ucast (push_bit 32 (ucast hi) OR ucast lo :: u64) :: u32) = lo"
    "(ucast (drop_bit 32 (push_bit 32 (ucast hi) OR ucast lo :: u64)) :: u32) = hi"
    by (auto intro!: bit_word_eqI simp: bit_simps)
qed

lemma building_set_long:
  assumes "building n m fr src first k f" "first + k + 1 < n" "reg_of fr (src k) = (lo, 0)" "reg_of fr (src (Suc k)) = (hi, 0)"
  shows "\<exists>f1. SetVRegLong f (first + k) (push_bit 32 (ucast hi) OR ucast lo) = Some f1 \<and> building n m fr src first (k + 2) f1"
proof -
  have f: "frame_ok f" "number_of_vregs f = n" using assms(1) building_size[OF assms(1)] by (auto simp: building_def)
  define x where "x = (push_bit 32 (ucast hi) OR ucast lo :: u64)"
  have x: "ucast x = lo" "ucast (drop_bit 32 x) = hi" unfolding x_def by (rule wide_halves)+
  obtain g where g: "SetVRegLong f (first + k) x = Some g"
    using write_in_range(3)[OF f(1)] assms(2) f(2) by fastforce
  have "f = (ShadowFrame_new n m 0)\<lparr>vregs := vregs f\<rparr>" using assms(1) by (simp add: building_def)
  then have s: "g = (ShadowFrame_new n m 0)\<lparr>vregs := vregs g\<rparr>"
    using vregs_only[OF SetVRegLong_Some(2)[OF f(1) g]] by (metis ShadowFrame.surjective ShadowFrame.update_convs(2))
  have "reg_of g j = (if j = first + k then (lo, 0) else if j = first + k + 1 then (hi, 0) else reg_of f j)" if "j < n" for j
    using set_long_reads(1)[OF f(1) g] set_long_reads(2,3)[OF f(1) g, of j] that f(2) x by (auto simp: reg_of_def)
  then have "building n m fr src first (k + 2) g"
    using assms s frame_ok_SetVRegLong[OF f(1) g] by (auto simp: building_def less_Suc_eq Suc_diff_le)
  then show ?thesis using g unfolding x_def by blast
qed

lemma typed_args_visit:
  assumes "typed_args fr src k cs" "\<And>i. k \<le> i \<Longrightarrow> i < k + param_words cs \<Longrightarrow> reg_of fr' (src i) = forward_reg fwd (reg_of fr (src i))"
  shows "typed_args fr' src k cs"
  using assms
proof (induction cs arbitrary: k)
  case (Cons c cs)
  have r: "reg_of fr' (src k) = forward_reg fwd (reg_of fr (src k))" using Cons.prems(2)[of k] by simp
  show ?case
  proof (cases "wide_param c")
    case True
    then have ty: "src (k + 1) = src k + 1" "snd (reg_of fr (src k)) = 0" "snd (reg_of fr (src k + 1)) = 0" "typed_args fr src (k + 2) cs" "c \<noteq> CHR ''L''"
      using Cons.prems(1) by (auto simp: wide_param_def)
    have "reg_of fr' (src k + 1) = forward_reg fwd (reg_of fr (src k + 1))" using Cons.prems(2)[of "k + 1"] True ty(1) by simp
    moreover have "typed_args fr' src (k + 2) cs" using Cons.IH[OF ty(4)] Cons.prems(2) True by simp
    ultimately show ?thesis using ty r True by (simp add: forward_reg_def)
  next
    case False
    then show ?thesis using Cons.prems r Cons.IH[of "k + 1"] by (auto simp: forward_reg_def split: if_splits)
  qed
qed simp

text \<open>The copying of the code, interleaved with the checks, gives what the checks followed by a copy give.\<close>

definition checked_outcome :: "bool \<times> ShadowFrame \<times> 'h istate \<Rightarrow> bool \<times> ShadowFrame option \<times> 'h istate" where
  "checked_outcome = (\<lambda>(ok, f, s). (ok, if ok then Some f else None, s))"

definition copied_outcome :: "nat \<Rightarrow> nat \<Rightarrow> (nat \<Rightarrow> nat) \<Rightarrow> nat \<Rightarrow> bool \<times> 'h istate \<Rightarrow> bool \<times> ShadowFrame option \<times> 'h istate" where
  "copied_outcome n m src inputs =
     (\<lambda>(ok, s). (ok, if ok then Some (callee_frame n m (map (\<lambda>i. reg_of (frame s) (src i)) [0..<inputs])) else None, s))"

text \<open>A state of the loop over the parameters, with the letters \<open>cs\<close> to go.\<close>

definition passing ::
    "'h env \<Rightarrow> nat \<Rightarrow> (nat \<Rightarrow> nat option) \<Rightarrow> (nat \<Rightarrow> nat) \<Rightarrow> nat \<Rightarrow> nat \<Rightarrow> nat \<Rightarrow> nat \<Rightarrow> nat \<Rightarrow> string \<Rightarrow> ShadowFrame \<Rightarrow> 'h istate \<Rightarrow> bool" where
  "passing env method src_reg src n m first p k cs f s \<longleftrightarrow> frame_ok (frame s) \<and> drop (p + 1) (GetShorty (cal env) method) = cs
     \<and> first + k + param_words cs = n \<and> (\<forall>i < n - first. src_reg i = Some (src i) \<and> src i < number_of_vregs (frame s))
     \<and> typed_args (frame s) src k cs \<and> building n m (frame s) src first k f"

lemma passing_Cons:
  assumes "passing env method src_reg src n m first p k (c # cs) f s"
  shows "p + 1 < length (GetShorty (cal env) method)" "GetShorty (cal env) method ! (p + 1) = c"
    "drop (p + 1 + 1) (GetShorty (cal env) method) = cs" "first + k < n" "src_reg k = Some (src k)" "building n m (frame s) src first k f"
    "GetVReg (frame s) (src k) = Some (fst (reg_of (frame s) (src k)))" "GetVRegReference (frame s) (src k) = Some (snd (reg_of (frame s) (src k)))"
proof -
  note a = assms[unfolded passing_def]
  show "p + 1 < length (GetShorty (cal env) method)" "GetShorty (cal env) method ! (p + 1) = c"
      "drop (p + 1 + 1) (GetShorty (cal env) method) = cs"
    using a by (metis Cons_nth_drop_Suc drop_all linorder_not_less list.distinct(1) list.inject add.commute plus_1_eq_Suc)+
  have k: "k < n - first" using a by auto
  then show "first + k < n" "src_reg k = Some (src k)" "building n m (frame s) src first k f" using a by auto
  have "src k < number_of_vregs (frame s)" using a k by blast
  then show "GetVReg (frame s) (src k) = Some (fst (reg_of (frame s) (src k)))"
      "GetVRegReference (frame s) (src k) = Some (snd (reg_of (frame s) (src k)))"
    using a by (simp_all add: get_eqs reg_of_def)
qed

lemma passing_primitive:
  assumes "passing env method src_reg src n m first p k (c # cs) f s" "c \<noteq> CHR ''L''" "\<not> wide_param c"
  shows "\<exists>f1. passing env method src_reg src n m first (p + 1) (k + 1) cs f1 s
    \<and> CheckedArguments_loop env method src_reg n p (first + k) k f s
        = CheckedArguments_loop env method src_reg n (p + 1) (first + (k + 1)) (k + 1) f1 s"
proof -
  note a = assms(1)[unfolded passing_def] and c = passing_Cons[OF assms(1)]
  have r: "reg_of (frame s) (src k) = (fst (reg_of (frame s) (src k)), 0)" using a assms(2,3) by (simp add: prod_eq_iff)
  obtain f1 where f1: "SetVReg f (first + k) (fst (reg_of (frame s) (src k))) = Some f1" "building n m (frame s) src first (Suc k) f1"
    using building_sets(1)[OF c(6,4) r] by auto
  have "CheckedArguments_loop env method src_reg n p (first + k) k f s
      = CheckedArguments_loop env method src_reg n (p + 1) (first + (k + 1)) (k + 1) f1 s"
    using CheckedArguments_loop.simps[of env "method" src_reg n p "first + k" k f s] c assms(2) assms(3)[unfolded wide_param_def] f1(1) by simp
  then show ?thesis using a c(3) f1(2) assms(2,3) by (intro exI[of _ f1]) (simp add: passing_def)
qed

lemma passing_wide:
  assumes "passing env method src_reg src n m first p k (c # cs) f s" "wide_param c"
  shows "\<exists>f1. passing env method src_reg src n m first (p + 1) (k + 2) cs f1 s
    \<and> CheckedArguments_loop env method src_reg n p (first + k) k f s
        = CheckedArguments_loop env method src_reg n (p + 1) (first + (k + 2)) (k + 2) f1 s"
proof -
  note a = assms(1)[unfolded passing_def] and c = passing_Cons[OF assms(1)]
  let ?lo = "fst (reg_of (frame s) (src k))" and ?hi = "fst (reg_of (frame s) (src (Suc k)))"
  have nL: "c \<noteq> CHR ''L''" using assms(2) by (auto simp: wide_param_def)
  have k: "first + k + 1 < n" "Suc k < n - first" using a assms(2) by auto
  have ty: "src (Suc k) = src k + 1" "snd (reg_of (frame s) (src k)) = 0" "snd (reg_of (frame s) (src (Suc k))) = 0"
      "typed_args (frame s) src (k + 2) cs" using a nL assms(2) by auto
  have "src (Suc k) < number_of_vregs (frame s)" using a k(2) by blast
  then have hi: "GetVReg (frame s) (src k + 1) = Some ?hi" using a ty(1) by (simp add: get_eqs reg_of_def)
  obtain f1 where f1: "SetVRegLong f (first + k) (push_bit 32 (ucast ?hi) OR ucast ?lo) = Some f1" "building n m (frame s) src first (k + 2) f1"
    using building_set_long[OF c(6) k(1)] ty(2,3) by (metis prod.collapse)
  have "CheckedArguments_loop env method src_reg n p (first + k) k f s
      = CheckedArguments_loop env method src_reg n (p + 1) (first + (k + 2)) (k + 2) f1 s"
    using CheckedArguments_loop.simps[of env "method" src_reg n p "first + k" k f s] c nL assms(2)[unfolded wide_param_def] hi f1(1) by auto
  then show ?thesis using a c(3) f1(2) nL assms(2) ty(4) by (intro exI[of _ f1]) (simp add: passing_def)
qed

lemma passing_null:
  assumes "passing env method src_reg src n m first p k (CHR ''L'' # cs) f s" "snd (reg_of (frame s) (src k)) = 0"
  shows "\<exists>f1. passing env method src_reg src n m first (p + 1) (k + 1) cs f1 s
    \<and> CheckedArguments_loop env method src_reg n p (first + k) k f s
        = CheckedArguments_loop env method src_reg n (p + 1) (first + (k + 1)) (k + 1) f1 s"
proof -
  note a = assms(1)[unfolded passing_def] and c = passing_Cons[OF assms(1)]
  have "reg_of (frame s) (src k) = (0, 0)" using a assms(2) by (simp add: prod_eq_iff)
  then obtain f1 where f1: "SetVRegReference f (first + k) 0 = Some f1" "building n m (frame s) src first (Suc k) f1"
    using building_sets(2)[OF c(6,4)] by auto
  have "CheckedArguments_loop env method src_reg n p (first + k) k f s
      = CheckedArguments_loop env method src_reg n (p + 1) (first + (k + 1)) (k + 1) f1 s"
    using CheckedArguments_loop.simps[of env "method" src_reg n p "first + k" k f s] c assms(2) f1(1) by simp
  then show ?thesis using a c(3) f1(2) by (intro exI[of _ f1]) (simp add: passing_def wide_param_def)
qed

lemma passing_object:
  fixes env :: "'h env"
  assumes "passing env method src_reg src n m first p k (CHR ''L'' # cs) f s" "snd (reg_of (frame s) (src k)) \<noteq> 0"
  shows "\<exists>t fwd s1 f0 f1. call_out (ResolveParameterType (cal env) method p) s = Some (t, fwd, s1) \<and> VisitShadowFrame fwd f = Some f0
    \<and> SetVRegReference f0 (first + k) (visit fwd (snd (reg_of (frame s) (src k)))) = Some f1
    \<and> passing env method src_reg src n m first (p + 1) (k + 1) cs f1 s1"
proof -
  note a = assms(1)[unfolded passing_def] and c = passing_Cons[OF assms(1)]
  define r where "r = snd (reg_of (frame s) (src k))"
  obtain t h fwd e where e: "ResolveParameterType (cal env) method p (heap s) (exception s) = (t, h, fwd, e)" by (metis prod_cases4)
  obtain fr where fr: "call_out (ResolveParameterType (cal env) method p) s = Some (t, fwd, s\<lparr>heap := h, exception := e, frame := fr\<rparr>)"
      "frame_ok fr" "fr = (frame s)\<lparr>vregs := vregs fr, monitors := map_option (map fwd) (monitors (frame s))\<rparr>"
      "\<And>i. i < number_of_vregs (frame s) \<Longrightarrow> reg_of fr i = forward_reg fwd (reg_of (frame s) i)"
    using call_out_regs[of s "ResolveParameterType (cal env) method p", OF _ e] a by blast
  define s1 where "s1 = s\<lparr>heap := h, exception := e, frame := fr\<rparr>"
  have "frame_ok f" using c(6) by (simp add: building_def)
  then obtain f0 where f0: "VisitShadowFrame fwd f = Some f0" using VisitShadowFrame_regs by blast
  have n: "number_of_vregs fr = number_of_vregs (frame s)" by (subst fr(3)) simp
  have s1: "frame_ok (frame s1)" "\<And>i. i < n - first \<Longrightarrow> src_reg i = Some (src i) \<and> src i < number_of_vregs (frame s1)"
      "\<And>i. i < n - first \<Longrightarrow> reg_of (frame s1) (src i) = forward_reg fwd (reg_of (frame s) (src i))"
    using fr(2,4) n a by (auto simp: s1_def)
  have b: "building n m (frame s1) src first k f0" by (rule building_visit[OF c(6) f0]) (use s1(3) c(4) in auto)
  have ty: "typed_args (frame s1) src k (CHR ''L'' # cs)"
    by (rule typed_args_visit[of "frame s"]) (use a s1(3) in auto)
  have "reg_of (frame s1) (src k) = (visit fwd r, visit fwd r)"
    using s1(3)[of k] c(4) assms(2) a by (simp add: forward_reg_def visit_def r_def)
  from building_sets(2)[OF b c(4) this] obtain f1 where f1: "SetVRegReference f0 (first + k) (visit fwd r) = Some f1"
      "building n m (frame s1) src first (Suc k) f1" by auto
  have "passing env method src_reg src n m first (p + 1) (k + 1) cs f1 s1"
    using s1(1,2) a c(3) ty f1(2) by (simp add: passing_def wide_param_def)
  then show ?thesis using fr(1)[folded s1_def] f0 f1(1) unfolding r_def by blast
qed

lemma CheckedArguments_loop_copies:
  assumes "passing env method src_reg src n m first p k cs f s"
  shows "map_option checked_outcome (CheckedArguments_loop env method src_reg n p (first + k) k f s)
    = map_option (copied_outcome n m src (n - first)) (check_params env method src (param_refs p k cs) s)"
  using assms
proof (induction cs arbitrary: p k f s)
  case Nil
  note a = Nil[unfolded passing_def]
  have "f = callee_frame n m (map (\<lambda>i. reg_of (frame s) (src i)) [0..<n - first])" using building_done[of n m "frame s" src first k f] a by auto
  then show ?case using a by (subst CheckedArguments_loop.simps) (simp add: checked_outcome_def copied_outcome_def)
next
  case (Cons c cs)
  note c = passing_Cons[OF Cons.prems]
  consider "wide_param c" | "c \<noteq> CHR ''L''" "\<not> wide_param c" | "c = CHR ''L''" "snd (reg_of (frame s) (src k)) = 0"
    | "c = CHR ''L''" "snd (reg_of (frame s) (src k)) \<noteq> 0" by blast
  then show ?case
  proof cases
    case 1
    moreover from this have "c \<noteq> CHR ''L''" by (auto simp: wide_param_def)
    ultimately show ?thesis using passing_wide[OF Cons.prems 1] Cons.IH[of "p + 1" "k + 2"] by fastforce
  next
    case 2
    then show ?thesis using passing_primitive[OF Cons.prems 2] Cons.IH[of "p + 1" "k + 1"] by fastforce
  next
    case 3
    then show ?thesis using passing_null[of env "method" src_reg src n m first p k cs f s] Cons.prems Cons.IH[of "p + 1" "k + 1"] by fastforce
  next
    case 4
    then obtain t fwd s1 f0 f1 where t: "call_out (ResolveParameterType (cal env) method p) s = Some (t, fwd, s1)" "VisitShadowFrame fwd f = Some f0"
        "SetVRegReference f0 (first + k) (visit fwd (snd (reg_of (frame s) (src k)))) = Some f1"
        "passing env method src_reg src n m first (p + 1) (k + 1) cs f1 s1"
      using passing_object[of env "method" src_reg src n m first p k cs f s] Cons.prems by blast
    show ?thesis
      using CheckedArguments_loop.simps[of env "method" src_reg n p "first + k" k f s] c 4 t(1-3) Cons.IH[OF t(4)]
      by (cases "call (Throw env InternalError) s1") (auto simp: checked_outcome_def copied_outcome_def Let_def)
  qed
qed

text \<open>What a call needs of its caller: the argument registers exist, the callee has room for its inputs and, with assignability checks,
  the arguments are what the shorty of the callee asks for.\<close>

definition param_types :: "'h env \<Rightarrow> nat \<Rightarrow> string" where
  "param_types env method = (if IsStaticMethod (cal env) method then [] else ''L'') @ tl (GetShorty (cal env) method)"

definition call_ready :: "bool \<Rightarrow> bool \<Rightarrow> 'h env \<Rightarrow> nat \<Rightarrow> u16 \<Rightarrow> u32 list \<Rightarrow> nat \<Rightarrow> 'h istate \<Rightarrow> bool" where
  "call_ready is_range do_assignability_check env m inputs arg vregC s \<longleftrightarrow>
     frame_ok (frame s) \<and> (IsStringConstructor (cal env) m \<longrightarrow> inputs \<noteq> 0) \<and> arg_reg is_range arg vregC 0 \<noteq> None
     \<and> (\<forall>i < unat inputs. \<exists>r < number_of_vregs (frame s). arg_reg is_range arg vregC i = Some r)
     \<and> call_inputs env m inputs \<le> callee_registers env (heap s) m inputs
     \<and> (do_assignability_check \<longrightarrow> param_words (param_types env (call_method env m)) = call_inputs env m inputs
         \<and> typed_args (frame s) (call_src is_range env m arg vregC) 0 (param_types env (call_method env m)))"

text \<open>The specification of a call: the checks, then the callee with its frame, then the string that a constructor has made.\<close>

definition call_spec :: "bool \<Rightarrow> bool \<Rightarrow> 'h env \<Rightarrow> nat \<Rightarrow> u16 \<Rightarrow> u32 list \<Rightarrow> nat \<Rightarrow> 'h istate \<Rightarrow> (bool \<times> 'h istate) option" where
  "call_spec is_range do_assignability_check env m inputs arg vregC s =
     (let method = call_method env m; n = callee_registers env (heap s) m inputs; k = call_inputs env m inputs;
          src = call_src is_range env m arg vregC; receiver = (if IsStaticMethod (cal env) method then 0 else 1);
          use_interpreter_entrypoint = UseInterpreterEntrypoint (cal env) (heap s) method
      in do {
        (ok, s) \<leftarrow> (if do_assignability_check
                    then check_params env method src (param_refs 0 receiver (tl (GetShorty (cal env) method))) s else Some (True, s));
        if \<not> ok then Some (False, s)
        else do {
          let f = callee_frame n method (map (\<lambda>i. reg_of (frame s) (src i)) [0..<k]);
          (result, s) \<leftarrow> call (PerformCall (cal env) (sf_method (frame s)) (n - k) f (result_register s) use_interpreter_entrypoint) s;
          fr \<leftarrow> (if IsStringConstructor (cal env) m \<and> exception s = 0
                 then SetStringInitValueToAllAliases (frame s) (the (arg_reg is_range arg vregC 0)) result else Some (frame s));
          Some (exception s = 0, s\<lparr>frame := fr, result_register := result\<rparr>)
        }
      })"

lemma CheckedArguments_copies:
  fixes env :: "'h env"
  assumes "frame_ok (frame s)" "param_words (param_types env method) = k" "k \<le> n"
    "\<And>i. i < k \<Longrightarrow> src_reg i = Some (src i) \<and> src i < number_of_vregs (frame s)" "typed_args (frame s) src 0 (param_types env method)"
  shows "map_option checked_outcome (CheckedArguments env method src_reg n (n - k) (ShadowFrame_new n m 0) s)
    = map_option (copied_outcome n m src k)
        (check_params env method src (param_refs 0 (if IsStaticMethod (cal env) method then 0 else 1) (tl (GetShorty (cal env) method))) s)"
proof -
  note new = building_new[of n m "frame s" src "n - k"] and nk = diff_diff_cancel[OF assms(3)]
  have tl: "drop (0 + 1) (GetShorty (cal env) method) = tl (GetShorty (cal env) method)" by (simp add: drop_Suc)
  show ?thesis
  proof (cases "IsStaticMethod (cal env) method")
    case True
    have "passing env method src_reg src n m (n - k) 0 0 (tl (GetShorty (cal env) method)) (ShadowFrame_new n m 0) s"
      unfolding passing_def using assms True new nk tl by (simp add: param_types_def)
    from CheckedArguments_loop_copies[OF this] show ?thesis using True nk by (simp add: CheckedArguments_def)
  next
    case False
    have k: "0 < k" using assms(2) False by (auto simp: param_types_def wide_param_def)
    have r: "reg_of (frame s) (src 0) = (snd (reg_of (frame s) (src 0)), snd (reg_of (frame s) (src 0)))"
      using assms(5) False by (simp add: param_types_def prod_eq_iff)
    obtain f1 where f1: "SetVRegReference (ShadowFrame_new n m 0) (n - k) (snd (reg_of (frame s) (src 0))) = Some f1"
        "building n m (frame s) src (n - k) (Suc 0) f1"
      using building_sets(2)[OF new _ r] k assms(3) by auto
    have "GetVRegReference (frame s) (src 0) = Some (snd (reg_of (frame s) (src 0)))"
      using assms(4)[OF k] assms(1) by (simp add: get_eqs reg_of_def)
    moreover have "passing env method src_reg src n m (n - k) 0 1 (tl (GetShorty (cal env) method)) f1 s"
      unfolding passing_def using assms False f1(2) nk tl by (simp add: param_types_def wide_param_def)
    from CheckedArguments_loop_copies[OF this] calculation show ?thesis using False nk k f1(1) assms(4)[OF k] by (simp add: CheckedArguments_def)
  qed
qed

lemma string_args: "arg_reg is_range arg vregC (i + 1) = Some r \<Longrightarrow> arg_reg is_range (tl arg @ [0]) (vregC + 1) i = Some r"
  by (cases arg) (auto simp: arg_reg_def arg_at_def nth_append split: if_splits)

lemma arguments_copied:
  assumes "frame_ok (frame s)" "k \<le> n" "\<And>i. i < k \<Longrightarrow> arg_reg is_range arg vregC i = Some (src i) \<and> src i < number_of_vregs (frame s)"
    and "check \<Longrightarrow> param_words (param_types env callee) = k \<and> typed_args (frame s) src 0 (param_types env callee)"
  shows "map_option checked_outcome (if check
      then CheckedArguments env callee (arg_reg is_range arg vregC) n (n - k) (ShadowFrame_new n callee 0) s
      else map_option (\<lambda>f. (True, f, s)) (CopyRegisters is_range (frame s) (ShadowFrame_new n callee 0) arg vregC (n - k) k))
    = map_option (copied_outcome n callee src k) (if check then check_params env callee src
        (param_refs 0 (if IsStaticMethod (cal env) callee then 0 else 1) (tl (GetShorty (cal env) callee))) s else Some (True, s))"
proof (cases check)
  case True
  then show ?thesis using CheckedArguments_copies[of s env callee k n "arg_reg is_range arg vregC" src callee] assms by simp
next
  case False
  then show ?thesis
    using CopyRegisters_loop_copies[of "frame s" "n - k" k n "arg_reg is_range arg vregC" src 0 callee] assms
      building_new[of n callee "frame s" src "n - k"]
    by (simp add: CopyRegisters_def checked_outcome_def copied_outcome_def)
qed

lemma call_ready_facts:
  assumes "call_ready is_range do_assignability_check env m inputs arg vregC s"
  defines "str \<equiv> IsStringConstructor (cal env) m"
  shows "unat (if str then inputs - 1 else inputs) = call_inputs env m inputs"
    "unat (if str \<and> GetCodeItem_registers_size (cal env) (call_method env m) = None
       then (case GetCodeItem_registers_size (cal env) (call_method env m) of
         Some r \<Rightarrow> if \<not> UseInterpreterEntrypoint (cal env) (heap s) (call_method env m) then inputs else r | None \<Rightarrow> inputs) - 1
       else (case GetCodeItem_registers_size (cal env) (call_method env m) of
         Some r \<Rightarrow> if \<not> UseInterpreterEntrypoint (cal env) (heap s) (call_method env m) then inputs else r | None \<Rightarrow> inputs))
     = callee_registers env (heap s) m inputs"
    "\<And>i. i < call_inputs env m inputs \<Longrightarrow>
       arg_reg is_range (if str then tl arg @ [0] else arg) (if str then vregC + 1 else vregC) i = Some (call_src is_range env m arg vregC i)
       \<and> call_src is_range env m arg vregC i < number_of_vregs (frame s)"
proof -
  note r = assms(1)[unfolded call_ready_def, folded str_def]
  have pred: "unat (inputs - 1) = unat inputs - 1" if str using that r by (simp add: unat_minus_one)
  then show "unat (if str then inputs - 1 else inputs) = call_inputs env m inputs" by (simp add: call_inputs_def str_def)
  show "unat (if str \<and> GetCodeItem_registers_size (cal env) (call_method env m) = None
       then (case GetCodeItem_registers_size (cal env) (call_method env m) of
         Some r \<Rightarrow> if \<not> UseInterpreterEntrypoint (cal env) (heap s) (call_method env m) then inputs else r | None \<Rightarrow> inputs) - 1
       else (case GetCodeItem_registers_size (cal env) (call_method env m) of
         Some r \<Rightarrow> if \<not> UseInterpreterEntrypoint (cal env) (heap s) (call_method env m) then inputs else r | None \<Rightarrow> inputs))
     = callee_registers env (heap s) m inputs"
    using pred by (auto simp: callee_registers_def call_inputs_def str_def split: option.splits)
  fix i :: nat
  let ?i = "if str then i + 1 else i"
  assume "i < call_inputs env m inputs"
  then have "?i < unat inputs" by (auto simp: call_inputs_def str_def)
  then obtain q where "arg_reg is_range arg vregC ?i = Some q" "q < number_of_vregs (frame s)" using r by blast
  then show "arg_reg is_range (if str then tl arg @ [0] else arg) (if str then vregC + 1 else vregC) i = Some (call_src is_range env m arg vregC i)
       \<and> call_src is_range env m arg vregC i < number_of_vregs (frame s)"
    using string_args[of is_range arg vregC i q] by (cases str) (auto simp: call_src_def str_def)
qed

text \<open>C12: A call passes its arguments.  It hands the callee a fresh frame of the method that it reaches, in which the last registers are
  exact copies of the argument registers of the caller, references included, and all others are zero; it stores the result of the
  callee and fails if the callee left an exception.  With assignability checks, the class of every parameter whose argument is an object
  is resolved first, and the call fails without the callee if that fails or the object is not an instance; the copies are those of the
  caller's registers after the objects have moved.  For a constructor of String, the factory gets the arguments behind the string under
  construction, and the new string replaces it.\<close>

theorem call_passes_arguments:
  assumes "call_ready is_range do_assignability_check env m inputs arg vregC s"
  shows "DoCallCommon is_range do_assignability_check env m inputs arg vregC s
    = call_spec is_range do_assignability_check env m inputs arg vregC s"
proof -
  define str where "str = IsStringConstructor (cal env) m"
  define k n src callee where "k = call_inputs env m inputs" and "n = callee_registers env (heap s) m inputs"
    and "src = call_src is_range env m arg vregC" and "callee = call_method env m"
  define arg' vregC' where "arg' = (if str then tl arg @ [0] else arg)" and "vregC' = (if str then vregC + 1 else vregC)"
  note r = assms[unfolded call_ready_def, folded str_def k_def n_def src_def callee_def]
  note facts = call_ready_facts[OF assms, folded str_def k_def n_def src_def callee_def, folded arg'_def vregC'_def]
  obtain this_reg where th: "arg_reg is_range arg vregC 0 = Some this_reg" using r by auto
  have k: "k \<le> n" using r by simp
  have me: "(if str then StringInitToStringFactory (cal env) m else m) = callee"
    by (simp add: callee_def call_method_def str_def)
  define args where "args = (if do_assignability_check
    then CheckedArguments env callee (arg_reg is_range arg' vregC') n (n - k) (ShadowFrame_new n callee 0) s
    else map_option (\<lambda>f. (True, f, s)) (CopyRegisters is_range (frame s) (ShadowFrame_new n callee 0) arg' vregC' (n - k) k))"
  define checks where "checks = (if do_assignability_check then check_params env callee src
      (param_refs 0 (if IsStaticMethod (cal env) callee then 0 else 1) (tl (GetShorty (cal env) callee))) s else Some (True, s))"
  have a: "map_option checked_outcome args = map_option (copied_outcome n callee src k) checks"
    unfolding args_def checks_def by (rule arguments_copied) (use r facts(3) k in auto)
  define perform where "perform = (\<lambda>f s1. do {
      (result, s) \<leftarrow> call (PerformCall (cal env) (sf_method (frame s1)) (n - k) f (result_register s1)
        (UseInterpreterEntrypoint (cal env) (heap s) callee)) s1;
      fr \<leftarrow> (if str \<and> exception s = 0 then SetStringInitValueToAllAliases (frame s) this_reg result else Some (frame s));
      Some (exception s = 0, s\<lparr>frame := fr, result_register := result\<rparr>)
    })"
  have "DoCallCommon is_range do_assignability_check env m inputs arg vregC s
      = (args \<bind> (\<lambda>(ok, f, s). if \<not> ok then Some (False, s) else perform f s))"
    unfolding DoCallCommon_def Let_def str_def[symmetric] me arg'_def[symmetric] vregC'_def[symmetric] facts(1,2) th args_def perform_def
    using k by simp
  also have "\<dots> = (map_option checked_outcome args \<bind> (\<lambda>(ok, f, s). case f of None \<Rightarrow> Some (False, s) | Some f \<Rightarrow> perform f s))"
    by (cases args) (auto simp: checked_outcome_def split: prod.splits)
  also have "\<dots> = (checks \<bind> (\<lambda>(ok, s). if \<not> ok then Some (False, s)
      else perform (callee_frame n callee (map (\<lambda>i. reg_of (frame s) (src i)) [0..<k])) s))"
    unfolding a by (cases checks) (auto simp: copied_outcome_def split: prod.splits)
  also have "\<dots> = call_spec is_range do_assignability_check env m inputs arg vregC s"
    unfolding call_spec_def checks_def perform_def Let_def str_def k_def n_def src_def callee_def th option.sel ..
  finally show ?thesis .
qed

text \<open>A call with an object and a \<open>long\<close>, while the resolution of the class moves every object by 32 bytes.\<close>

definition moving_env :: "unit env" where
  "moving_env = (quiet_env [])\<lparr>lnk := quiet_linker\<lparr>VerifierInstanceOf := \<lambda>_ _ _. True\<rparr>,
     cal := quiet_caller\<lparr>GetShorty := \<lambda>_. ''VLJ'', ResolveParameterType := \<lambda>_ _ h e. (3, h, \<lambda>r. r + 32, e),
       PerformCall := \<lambda>_ _ f _ _. quiet (horner_sum ucast 100 (take 3 (vregs f)))\<rparr>\<rparr>"

definition arg_state :: "unit istate" where
  "arg_state = \<lparr>frame = (ShadowFrame_new 3 0 0)\<lparr>vregs := [5, 7, 9, 5, 0, 0]\<rparr>, result_register = 0, inst = 0, exception = 0, heap = no_heap\<rparr>"

lemma moving_call: "map_option (\<lambda>(ok, s). (ok, result_register s)) (call_spec True True moving_env 3 3 [0, 0, 0, 0, 0] 0 arg_state) = Some (True, 90737)"
  by code_simp

theorem call_passes_arguments_witness:
  "call_ready True True moving_env 3 3 [0, 0, 0, 0, 0] 0 arg_state
   \<and> map_option (\<lambda>(ok, s). (ok, result_register s)) (DoCallCommon True True moving_env 3 3 [0, 0, 0, 0, 0] 0 arg_state) = Some (True, 90737)"
proof -
  have f: "frame_ok (frame arg_state)" "number_of_vregs (frame arg_state) = 3"
      "reg_of (frame arg_state) 0 = (5, 5)" "reg_of (frame arg_state) 1 = (7, 0)" "reg_of (frame arg_state) (Suc (Suc 0)) = (9, 0)"
    by (simp_all add: arg_state_def reg_of_def frame_ok_def ShadowFrame_new_def less_Suc_eq numeral_eq_Suc)
  have "call_ready True True moving_env 3 3 [0, 0, 0, 0, 0] 0 arg_state"
    using f by (simp add: call_ready_def moving_env_def quiet_env_def quiet_caller_def arg_reg_def call_inputs_def callee_registers_def
        call_method_def call_src_def param_types_def wide_param_def)
  then show ?thesis using call_passes_arguments moving_call by metis
qed

lemma SetStringInit_loop_updates:
  assumes "frame_ok f" "i \<le> number_of_vregs f"
  shows "\<exists>f'. SetStringInit_loop existing r i (number_of_vregs f) f = Some f' \<and> frame_ok f' \<and> number_of_vregs f' = number_of_vregs f
    \<and> (\<forall>j < number_of_vregs f. reg_of f' j = (if i \<le> j \<and> snd (reg_of f j) = existing then (r, r) else reg_of f j))"
  using assms
proof (induction existing r i "number_of_vregs f" f rule: SetStringInit_loop.induct)
  case (1 existing r i f)
  note step = SetStringInit_loop.simps[of existing r i "number_of_vregs f" f]
  show ?case
  proof (cases "i < number_of_vregs f")
    case True
    then have get: "GetVRegReference f i = Some (snd (reg_of f i))" using 1(2) by (simp add: get_eqs reg_of_def)
    obtain f1 where f1: "(if snd (reg_of f i) = existing then SetVRegReference f i r else Some f) = Some f1" "frame_ok f1"
        "number_of_vregs f1 = number_of_vregs f"
        "\<And>j. j < number_of_vregs f \<Longrightarrow> reg_of f1 j = (if j = i \<and> snd (reg_of f j) = existing then (r, r) else reg_of f j)"
    proof (cases "snd (reg_of f i) = existing")
      case eq: True
      obtain f1 where "SetVRegReference f i r = Some f1" using write_in_range(2)[OF 1(2) True] by blast
      then show ?thesis using that[of f1] eq frame_ok_SetVRegReference[OF 1(2)] set_ref_reads(1)[OF 1(2)] reg_of_set_ref[OF 1(2)] by auto
    next
      case False
      then show ?thesis using 1(2) by (intro that[of f]) auto
    qed
    obtain f' where "SetStringInit_loop existing r (i + 1) (number_of_vregs f) f1 = Some f'" "frame_ok f'" "number_of_vregs f' = number_of_vregs f1"
        "\<And>j. j < number_of_vregs f1 \<Longrightarrow> reg_of f' j = (if i + 1 \<le> j \<and> snd (reg_of f1 j) = existing then (r, r) else reg_of f1 j)"
      using 1(1)[OF True get f1(1) _ f1(2)] True f1(3) by auto
    then show ?thesis using step True get f1 by (auto simp: not_less_eq_eq dest!: le_antisym[of _ i])
  next
    case False
    then show ?thesis using step 1(2,3) by auto
  qed
qed

text \<open>C24: After a string constructor, every register that held the string under construction holds the new string, and no
  other register changes.\<close>

theorem string_init_updates_aliases:
  assumes "frame_ok f" "this < number_of_vregs f" "snd (reg_of f this) \<noteq> 0"
  shows "\<exists>f'. SetStringInitValueToAllAliases f this result = Some f' \<and> frame_ok f' \<and> number_of_vregs f' = number_of_vregs f
    \<and> (\<forall>j < number_of_vregs f. reg_of f' j =
         (if snd (reg_of f j) = snd (reg_of f this) then (JValue_GetL result, JValue_GetL result) else reg_of f j))"
proof -
  have "GetVRegReference f this = Some (snd (reg_of f this))" using assms by (simp add: get_eqs reg_of_def)
  then show ?thesis
    using SetStringInit_loop_updates[OF assms(1), of 0 "snd (reg_of f this)" "JValue_GetL result"] assms(3)
    by (simp add: SetStringInitValueToAllAliases_def)
qed

theorem string_init_updates_aliases_witness:
  "let f = (ShadowFrame_new 3 0 0)\<lparr>vregs := [5, 5, 5, 5, 0, 5]\<rparr>
   in \<exists>f'. SetStringInitValueToAllAliases f 0 7 = Some f' \<and> reg_of f' 0 = (7, 7) \<and> reg_of f' 1 = (5, 0) \<and> reg_of f' 2 = (7, 7)"
proof -
  define f where "f = (ShadowFrame_new 3 0 0)\<lparr>vregs := [5, 5, 5, 5, 0, 5]\<rparr>"
  have f: "frame_ok f" "number_of_vregs f = 3" "reg_of f 0 = (5, 5)" "reg_of f 1 = (5, 0)" "reg_of f 2 = (5, 5)"
    by (simp_all add: f_def frame_ok_def reg_of_def ShadowFrame_new_def less_Suc_eq numeral_eq_Suc)
  have "JValue_GetL 7 = 7" by (simp add: JValue_GetL_def)
  moreover obtain f' where "SetStringInitValueToAllAliases f 0 7 = Some f'"
      "\<And>j. j < 3 \<Longrightarrow> reg_of f' j = (if snd (reg_of f j) = 5 then (JValue_GetL 7, JValue_GetL 7) else reg_of f j)"
    using string_init_updates_aliases[OF f(1), of 0 7] f(2,3) by auto
  ultimately show ?thesis using f(3-5) unfolding f_def[symmetric] Let_def by (intro exI[of _ f']) simp
qed

section \<open>Structured locking\<close>

text \<open>The locks that a frame counts, as a multiset, with the state that entering and leaving a monitor may change.\<close>

definition held :: "ShadowFrame \<Rightarrow> ref multiset" where
  "held f = (case monitors f of None \<Rightarrow> {#} | Some ms \<Rightarrow> mset ms)"

definition locks :: "'h istate \<Rightarrow> ref multiset \<times> 'h mem \<times> ref" where
  "locks s = (held (frame s), heap s, exception s)"

datatype lock_op = Enter ref | Exit ref

text \<open>What the interpreter does for \<open>monitor-enter\<close> and \<open>monitor-exit\<close>.\<close>

primrec lock_step :: "'h env \<Rightarrow> lock_op \<Rightarrow> 'h istate \<Rightarrow> 'h istate option" where
  "lock_step env (Enter obj) s = DoMonitorEnter env obj s"
| "lock_step env (Exit obj) s = DoMonitorExit env obj s"

text \<open>The specification.  Entering or leaving a monitor may change the heap, raise an exception and move the objects, which the locks
  follow.  An enter counts a lock unless it raised an exception; an exit gives back one entry of a lock that is counted and
  otherwise throws in place of any other exception.\<close>

fun lock_spec :: "'h env \<Rightarrow> lock_op \<Rightarrow> ref multiset \<times> 'h mem \<times> ref \<Rightarrow> ref multiset \<times> 'h mem \<times> ref" where
  "lock_spec env (Enter obj) (M, h, e) =
     (case MonitorEnter env obj h e of (_, h, fwd, e) \<Rightarrow>
        (image_mset fwd M + (if e = 0 \<and> visit fwd obj \<noteq> 0 then {#visit fwd obj#} else {#}), h, e))"
| "lock_spec env (Exit obj) (M, h, e) =
     (case MonitorExit env obj h e of (_, h, fwd, e) \<Rightarrow>
        if visit fwd obj = 0 then (image_mset fwd M, h, e)
        else if visit fwd obj \<in># image_mset fwd M then (image_mset fwd M - {#visit fwd obj#}, h, e)
        else case Throw env (IllegalMonitorState (visit fwd obj)) h 0 of (_, h, fwd', e) \<Rightarrow> (image_mset fwd' (image_mset fwd M), h, e))"

text \<open>Leave each lock of \<open>todo\<close> once, with no exception pending: the addresses of all locks and the heap at the end.\<close>

function release_all :: "'h env \<Rightarrow> ref list \<Rightarrow> ref list \<Rightarrow> 'h mem \<Rightarrow> ref list \<times> 'h mem" where
  "release_all env released [] h = (released, h)"
| "release_all env released (obj # todo) h =
     (case MonitorExit env obj h 0 of (_, h, fwd, _) \<Rightarrow> release_all env (map fwd (released @ [obj])) (map fwd todo) h)"
  by pat_completeness auto
termination
  by (relation "measure (\<lambda>(env, released, todo, h). length todo)") auto

lemma release_all_length: "length (fst (release_all env released todo h)) = length released + length todo"
  by (induction env released todo h rule: release_all.induct) (auto split: prod.split)

primrec run_ops :: "('o \<Rightarrow> 's \<Rightarrow> 's option) \<Rightarrow> 'o list \<Rightarrow> 's \<Rightarrow> 's option" where
  "run_ops f [] s = Some s"
| "run_ops f (op # ops) s = f op s \<bind> run_ops f ops"

lemma call_out_locks:
  assumes "frame_ok (frame s)" "counts_locks env s" "f (heap s) (exception s) = (r, h, fwd, e)"
  shows "\<exists>s1. call_out f s = Some (r, fwd, s1) \<and> call f s = Some (r, s1) \<and> frame_ok (frame s1) \<and> counts_locks env s1
    \<and> heap s1 = h \<and> exception s1 = e \<and> monitors (frame s1) = map_option (map fwd) (monitors (frame s))"
proof -
  obtain fr where fr: "call_out f s = Some (r, fwd, s\<lparr>heap := h, exception := e, frame := fr\<rparr>)" "frame_ok fr"
      "fr = (frame s)\<lparr>vregs := vregs fr, monitors := map_option (map fwd) (monitors (frame s))\<rparr>"
    using call_out_regs[of s f, OF assms(1,3)] by blast
  have "monitors fr = map_option (map fwd) (monitors (frame s))" "sf_method fr = sf_method (frame s)" by (subst fr(3), simp)+
  then show ?thesis using fr(1,2) assms(2) by (simp add: call_def counts_locks_def)
qed

lemma held_visited: "monitors f' = map_option (map fwd) (monitors f) \<Longrightarrow> held f' = image_mset fwd (held f)"
  by (auto simp: held_def split: option.splits)

lemma AddMonitor_locks:
  "locks (AddMonitor obj s) = (held (frame s) + (if exception s = 0 \<and> obj \<noteq> 0 then {#obj#} else {#}), heap s, exception s)"
  "frame_ok (frame (AddMonitor obj s)) = frame_ok (frame s)" "counts_locks env (AddMonitor obj s) = counts_locks env s"
  by (auto simp: AddMonitor_def locks_def held_def counts_locks_def split: option.splits)

lemma RemoveMonitorOrThrow_locks:
  assumes "frame_ok (frame s)" "counts_locks env s"
  shows "\<exists>s'. RemoveMonitorOrThrow env obj s = Some s' \<and> frame_ok (frame s') \<and> counts_locks env s'
    \<and> locks s' = (if obj = 0 then locks s else if obj \<in># held (frame s) then (held (frame s) - {#obj#}, heap s, exception s)
        else case Throw env (IllegalMonitorState obj) (heap s) 0 of (_, h, fwd, e) \<Rightarrow> (image_mset fwd (held (frame s)), h, e))"
proof (cases "obj = 0 \<or> obj \<in># held (frame s)")
  case True
  then show ?thesis using assms by (auto simp: RemoveMonitorOrThrow_def locks_def held_def counts_locks_def split: option.splits)
next
  case False
  obtain h fwd e where t: "Throw env (IllegalMonitorState obj) (heap s) 0 = ((), h, fwd, e)" by (metis prod_cases4 unit.exhaust)
  obtain s1 where s1: "call (Throw env (IllegalMonitorState obj)) (s\<lparr>exception := 0\<rparr>) = Some ((), s1)" "frame_ok (frame s1)" "counts_locks env s1"
      "heap s1 = h" "exception s1 = e" "held (frame s1) = image_mset fwd (held (frame s))"
    using call_out_locks[of "s\<lparr>exception := 0\<rparr>" env "Throw env (IllegalMonitorState obj)"] assms t held_visited
    by (auto simp: counts_locks_def)
  have "RemoveMonitorOrThrow env obj s = Some s1"
    using False s1(1) by (auto simp: RemoveMonitorOrThrow_def held_def split: option.splits)
  then show ?thesis using False s1 t by (simp add: locks_def)
qed

lemma lock_step_refines:
  assumes "frame_ok (frame s)" "counts_locks env s"
  shows "\<exists>s'. lock_step env op s = Some s' \<and> frame_ok (frame s') \<and> counts_locks env s' \<and> locks s' = lock_spec env op (locks s)"
proof (cases op)
  case (Enter obj)
  obtain h fwd e where t: "MonitorEnter env obj (heap s) (exception s) = ((), h, fwd, e)" by (metis prod_cases4 unit.exhaust)
  obtain s1 where s1: "call_out (MonitorEnter env obj) s = Some ((), fwd, s1)" "frame_ok (frame s1)" "counts_locks env s1" "heap s1 = h"
      "exception s1 = e" "held (frame s1) = image_mset fwd (held (frame s))"
    using call_out_locks[of s env "MonitorEnter env obj", OF assms t] held_visited by blast
  then show ?thesis using Enter t AddMonitor_locks(1,2)[of "visit fwd obj" s1] AddMonitor_locks(3)[of env "visit fwd obj" s1]
    by (simp add: DoMonitorEnter_def locks_def)
next
  case (Exit obj)
  obtain h fwd e where t: "MonitorExit env obj (heap s) (exception s) = ((), h, fwd, e)" by (metis prod_cases4 unit.exhaust)
  obtain s1 where s1: "call_out (MonitorExit env obj) s = Some ((), fwd, s1)" "frame_ok (frame s1)" "counts_locks env s1" "heap s1 = h"
      "exception s1 = e" "held (frame s1) = image_mset fwd (held (frame s))"
    using call_out_locks[of s env "MonitorExit env obj", OF assms t] held_visited by blast
  obtain s' where s': "RemoveMonitorOrThrow env (visit fwd obj) s1 = Some s'" "frame_ok (frame s')" "counts_locks env s'"
      "locks s' = lock_spec env (Exit obj) (locks s)"
    using RemoveMonitorOrThrow_locks[OF s1(2,3), of "visit fwd obj"]
    unfolding locks_def[of s] lock_spec.simps t prod.case s1(4-6)[symmetric] locks_def[of s1] by blast
  then show ?thesis using Exit s1(1,3) by (simp add: DoMonitorExit_def)
qed

lemma run_locks_refines:
  "frame_ok (frame s) \<Longrightarrow> counts_locks env s \<Longrightarrow>
    \<exists>s'. run_ops (lock_step env) ops s = Some s' \<and> frame_ok (frame s') \<and> counts_locks env s' \<and> locks s' = fold (lock_spec env) ops (locks s)"
proof (induction ops arbitrary: s)
  case (Cons op ops)
  then show ?case using lock_step_refines[OF Cons.prems, of op] by fastforce
qed simp

lemma MonitorExit_loop_releases:
  assumes "frame_ok (frame s)" "counts_locks env s" "exception s = 0" "monitors (frame s) = Some (released @ todo)"
  shows "\<exists>s' ms. MonitorExit_loop env (length released) (length todo) s = Some s' \<and> frame_ok (frame s') \<and> counts_locks env s' \<and> exception s' = 0
    \<and> monitors (frame s') = Some ms \<and> release_all env released todo (heap s) = (ms, heap s')"
  using assms
proof (induction "length todo" arbitrary: s released todo)
  case (Suc n)
  obtain obj rest where todo: "todo = obj # rest" "length rest = n" using Suc(2) by (cases todo) auto
  obtain h fwd e where t: "MonitorExit env obj (heap s) (exception s) = ((), h, fwd, e)" by (metis prod_cases4 unit.exhaust)
  obtain s1 where s1: "call (MonitorExit env obj) s = Some ((), s1)" "frame_ok (frame s1)" "counts_locks env s1" "heap s1 = h"
      "monitors (frame s1) = map_option (map fwd) (monitors (frame s))"
    using call_out_locks[of s env "MonitorExit env obj", OF Suc.prems(1,2) t] by blast
  let ?s = "s1\<lparr>exception := 0\<rparr>" and ?r = "map fwd (released @ [obj])"
  have "\<exists>s' ms. MonitorExit_loop env (length ?r) (length (map fwd rest)) ?s = Some s' \<and> frame_ok (frame s') \<and> counts_locks env s' \<and> exception s' = 0
      \<and> monitors (frame s') = Some ms \<and> release_all env ?r (map fwd rest) (heap ?s) = (ms, heap s')"
    using s1 Suc.prems(4) todo by (intro Suc.hyps(1)) (auto simp: counts_locks_def)
  then show ?case using s1(1,4) Suc.prems(3,4) todo t by simp
qed simp

lemma DoMonitorCheckOnExit_releases:
  assumes "frame_ok (frame s)" "counts_locks env s"
  shows "if held (frame s) = {#} then DoMonitorCheckOnExit env s = Some (True, s)
    else \<exists>ms t. mset ms = held (frame s) \<and> DoMonitorCheckOnExit env s = Some (False, t)
      \<and> (case release_all env [] ms (heap s) of (ms', h) \<Rightarrow> case Throw env (IllegalMonitorState (hd ms')) h 0 of (_, h, _, e) \<Rightarrow> locks t = ({#}, h, e))"
proof (cases "held (frame s) = {#}")
  case True
  then show ?thesis using assms(2) by (auto simp: DoMonitorCheckOnExit_def CheckAllMonitorsReleasedOrThrow_def held_def split: option.splits)
next
  case False
  then obtain ms where ms: "monitors (frame s) = Some ms" "ms \<noteq> []" "mset ms = held (frame s)" by (auto simp: held_def split: option.splits)
  let ?s = "s\<lparr>exception := 0\<rparr>"
  obtain s1 ms1 where s1: "MonitorExit_loop env 0 (length ms) ?s = Some s1" "frame_ok (frame s1)" "counts_locks env s1" "exception s1 = 0"
      "monitors (frame s1) = Some ms1" "release_all env [] ms (heap s) = (ms1, heap s1)"
    using MonitorExit_loop_releases[of ?s env "[]" ms] assms ms(1) by (auto simp: counts_locks_def)
  have "ms1 \<noteq> []" using ms(2) release_all_length[of env "[]" ms "heap s"] s1(6) by auto
  then have hd: "ms1 ! 0 = hd ms1" by (simp add: hd_conv_nth)
  obtain h fwd e where t: "Throw env (IllegalMonitorState (hd ms1)) (heap s1) (exception s1) = ((), h, fwd, e)" by (metis prod_cases4 unit.exhaust)
  obtain s2 where s2: "call (Throw env (IllegalMonitorState (hd ms1))) s1 = Some ((), s2)" "heap s2 = h" "exception s2 = e"
    using call_out_locks[of s1 env "Throw env (IllegalMonitorState (hd ms1))", OF s1(2,3) t] by blast
  have "DoMonitorCheckOnExit env s = Some (False, s2\<lparr>frame := (frame s2)\<lparr>monitors := Some []\<rparr>\<rparr>)"
    using assms(2) ms(1,2) s1(1,5) s2(1) hd by (simp add: DoMonitorCheckOnExit_def CheckAllMonitorsReleasedOrThrow_def)
  then show ?thesis using False ms(3) s1(4,6) t s2(2,3) by (auto simp: locks_def held_def)
qed

text \<open>C11: The lock counting of the interpreter refines a multiset of locks, whatever entering and leaving a monitor does to the heap, the
  exception and the addresses of objects.  After any sequence of enters and exits, the frame counts the locks of the multiset: an
  enter that raised an exception counts nothing, an exit of a lock that is not counted throws, and the locks follow their objects.  The
  check at the end of the method succeeds if nothing is held; otherwise it leaves each lock as often as it is held, each time with no
  exception pending, throws, and leaves nothing counted.\<close>

theorem structured_locking:
  assumes "frame_ok (frame s)" "counts_locks env s"
  shows "\<exists>s'. run_ops (lock_step env) ops s = Some s' \<and> locks s' = fold (lock_spec env) ops (locks s)
    \<and> (if held (frame s') = {#} then DoMonitorCheckOnExit env s' = Some (True, s')
       else \<exists>ms t. mset ms = held (frame s') \<and> DoMonitorCheckOnExit env s' = Some (False, t)
         \<and> (case release_all env [] ms (heap s') of (ms', h) \<Rightarrow>
              case Throw env (IllegalMonitorState (hd ms')) h 0 of (_, h, _, e) \<Rightarrow> locks t = ({#}, h, e)))"
  using run_locks_refines[OF assms, of ops] DoMonitorCheckOnExit_releases by blast

definition counting_env :: "unit env" where
  "counting_env = (quiet_env [])\<lparr>do_access_check := True, MustCountLocks := \<lambda>_. True\<rparr>"

text \<open>An environment in which entering the object 7 fails and every exit leaves an exception.\<close>

definition failing_env :: "unit env" where
  "failing_env = counting_env\<lparr>MonitorEnter := \<lambda>obj h e. ((), h, id, if obj = 7 then 3 else e), MonitorExit := \<lambda>obj h e. ((), h, id, 3)\<rparr>"

theorem structured_locking_witness:
  "let s = byte_state 0
   in counts_locks failing_env s
      \<and> (\<exists>s' t. run_ops (lock_step failing_env) [Enter 5, Enter 5, Enter 7, Exit 5] s = Some s' \<and> held (frame s') = {#5#} \<and> exception s' = 3
          \<and> DoMonitorCheckOnExit failing_env s' = Some (False, t) \<and> exception t = 1 \<and> held (frame t) = {#})"
proof -
  have s: "counts_locks failing_env (byte_state 0)" "locks (byte_state 0) = ({#}, byte_heap, 0)"
    by (simp_all add: counts_locks_def failing_env_def counting_env_def quiet_env_def byte_state_def locks_def held_def ShadowFrame_new_def)
  let ?ops = "[Enter 5, Enter 5, Enter 7, Exit 5]"
  have l: "fold (lock_spec failing_env) ?ops (locks (byte_state 0)) = ({#5#}, byte_heap, 3)"
    unfolding s(2) by (simp add: failing_env_def counting_env_def visit_def)
  obtain s' where s': "run_ops (lock_step failing_env) ?ops (byte_state 0) = Some s'" "locks s' = ({#5#}, byte_heap, 3)"
      "if held (frame s') = {#} then DoMonitorCheckOnExit failing_env s' = Some (True, s')
       else \<exists>ms t. mset ms = held (frame s') \<and> DoMonitorCheckOnExit failing_env s' = Some (False, t)
         \<and> (case release_all failing_env [] ms (heap s') of (ms', h) \<Rightarrow>
              case Throw failing_env (IllegalMonitorState (hd ms')) h 0 of (_, h, _, e) \<Rightarrow> locks t = ({#}, h, e))"
    using structured_locking[OF byte_state_ok s(1), of ?ops] unfolding l by blast
  have h: "held (frame s') = {#5#}" "exception s' = 3" using s'(2) by (simp_all add: locks_def)
  have "Throw failing_env x h 0 = ((), h, id, 1)" for x h by (simp add: failing_env_def counting_env_def quiet_env_def)
  then obtain t where "DoMonitorCheckOnExit failing_env s' = Some (False, t)" "exception t = 1" "held (frame t) = {#}"
    using s'(3) h(1) by (auto simp: locks_def split: prod.splits)
  then show ?thesis using s'(1) h s(1) unfolding Let_def by blast
qed

section \<open>Returns\<close>

text \<open>The handling of an exception that a return raises does not stop the return.\<close>

lemma method_exit_returns: "method_exit reload result env pc s = Some r \<Longrightarrow> \<exists>v t. r = Return v t"
  by (auto simp: method_exit_def andThen_def bind_eq_Some_conv split: outcome.splits option.splits if_splits)

lemma andThen_returns: "(\<And>s r. k s = Some r \<Longrightarrow> \<exists>v t. r = Return v t) \<Longrightarrow> andThen m k = Some r \<Longrightarrow> \<exists>v t. r = Return v t"
  by (auto simp: andThen_def split: option.splits outcome.splits)

lemma return_handler_returns: "return_handler value env pc s = Some r \<Longrightarrow> \<exists>v t. r = Return v t"
  unfolding return_handler_def bind_eq_Some_conv by (auto elim!: andThen_returns[rotated] method_exit_returns)

lemma return_object_returns: "return_object env pc s = Some r \<Longrightarrow> \<exists>v t. r = Return v t"
proof -
  have r: "return_object_exit i obj env pc s = Some r \<Longrightarrow> \<exists>v t. r = Return v t" for i obj s r
    unfolding return_object_exit_def by (rule method_exit_returns)
  show "return_object env pc s = Some r \<Longrightarrow> ?thesis"
    unfolding return_object_def Let_def bind_eq_Some_conv
    by (auto simp: bind_eq_Some_conv elim!: andThen_returns[rotated] r split: if_splits)
qed

text \<open>A case of the interpreter that only ever returns.\<close>

definition ends :: "'h env \<Rightarrow> 'h handler \<Rightarrow> bool" where
  "ends env h \<longleftrightarrow> (\<exists>b. h = PREAMBLE b \<and> (\<forall>pc s r. b env pc s = Some r \<longrightarrow> (\<exists>v t. r = Return v t)))"

lemma endsI: "(\<And>pc s r. b env pc s = Some r \<Longrightarrow> \<exists>v t. r = Return v t) \<Longrightarrow> ends env (PREAMBLE b)"
  by (auto simp: ends_def)

lemma return_cases_end: "\<forall>(c, h) \<in> set return_cases. ends env h"
  by (simp only: return_cases_def ball_cases) (intro conjI TrueI endsI; erule return_handler_returns return_object_returns)

text \<open>C23: A return instruction always ends the method, even if the exception that its lock check raised has a handler in the same
  method and the interpreter has already moved to it.\<close>

theorem return_ends_method:
  fixes env :: "'h env"
  assumes "Opcode (cur env s) \<in> {RETURN_VOID, RETURN, RETURN_WIDE, RETURN_OBJECT, RETURN_VOID_NO_BARRIER}" "\<not> HasDexPcListeners (instr env) (heap s)"
    "step env s = Some r"
  shows "\<exists>v t. r = Return v t"
proof -
  have "Opcode (cur env s) \<in> fst ` set (return_cases :: (Code \<times> 'h handler) list)" using assms(1) by (simp add: return_cases_def) blast
  then obtain h :: "'h handler" where h: "(Opcode (cur env s), h) \<in> set return_cases" by force
  then obtain b where b: "h = PREAMBLE b" "\<And>pc s r. b env pc s = Some r \<Longrightarrow> \<exists>v t. r = Return v t"
    using bspec[OF return_cases_end[of env] h] by (auto simp: ends_def)
  have "step env s = b env (GetDexPc s) (stop_at (GetDexPc s) s)"
    using h b(1) assms(2) by (intro step_quiet) (simp_all add: instruction_cases_def)
  then show ?thesis using b(2) assms(3) by simp
qed

text \<open>\<open>return-void\<close> under a handler at 7 that ignores its exception, with the lock of the object 5 held.\<close>

definition handler_env :: "unit env" where
  "handler_env = counting_env\<lparr>insns := \<lambda>_. 0x000e, lnk := quiet_linker\<lparr>FindCatchBlock := \<lambda>_ _. quiet (7, True)\<rparr>\<rparr>"

definition locked_state :: "unit istate" where
  "locked_state = \<lparr>frame = (ShadowFrame_new 1 0 0)\<lparr>monitors := Some [5]\<rparr>, result_register = 0, inst = 0, exception = 0, heap = no_heap\<rparr>"

lemma handler_run: "(case step handler_env locked_state of Some r \<Rightarrow> (inst (final r), exception (final r)) | None \<Rightarrow> (0, 0)) = (7, 0)"
  by code_simp

theorem return_ends_method_witness:
  "Opcode (cur handler_env locked_state) = RETURN_VOID
   \<and> (\<exists>v t. step handler_env locked_state = Some (Return v t) \<and> inst t = 7 \<and> exception t = 0)"
proof -
  have o: "Opcode (cur handler_env locked_state) = RETURN_VOID" by code_simp
  have q: "\<not> HasDexPcListeners (instr handler_env) (heap locked_state)"
    by (simp add: handler_env_def counting_env_def quiet_env_def quiet_instrumentation_def)
  obtain r where r: "step handler_env locked_state = Some r" "inst (final r) = 7" "exception (final r) = 0"
    using handler_run by (auto split: option.splits)
  then show ?thesis using return_ends_method[OF _ q r(1)] o by auto
qed

end
