(* ===== verification/Catch_Handlers.thy ===== *)
theory Catch_Handlers
  imports Dex_File_Verifier Interpreter_Calls
begin

text \<open>
  How a pending exception finds its handler: \<open>ArtMethod::FindCatchBlock\<close> (\<open>art_method.cc\<close>) on the code
  items of \<open>Code_Item\<close>, and what the interpreter does with its answer.  The classes of the handlers come from the
  class linker, which is a service: it may move objects and raise exceptions of its own.
\<close>

section \<open>Finding the catch block\<close>

text \<open>The class of the exception is in a handle and follows the object.  \<open>fwd\<close> collects how objects moved.\<close>

function FindCatchBlock_loop ::
    "(u16 \<Rightarrow> ('h, ref) service) \<Rightarrow> ('h mem \<Rightarrow> ref \<Rightarrow> ref \<Rightarrow> bool) \<Rightarrow> memory \<Rightarrow> CatchHandlerIterator
       \<Rightarrow> ref \<Rightarrow> 'h mem \<Rightarrow> (ref \<Rightarrow> ref) \<Rightarrow> ref \<Rightarrow> u32 \<times> 'h mem \<times> (ref \<Rightarrow> ref) \<times> ref" where
  "FindCatchBlock_loop GetClassFromTypeIndex IsAssignableFrom m it exception_type h fwd e =
     (if HasNext it then
        if handler_type_idx it = 0xffff then (handler_address it, h, fwd, e)
        else
          (case GetClassFromTypeIndex (handler_type_idx it) h e of (iter_exception_type, h, fwd', e) \<Rightarrow>
             if iter_exception_type = 0 then
               FindCatchBlock_loop GetClassFromTypeIndex IsAssignableFrom m (Next m it)
                 (visit fwd' exception_type) h (visit fwd' \<circ> fwd) 0
             else if IsAssignableFrom h iter_exception_type (visit fwd' exception_type) then
               (handler_address it, h, visit fwd' \<circ> fwd, e)
             else
               FindCatchBlock_loop GetClassFromTypeIndex IsAssignableFrom m (Next m it)
                 (visit fwd' exception_type) h (visit fwd' \<circ> fwd) e)
      else (kDexNoIndex, h, fwd, e))"
  by pat_completeness auto
termination
  by (relation "measure (\<lambda>(_, _, _, it, _). iterations it)") (auto simp: Next_fewer)

declare FindCatchBlock_loop.simps [simp del]

text \<open>The answer is the address of the handler and whether the exception is to be cleared; the caller passes false in
  \<open>has_no_move_exception\<close>.\<close>

definition ArtMethod_FindCatchBlock ::
    "(u16 \<Rightarrow> ('h, ref) service) \<Rightarrow> ('h mem \<Rightarrow> ref \<Rightarrow> ref \<Rightarrow> bool) \<Rightarrow> CodeItem \<Rightarrow> ref \<Rightarrow> u32 \<Rightarrow> ('h, u32 \<times> bool) service" where
  "ArtMethod_FindCatchBlock GetClassFromTypeIndex IsAssignableFrom code_item exception_type pc h e =
     (case FindCatchBlock_loop GetClassFromTypeIndex IsAssignableFrom (file_bytes code_item)
             (CatchHandlerIterator_address code_item pc) exception_type h id 0 of
        (found_dex_pc, h, fwd, e') \<Rightarrow>
          ((found_dex_pc,
            if found_dex_pc \<noteq> kDexNoIndex
            then Opcode (\<lambda>i. code_insns code_item (unat found_dex_pc + i)) \<noteq> MOVE_EXCEPTION else False),
           h, fwd, if e \<noteq> 0 then visit fwd e else e'))"

section \<open>Which handler it is\<close>

text \<open>The handlers for an address, by going through the try items one by one.\<close>

definition handlers_for :: "CodeItem \<Rightarrow> u32 \<Rightarrow> (u16 \<times> u32) list" where
  "handlers_for ci pc =
     (case find (\<lambda>i. covers (try_item ci i) pc) [0..<unat (tries_size ci)] of
        None \<Rightarrow> []
      | Some i \<Rightarrow> fst (handlers_at (file_bytes ci) (GetCatchHandlerData ci (unat (handler_off (try_item ci i))))))"

definition catches :: "(u16 \<Rightarrow> ref) \<Rightarrow> (ref \<Rightarrow> ref \<Rightarrow> bool) \<Rightarrow> ref \<Rightarrow> u16 \<times> u32 \<Rightarrow> bool" where
  "catches cls is_super exception_type h \<longleftrightarrow>
     fst h = kDexNoIndex16 \<or> cls (fst h) \<noteq> 0 \<and> is_super (cls (fst h)) exception_type"

text \<open>Resolution that neither moves objects nor changes the heap: it raises an exception at most where it finds no
  class.\<close>

definition resolves_to :: "(u16 \<Rightarrow> ('h, ref) service) \<Rightarrow> (u16 \<Rightarrow> ref) \<Rightarrow> bool" where
  "resolves_to G cls \<longleftrightarrow> (\<forall>t h e. \<exists>e'. G t h e = (cls t, h, id, e') \<and> (cls t \<noteq> 0 \<longrightarrow> e' = e))"

lemma visit_id [simp]: "visit id = id"
  by (auto simp: visit_def)

lemma FindCatchBlock_loop_first:
  assumes "resolves_to G cls"
  shows "FindCatchBlock_loop G A m it x h id 0 =
    (case find (catches cls (A h) x) (fst (all_handlers m it)) of None \<Rightarrow> kDexNoIndex | Some (t, a) \<Rightarrow> a, h, id, 0)"
proof (induction m it rule: all_handlers.induct)
  case (1 m it)
  note l = FindCatchBlock_loop.simps[of G A m it x h id 0] and a = all_handlers.simps[of m it]
  obtain e' where g: "G (handler_type_idx it) h 0 = (cls (handler_type_idx it), h, id, e')" "cls (handler_type_idx it) \<noteq> 0 \<longrightarrow> e' = 0"
    using assms unfolding resolves_to_def by blast
  show ?case
  proof (cases "HasNext it")
    case True
    then have h: "fst (all_handlers m it) = (handler_type_idx it, handler_address it) # fst (all_handlers m (Next m it))"
      by (simp add: a split: prod.split)
    have "FindCatchBlock_loop G A m it x h id 0 =
        (if handler_type_idx it = kDexNoIndex16 then (handler_address it, h, id, 0)
         else if cls (handler_type_idx it) = 0 then FindCatchBlock_loop G A m (Next m it) x h id 0
         else if A h (cls (handler_type_idx it)) x then (handler_address it, h, id, 0)
         else FindCatchBlock_loop G A m (Next m it) x h id 0)"
      unfolding l by (simp add: True g kDexNoIndex16_def)
    then show ?thesis unfolding 1[OF True] h
      by (auto simp only: find.simps catches_def[of _ _ _ "(_, _)"] fst_conv option.case prod.case split: if_splits)
  qed (simp only: l a if_False fst_conv find.simps option.case)
qed

lemma handlers_for_none:
  assumes "\<And>i. i < unat (tries_size ci) \<Longrightarrow> \<not> covers (try_item ci i) pc"
  shows "handlers_for ci pc = []"
proof -
  have "find (\<lambda>i. covers (try_item ci i) pc) [0..<unat (tries_size ci)] = None" using assms by (simp add: find_None_iff)
  then show ?thesis by (simp add: handlers_for_def)
qed

lemma all_handlers_for:
  assumes "tries_ordered ci" "\<And>i. i < unat (tries_size ci) \<Longrightarrow> handler_list_at v ci (unat (handler_off (try_item ci i)))"
  shows "fst (all_handlers (file_bytes ci) (CatchHandlerIterator_address ci pc)) = handlers_for ci pc"
proof (cases "\<exists>i < unat (tries_size ci). covers (try_item ci i) pc")
  case True
  then obtain i where i: "i < unat (tries_size ci)" "covers (try_item ci i) pc" by blast
  have "find (\<lambda>i. covers (try_item ci i) pc) [0..<unat (tries_size ci)] = Some i"
    unfolding find_Some_iff
  proof (intro exI[of _ i] conjI allI impI notI)
    fix j assume j: "j < i" "covers (try_item ci ([0..<unat (tries_size ci)] ! j)) pc"
    then show False using covers_unique[OF assms(1) _ i(1) _ i(2), of j] i(1) by simp
  qed (use i in simp_all)
  then show ?thesis using handler_list_handlers[OF assms(2)[OF i(1)]]
    by (simp add: handlers_for_def CatchHandlerIterator_address_covers[OF assms(1) i])
next
  case False
  then show ?thesis using CatchHandlerIterator_address_none[OF assms(1), of pc] handlers_for_none[of ci pc]
    by (simp add: all_handlers.simps)
qed

lemma handlers_for_valid:
  assumes "\<And>i. i < unat (tries_size ci) \<Longrightarrow> handler_list_at v ci (unat (handler_off (try_item ci i)))" "(t, a) \<in> set (handlers_for ci pc)"
  shows "a < insns_size_in_code_units ci"
proof -
  obtain i where i: "i < unat (tries_size ci)"
      "handlers_for ci pc = fst (handlers_at (file_bytes ci) (GetCatchHandlerData ci (unat (handler_off (try_item ci i)))))"
    using assms(2) unfolding handlers_for_def
    by (cases "find (\<lambda>i. covers (try_item ci i) pc) [0..<unat (tries_size ci)]") (auto simp: find_Some_iff)
  show ?thesis using assms(1)[OF i(1)] assms(2) unfolding i(2) by (auto simp: handler_list_at_def handlers_valid_def Let_def)
qed

lemma found_handler:
  assumes "file_size v < 2 ^ 32" "type_ids_size v \<le> 0xffff" "CheckIntraCodeItem v ci = Inr q"
    and "find P (handlers_for ci pc) = Some (t, a)"
  shows "a \<noteq> kDexNoIndex"
proof -
  have "(t, a) \<in> set (handlers_for ci pc)" using assms(4) by (auto simp: find_Some_iff in_set_conv_nth)
  then have "a < insns_size_in_code_units ci"
    using handlers_for_valid[of ci v t a pc] CheckIntraCodeItem_accepts[OF assms(1-3)] by blast
  then show ?thesis
    using unsigned_less[where ?'a = nat, of "insns_size_in_code_units ci"] by (auto simp: kDexNoIndex_def word_less_nat_alt)
qed

lemma FindCatchBlock_first:
  assumes "file_size v < 2 ^ 32" "type_ids_size v \<le> 0xffff" "CheckIntraCodeItem v ci = Inr q" "resolves_to G cls"
  shows "ArtMethod_FindCatchBlock G A ci x pc h e =
    (case find (catches cls (A h) x) (handlers_for ci pc) of
       None \<Rightarrow> (kDexNoIndex, False)
     | Some (t, a) \<Rightarrow> (a, Opcode (\<lambda>i. code_insns ci (unat a + i)) \<noteq> MOVE_EXCEPTION), h, id, e)"
proof -
  have f: "fst (all_handlers (file_bytes ci) (CatchHandlerIterator_address ci pc)) = handlers_for ci pc"
    by (rule all_handlers_for[where v = v]) (use CheckIntraCodeItem_accepts[OF assms(1-3)] in blast)+
  show ?thesis
  proof (cases "find (catches cls (A h) x) (handlers_for ci pc)")
    case None
    then show ?thesis unfolding ArtMethod_FindCatchBlock_def FindCatchBlock_loop_first[OF assms(4)] f by simp
  next
    case (Some y)
    then obtain t a where y: "find (catches cls (A h) x) (handlers_for ci pc) = Some (t, a)" by (cases y) auto
    show ?thesis unfolding ArtMethod_FindCatchBlock_def FindCatchBlock_loop_first[OF assms(4)] f y
      using found_handler[OF assms(1-3) y] by simp
  qed
qed

lemma call_still:
  "frame_ok (frame s) \<Longrightarrow> g (heap s) (exception s) = (r, heap s, id, exception s) \<Longrightarrow> call g s = Some (r, s)"
  by (simp add: call_def call_out_def VisitShadowFrame_id)

lemma FindNextInstruction_answer:
  assumes "\<not> HasExceptionCaughtListeners (instr env) (heap s)" "exception s \<noteq> 0"
    and "call (FindCatchBlock (lnk env) (GetClass (lnk env) (heap s) (exception s)) pc) s = Some ((a, clear), s)"
  shows "FindNextInstructionFollowingException env True pc s =
    (if a = kDexNoIndex then map_option (\<lambda>(_, s). (a, s)) (call (MethodUnwindEvent (instr env) pc) s)
     else Some (a, if clear then s\<lparr>exception := 0\<rparr> else s))"
  using assms by (simp add: FindNextInstructionFollowingException_def Let_def)

text \<open>C10: An exception that is pending in a method whose code item the dex file verifier accepts goes to the first handler, in
  the order of the handler list of the try item that covers the instruction, that catches everything or whose class is a
  superclass of the exception's; a handler whose class cannot be resolved is passed over.  The exception stays pending
  exactly if the handler starts with \<open>move-exception\<close>, and it stays pending if there is no handler.\<close>

theorem exception_goes_to_first_handler:
  fixes env :: "'h env"
  assumes "file_size v < 2 ^ 32" "type_ids_size v \<le> 0xffff" "CheckIntraCodeItem v ci = Inr q"
    and "resolves_to G cls" "FindCatchBlock (lnk env) = ArtMethod_FindCatchBlock G A ci"
    and "\<not> HasExceptionCaughtListeners (instr env) (heap s)" "exception s \<noteq> 0" "frame_ok (frame s)"
  shows "FindNextInstructionFollowingException env True pc s =
    (case find (catches cls (A (heap s)) (GetClass (lnk env) (heap s) (exception s))) (handlers_for ci pc) of
       None \<Rightarrow> map_option (\<lambda>(_, s). (kDexNoIndex, s)) (call (MethodUnwindEvent (instr env) pc) s)
     | Some (t, a) \<Rightarrow>
         Some (a, if Opcode (\<lambda>i. code_insns ci (unat a + i)) = MOVE_EXCEPTION then s else s\<lparr>exception := 0\<rparr>))"
proof -
  let ?x = "GetClass (lnk env) (heap s) (exception s)"
  let ?f = "find (catches cls (A (heap s)) ?x) (handlers_for ci pc)"
  have c: "call (FindCatchBlock (lnk env) ?x pc) s = Some (case ?f of
       None \<Rightarrow> (kDexNoIndex, False)
     | Some (t, a) \<Rightarrow> (a, Opcode (\<lambda>i. code_insns ci (unat a + i)) \<noteq> MOVE_EXCEPTION), s)"
    unfolding assms(5) by (rule call_still[OF assms(8)]) (rule FindCatchBlock_first[OF assms(1-4)])
  note answer = FindNextInstruction_answer[OF assms(6,7)]
  show ?thesis
  proof (cases ?f)
    case None
    then show ?thesis using answer[OF c[unfolded None option.case]] by simp
  next
    case (Some y)
    then obtain t a where y: "?f = Some (t, a)" by (cases y) auto
    show ?thesis unfolding y using answer[OF c[unfolded y option.case prod.case]] found_handler[OF assms(1-3) y] by simp
  qed
qed

definition sample_class :: "u16 \<Rightarrow> ref" where
  "sample_class t = (if t = 5 then 7 else 0)"

definition catching_env :: "ref \<Rightarrow> unit env" where
  "catching_env class_of_exception = (quiet_env [])\<lparr>insns := \<lambda>pc. code_insns sample_item (nat pc), lnk := quiet_linker\<lparr>
     FindCatchBlock := ArtMethod_FindCatchBlock (\<lambda>t. quiet (sample_class t)) (\<lambda>_ super c. super = c) sample_item,
     GetClass := \<lambda>_ _. class_of_exception\<rparr>\<rparr>"

definition throwing_state :: "unit istate" where
  "throwing_state = \<lparr>frame = ShadowFrame_new 2 0 0, result_register = 0, inst = 0, exception = 42, heap = no_heap\<rparr>"

lemma sample_handlers: "handlers_for sample_item 0 = [(5, 1), (0xffff, 1)]" "handlers_for sample_item 1 = []"
proof -
  have d: "DecodeSignedLeb128 sample_file 29 = (-1, 30)" "DecodeUnsignedLeb128 sample_file 30 = (5, 31)"
    "DecodeUnsignedLeb128 sample_file 31 = (1, 32)" "DecodeUnsignedLeb128 sample_file 32 = (1, 33)"
    using sample_decode by (auto dest: checked_Some)
  show "handlers_for sample_item 0 = [(5, 1), (0xffff, 1)]"
    by (simp add: handlers_for_def sample_item_fields covers_def handlers_at_def read_handlers_def d kDexNoIndex16_def)
  show "handlers_for sample_item 1 = []"
    by (simp add: handlers_for_def sample_item_fields covers_def)
qed

theorem exception_goes_to_first_handler_witness:
  "FindNextInstructionFollowingException (catching_env 7) True 0 throwing_state = Some (1, throwing_state\<lparr>exception := 0\<rparr>)
   \<and> FindNextInstructionFollowingException (catching_env 7) True 1 throwing_state = Some (kDexNoIndex, throwing_state)"
proof -
  have r: "resolves_to (\<lambda>t. quiet (sample_class t) :: (unit, ref) service) sample_class" by (simp add: resolves_to_def quiet_def)
  have k: "frame_ok (frame throwing_state)" by (simp add: throwing_state_def frame_ok_new)
  have o: "Opcode (\<lambda>i. code_insns sample_item (Suc i)) \<noteq> MOVE_EXCEPTION"
    by (simp add: Opcode_def Fetch16_def code_insns_def sample_item_fields Load16_def sample_file_def)
  have v: "file_size sample_verifier < 2 ^ 32" "type_ids_size sample_verifier \<le> 0xffff" by (simp_all add: sample_verifier_def)
  have e: "FindCatchBlock (lnk (catching_env 7)) = ArtMethod_FindCatchBlock (\<lambda>t. quiet (sample_class t)) (\<lambda>_ super c. super = c) sample_item"
    "GetClass (lnk (catching_env 7)) = (\<lambda>_ _. 7)" "instr (catching_env 7) = quiet_instrumentation"
    by (simp_all add: catching_env_def quiet_env_def)
  have l: "\<not> HasExceptionCaughtListeners (instr (catching_env 7)) (heap throwing_state)" "exception throwing_state \<noteq> 0"
    by (simp_all add: e quiet_instrumentation_def throwing_state_def)
  have u: "call (MethodUnwindEvent quiet_instrumentation 1) throwing_state = Some ((), throwing_state)"
    by (rule call_still[OF k]) (simp add: quiet_instrumentation_def quiet_def)
  note t = exception_goes_to_first_handler[OF v sample_accepted r e(1) l k, unfolded e]
  show ?thesis using t[of 0] t[of 1] o u by (simp add: sample_handlers catches_def sample_class_def)
qed

end
