(* ===== verification/Verified_Execution.thy ===== *)
theory Verified_Execution
  imports Verifier_Progress Catch_Handlers
begin

text \<open>
  The verifiers and the interpreter together.  The dex file verifier (\<open>Dex_File_Verifier\<close>) accepts a code item, the static checks of
  the method verifier (\<open>Method_Verifier\<close>) succeed on it, and the interpreter (\<open>Interpreter_Switch\<close>) runs it with the handlers that
  \<open>ArtMethod::FindCatchBlock\<close> (\<open>Catch_Handlers\<close>) finds.  The lemmas follow an instruction to the next one: along a branch, a
  switch, an exception, or to the instruction behind it.
\<close>

section \<open>Where the interpreter goes\<close>

lemma call_inst: "call f s = Some (r, s') \<Longrightarrow> inst s' = inst s" "call_out f s = Some (r, fwd, s') \<Longrightarrow> inst s' = inst s"
  by (auto simp: call_def call_out_def split: prod.splits)

lemma BRANCH_INSTRUMENTATION_inst: "BRANCH_INSTRUMENTATION off env pc s = Some (Continue s') \<Longrightarrow> inst s' = inst s"
  by (auto simp: BRANCH_INSTRUMENTATION_def bind_eq_Some_conv split: if_splits option.splits dest!: call_inst)

lemma HANDLE_BACKWARD_BRANCH_inst: "HANDLE_BACKWARD_BRANCH off env pc s = Some (Continue s') \<Longrightarrow> inst s' = inst s"
  by (auto simp: HANDLE_BACKWARD_BRANCH_def HOTNESS_UPDATE_def bind_eq_Some_conv stop_at_def split: if_splits dest!: call_inst)

lemma andThen_Continue: "andThen m k = Some (Continue s') \<longleftrightarrow> (\<exists>s. m = Some (Continue s) \<and> k s = Some (Continue s'))"
  by (auto simp: andThen_def split: option.splits outcome.splits)

lemma branch_to_inst: "branch_to off env pc s = Some (Continue s') \<Longrightarrow> inst s' = inst s + sint off"
  by (auto simp: branch_to_def andThen_Continue RelativeAt_inst_def dest!: BRANCH_INSTRUMENTATION_inst HANDLE_BACKWARD_BRANCH_inst)

lemma branch_if_inst: "branch_if t off env pc s = Some (Continue s') \<Longrightarrow> inst s' = inst s + sint off \<or> inst s' = inst s + 2"
  by (auto simp: branch_if_def andThen_Continue Next_units_def split: if_splits dest!: branch_to_inst BRANCH_INSTRUMENTATION_inst)

lemma HANDLE_caught:
  assumes "HANDLE_PENDING_EXCEPTION env (GetDexPc s) s = Some (Continue s')" "frame_ok (frame s)"
  shows "caught_at env (inst s) (inst s')"
proof -
  let ?n = "number_of_vregs (frame s)" and ?m = "sf_method (frame s)"
  have "shape.at ?n ?m (inst s) s" using assms(2) by (simp add: frame_shape_def)
  note h = shape.HANDLE_keeps[OF this, of env _ True]
  have "inst s' = inst s + int k \<or> caught_at env (inst s) (inst s')" for k
    using h[of "Some k"] assms(1) by (simp add: holds_def shape.kept_def GetDexPc_def)
  from this[of 0] this[of 1] show ?thesis by auto
qed

lemma DoDexPcMoveEvent_inst: "DoDexPcMoveEvent env b pc s = Some (ok, s') \<Longrightarrow> inst s' = inst s"
  by (auto simp: DoDexPcMoveEvent_def Let_def bind_eq_Some_conv split: if_splits dest!: call_inst)

lemma DoDexPcMoveEvent_ok:
  assumes "DoDexPcMoveEvent env b pc s = Some (ok, s')" "frame_ok (frame s)"
  shows "frame_ok (frame s')"
  using shape.DoDexPcMoveEvent_keeps[of "number_of_vregs (frame s)" "sf_method (frame s)" s "inst s" env b pc] assms
  by (simp add: holds_def frame_shape_def)

lemma PREAMBLE_Continue:
  assumes "PREAMBLE h env (GetDexPc s) s = Some (Continue s')" "frame_ok (frame s)"
  shows "caught_at env (inst s) (inst s') \<or> (\<exists>s1. h env (GetDexPc s) s1 = Some (Continue s') \<and> inst s1 = inst s)"
proof (cases "HasDexPcListeners (instr env) (heap s)")
  case True
  then obtain ok s1 where d: "DoDexPcMoveEvent env False (GetDexPc s) s = Some (ok, s1)"
    and r: "(if ok then h env (GetDexPc s) s1 else HANDLE_PENDING_EXCEPTION env (GetDexPc s) s1) = Some (Continue s')"
    using assms(1) by (auto simp: PREAMBLE_SAVE_def bind_eq_Some_conv)
  have i: "inst s1 = inst s" "GetDexPc s1 = GetDexPc s" using DoDexPcMoveEvent_inst[OF d] by (auto simp: GetDexPc_def)
  have "frame_ok (frame s1)" using DoDexPcMoveEvent_ok[OF d assms(2)] .
  then show ?thesis using r i HANDLE_caught[of env s1 s'] by (cases ok) auto
next
  case False
  then show ?thesis using assms(1) by (auto simp: PREAMBLE_SAVE_def)
qed

lemma step_body:
  fixes env :: "'h env" and h :: "'h handler"
  assumes "step env s = Some (Continue s')" "frame_ok (frame s)" "(Opcode (cur env s), PREAMBLE h) \<in> set (instruction_cases (fp env))"
    "\<not> caught_at env (inst s) (inst s')"
  shows "\<exists>s1. h env (GetDexPc s) s1 = Some (Continue s') \<and> inst s1 = inst s \<and> cur env s1 = cur env s"
proof -
  have "GetDexPc (stop_at (GetDexPc s) s) = GetDexPc s" "frame_ok (SetDexPC (GetDexPc s) (frame s))"
    using assms(2) by (simp_all add: GetDexPc_def)
  then show ?thesis
    using PREAMBLE_Continue[of h env "stop_at (GetDexPc s) s" s'] step_case[OF assms(3)] assms(1,4) by (auto simp: cur_def)
qed

text \<open>The offset of a branch, as the interpreter reads it.\<close>

definition branch_offset :: "Instruction \<Rightarrow> u32" where
  "branch_offset i =
     (if Opcode i = GOTO then scast (VRegA_10t (i 0))
      else if Opcode i = GOTO_16 then scast (VRegA_20t i)
      else if Opcode i = GOTO_32 then VRegA_30t i
      else scast (i 1))"

lemma flow_cases:
  "x \<in> set goto_cases \<Longrightarrow> x \<in> set (instruction_cases m)" "x \<in> set if_cases \<Longrightarrow> x \<in> set (instruction_cases m)"
  "x \<in> set ifz_cases \<Longrightarrow> x \<in> set (instruction_cases m)"
  unfolding instruction_cases_def by simp_all

lemma step_branch:
  fixes env :: "'h env"
  assumes "step env s = Some (Continue s')" "frame_ok (frame s)" "Opcode (cur env s) \<in> set branch_codes" "\<not> caught_at env (inst s) (inst s')"
  shows "inst s' = inst s + sint (branch_offset (cur env s)) \<or> inst s' = inst s + 2 \<and> Opcode (cur env s) \<notin> {GOTO, GOTO_16, GOTO_32}"
proof -
  let ?c = "Opcode (cur env s)"
  have goto: "inst s' = inst s + sint (off (cur env s))" if "(?c, PREAMBLE (goto off) :: 'h handler) \<in> set (instruction_cases (fp env))" for off
    using step_body[OF assms(1,2) that assms(4)] by (auto simp: goto_def dest: branch_to_inst)
  have if2: "inst s' = inst s + sint (scast (cur env s 1) :: u32) \<or> inst s' = inst s + 2"
    if "(?c, PREAMBLE (if_op rel) :: 'h handler) \<in> set (instruction_cases (fp env))" for rel
    using step_body[OF assms(1,2) that assms(4)] by (auto simp: if_op_def bind_eq_Some_conv VRegC_22t_def Fetch16_def dest!: branch_if_inst)
  have if1: "inst s' = inst s + sint (scast (cur env s 1) :: u32) \<or> inst s' = inst s + 2"
    if "(?c, PREAMBLE (ifz_op rel) :: 'h handler) \<in> set (instruction_cases (fp env))" for rel
    using step_body[OF assms(1,2) that assms(4)] by (auto simp: ifz_op_def bind_eq_Some_conv VRegB_21t_def Fetch16_def dest!: branch_if_inst)
  consider "?c = GOTO" | "?c = GOTO_16" | "?c = GOTO_32" | "\<exists>rel. (?c, PREAMBLE (if_op rel) :: 'h handler) \<in> set if_cases" "?c \<notin> {GOTO, GOTO_16, GOTO_32}"
    | "\<exists>rel. (?c, PREAMBLE (ifz_op rel) :: 'h handler) \<in> set ifz_cases" "?c \<notin> {GOTO, GOTO_16, GOTO_32}"
    using assms(3) by (auto simp: branch_codes_def if_cases_def ifz_cases_def)
  then show ?thesis
  proof cases
    case 1 then show ?thesis using goto[OF flow_cases(1), of "\<lambda>i. scast (VRegA_10t (i 0))"] by (simp add: branch_offset_def goto_cases_def)
  next
    case 2 then show ?thesis using goto[OF flow_cases(1), of "\<lambda>i. scast (VRegA_20t i)"] by (simp add: branch_offset_def goto_cases_def)
  next
    case 3 then show ?thesis using goto[OF flow_cases(1), of VRegA_30t] by (simp add: branch_offset_def goto_cases_def)
  next
    case 4 then show ?thesis using if2[OF flow_cases(2)] by (auto simp: branch_offset_def)
  next
    case 5 then show ?thesis using if1[OF flow_cases(3)] by (auto simp: branch_offset_def)
  qed
qed

lemma step_switch:
  fixes env :: "'h env"
  assumes "step env s = Some (Continue s')" "frame_ok (frame s)" "Opcode (cur env s) \<in> {PACKED_SWITCH, SPARSE_SWITCH}"
    "\<not> caught_at env (inst s) (inst s')"
  shows "\<exists>x. inst s' = inst s + sint ((if Opcode (cur env s) = PACKED_SWITCH then DoPackedSwitch else DoSparseSwitch) (payload_of env s) x)"
proof -
  have sw: "\<exists>x. inst s' = inst s + sint (op (payload_of env s) x)"
    if "(Opcode (cur env s), PREAMBLE (switch_op op) :: 'h handler) \<in> set goto_cases" for op
    using step_body[OF assms(1,2) flow_cases(1)[OF that] assms(4)]
    by (auto simp: switch_op_def bind_eq_Some_conv payload_of_def dest!: branch_to_inst)
  show ?thesis
    using assms(3) sw[of DoPackedSwitch] sw[of DoSparseSwitch] by (auto simp: goto_cases_def)
qed

text \<open>A switch takes an entry of its table or goes on behind the instruction.\<close>

lemma SparseSwitch_loop_entry:
  "0 \<le> lo \<Longrightarrow> hi < int n \<Longrightarrow> SparseSwitch_loop ks es x lo hi = 3 \<or> (\<exists>j < n. SparseSwitch_loop ks es x lo hi = es j)"
proof (induction ks es x lo hi rule: SparseSwitch_loop.induct)
  case (1 ks es x lo hi)
  let ?m = "(lo + hi) div 2"
  show ?case
  proof (cases "lo \<le> hi")
    case True
    then have m: "0 \<le> ?m" "lo \<le> ?m" "?m \<le> hi" using 1(3) by auto
    consider "sint x < sint (ks (nat ?m))" | "sint x > sint (ks (nat ?m))" | "sint x = sint (ks (nat ?m))" by linarith
    then show ?thesis
    proof cases
      case 1 then show ?thesis using "1.IH"(1)[OF True refl refl] "1.prems" m True by (simp add: SparseSwitch_loop.simps[of ks es x lo hi])
    next
      case 2 then show ?thesis using "1.IH"(2)[OF True refl refl] "1.prems" m True by (simp add: SparseSwitch_loop.simps[of ks es x lo hi])
    next
      case 3
      then have "SparseSwitch_loop ks es x lo hi = es (nat ?m)" using True by (simp add: SparseSwitch_loop.simps[of ks es x lo hi])
      then show ?thesis using m 1(4) by (intro disjI2 exI[of _ "nat ?m"]) auto
    qed
  qed (simp add: SparseSwitch_loop.simps[of ks es x lo hi])
qed

lemma switch_entry:
  fixes p :: Instruction
  defines "n \<equiv> unat (p 1)"
  shows "DoPackedSwitch p x = 3 \<or> (\<exists>j < n. DoPackedSwitch p x = Fetch32 p (4 + j * 2))"
    "DoSparseSwitch p x = 3 \<or> (\<exists>j < n. DoSparseSwitch p x = Fetch32 p (2 + 2 * n + j * 2))"
proof -
  have "nat (sint y) < n" if "0 \<le> sint y" "sint y < uint (p 1)" for y :: u32
    using that by (simp add: n_def nat_less_iff)
  from this[of "x - Fetch32 p 2"] show "DoPackedSwitch p x = 3 \<or> (\<exists>j < n. DoPackedSwitch p x = Fetch32 p (4 + j * 2))"
    unfolding DoPackedSwitch_def Let_def mult.commute[of _ "2 :: nat"] by auto
  have "uint (p 1) - 1 < int n" by (simp add: n_def)
  from SparseSwitch_loop_entry[OF _ this, of 0]
  show "DoSparseSwitch p x = 3 \<or> (\<exists>j < n. DoSparseSwitch p x = Fetch32 p (2 + 2 * n + j * 2))"
    unfolding DoSparseSwitch_def Let_def n_def mult.commute[of _ "2 :: nat"] by auto
qed

section \<open>What the verifier knows of the targets\<close>

lemma CheckSwitch_loop_targets:
  assumes "CheckSwitch_loop n i ci k p t targ v = Some (True, v')" "j < n"
  defines "o1 \<equiv> k + Fetch32 p (t + (targ + j) * 2)"
  shows "0 \<le> sint o1 \<and> sint o1 < sint (insns_size_in_code_units ci) \<and> opcode_at v (unat o1)"
  using assms(1,2) unfolding o1_def
proof (induction n arbitrary: targ v j)
  case (Suc n)
  from CheckSwitch_loop_Suc[OF Suc(2)] obtain f v1 where f: "0 \<le> sint (k + Fetch32 p (t + targ * 2))"
      "sint (k + Fetch32 p (t + targ * 2)) < sint (insns_size_in_code_units ci)"
      "GetInstructionFlags v (unat (k + Fetch32 p (t + targ * 2))) = Some f" "IsOpcode f"
    and u: "update_flags SetBranchTarget (unat (k + Fetch32 p (t + targ * 2))) v = Some v1"
    and l: "CheckSwitch_loop n i ci k p t (Suc targ) v1 = Some (True, v')" by auto
  show ?case
  proof (cases j)
    case 0
    then show ?thesis using f by (simp add: opcode_at_def GetInstructionFlags_def split: if_splits)
  next
    case (Suc j')
    have "opcode_at v1 = opcode_at v" using flag_updates(2)[OF u] by simp
    then show ?thesis using Suc.IH[OF l, of j'] Suc.prems(2) Suc by simp
  qed
qed simp

lemma upper_half:
  assumes "0 \<le> y" "y < 3 * h" "h \<le> y mod (2 * h)"
  shows "y mod (2 * h) = (y :: int)"
proof (cases "y < 2 * h")
  case False
  have "y mod (2 * h) = (y - 2 * h) mod (2 * h)" by simp
  also have "\<dots> = y - 2 * h" using assms(1,2) False by (intro mod_pos_pos_trivial) auto
  finally show ?thesis using assms(2,3) by simp
qed (use assms(1) in simp)

lemma small_sint: "uint (k :: u32) < 2 ^ 31 \<Longrightarrow> sint k = uint k"
  unfolding sint_uint using signed_take_bit_int_eq_self[of 31 "uint k"] uint_ge_0[of k] by simp

lemma jump_exact:
  assumes "0 \<le> sint (k + x :: u32)" "uint k < 2 ^ 31"
  shows "uint k + sint x = int (unat (k + x))"
proof -
  have k: "sint k = uint k" using small_sint[OF assms(2)] .
  have "sint (k + x) = signed_take_bit 31 (sint k + sint x)" by (simp add: signed_word_eqI sint_word_ariths)
  moreover have "- 2147483648 \<le> sint x" "sint x < 2147483648" using sint_range_size[of x] by (simp_all add: word_size)
  moreover from calculation(2) have "0 \<le> uint k + sint x + 2147483648" using uint_ge_0[of k] by linarith
  moreover have "(uint k + sint x + 2147483648) mod 4294967296 = uint k + sint x + 2147483648"
    if "2147483648 \<le> (uint k + sint x + 2147483648) mod 4294967296"
    using upper_half[of "uint k + sint x + 2147483648" 2147483648] that assms(2) calculation(3,4) by simp
  ultimately have "sint (k + x) = uint k + sint x"
    using assms(1) k by (simp add: signed_take_bit_eq_take_bit_shift take_bit_eq_mod)
  then show ?thesis using nonneg_word(1)[OF assms(1)] by simp
qed

lemma VerifyInstruction_switch:
  assumes "VerifyInstruction kAllow i ci ins k v = Some (True, v')" "IsSwitch ins"
  shows "\<exists>v4. CheckSwitchTargets i ci k v4 = Some (True, v') \<and> opcode_at v4 = opcode_at v"
proof -
  obtain v4 where v4: "VerifyExtra i ci ins k (True, v4) = Some (Inr (True, v'))" "opcode_at v4 = opcode_at v"
    using VerifyInstruction_True[OF assms(1)] by blast
  have "GetVerifyExtraFlags ins = kVerifySwitchTargets"
    using assms(2) by (simp add: IsSwitch_def GetVerifyExtraFlags_of extra_table(4))
  then show ?thesis using v4 by (auto simp: VerifyExtra_def also_check_def)
qed

lemma goto_offset: "(scast (ucast (drop_bit 8 w :: u16) :: u8) :: u32) = scast (signed_drop_bit 8 w)"
proof (rule bit_word_eqI)
  fix n
  show "bit (scast (ucast (drop_bit 8 w :: u16) :: u8) :: u32) n = bit (scast (signed_drop_bit 8 w) :: u32) n"
    by (cases "n = 7") (auto simp: bit_simps min_def)
qed

lemma GetBranchOffset_offset:
  assumes "GetBranchOffset ci k = Some (offset, c, self)"
  shows "offset = branch_offset (inst_at ci (uint k))"
proof -
  have "Opcode (inst_at ci (uint k)) = ucast (inst_at ci (uint k) 0 AND 0xff)" by (simp add: Opcode_def Fetch16_def)
  then show ?thesis
    using assms unfolding GetBranchOffset_def branch_offset_def Let_def
    by (auto simp: VRegA_10t_def VRegA_20t_def VRegA_30t_def InstAA_def Fetch16_def goto_offset split: if_splits)
qed

lemma dex_checked_size:
  assumes "dex_checked d ci"
  shows "unat (insns_size_in_code_units ci) < 2 ^ 31"
proof -
  obtain q where q: "CheckIntraCodeItem d ci = Inr q" "file_size d < 2 ^ 32" using assms by (auto simp: dex_checked_def)
  then show ?thesis using CheckIntraCodeItem_cases(1,3)[OF q(1)] by (simp add: insns_address_def file_end_def)
qed

text \<open>The verifier has seen every target of a branch and of a switch.\<close>

lemma verified_branch:
  assumes "verified i ci" "insn_start ci k" "Opcode (inst_at ci (int k)) \<in> set branch_codes"
  shows "\<exists>k'. int k + sint (branch_offset (inst_at ci (int k))) = int k' \<and> insn_start ci k'"
proof -
  obtain v v' where v: "opcode_at v = insn_start ci"
      "VerifyInstruction (\<not> is_aot_compiler i \<or> verify_to_dump i) i ci (inst_at ci (int k)) (of_nat k) v = Some (True, v')"
    using assms(1,2) unfolding verified_def by blast
  have k: "uint (of_nat k :: u32) = int k" using small_position(2)[OF insn_start_less[OF assms(2)]] .
  have "IsBranch (inst_at ci (int k))" using assms(3) by (simp add: IsBranch_def extra_table(1))
  from VerifyInstruction_branch[OF v(2) this] obtain x c self where x: "GetBranchOffset ci (of_nat k) = Some (x, c, self)"
      "int k + sint x = int (unat (of_nat k + x))" "insn_start ci (unat (of_nat k + x))" using k v(1) by auto
  then show ?thesis using GetBranchOffset_offset[OF x(1)] k by (intro exI[of _ "unat (of_nat k + x)"]) simp
qed

lemma verified_switch:
  assumes "verified i ci" "dex_checked d ci" "insn_start ci k" "Opcode (inst_at ci (int k)) \<in> {PACKED_SWITCH, SPARSE_SWITCH}"
  defines "p \<equiv> inst_at ci (int k + sint (VRegB_31t (inst_at ci (int k))))"
  assumes "x = (if Opcode (inst_at ci (int k)) = PACKED_SWITCH then DoPackedSwitch else DoSparseSwitch) p y" "x \<noteq> 3"
  shows "\<exists>k'. int k + sint x = int k' \<and> insn_start ci k'"
proof -
  let ?packed = "Opcode (inst_at ci (int k)) = PACKED_SWITCH" and ?n = "unat (p 1)"
  obtain v v' where v: "opcode_at v = insn_start ci"
      "VerifyInstruction (\<not> is_aot_compiler i \<or> verify_to_dump i) i ci (inst_at ci (int k)) (of_nat k) v = Some (True, v')"
    using assms(1,3) unfolding verified_def by blast
  have k: "uint (of_nat k :: u32) = int k" using small_position(2)[OF insn_start_less[OF assms(3)]] .
  have "IsSwitch (inst_at ci (int k))" using assms(4) by (simp add: IsSwitch_def extra_table(2))
  from VerifyInstruction_switch[OF v(2) this] v(1) obtain v4 where
    v4: "CheckSwitchTargets i ci (of_nat k) v4 = Some (True, v')" "opcode_at v4 = insn_start ci" by auto
  have p: "payload_at ci (of_nat k) (payload_offset ci (of_nat k)) = p"
    by (simp add: p_def payload_at_def payload_offset_def k VRegB_31t_def)
  have l: "CheckSwitch_loop ?n i ci (of_nat k) p (if ?packed then 4 else 2 + 2 * ?n) 0 v4 = Some (True, v')"
    using CheckSwitchTargets_cases[OF v4(1), unfolded p k] by (simp add: Opcode_def Fetch16_def)
  obtain j where j: "j < ?n" "x = Fetch32 p ((if ?packed then 4 else 2 + 2 * ?n) + (0 + j) * 2)"
    using switch_entry[of p y] assms(6,7) by (auto split: if_splits)
  from CheckSwitch_loop_targets[OF l j(1), folded j(2)] v4(2)
  have t: "0 \<le> sint (of_nat k + x)" "insn_start ci (unat (of_nat k + x))" by auto
  have "uint (of_nat k :: u32) < 2 ^ 31"
    using insn_start_less[OF assms(3)] dex_checked_size[OF assms(2)] k by simp
  from jump_exact[OF t(1) this] show ?thesis using t(2) k by (intro exI[of _ "unat (of_nat k + x)"]) simp
qed

lemma FindCatchBlock_loop_among:
  "fst (FindCatchBlock_loop G A m it x h fwd e) \<in> insert kDexNoIndex (snd ` set (fst (all_handlers m it)))"
proof (induction G A m it x h fwd e rule: FindCatchBlock_loop.induct)
  case (1 G A m it x h fwd e)
  have a: "fst (all_handlers m it) = (if HasNext it then (handler_type_idx it, handler_address it) # fst (all_handlers m (Next m it)) else [])"
    by (subst all_handlers.simps) (simp split: prod.split)
  obtain c h1 f1 e1 where g: "G (handler_type_idx it) h e = (c, h1, f1, e1)" by (metis prod.collapse)
  show ?case
  proof (cases "HasNext it \<and> handler_type_idx it \<noteq> 0xffff")
    case True
    note IH = 1(1)[OF conjunct1[OF True] conjunct2[OF True] g[symmetric] refl refl] 1(2)[OF conjunct1[OF True] conjunct2[OF True] g[symmetric] refl refl]
    show ?thesis using True IH unfolding a FindCatchBlock_loop.simps[of G A m it x h fwd e] g by (auto simp: comp_def)
  next
    case False
    then show ?thesis unfolding a FindCatchBlock_loop.simps[of G A m it x h fwd e] by (auto simp: image_iff)
  qed
qed

lemma handlers_for_enterable:
  assumes "handlers_enterable ci" "(t, a) \<in> set (handlers_for ci pc)"
  shows "enterable ci a"
proof -
  obtain i where "find (\<lambda>i. covers (try_item ci i) pc) [0..<unat (tries_size ci)] = Some i"
    using assms(2) by (cases "find (\<lambda>i. covers (try_item ci i) pc) [0..<unat (tries_size ci)]") (auto simp: handlers_for_def)
  moreover from this have "i < unat (tries_size ci)" by (auto simp: find_Some_iff)
  ultimately show ?thesis using assms unfolding handlers_for_def handlers_enterable_def by fastforce
qed

lemma jump_back:
  assumes "unat (a :: u32) < 2 ^ 31" "k < 2 ^ 31"
  shows "int k + sint (a - word_of_int (int k)) = int (unat a)"
proof -
  have k: "uint (of_nat k :: u32) = int k" using assms(2) by (simp add: uint_word_of_int take_bit_int_eq_self unsigned_of_nat take_bit_nat_eq_self)
  have "uint a < 2 ^ 31" using of_nat_less_iff[where ?'a = int, THEN iffD2, OF assms(1)] by simp
  then have "0 \<le> sint a" using small_sint[of a] by simp
  then show ?thesis using jump_exact[of "of_nat k" "a - of_nat k"] k assms(2) by simp
qed

lemma caught_enterable:
  assumes "dex_checked d ci" "handlers_enterable ci" "FindCatchBlock (lnk env) = ArtMethod_FindCatchBlock G A ci"
    and "caught_at env (int k) q" "k < unat (insns_size_in_code_units ci)"
  shows "\<exists>a. q = int (unat a) \<and> enterable ci a"
proof -
  obtain r where r: "file_size d < 2 ^ 32" "type_ids_size d \<le> 0xffff" "CheckIntraCodeItem d ci = Inr r"
    using assms(1) by (auto simp: dex_checked_def)
  let ?pc = "word_of_int (int k) :: u32"
  obtain c h e a where a: "fst (fst (ArtMethod_FindCatchBlock G A ci c ?pc h e)) = a" "a \<noteq> kDexNoIndex" "q = int k + sint (a - ?pc)"
    using assms(4) unfolding caught_at_def assms(3) by blast
  have f: "fst (all_handlers (file_bytes ci) (CatchHandlerIterator_address ci ?pc)) = handlers_for ci ?pc"
    by (rule all_handlers_for[where v = d]) (use CheckIntraCodeItem_accepts[OF r] in blast)+
  have "a \<in> snd ` set (handlers_for ci ?pc)"
    using FindCatchBlock_loop_among[of G A "file_bytes ci" "CatchHandlerIterator_address ci ?pc" c h id 0] a(1,2)
    unfolding f by (auto simp: ArtMethod_FindCatchBlock_def split: prod.splits)
  then obtain t where t: "(t, a) \<in> set (handlers_for ci ?pc)" by auto
  have e: "enterable ci a" using handlers_for_enterable[OF assms(2) t] .
  have "unat a < 2 ^ 31" "k < 2 ^ 31"
    using e insn_start_less dex_checked_size[OF assms(1)] assms(5) unfolding enterable_def by (auto intro: less_trans)
  then have "int k + sint (a - ?pc) = int (unat a)" using jump_back by simp
  then show ?thesis using a(3) e by auto
qed

section \<open>Verified code\<close>

lemma flow_sizes:
  "\<forall>c \<in> set (drop 3 branch_codes). InstructionSizeInCodeUnitsByOpcode c (FormatOf c) = 2"
  "\<forall>c \<in> set [PACKED_SWITCH, SPARSE_SWITCH]. InstructionSizeInCodeUnitsByOpcode c (FormatOf c) = 3"
  by code_simp+

lemma flow_width:
  "Opcode i \<in> set branch_codes \<Longrightarrow> Opcode i \<notin> {GOTO, GOTO_16, GOTO_32} \<Longrightarrow> width i = 2"
  "Opcode i \<in> {PACKED_SWITCH, SPARSE_SWITCH} \<Longrightarrow> width i = 3"
proof -
  assume "Opcode i \<in> set branch_codes" "Opcode i \<notin> {GOTO, GOTO_16, GOTO_32}"
  then have "Opcode i \<in> set (drop 3 branch_codes)" by (simp add: branch_codes_def eval_nat_numeral)
  from bspec[OF flow_sizes(1) this] show "width i = 2" by (simp add: width_def SizeInCodeUnits_def Let_def)
next
  assume "Opcode i \<in> {PACKED_SWITCH, SPARSE_SWITCH}"
  then have "Opcode i \<in> set [PACKED_SWITCH, SPARSE_SWITCH]" by simp
  from bspec[OF flow_sizes(2) this] show "width i = 3" by (simp add: width_def SizeInCodeUnits_def Let_def)
qed

lemma units_other:
  assumes "c \<notin> set branch_codes" "c \<notin> {PACKED_SWITCH, SPARSE_SWITCH}"
  obtains n where "units c = Some n"
proof -
  have "FlagsOf c AND kBranch = 0" "FlagsOf c AND kSwitch = 0" using assms extra_table(1,2)[of c] by blast+
  then have "FlagsOf c AND (kBranch OR kSwitch) = 0" by (simp only: bit.conj_disj_distrib or.right_neutral)
  then show ?thesis using that by (simp add: units_def)
qed

text \<open>The start of an instruction, or the end of the code.\<close>

definition in_step :: "CodeItem \<Rightarrow> int \<Rightarrow> bool" where
  "in_step ci p \<longleftrightarrow> (\<exists>k. p = int k \<and> (insn_start ci k \<or> k = unat (insns_size_in_code_units ci)))"

lemma next_in_step:
  assumes "whole_instructions ci" "insn_start ci k"
  shows "in_step ci (int k + int (width (inst_at ci (int k))))"
  using assms following[OF assms(2)] unfolding in_step_def whole_instructions_def
  by (intro exI[of _ "k + width (inst_at ci (int k))"]) (auto simp: le_less)

lemma step_stays:
  fixes env :: "'h env"
  assumes "verified i ci" "dex_checked d ci" "insns env = code_units ci" "FindCatchBlock (lnk env) = ArtMethod_FindCatchBlock G A ci"
    and "frame_ok (frame s)" "insn_start ci k" "inst s = int k" "\<not> data_table (cur env s)" "step env s = Some (Continue s')"
  shows "in_step ci (inst s')"
proof -
  let ?c = "Opcode (cur env s)"
  have cur: "cur env s = inst_at ci (int k)" by (simp add: cur_def inst_at_def assms(3,7))
  have w: "whole_instructions ci" and h: "handlers_enterable ci" using assms(1) by (auto simp: verified_def)
  have go: "in_step ci (inst s')" if "int k + sint x = int k' \<and> insn_start ci k'" "inst s' = inst s + sint x" for x :: u32 and k'
    using that assms(7) by (auto simp: in_step_def)
  show ?thesis
  proof (cases "caught_at env (inst s) (inst s')")
    case True
    then obtain a where "inst s' = int (unat a)" "enterable ci a"
      using caught_enterable[OF assms(2) h assms(4), of k "inst s'"] insn_start_less[OF assms(6)] assms(7) by auto
    then show ?thesis unfolding in_step_def enterable_def by blast
  next
    case nc: False
    consider (branch) "?c \<in> set branch_codes" | (switch) "?c \<in> {PACKED_SWITCH, SPARSE_SWITCH}" | (other) n where "units ?c = Some n"
      using units_other by metis
    then show ?thesis
    proof cases
      case branch
      from step_branch[OF assms(9,5) branch nc] verified_branch[OF assms(1,6)] branch go
      show ?thesis using next_in_step[OF w assms(6)] flow_width(1)[OF branch] assms(7) unfolding cur by auto
    next
      case switch
      define p where "p = payload_of env s"
      have p: "p = inst_at ci (int k + sint (VRegB_31t (inst_at ci (int k))))"
        by (simp add: p_def payload_of_def cur inst_at_def assms(3,7))
      obtain y where y: "inst s' = inst s + sint ((if ?c = PACKED_SWITCH then DoPackedSwitch else DoSparseSwitch) p y)"
        using step_switch[OF assms(9,5) switch nc] unfolding p_def by blast
      define x where "x = (if ?c = PACKED_SWITCH then DoPackedSwitch else DoSparseSwitch) p y"
      show ?thesis
      proof (cases "x = 3")
        case True
        then show ?thesis using y next_in_step[OF w assms(6)] flow_width(2)[OF switch] assms(7) unfolding x_def cur by simp
      next
        case False
        have "\<exists>k'. int k + sint x = int k' \<and> insn_start ci k'"
          using verified_switch[OF assms(1,2,6) switch[unfolded cur] x_def[unfolded cur p] False] .
        then show ?thesis using go y unfolding x_def by blast
      qed
    next
      case (other n)
      then have "inst s' = inst s + int n" using step_next[OF assms(5,9) other] nc by blast
      moreover have "width (inst_at ci (int k)) = n" using SizeInCodeUnits_units[OF other assms(8)] by (simp add: width_def cur)
      ultimately show ?thesis using next_in_step[OF w assms(6)] assms(7) by simp
    qed
  qed
qed

lemma step_frame_ok:
  assumes "step env s = Some (Continue s')" "frame_ok (frame s)"
  shows "frame_ok (frame s')"
  using shape.step_keeps[of "number_of_vregs (frame s)" "sf_method (frame s)" s env] assms
  by (simp add: frame_shape_def holds_def shape.kept_def)

text \<open>A turn of the interpreter that goes on.\<close>

definition continues :: "'h env \<Rightarrow> 'h istate \<Rightarrow> 'h istate \<Rightarrow> bool" where
  "continues env s s' \<longleftrightarrow> step env s = Some (Continue s')"

text \<open>The start of an instruction, or the end of the code; and the places that only the code flow analysis keeps a run away from:
  the end of the code, and the data of a switch or of an array, which the interpreter takes for a \<open>nop\<close>.\<close>

definition at_instruction :: "CodeItem \<Rightarrow> 'h istate \<Rightarrow> bool" where
  "at_instruction ci s \<longleftrightarrow> (\<exists>k. inst s = int k \<and> (insn_start ci k \<or> k = unat (insns_size_in_code_units ci)))"

definition at_data_or_end :: "CodeItem \<Rightarrow> 'h env \<Rightarrow> 'h istate \<Rightarrow> bool" where
  "at_data_or_end ci env s \<longleftrightarrow> inst s = int (unat (insns_size_in_code_units ci)) \<or> data_table (cur env s)"

lemma run_stays:
  fixes env :: "'h env"
  assumes "verified i ci" "dex_checked d ci" "insns env = code_units ci" "FindCatchBlock (lnk env) = ArtMethod_FindCatchBlock G A ci"
    and "(continues env)\<^sup>*\<^sup>* s s'" "frame_ok (frame s)" "at_instruction ci s"
  shows "frame_ok (frame s') \<and> at_instruction ci s'
    \<or> (\<exists>t. (continues env)\<^sup>*\<^sup>* s t \<and> at_instruction ci t \<and> at_data_or_end ci env t \<and> (continues env)\<^sup>+\<^sup>+ t s')"
  using assms(5)
proof induction
  case (step t u)
  show ?case
  proof (cases "(frame_ok (frame t) \<and> at_instruction ci t) \<and> \<not> at_data_or_end ci env t")
    case True
    then obtain k where "inst t = int k" "insn_start ci k" by (auto simp: at_instruction_def at_data_or_end_def)
    then have "in_step ci (inst u)" "frame_ok (frame u)"
      using step(2) True step_stays[OF assms(1-4), of t k u] step_frame_ok[of env t u] by (auto simp: continues_def at_data_or_end_def)
    then show ?thesis by (simp add: in_step_def at_instruction_def)
  next
    case False
    then show ?thesis using step by (blast intro: tranclp.intros)
  qed
qed (use assms(6,7) in simp)

text \<open>C1: Verified code stays on its instructions.  When the dex file verifier has accepted the code item and the static checks
  of the method verifier succeed, a run of the interpreter from the first instruction, with the handlers of the code item, is at the
  start of an instruction or at the end of the code after every step, unless it has gone on from the end of the code or from the
  data of a switch or an array: branches, switches and exceptions never lead between the units of an instruction or outside the code,
  and the only way off the instructions is to run into such data or over the end.  The static checks do not rule that out, as the
  code item below shows; it is a matter of the code flow analysis.\<close>

theorem verified_code_stays_on_instructions:
  fixes env :: "'h env"
  assumes "dex_checked d ci" "VerifyStatic i ci v = Some (True, v')"
    and "insns env = code_units ci" "FindCatchBlock (lnk env) = ArtMethod_FindCatchBlock G A ci"
    and "frame_ok (frame s)" "inst s = 0" "(continues env)\<^sup>*\<^sup>* s s'"
  shows "at_instruction ci s'
    \<or> (\<exists>t. (continues env)\<^sup>*\<^sup>* s t \<and> at_instruction ci t \<and> at_data_or_end ci env t \<and> (continues env)\<^sup>+\<^sup>+ t s')"
proof (cases "insns_size_in_code_units ci = 0")
  case True
  then have "at_instruction ci s" "at_data_or_end ci env s" using assms(6) by (simp_all add: at_instruction_def at_data_or_end_def)
  then show ?thesis using assms(7) by (auto dest: rtranclpD)
next
  case False
  then have "verified i ci" using VerifyStatic_returns[OF assms(1), of i v] assms(2) by auto
  moreover have "at_instruction ci s" using False first[of ci] assms(6) by (auto simp: at_instruction_def unat_gt_0)
  ultimately show ?thesis using run_stays[OF _ assms(1,3,4,7,5)] by blast
qed

text \<open>Two \<open>nop\<close>s before the empty table of a switch: the dex file verifier and the static checks accept them, and the interpreter
  runs through them into the table.\<close>

definition data_item :: CodeItem where
  "data_item = \<lparr>file_bytes = (\<lambda>p. let bs = [2, 0, 0, 0, 0, 0, 0, 0, 0, 0, 0, 0, 6, 0, 0, 0, 0, 0, 0, 0, 0, 1] in if p < length bs then bs ! p else 0),
     item_at = 0\<rparr>"

definition data_env :: "unit env" where
  "data_env = (quiet_env [])\<lparr>insns := code_units data_item,
     lnk := quiet_linker\<lparr>FindCatchBlock := ArtMethod_FindCatchBlock (\<lambda>t. quiet 0) (\<lambda>_ super c. super = c) data_item\<rparr>\<rparr>"

definition start_state :: "unit istate" where
  "start_state = \<lparr>frame = ShadowFrame_new 2 0 0, result_register = 0, inst = 0, exception = 0, heap = no_heap\<rparr>"

lemma data_checked: "dex_checked \<lparr>file_begin = 0, file_size = 28, type_ids_size = 0\<rparr> data_item" "insns_size_in_code_units data_item = 6"
proof -
  have f: "registers_size data_item = 2" "ins_size data_item = 0" "outs_size data_item = 0" "tries_size data_item = 0"
    "insns_size_in_code_units data_item = 6" "item_at data_item = 0" "insns_address data_item i = 16 + 2 * i" for i
    by (simp_all add: data_item_def registers_size_def ins_size_def outs_size_def tries_size_def insns_size_in_code_units_def
        insns_address_def Load16_def Load32_def)
  then show "dex_checked \<lparr>file_begin = 0, file_size = 28, type_ids_size = 0\<rparr> data_item"
    by (simp add: dex_checked_def CheckIntraCodeItem_def CheckListSize_def file_end_def Let_def)
  show "insns_size_in_code_units data_item = 6" by (rule f(5))
qed

lemma data_static: "map_option fst (VerifyStatic sample_input data_item MethodVerifier_new) = Some True"
  by code_simp

definition turn :: "'h env \<Rightarrow> 'h istate \<Rightarrow> 'h istate option" where
  "turn env s = (case step env s of Some (Continue s') \<Rightarrow> Some s' | _ \<Rightarrow> None)"

lemma turn_continues: "turn env s = Some s' \<Longrightarrow> continues env s s'"
  by (auto simp: turn_def continues_def split: option.splits outcome.splits)

lemma data_run: "map_option inst (turn data_env start_state \<bind> turn data_env \<bind> turn data_env) = Some 3"
  by code_simp

lemma data_starts: "\<not> insn_start data_item 3"
proof
  have w: "width (inst_at data_item 0) = 1" "width (inst_at data_item 1) = 1" "width (inst_at data_item 2) = 4" by code_simp+
  have "insn_start data_item 0" using first[of data_item] data_checked(2) by simp
  from following[OF this] have "insn_start data_item 1" using w(1) data_checked(2) by simp
  from following[OF this] have "insn_start data_item (Suc 1)" using w(2) data_checked(2) by simp
  moreover assume "insn_start data_item 3"
  ultimately show False using insn_start_apart[of data_item 3 2] w(3) unfolding Suc_1 by simp
qed

theorem verified_code_stays_on_instructions_witness:
  "map_option fst (VerifyStatic sample_input data_item MethodVerifier_new) = Some True
   \<and> (\<exists>t u. (continues data_env)\<^sup>*\<^sup>* start_state t \<and> at_instruction data_item t \<and> at_data_or_end data_item data_env t
       \<and> (continues data_env)\<^sup>+\<^sup>+ t u \<and> inst u = 3 \<and> \<not> at_instruction data_item u)"
proof -
  obtain s t u where "continues data_env start_state s" "continues data_env s t" "continues data_env t u" and u: "inst u = 3"
    using data_run by (auto simp: bind_eq_Some_conv dest!: turn_continues)
  then have r: "(continues data_env)\<^sup>*\<^sup>* start_state u" by (meson converse_rtranclp_into_rtranclp rtranclp.rtrancl_refl)
  obtain v where v: "VerifyStatic sample_input data_item MethodVerifier_new = Some (True, v)" using data_static by auto
  have e: "insns data_env = code_units data_item"
    "FindCatchBlock (lnk data_env) = ArtMethod_FindCatchBlock (\<lambda>t. quiet 0) (\<lambda>_ super c. super = c) data_item"
    by (simp_all add: data_env_def)
  have k: "frame_ok (frame start_state)" "inst start_state = 0" by (simp_all add: start_state_def frame_ok_new)
  have n: "\<not> at_instruction data_item u"
    using data_starts u nat_int[of 3] by (auto simp: at_instruction_def data_checked(2) dest: arg_cong[of _ _ nat])
  show ?thesis using verified_code_stays_on_instructions[OF data_checked(1) v e k r] u n data_static by blast
qed

end
