(* ===== verification/Verified_Registers.thy ===== *)
theory Verified_Registers
  imports Verified_Execution
begin

text \<open>
  The register operands that the method verifier (\<open>Method_Verifier\<close>) has checked are the registers that the interpreter
  (\<open>Interpreter_Switch\<close>) reads and writes.  The verify flags of the instruction table say which operands are registers and how wide
  they are; the lemmas go through the tables of cases and compare.
\<close>

section \<open>The registers that an instruction names\<close>

text \<open>The words that the operands A, B and C of an opcode take as registers, as its verify flags announce them; 0 is for an operand
  that is not a register.\<close>

definition words :: "u32 \<Rightarrow> u32 \<Rightarrow> u32 \<Rightarrow> nat" where
  "words flag single wide = (if flag = single then 1 else if flag = wide then 2 else 0)"

definition needs_of :: "u32 \<Rightarrow> Format \<Rightarrow> Format \<times> nat \<times> nat \<times> nat" where
  "needs_of vflags format = (format,
     words (vflags AND (kVerifyRegA OR kVerifyRegAWide)) kVerifyRegA kVerifyRegAWide,
     words (vflags AND (kVerifyRegB OR kVerifyRegBField OR kVerifyRegBMethod OR kVerifyRegBNewInstance OR kVerifyRegBString OR
       kVerifyRegBType OR kVerifyRegBWide)) kVerifyRegB kVerifyRegBWide,
     words (vflags AND (kVerifyRegC OR kVerifyRegCField OR kVerifyRegCNewArray OR kVerifyRegCType OR kVerifyRegCWide))
       kVerifyRegC kVerifyRegCWide)"

definition needs :: "Code \<Rightarrow> Format \<times> nat \<times> nat \<times> nat" where
  "needs c = needs_of (VerifyFlagsOf c) (FormatOf c)"

definition in_frame :: "nat \<Rightarrow> nat \<Rightarrow> u32 option \<Rightarrow> bool" where
  "in_frame n w r \<longleftrightarrow> w = 0 \<or> (\<exists>x. r = Some x \<and> unat x + w \<le> n)"

definition regs_fit :: "nat \<Rightarrow> Instruction \<Rightarrow> bool" where
  "regs_fit n i \<longleftrightarrow> (case needs (Opcode i) of (format, a, b, c) \<Rightarrow> in_frame n a (VRegA i) \<and> in_frame n b (VRegB i) \<and> in_frame n c (VRegC i))"

lemma needs_rows:
  "list_all (\<lambda>(vflags, format, index, flags). case needs_of vflags format of (format, a, b, c) \<Rightarrow>
      (a \<noteq> 0 \<longrightarrow> format \<notin> {k10t, k20t, k30t}) \<and> (b \<noteq> 0 \<longrightarrow> format \<in> {k12x, k22b, k22c, k22s, k22t, k22x, k23x, k32x}) \<and> (c \<noteq> 0 \<longrightarrow> format = k23x))
    DEX_INSTRUCTION_LIST"
  by code_simp

lemma needs_formats:
  assumes "needs c = (format, wa, wb, wc)"
  shows "format = FormatOf c" "wa \<noteq> 0 \<Longrightarrow> format \<notin> {k10t, k20t, k30t}" "wb \<noteq> 0 \<Longrightarrow> format \<in> {k12x, k22b, k22c, k22s, k22t, k22x, k23x, k32x}"
    "wc \<noteq> 0 \<Longrightarrow> format = k23x"
proof -
  have "unat c < length DEX_INSTRUCTION_LIST" using unsigned_less[of c] by (simp add: length_list)
  from needs_rows[unfolded list_all_length, rule_format, OF this] assms
  show "format = FormatOf c" "wa \<noteq> 0 \<Longrightarrow> format \<notin> {k10t, k20t, k30t}" "wb \<noteq> 0 \<Longrightarrow> format \<in> {k12x, k22b, k22c, k22s, k22t, k22x, k23x, k32x}"
    "wc \<noteq> 0 \<Longrightarrow> format = k23x"
    by (auto simp: needs_def FormatOf_def VerifyFlagsOf_def needs_of_def split: prod.splits)
qed

lemma narrow: "unat (ucast (y :: u8) :: u32) = unat y" "unat (ucast (z :: u16) :: u32) = unat z" "unat (y :: u8) < 2 ^ 16" "unat (z :: u16) < 2 ^ 16"
  using unsigned_less[where ?'a = nat, of y] unsigned_less[where ?'a = nat, of z] by (simp_all add: unsigned_ucast_eq take_bit_nat_eq_self)

lemma small_operands:
  "VRegA i = Some x \<Longrightarrow> FormatOf (Opcode i) \<notin> {k10t, k20t, k30t} \<Longrightarrow> unat x < 2 ^ 16"
  "VRegB i = Some x \<Longrightarrow> FormatOf (Opcode i) \<in> {k12x, k22b, k22c, k22s, k22t, k22x, k23x, k32x} \<Longrightarrow> unat x < 2 ^ 16"
  "VRegC i = Some x \<Longrightarrow> FormatOf (Opcode i) = k23x \<Longrightarrow> unat x < 2 ^ 16"
  by (auto simp: VRegA_def VRegB_def VRegC_def narrow narrow(3,4)[simplified] split: Format.splits)

lemma CheckRegister_True:
  "CheckRegisterIndex i ci x v = Some (True, v') \<Longrightarrow> unat x + 1 \<le> unat (registers_size ci)"
  "CheckWideRegisterIndex i ci x v = Some (True, v') \<Longrightarrow> unat x < 2 ^ 16 \<Longrightarrow> unat x + 2 \<le> unat (registers_size ci)"
proof -
  assume "CheckRegisterIndex i ci x v = Some (True, v')"
  then have "\<not> ucast (registers_size ci) \<le> x" by (simp add: CheckRegisterIndex_def fail_if_def split: if_splits)
  then show "unat x + 1 \<le> unat (registers_size ci)" by (simp add: word_le_nat_alt narrow)
next
  assume "CheckWideRegisterIndex i ci x v = Some (True, v')" and x: "unat x < 2 ^ 16"
  then have "\<not> ucast (registers_size ci) \<le> x + 1" by (simp add: CheckWideRegisterIndex_def fail_if_def split: if_splits)
  moreover have "unat (x + 1) = unat x + 1" using x by (simp add: unat_word_ariths)
  ultimately show "unat x + 2 \<le> unat (registers_size ci)" by (simp add: word_le_nat_alt narrow)
qed

lemma needs_words:
  "needs (Opcode i) = (FormatOf (Opcode i), words (GetVerifyTypeArgumentA i) kVerifyRegA kVerifyRegAWide,
     words (GetVerifyTypeArgumentB i) kVerifyRegB kVerifyRegBWide, words (GetVerifyTypeArgumentC i) kVerifyRegC kVerifyRegCWide)"
  by (simp add: needs_def needs_of_def GetVerifyTypeArgumentA_def GetVerifyTypeArgumentB_def GetVerifyTypeArgumentC_def)

lemma in_frameI:
  assumes "\<And>x. flag = single \<Longrightarrow> r = Some x \<Longrightarrow> unat x + 1 \<le> n" "\<And>x. flag = wide \<Longrightarrow> r = Some x \<Longrightarrow> unat x + 2 \<le> n"
    and "flag = single \<or> flag = wide \<Longrightarrow> r \<noteq> None"
  shows "in_frame n (words flag single wide) r"
  using assms by (auto simp: in_frame_def words_def)

lemma VerifyArguments_in_frame:
  fixes ins :: Instruction and ci :: CodeItem
  defines "n \<equiv> unat (registers_size ci)"
  shows "VerifyArgumentA i ci ins v = Some (True, v') \<Longrightarrow> in_frame n (words (GetVerifyTypeArgumentA ins) kVerifyRegA kVerifyRegAWide) (VRegA ins)"
    "VerifyArgumentB i ci ins v = Some (True, v') \<Longrightarrow> in_frame n (words (GetVerifyTypeArgumentB ins) kVerifyRegB kVerifyRegBWide) (VRegB ins)"
    "VerifyArgumentC i ci ins v = Some (True, v') \<Longrightarrow> in_frame n (words (GetVerifyTypeArgumentC ins) kVerifyRegC kVerifyRegCWide) (VRegC ins)"
proof -
  note f = needs_formats[OF needs_words[of ins]]
  { assume a: "VerifyArgumentA i ci ins v = Some (True, v')"
    show "in_frame n (words (GetVerifyTypeArgumentA ins) kVerifyRegA kVerifyRegAWide) (VRegA ins)"
      using a f(2) small_operands(1)[of ins]
      by (intro in_frameI) (auto simp: VerifyArgumentA_def n_def words_def bind_eq_Some_conv dest: CheckRegister_True) }
  { assume b: "VerifyArgumentB i ci ins v = Some (True, v')"
    show "in_frame n (words (GetVerifyTypeArgumentB ins) kVerifyRegB kVerifyRegBWide) (VRegB ins)"
      using b f(3) small_operands(2)[of ins]
      by (intro in_frameI) (auto simp: VerifyArgumentB_def n_def words_def bind_eq_Some_conv dest: CheckRegister_True) }
  { assume c: "VerifyArgumentC i ci ins v = Some (True, v')"
    show "in_frame n (words (GetVerifyTypeArgumentC ins) kVerifyRegC kVerifyRegCWide) (VRegC ins)"
      using c f(4) small_operands(3)[of ins]
      by (intro in_frameI) (auto simp: VerifyArgumentC_def n_def words_def bind_eq_Some_conv dest: CheckRegister_True) }
qed

lemma verified_regs:
  assumes "verified i ci" "insn_start ci k"
  shows "regs_fit (unat (registers_size ci)) (inst_at ci (int k))"
proof -
  obtain v v' where "VerifyInstruction (\<not> is_aot_compiler i \<or> verify_to_dump i) i ci (inst_at ci (int k)) (of_nat k) v = Some (True, v')"
    using assms unfolding verified_def by blast
  from VerifyInstruction_True[OF this] show ?thesis
    unfolding regs_fit_def needs_words prod.case by (blast intro: VerifyArguments_in_frame)
qed

text \<open>The register operands A and B of a format.\<close>

definition regA :: "Format \<Rightarrow> Instruction \<Rightarrow> nat" where
  "regA format i = (case format of k11n \<Rightarrow> a11n i | k11x \<Rightarrow> a11x i | k12x \<Rightarrow> a12x i | k21h \<Rightarrow> a21h i | k21s \<Rightarrow> a21s i | k21t \<Rightarrow> a21t i
      | k22b \<Rightarrow> a22b i | k22s \<Rightarrow> a22s i | k22t \<Rightarrow> a22t i | k22x \<Rightarrow> a22x i | k23x \<Rightarrow> a23x i | k31i \<Rightarrow> a31i i | k31t \<Rightarrow> a31t i
      | k32x \<Rightarrow> a32x i | k51l \<Rightarrow> a51l i | _ \<Rightarrow> 0)"

definition regB :: "Format \<Rightarrow> Instruction \<Rightarrow> nat" where
  "regB format i = (case format of k12x \<Rightarrow> b12x i | k22b \<Rightarrow> b22b i | k22s \<Rightarrow> b22s i | k22t \<Rightarrow> b22t i | k22x \<Rightarrow> b22x i | k23x \<Rightarrow> b23x i
      | k32x \<Rightarrow> b32x i | _ \<Rightarrow> 0)"

lemma regs_in_format:
  assumes "regs_fit n i" "needs (Opcode i) = (format, wa, wb, wc)"
  shows "wa \<noteq> 0 \<Longrightarrow> regA format i + wa \<le> n" "wb \<noteq> 0 \<Longrightarrow> regB format i + wb \<le> n" "wc \<noteq> 0 \<Longrightarrow> c23x i + wc \<le> n"
proof -
  note f = needs_formats(1)[OF assms(2)]
  have w: "in_frame n wa (VRegA i)" "in_frame n wb (VRegB i)" "in_frame n wc (VRegC i)" using assms by (simp_all add: regs_fit_def)
  show "wa \<noteq> 0 \<Longrightarrow> regA format i + wa \<le> n"
    using w(1) f by (cases format) (auto simp: regA_def in_frame_def VRegA_def narrow Fetch16_def)
  show "wb \<noteq> 0 \<Longrightarrow> regB format i + wb \<le> n"
    using w(2) f by (cases format) (auto simp: regB_def in_frame_def VRegB_def narrow Fetch16_def)
  show "wc \<noteq> 0 \<Longrightarrow> c23x i + wc \<le> n"
    using w(3) f needs_formats(4)[OF assms(2)] by (auto simp: in_frame_def VRegC_def narrow Fetch16_def)
qed

section \<open>Instructions that run\<close>

text \<open>A computation that has a result.\<close>

definition gives :: "('a \<Rightarrow> bool) \<Rightarrow> 'a option \<Rightarrow> bool" where
  "gives Q m \<longleftrightarrow> (\<exists>r. m = Some r \<and> Q r)"

named_theorems gives_intros

lemma gives_Some [gives_intros]: "Q r \<Longrightarrow> gives Q (Some r)"
  by (simp add: gives_def)

lemma gives_bind [gives_intros]: "gives (\<lambda>x. gives Q (k x)) m \<Longrightarrow> gives Q (m \<bind> k)"
  by (auto simp: gives_def)

lemma gives_map [gives_intros]: "gives (\<lambda>x. Q (f x)) m \<Longrightarrow> gives Q (map_option f m)"
  by (auto simp: gives_def)

lemma gives_if [gives_intros]: "(c \<Longrightarrow> gives Q a) \<Longrightarrow> (\<not> c \<Longrightarrow> gives Q b) \<Longrightarrow> gives Q (if c then a else b)"
  by simp

lemma gives_prod [gives_intros]: "(\<And>a b. x = (a, b) \<Longrightarrow> gives Q (f a b)) \<Longrightarrow> gives Q (case x of (a, b) \<Rightarrow> f a b)"
  by (cases x) simp

lemma gives_option [gives_intros]:
  "(x = None \<Longrightarrow> gives Q a) \<Longrightarrow> (\<And>y. x = Some y \<Longrightarrow> gives Q (f y)) \<Longrightarrow> gives Q (case x of None \<Rightarrow> a | Some y \<Rightarrow> f y)"
  by (cases x) simp_all

lemma VisitShadowFrame_gives: "frame_ok f \<Longrightarrow> gives frame_ok (VisitShadowFrame fwd f)"
  using VisitShadowFrame_loop_ok[of f 0 fwd] by (auto simp: gives_def VisitShadowFrame_def VisitMonitors_def frame_ok_def)

lemma call_gives:
  assumes "frame_ok (frame s)" "\<And>r s'. frame_ok (frame s') \<Longrightarrow> Q (r, s')"
  shows "gives Q (call f s)"
proof -
  obtain r h fwd e where f: "f (heap s) (exception s) = (r, h, fwd, e)" by (metis prod.collapse)
  obtain fr where "VisitShadowFrame fwd (frame s) = Some fr" "frame_ok fr"
    using VisitShadowFrame_gives[OF assms(1), of fwd] by (auto simp: gives_def)
  then show ?thesis using assms(2)[of "s\<lparr>heap := h, exception := e, frame := fr\<rparr>" r] by (simp add: gives_def call_def call_out_def f)
qed

text \<open>Registers that can be read and written.\<close>

definition readable :: "(ShadowFrame \<Rightarrow> nat \<Rightarrow> 'v option) \<Rightarrow> nat \<Rightarrow> bool" where
  "readable get w \<longleftrightarrow> (\<forall>f i. frame_ok f \<longrightarrow> i + w \<le> number_of_vregs f \<longrightarrow> get f i \<noteq> None)"

definition writable :: "(ShadowFrame \<Rightarrow> nat \<Rightarrow> 'v \<Rightarrow> ShadowFrame option) \<Rightarrow> nat \<Rightarrow> bool" where
  "writable put w \<longleftrightarrow> (\<forall>f i v. frame_ok f \<longrightarrow> i + w \<le> number_of_vregs f \<longrightarrow> put f i v \<noteq> None)"

lemma register_access [intro]:
  "readable GetVReg 1" "readable GetVRegReference 1" "readable GetVRegFloat 1" "readable GetVRegLong 2" "readable GetVRegDouble 2"
  "writable SetVReg 1" "writable SetVRegReference 1" "writable SetVRegFloat 1" "writable SetVRegLong 2" "writable SetVRegDouble 2"
  using int_reg.set_in_range reference_reg.set_in_range float_reg.set_in_range long_reg.set_in_range double_reg.set_in_range
  by (auto simp: readable_def writable_def get_eqs SetVRegFloat_eq)

text \<open>A handler that has an outcome whenever the registers that its instruction needs are there.\<close>

definition runs :: "Format \<times> nat \<times> nat \<times> nat \<Rightarrow> 'h handler \<Rightarrow> bool" where
  "runs r h \<longleftrightarrow> (\<forall>env pc s. frame_ok (frame s) \<longrightarrow> \<not> HasDexPcListeners (instr env) (heap s) \<longrightarrow> needs (Opcode (cur env s)) = r \<longrightarrow>
     regs_fit (number_of_vregs (frame s)) (cur env s) \<longrightarrow> h env pc s \<noteq> None)"

lemma runs_PREAMBLE: "runs r h \<Longrightarrow> runs r (PREAMBLE_SAVE b h)"
  by (auto simp: runs_def PREAMBLE_SAVE_def)

lemma runs_on_frame:
  assumes "\<And>i f. frame_ok f \<Longrightarrow> needs (Opcode i) = r \<Longrightarrow> regs_fit (number_of_vregs f) i \<Longrightarrow> upd i f \<noteq> None"
  shows "runs r (on_frame n upd)"
  unfolding runs_def on_frame_def using assms by (auto simp: bind_eq_None_conv)

lemma registers_there:
  assumes "regs_fit n i" "needs (Opcode i) = (format, wa, wb, wc)" "frame_ok f" "number_of_vregs f = n"
  shows "wa \<noteq> 0 \<Longrightarrow> readable get wa \<Longrightarrow> \<exists>v. get f (regA format i) = Some v" "wb \<noteq> 0 \<Longrightarrow> readable get wb \<Longrightarrow> \<exists>v. get f (regB format i) = Some v"
    "wc \<noteq> 0 \<Longrightarrow> readable get wc \<Longrightarrow> \<exists>v. get f (c23x i) = Some v" "wa \<noteq> 0 \<Longrightarrow> writable put wa \<Longrightarrow> put f (regA format i) x \<noteq> None"
  using regs_in_format[OF assms(1,2)] assms(3,4) unfolding readable_def writable_def by blast+

lemma runs_move:
  assumes "wa \<noteq> 0" "wb \<noteq> 0" "readable get wb" "writable put wa" "\<And>i. a i = regA format i" "\<And>i. b i = regB format i"
  shows "runs (format, wa, wb, 0) (move_reg get put n a b)"
  unfolding move_reg_def
proof (rule runs_on_frame)
  fix i f assume "frame_ok f" "needs (Opcode i) = (format, wa, wb, 0)" "regs_fit (number_of_vregs f) i"
  note r = registers_there[OF this(3,2,1) refl]
  obtain v where "get f (regB format i) = Some v" using r(2)[OF assms(2,3)] by blast
  then show "get f (b i) \<bind> put f (a i) \<noteq> None" using r(4)[OF assms(1,4)] by (simp add: assms(5,6))
qed

lemma runs_unary:
  assumes "wa \<noteq> 0" "wb \<noteq> 0" "readable get wb" "writable put wa"
  shows "runs (k12x, wa, wb, 0) (unary_op get put op)"
  unfolding unary_op_def
proof (rule runs_on_frame)
  fix i f assume "frame_ok f" "needs (Opcode i) = (k12x, wa, wb, 0)" "regs_fit (number_of_vregs f) i"
  note r = registers_there[OF this(3,2,1) refl, unfolded regA_def regB_def Format.case]
  obtain v where "get f (b12x i) = Some v" using r(2)[OF assms(2,3)] by blast
  then show "get f (b12x i) \<bind> (\<lambda>v. put f (a12x i) (op v)) \<noteq> None" using r(4)[OF assms(1,4)] by simp
qed

lemma runs_binary:
  assumes "wa \<noteq> 0" "wb \<noteq> 0" "wc \<noteq> 0" "readable get1 wb" "readable get2 wc" "writable put wa"
  shows "runs (k23x, wa, wb, wc) (binary_op get1 get2 put op)"
  unfolding binary_op_def
proof (rule runs_on_frame)
  fix i f assume "frame_ok f" "needs (Opcode i) = (k23x, wa, wb, wc)" "regs_fit (number_of_vregs f) i"
  note r = registers_there[OF this(3,2,1) refl, unfolded regA_def regB_def Format.case]
  obtain x y where "get1 f (b23x i) = Some x" "get2 f (c23x i) = Some y" using r(2)[OF assms(2,4)] r(3)[OF assms(3,5)] by blast
  then show "get1 f (b23x i) \<bind> (\<lambda>x. get2 f (c23x i) \<bind> (\<lambda>y. put f (a23x i) (op x y))) \<noteq> None" using r(4)[OF assms(1,6)] by simp
qed

lemma runs_2addr:
  assumes "wa \<noteq> 0" "wb \<noteq> 0" "readable get1 wa" "readable get2 wb" "writable put wa"
  shows "runs (k12x, wa, wb, 0) (binary_op_2addr get1 get2 put op)"
  unfolding binary_op_2addr_def
proof (rule runs_on_frame)
  fix i f assume "frame_ok f" "needs (Opcode i) = (k12x, wa, wb, 0)" "regs_fit (number_of_vregs f) i"
  note r = registers_there[OF this(3,2,1) refl, unfolded regA_def regB_def Format.case]
  obtain x y where "get1 f (a12x i) = Some x" "get2 f (b12x i) = Some y" using r(1)[OF assms(1,3)] r(2)[OF assms(2,4)] by blast
  then show "get1 f (a12x i) \<bind> (\<lambda>x. get2 f (b12x i) \<bind> (\<lambda>y. put f (a12x i) (op x y))) \<noteq> None" using r(4)[OF assms(1,5)] by simp
qed

lemma runs_literal: "runs (k22s, 1, 1, 0) (lit16_op op16)" "runs (k22b, 1, 1, 0) (lit8_op op8)"
  unfolding lit16_op_def lit8_op_def
  by (rule runs_on_frame; use registers_there(2,4)[OF _ _ _ refl, of _ _ _ "Suc 0" "Suc 0" 0] register_access in
      \<open>fastforce simp: regA_def regB_def bind_eq_None_conv\<close>)+

lemma runs_put:
  assumes "wa \<noteq> 0" "writable put wa" "\<And>i. a i = regA format i"
  shows "runs (format, wa, 0, 0) (on_frame n (\<lambda>i f. put f (a i) (x i)))"
  by (rule runs_on_frame) (use registers_there(4)[OF _ _ _ refl assms(1,2)] in \<open>simp add: assms(3)\<close>)

lemma runs_put_state:
  assumes "wa \<noteq> 0" "writable put wa" "\<And>i. a i = regA format i"
  shows "runs (format, wa, 0, 0) (\<lambda>env pc s. on_frame n (\<lambda>i f. put f (a i) (x s)) env pc s)"
  using runs_put[OF assms] unfolding runs_def by fast

lemma runs_const:
  assumes "\<And>i. a i = regA format i"
  shows "runs (format, 1, 0, 0) (const_op n a val)"
  unfolding const_op_def
proof (rule runs_on_frame)
  fix i f assume f: "frame_ok f" and "needs (Opcode i) = (format, 1, 0, 0)" "regs_fit (number_of_vregs f) i"
  then have i: "a i + 1 \<le> number_of_vregs f" using regs_in_format(1)[of "number_of_vregs f" i format 1 0 0] by (simp add: assms)
  obtain f1 where f1: "SetVReg f (a i) (val i) = Some f1" using int_reg.set_in_range[OF f i] by blast
  then show "SetVReg f (a i) (val i) \<bind> (\<lambda>f. if val i = 0 then SetVRegReference f (a i) 0 else Some f) \<noteq> None"
    using int_reg.set_ok[OF f f1] reference_reg.set_in_range[of f1 "a i" 0] i by simp
qed

lemma runs_nop: "runs r (on_frame n (\<lambda>i. Some))"
  by (rule runs_on_frame) simp

section \<open>Branches\<close>

lemma BRANCH_INSTRUMENTATION_gives:
  "frame_ok (frame s) \<Longrightarrow> gives (\<lambda>r. frame_ok (frame (final r))) (BRANCH_INSTRUMENTATION offset env pc s)"
  unfolding BRANCH_INSTRUMENTATION_def by (auto intro!: gives_intros call_gives split: if_splits)

lemma andThen_gives:
  assumes "gives (\<lambda>r. frame_ok (frame (final r))) m" "\<And>s. frame_ok (frame s) \<Longrightarrow> k s \<noteq> None"
  shows "andThen m k \<noteq> None"
  using assms by (auto simp: gives_def andThen_def split: outcome.splits)

lemma branch_to_gives: "frame_ok (frame s) \<Longrightarrow> branch_to offset env pc s \<noteq> None"
proof -
  have "gives (\<lambda>_. True) (HANDLE_BACKWARD_BRANCH offset env pc s)" if "frame_ok (frame s)" for s
    using that unfolding HANDLE_BACKWARD_BRANCH_def HOTNESS_UPDATE_def by (auto intro!: gives_intros call_gives)
  then show "frame_ok (frame s) \<Longrightarrow> ?thesis"
    unfolding branch_to_def by (intro andThen_gives BRANCH_INSTRUMENTATION_gives) (auto simp: gives_def)
qed

lemma branch_if_gives: "frame_ok (frame s) \<Longrightarrow> branch_if t offset env pc s \<noteq> None"
  by (cases t; simp only: branch_if_def if_True if_False) (rule branch_to_gives, assumption, rule andThen_gives, rule BRANCH_INSTRUMENTATION_gives, simp_all)

lemma runs_branch: "runs r (goto offset)" "runs (k31t, 1, 0, 0) (switch_op op)" "runs (k22t, 1, 1, 0) (if_op rel)" "runs (k21t, 1, 0, 0) (ifz_op rel)"
proof -
  show "runs r (goto offset)" unfolding runs_def goto_def using branch_to_gives by blast
  show "runs (k31t, 1, 0, 0) (switch_op op)"
    unfolding runs_def switch_op_def
    using registers_there(1)[OF _ _ _ refl, of _ _ k31t 1 0 0 GetVReg] register_access(1) branch_to_gives
    by (fastforce simp: regA_def bind_eq_None_conv)
  show "runs (k22t, 1, 1, 0) (if_op rel)"
    unfolding runs_def if_op_def
    using registers_there(1,2)[OF _ _ _ refl, of _ _ k22t 1 1 0 GetVReg] register_access(1) branch_if_gives
    by (fastforce simp: regA_def regB_def bind_eq_None_conv)
  show "runs (k21t, 1, 0, 0) (ifz_op rel)"
    unfolding runs_def ifz_op_def
    using registers_there(1)[OF _ _ _ refl, of _ _ k21t 1 0 0 GetVReg] register_access(1) branch_if_gives
    by (fastforce simp: regA_def bind_eq_None_conv)
qed

section \<open>The tables of cases\<close>

text \<open>An instruction that can neither throw nor return; \<open>move-exception\<close> is left out because it needs a pending exception.\<close>

definition silent :: "Code \<Rightarrow> bool" where
  "silent c \<longleftrightarrow> FlagsOf c AND (kThrow OR kReturn) = 0 \<and> c \<noteq> MOVE_EXCEPTION"

definition needs_list :: "(Format \<times> nat \<times> nat \<times> nat) list" where
  "needs_list = [
     (k10x, 0, 0, 0), (k12x, 1, 1, 0), (k22x, 1, 1, 0), (k32x, 1, 1, 0), (k12x, 2, 2, 0), (k22x, 2, 2, 0), (k32x, 2, 2, 0),
     (k12x, 1, 1, 0), (k22x, 1, 1, 0), (k32x, 1, 1, 0), (k11x, 1, 0, 0), (k11x, 2, 0, 0), (k11x, 1, 0, 0), (k11x, 1, 0, 0),
     (k10x, 0, 0, 0), (k11x, 1, 0, 0), (k11x, 2, 0, 0), (k11x, 1, 0, 0), (k11n, 1, 0, 0), (k21s, 1, 0, 0), (k31i, 1, 0, 0),
     (k21h, 1, 0, 0), (k21s, 2, 0, 0), (k31i, 2, 0, 0), (k51l, 2, 0, 0), (k21h, 2, 0, 0), (k21c, 1, 0, 0), (k31c, 1, 0, 0),
     (k21c, 1, 0, 0), (k11x, 1, 0, 0), (k11x, 1, 0, 0), (k21c, 1, 0, 0), (k22c, 1, 1, 0), (k12x, 1, 1, 0), (k21c, 1, 0, 0),
     (k22c, 1, 1, 0), (k35c, 0, 0, 0), (k3rc, 0, 0, 0), (k31t, 1, 0, 0), (k11x, 1, 0, 0), (k10t, 0, 0, 0), (k20t, 0, 0, 0),
     (k30t, 0, 0, 0), (k31t, 1, 0, 0), (k31t, 1, 0, 0), (k23x, 1, 1, 1), (k23x, 1, 1, 1), (k23x, 1, 2, 2), (k23x, 1, 2, 2),
     (k23x, 1, 2, 2), (k22t, 1, 1, 0), (k22t, 1, 1, 0), (k22t, 1, 1, 0), (k22t, 1, 1, 0), (k22t, 1, 1, 0), (k22t, 1, 1, 0),
     (k21t, 1, 0, 0), (k21t, 1, 0, 0), (k21t, 1, 0, 0), (k21t, 1, 0, 0), (k21t, 1, 0, 0), (k21t, 1, 0, 0), (k10x, 0, 0, 0),
     (k10x, 0, 0, 0), (k10x, 0, 0, 0), (k10x, 0, 0, 0), (k10x, 0, 0, 0), (k10x, 0, 0, 0), (k23x, 1, 1, 1), (k23x, 2, 1, 1),
     (k23x, 1, 1, 1), (k23x, 1, 1, 1), (k23x, 1, 1, 1), (k23x, 1, 1, 1), (k23x, 1, 1, 1), (k23x, 1, 1, 1), (k23x, 2, 1, 1),
     (k23x, 1, 1, 1), (k23x, 1, 1, 1), (k23x, 1, 1, 1), (k23x, 1, 1, 1), (k23x, 1, 1, 1), (k22c, 1, 1, 0), (k22c, 2, 1, 0),
     (k22c, 1, 1, 0), (k22c, 1, 1, 0), (k22c, 1, 1, 0), (k22c, 1, 1, 0), (k22c, 1, 1, 0), (k22c, 1, 1, 0), (k22c, 2, 1, 0),
     (k22c, 1, 1, 0), (k22c, 1, 1, 0), (k22c, 1, 1, 0), (k22c, 1, 1, 0), (k22c, 1, 1, 0), (k21c, 1, 0, 0), (k21c, 2, 0, 0),
     (k21c, 1, 0, 0), (k21c, 1, 0, 0), (k21c, 1, 0, 0), (k21c, 1, 0, 0), (k21c, 1, 0, 0), (k21c, 1, 0, 0), (k21c, 2, 0, 0),
     (k21c, 1, 0, 0), (k21c, 1, 0, 0), (k21c, 1, 0, 0), (k21c, 1, 0, 0), (k21c, 1, 0, 0), (k35c, 0, 0, 0), (k35c, 0, 0, 0),
     (k35c, 0, 0, 0), (k35c, 0, 0, 0), (k35c, 0, 0, 0), (k10x, 0, 0, 0), (k3rc, 0, 0, 0), (k3rc, 0, 0, 0), (k3rc, 0, 0, 0),
     (k3rc, 0, 0, 0), (k3rc, 0, 0, 0), (k10x, 0, 0, 0), (k10x, 0, 0, 0), (k12x, 1, 1, 0), (k12x, 1, 1, 0), (k12x, 2, 2, 0),
     (k12x, 2, 2, 0), (k12x, 1, 1, 0), (k12x, 2, 2, 0), (k12x, 2, 1, 0), (k12x, 1, 1, 0), (k12x, 2, 1, 0), (k12x, 1, 2, 0),
     (k12x, 1, 2, 0), (k12x, 2, 2, 0), (k12x, 1, 1, 0), (k12x, 2, 1, 0), (k12x, 2, 1, 0), (k12x, 1, 2, 0), (k12x, 2, 2, 0),
     (k12x, 1, 2, 0), (k12x, 1, 1, 0), (k12x, 1, 1, 0), (k12x, 1, 1, 0), (k23x, 1, 1, 1), (k23x, 1, 1, 1), (k23x, 1, 1, 1),
     (k23x, 1, 1, 1), (k23x, 1, 1, 1), (k23x, 1, 1, 1), (k23x, 1, 1, 1), (k23x, 1, 1, 1), (k23x, 1, 1, 1), (k23x, 1, 1, 1),
     (k23x, 1, 1, 1), (k23x, 2, 2, 2), (k23x, 2, 2, 2), (k23x, 2, 2, 2), (k23x, 2, 2, 2), (k23x, 2, 2, 2), (k23x, 2, 2, 2),
     (k23x, 2, 2, 2), (k23x, 2, 2, 2), (k23x, 2, 2, 1), (k23x, 2, 2, 1), (k23x, 2, 2, 1), (k23x, 1, 1, 1), (k23x, 1, 1, 1),
     (k23x, 1, 1, 1), (k23x, 1, 1, 1), (k23x, 1, 1, 1), (k23x, 2, 2, 2), (k23x, 2, 2, 2), (k23x, 2, 2, 2), (k23x, 2, 2, 2),
     (k23x, 2, 2, 2), (k12x, 1, 1, 0), (k12x, 1, 1, 0), (k12x, 1, 1, 0), (k12x, 1, 1, 0), (k12x, 1, 1, 0), (k12x, 1, 1, 0),
     (k12x, 1, 1, 0), (k12x, 1, 1, 0), (k12x, 1, 1, 0), (k12x, 1, 1, 0), (k12x, 1, 1, 0), (k12x, 2, 2, 0), (k12x, 2, 2, 0),
     (k12x, 2, 2, 0), (k12x, 2, 2, 0), (k12x, 2, 2, 0), (k12x, 2, 2, 0), (k12x, 2, 2, 0), (k12x, 2, 2, 0), (k12x, 2, 1, 0),
     (k12x, 2, 1, 0), (k12x, 2, 1, 0), (k12x, 1, 1, 0), (k12x, 1, 1, 0), (k12x, 1, 1, 0), (k12x, 1, 1, 0), (k12x, 1, 1, 0),
     (k12x, 2, 2, 0), (k12x, 2, 2, 0), (k12x, 2, 2, 0), (k12x, 2, 2, 0), (k12x, 2, 2, 0), (k22s, 1, 1, 0), (k22s, 1, 1, 0),
     (k22s, 1, 1, 0), (k22s, 1, 1, 0), (k22s, 1, 1, 0), (k22s, 1, 1, 0), (k22s, 1, 1, 0), (k22s, 1, 1, 0), (k22b, 1, 1, 0),
     (k22b, 1, 1, 0), (k22b, 1, 1, 0), (k22b, 1, 1, 0), (k22b, 1, 1, 0), (k22b, 1, 1, 0), (k22b, 1, 1, 0), (k22b, 1, 1, 0),
     (k22b, 1, 1, 0), (k22b, 1, 1, 0), (k22b, 1, 1, 0), (k22c, 1, 1, 0), (k22c, 2, 1, 0), (k22c, 1, 1, 0), (k22c, 1, 1, 0),
     (k22c, 2, 1, 0), (k22c, 1, 1, 0), (k35c, 0, 0, 0), (k3rc, 0, 0, 0), (k22c, 1, 1, 0), (k22c, 1, 1, 0), (k22c, 1, 1, 0),
     (k22c, 1, 1, 0), (k22c, 1, 1, 0), (k22c, 1, 1, 0), (k22c, 1, 1, 0), (k22c, 1, 1, 0), (k10x, 0, 0, 0), (k10x, 0, 0, 0),
     (k10x, 0, 0, 0), (k10x, 0, 0, 0), (k10x, 0, 0, 0), (k10x, 0, 0, 0), (k10x, 0, 0, 0), (k45cc, 0, 0, 0), (k4rcc, 0, 0, 0),
     (k35c, 0, 0, 0), (k3rc, 0, 0, 0), (k10x, 0, 0, 0), (k10x, 0, 0, 0)]"

text \<open>The opcodes whose flags have kThrow or kReturn, as ranges of the instruction table.\<close>

definition loud_ranges :: "(nat \<times> nat) list" where
  "loud_ranges = [(14, 17), (26, 39), (68, 120), (147, 148), (158, 159), (179, 180), (190, 191), (211, 212), (219, 220), (227, 242),
     (250, 253)]"

definition loud :: "nat \<Rightarrow> bool" where
  "loud n \<longleftrightarrow> list_ex (\<lambda>(first, last). first \<le> n \<and> n \<le> last) loud_ranges"

lemma table_lists:
  "map (\<lambda>(vflags, format, index, flags). needs_of vflags format) DEX_INSTRUCTION_LIST = needs_list"
  "map (\<lambda>(vflags, format, index, flags). flags AND (kThrow OR kReturn) \<noteq> 0) DEX_INSTRUCTION_LIST = map loud [0..<256]"
  by code_simp+

lemma list_nth:
  "needs c = needs_list ! unat c" "\<not> silent c \<longleftrightarrow> loud (unat c) \<or> c = MOVE_EXCEPTION"
proof -
  have c: "unat c < length DEX_INSTRUCTION_LIST" using unsigned_less[where ?'a = nat, of c] by (simp add: length_list)
  show "needs c = needs_list ! unat c" "\<not> silent c \<longleftrightarrow> loud (unat c) \<or> c = MOVE_EXCEPTION"
    using arg_cong[OF table_lists(2), of "\<lambda>xs. xs ! unat c"] c unfolding table_lists(1)[symmetric] nth_map[OF c]
    by (auto simp: length_list needs_def FormatOf_def VerifyFlagsOf_def FlagsOf_def silent_def split: prod.splits)
qed

definition sound :: "Code \<Rightarrow> 'h handler \<Rightarrow> bool" where
  "sound c h \<longleftrightarrow> silent c \<longrightarrow> runs (needs c) h"

lemma soundI: "\<not> silent c \<Longrightarrow> sound c h" "needs c = r \<Longrightarrow> runs r h \<Longrightarrow> sound c h"
  by (simp_all add: sound_def)

lemmas case_runs = runs_PREAMBLE runs_move runs_unary runs_binary runs_2addr runs_literal runs_const runs_nop runs_branch
  runs_put[where put = SetVRegLong] runs_put_state[where put = SetVReg] runs_put_state[where put = SetVRegLong]
  runs_put_state[where put = SetVRegReference] register_access

lemmas case_runs_Suc = case_runs[unfolded One_nat_def]

lemma computing_tables_run:
  "\<forall>(c, h) \<in> set (unary_cases m). sound c h" "\<forall>(c, h) \<in> set int_cases. sound c h" "\<forall>(c, h) \<in> set long_cases. sound c h"
  "\<forall>(c, h) \<in> set (float_cases m). sound c h" "\<forall>(c, h) \<in> set int_2addr_cases. sound c h" "\<forall>(c, h) \<in> set long_2addr_cases. sound c h"
  "\<forall>(c, h) \<in> set (float_2addr_cases m). sound c h" "\<forall>(c, h) \<in> set lit16_cases. sound c h" "\<forall>(c, h) \<in> set lit8_cases. sound c h"
  "\<forall>(c, h) \<in> set compare_cases. sound c h"
  by (simp_all only: arithmetic_tables ball_cases One_nat_def)
    (intro conjI TrueI;
      ((rule soundI(1), simp add: list_nth loud_def loud_ranges_def; fail)
      | (rule soundI(2), (simp add: list_nth needs_list_def; fail), (intro case_runs_Suc; simp add: numeral_2_eq_2; fail))))+

lemma other_tables_run:
  "\<forall>(c, h) \<in> set move_cases. sound c h" "\<forall>(c, h) \<in> set return_cases. sound c h" "\<forall>(c, h) \<in> set const_cases. sound c h"
  "\<forall>(c, h) \<in> set const_object_cases. sound c h" "\<forall>(c, h) \<in> set object_cases. sound c h" "\<forall>(c, h) \<in> set goto_cases. sound c h"
  "\<forall>(c, h) \<in> set if_cases. sound c h" "\<forall>(c, h) \<in> set ifz_cases. sound c h" "\<forall>(c, h) \<in> set aget_cases. sound c h"
  "\<forall>(c, h) \<in> set aput_cases. sound c h" "\<forall>(c, h) \<in> set iget_cases. sound c h" "\<forall>(c, h) \<in> set sget_cases. sound c h"
  "\<forall>(c, h) \<in> set iput_cases. sound c h" "\<forall>(c, h) \<in> set sput_cases. sound c h" "\<forall>(c, h) \<in> set invoke_cases. sound c h"
  by (simp_all only: other_tables ball_cases One_nat_def)
    (intro conjI TrueI;
      ((rule soundI(1), simp add: list_nth loud_def loud_ranges_def; fail)
      | (rule soundI(2), (simp add: list_nth needs_list_def; fail), (intro case_runs_Suc; simp add: numeral_2_eq_2 regA_def regB_def; fail))))+

section \<open>Verified instructions run\<close>

text \<open>The opcodes that the interpreter has a case for.\<close>

definition instruction_codes :: "Code list" where
  "instruction_codes = [
     NOP, MOVE, MOVE_FROM16, MOVE_16, MOVE_WIDE, MOVE_WIDE_FROM16, MOVE_WIDE_16, MOVE_OBJECT, MOVE_OBJECT_FROM16, MOVE_OBJECT_16,
     MOVE_RESULT, MOVE_RESULT_WIDE, MOVE_RESULT_OBJECT, MOVE_EXCEPTION, RETURN_VOID_NO_BARRIER, RETURN_VOID, RETURN, RETURN_WIDE,
     RETURN_OBJECT, CONST_4, CONST_16, CONST_insn, CONST_HIGH16, CONST_WIDE_16, CONST_WIDE_32, CONST_WIDE, CONST_WIDE_HIGH16,
     CONST_STRING, CONST_STRING_JUMBO, CONST_CLASS, MONITOR_ENTER, MONITOR_EXIT, CHECK_CAST, INSTANCE_OF, ARRAY_LENGTH, NEW_INSTANCE,
     NEW_ARRAY, FILLED_NEW_ARRAY, FILLED_NEW_ARRAY_RANGE, FILL_ARRAY_DATA, THROW, GOTO, GOTO_16, GOTO_32, PACKED_SWITCH,
     SPARSE_SWITCH, CMPL_FLOAT, CMPG_FLOAT, CMPL_DOUBLE, CMPG_DOUBLE, CMP_LONG, IF_EQ, IF_NE, IF_LT, IF_GE, IF_GT, IF_LE, IF_EQZ,
     IF_NEZ, IF_LTZ, IF_GEZ, IF_GTZ, IF_LEZ, AGET_BOOLEAN, AGET_BYTE, AGET_CHAR, AGET_SHORT, AGET, AGET_WIDE, AGET_OBJECT,
     APUT_BOOLEAN, APUT_BYTE, APUT_CHAR, APUT_SHORT, APUT, APUT_WIDE, APUT_OBJECT, IGET_BOOLEAN, IGET_BYTE, IGET_CHAR, IGET_SHORT,
     IGET, IGET_WIDE, IGET_OBJECT, IGET_QUICK, IGET_WIDE_QUICK, IGET_OBJECT_QUICK, IGET_BOOLEAN_QUICK, IGET_BYTE_QUICK,
     IGET_CHAR_QUICK, IGET_SHORT_QUICK, SGET_BOOLEAN, SGET_BYTE, SGET_CHAR, SGET_SHORT, SGET, SGET_WIDE, SGET_OBJECT, IPUT_BOOLEAN,
     IPUT_BYTE, IPUT_CHAR, IPUT_SHORT, IPUT, IPUT_WIDE, IPUT_OBJECT, IPUT_QUICK, IPUT_BOOLEAN_QUICK, IPUT_BYTE_QUICK, IPUT_CHAR_QUICK,
     IPUT_SHORT_QUICK, IPUT_WIDE_QUICK, IPUT_OBJECT_QUICK, SPUT_BOOLEAN, SPUT_BYTE, SPUT_CHAR, SPUT_SHORT, SPUT, SPUT_WIDE,
     SPUT_OBJECT, INVOKE_VIRTUAL, INVOKE_VIRTUAL_RANGE, INVOKE_SUPER, INVOKE_SUPER_RANGE, INVOKE_DIRECT, INVOKE_DIRECT_RANGE,
     INVOKE_INTERFACE, INVOKE_INTERFACE_RANGE, INVOKE_STATIC, INVOKE_STATIC_RANGE, INVOKE_VIRTUAL_QUICK, INVOKE_VIRTUAL_RANGE_QUICK,
     INVOKE_POLYMORPHIC, INVOKE_POLYMORPHIC_RANGE, INVOKE_CUSTOM, INVOKE_CUSTOM_RANGE, NEG_INT, NOT_INT, NEG_LONG, NOT_LONG,
     NEG_FLOAT, NEG_DOUBLE, INT_TO_LONG, INT_TO_FLOAT, INT_TO_DOUBLE, LONG_TO_INT, LONG_TO_FLOAT, LONG_TO_DOUBLE, FLOAT_TO_INT,
     FLOAT_TO_LONG, FLOAT_TO_DOUBLE, DOUBLE_TO_INT, DOUBLE_TO_LONG, DOUBLE_TO_FLOAT, INT_TO_BYTE, INT_TO_CHAR, INT_TO_SHORT, ADD_INT,
     SUB_INT, MUL_INT, DIV_INT, REM_INT, SHL_INT, SHR_INT, USHR_INT, AND_INT, OR_INT, XOR_INT, ADD_LONG, SUB_LONG, MUL_LONG, DIV_LONG,
     REM_LONG, AND_LONG, OR_LONG, XOR_LONG, SHL_LONG, SHR_LONG, USHR_LONG, ADD_FLOAT, SUB_FLOAT, MUL_FLOAT, DIV_FLOAT, REM_FLOAT,
     ADD_DOUBLE, SUB_DOUBLE, MUL_DOUBLE, DIV_DOUBLE, REM_DOUBLE, ADD_INT_2ADDR, SUB_INT_2ADDR, MUL_INT_2ADDR, DIV_INT_2ADDR,
     REM_INT_2ADDR, SHL_INT_2ADDR, SHR_INT_2ADDR, USHR_INT_2ADDR, AND_INT_2ADDR, OR_INT_2ADDR, XOR_INT_2ADDR, ADD_LONG_2ADDR,
     SUB_LONG_2ADDR, MUL_LONG_2ADDR, DIV_LONG_2ADDR, REM_LONG_2ADDR, AND_LONG_2ADDR, OR_LONG_2ADDR, XOR_LONG_2ADDR, SHL_LONG_2ADDR,
     SHR_LONG_2ADDR, USHR_LONG_2ADDR, ADD_FLOAT_2ADDR, SUB_FLOAT_2ADDR, MUL_FLOAT_2ADDR, DIV_FLOAT_2ADDR, REM_FLOAT_2ADDR,
     ADD_DOUBLE_2ADDR, SUB_DOUBLE_2ADDR, MUL_DOUBLE_2ADDR, DIV_DOUBLE_2ADDR, REM_DOUBLE_2ADDR, ADD_INT_LIT16, RSUB_INT, MUL_INT_LIT16,
     DIV_INT_LIT16, REM_INT_LIT16, AND_INT_LIT16, OR_INT_LIT16, XOR_INT_LIT16, ADD_INT_LIT8, RSUB_INT_LIT8, MUL_INT_LIT8,
     DIV_INT_LIT8, REM_INT_LIT8, AND_INT_LIT8, OR_INT_LIT8, XOR_INT_LIT8, SHL_INT_LIT8, SHR_INT_LIT8, USHR_INT_LIT8]"

lemma instruction_codes: "map fst (instruction_cases m) = instruction_codes"
  by (simp add: instruction_cases_def arithmetic_tables other_tables instruction_codes_def)

fun within :: "'a list \<Rightarrow> 'a list \<Rightarrow> bool" where
  "within [] ys \<longleftrightarrow> True"
| "within (x # xs) [] \<longleftrightarrow> False"
| "within (x # xs) (y # ys) \<longleftrightarrow> (if x = y then within xs ys else within (x # xs) ys)"

lemma within_set: "within xs ys \<Longrightarrow> x \<in> set xs \<Longrightarrow> x \<in> set ys"
  by (induction xs ys rule: within.induct) (auto split: if_splits)

definition silent_row :: "u32 \<times> Format \<times> IndexType \<times> u8 \<Rightarrow> bool" where
  "silent_row = (\<lambda>(vflags, format, index, flags). flags AND (kThrow OR kReturn) = 0 \<and> extra_flags vflags \<noteq> kVerifyError)"

definition silent_codes :: "Code list" where
  "silent_codes = map fst (filter (\<lambda>(c, r). silent_row r) (zip (map word_of_int [0..255]) DEX_INSTRUCTION_LIST))"

text \<open>The cases of the interpreter are in the order of the opcodes except for six of them.\<close>

definition late_codes :: "Code list" where
  "late_codes = [AND_INT, OR_INT, XOR_INT, AND_INT_2ADDR, OR_INT_2ADDR, XOR_INT_2ADDR]"

lemma silent_rows: "within (filter (\<lambda>c. c \<notin> set late_codes) silent_codes) instruction_codes" "within late_codes instruction_codes"
  by code_simp+

lemma silent_case:
  assumes "silent c" "extra_of c \<noteq> kVerifyError"
  obtains h :: "'h handler" where "(c, h) \<in> set (instruction_cases m)"
proof -
  have "silent_row (DEX_INSTRUCTION_LIST ! unat c)"
    using assms by (auto simp: silent_row_def silent_def extra_of_def FlagsOf_def VerifyFlagsOf_def split: prod.splits)
  then have "c \<in> set silent_codes" using codes_of_rows[OF refl, of silent_row c] unfolding silent_codes_def by blast
  then have "c \<in> set instruction_codes"
    using within_set[OF silent_rows(1), of c] within_set[OF silent_rows(2), of c] by auto
  then have "c \<in> set (map fst (instruction_cases m :: (Code \<times> 'h handler) list))" unfolding instruction_codes .
  then show ?thesis using that by auto
qed

lemma verified_no_error:
  assumes "verified i ci" "insn_start ci k"
  shows "extra_of (Opcode (inst_at ci (int k))) \<noteq> kVerifyError"
proof
  assume e: "extra_of (Opcode (inst_at ci (int k))) = kVerifyError"
  obtain v v' where "VerifyInstruction (\<not> is_aot_compiler i \<or> verify_to_dump i) i ci (inst_at ci (int k)) (of_nat k) v = Some (True, v')"
    using assms unfolding verified_def by blast
  from VerifyInstruction_True[OF this] obtain v4 where
    "VerifyExtra i ci (inst_at ci (int k)) (of_nat k) (True, v4) = Some (Inr (True, v'))" by blast
  then show False using e by (simp add: VerifyExtra_def GetVerifyExtraFlags_of Let_def)
qed

lemma silent_step:
  fixes env :: "'h env"
  assumes "verified i ci" "insns env = code_units ci" "insn_start ci k" "inst s = int k" "frame_ok (frame s)"
    and "number_of_vregs (frame s) = unat (registers_size ci)" "silent (Opcode (cur env s))" "\<not> HasDexPcListeners (instr env) (heap s)"
  shows "step env s \<noteq> None"
proof -
  let ?c = "Opcode (cur env s)"
  have cur: "cur env s = inst_at ci (int k)" by (simp add: cur_def inst_at_def assms(2,4))
  obtain h :: "'h handler" where h: "(?c, h) \<in> set (instruction_cases (fp env))"
    using silent_case[OF assms(7)] verified_no_error[OF assms(1,3)] unfolding cur by blast
  have "\<forall>(c, h) \<in> set (instruction_cases (fp env) :: (Code \<times> 'h handler) list). sound c h"
    unfolding instruction_cases_def set_append ball_Un by (intro conjI computing_tables_run other_tables_run)
  then have "runs (needs ?c) h" using h assms(7) by (auto simp: sound_def)
  then have "h env (GetDexPc s) (stop_at (GetDexPc s) s) \<noteq> None"
    using assms(5,6,8) verified_regs[OF assms(1,3)] unfolding runs_def by (simp add: cur)
  then show ?thesis using step_case[OF h] by simp
qed

text \<open>C2: Verified instructions find their registers.  When the dex file verifier has accepted the code item and the static checks of
  the method verifier succeed, the interpreter runs every instruction that can neither throw nor return, other than
  \<open>move-exception\<close>, to an outcome, in a frame with the number of registers that the code item announces: there is a case for its
  opcode, every register it reads or writes is in the frame, also the second word of a wide one, and no check of the code fails.\<close>

theorem verified_registers_suffice:
  fixes env :: "'h env"
  assumes "dex_checked d ci" "VerifyStatic i ci v = Some (True, v')" "insns env = code_units ci" "insn_start ci k" "inst s = int k"
    and "frame_ok (frame s)" "number_of_vregs (frame s) = unat (registers_size ci)" "\<not> HasDexPcListeners (instr env) (heap s)"
    and "FlagsOf (Opcode (cur env s)) AND (kThrow OR kReturn) = 0" "Opcode (cur env s) \<noteq> MOVE_EXCEPTION"
  shows "\<exists>r. step env s = Some r"
proof -
  have "insns_size_in_code_units ci \<noteq> 0" using insn_start_less[OF assms(4)] by auto
  then have "verified i ci" using VerifyStatic_returns[OF assms(1), of i v] assms(2) by auto
  then show ?thesis
    using silent_step[OF _ assms(3,4,5,6,7)] assms(8,9,10) by (auto simp: silent_def)
qed

definition wide_item :: CodeItem where
  "wide_item = \<lparr>file_bytes = (\<lambda>p. let bs = [2, 0, 0, 0, 0, 0, 0, 0, 0, 0, 0, 0, 3, 0, 0, 0, 0x16, 0, 7, 0, 0x0e, 0] in if p < length bs then bs ! p else 0), item_at = 0\<rparr>"

definition wide_env :: "unit env" where
  "wide_env = (quiet_env [])\<lparr>insns := code_units wide_item\<rparr>"

lemma wide_static: "map_option fst (VerifyStatic sample_input wide_item MethodVerifier_new) = Some True"
  by code_simp

lemma wide_checked: "dex_checked \<lparr>file_begin = 0, file_size = 22, type_ids_size = 0\<rparr> wide_item"
proof -
  have f: "registers_size wide_item = 2" "ins_size wide_item = 0" "outs_size wide_item = 0" "tries_size wide_item = 0"
    "insns_size_in_code_units wide_item = 3" "item_at wide_item = 0" "insns_address wide_item i = 16 + 2 * i" for i
    by (simp_all add: wide_item_def registers_size_def ins_size_def outs_size_def tries_size_def insns_size_in_code_units_def
        insns_address_def Load16_def Load32_def)
  then show ?thesis by (simp add: dex_checked_def CheckIntraCodeItem_def CheckListSize_def file_end_def Let_def)
qed

theorem verified_registers_suffice_witness:
  "dex_checked \<lparr>file_begin = 0, file_size = 22, type_ids_size = 0\<rparr> wide_item \<and> Opcode (cur wide_env start_state) = CONST_WIDE_16
   \<and> (\<exists>r. step wide_env start_state = Some r)"
proof -
  obtain v where v: "VerifyStatic sample_input wide_item MethodVerifier_new = Some (True, v)" using wide_static by auto
  have s: "inst start_state = int 0" "frame_ok (frame start_state)" by (simp_all add: start_state_def frame_ok_new)
  have n: "number_of_vregs (frame start_state) = 2" by (simp add: start_state_def ShadowFrame_new_def)
  have c: "Opcode (cur wide_env start_state) = CONST_WIDE_16" "unat (registers_size wide_item) = 2"
    "0 < unat (insns_size_in_code_units wide_item)" "FlagsOf CONST_WIDE_16 AND (kThrow OR kReturn) = 0"
    by code_simp+
  have e: "insns wide_env = code_units wide_item" "\<not> HasDexPcListeners (instr wide_env) (heap start_state)"
    by (simp_all add: wide_env_def quiet_env_def quiet_instrumentation_def)
  have "\<exists>r. step wide_env start_state = Some r"
    using verified_registers_suffice[OF wide_checked v e(1) first[OF c(3)] s _ e(2)] n c by simp
  then show ?thesis using wide_checked c(1) by simp
qed

end
