(* ===== verification/Spec2Isabelle.thy ===== *)
theory Spec2Isabelle
  imports Leb128 Modified_Utf8 Monitor_Properties Interpreter_Float Verified_Registers
begin

text \<open>
  A verification library for the Android runtime: the way of a method from the bytes of a dex file through the verifiers into
  the switch interpreter, the locks that its threads take, and the codecs below.

  \<^bold>\<open>The program.\<close>  A dex file holds the code of methods as code items, in bytes that nobody has checked.  The dex file verifier
  (\<open>runtime/dex_file_verifier.cc\<close>) checks the layout of the file, the method verifier (\<open>runtime/verifier/method_verifier.cc\<close>)
  checks the instructions of each method.  The interpreter (\<open>runtime/interpreter\<close>) then runs the instructions on a shadow frame
  (\<open>shadow_frame.h\<close>) that the garbage collector also reads and updates; an exception goes to the catch handler that
  \<open>ArtMethod::FindCatchBlock\<close> finds in the code item.  Objects carry a lock word (\<open>lock_word.h\<close>) that holds a thin lock, a hash
  code or a reference to a monitor (\<open>monitor.cc\<close>).  All of them use the integer helpers of \<open>base/bit_utils.h\<close> and the encodings of
  \<open>leb128.h\<close> and \<open>utf.cc\<close>.

  \<^bold>\<open>Conventions.\<close>  A C++ integer is a word of its width; signed values are read with \<open>sint\<close>.  A pointer into a buffer is an address
  in a byte memory, a pointer to an instruction is the stream of code units from there on.  A failed check of the code
  (\<open>CHECK\<close>, \<open>DCHECK\<close>, an index outside an array, a null dereference) is \<open>None\<close>, so that a theorem about \<open>Some\<close> also says that no check
  failed.  A rejected file or method and a thrown exception are values.  Code that is outside a component (the class linker, the
  heap, instrumentation, floating point arithmetic) is a function in a record of services, which may change the heap, raise an
  exception and move every object; a moving collection is the function that maps old to new addresses.

  \<^bold>\<open>Theories.\<close>
  \<^item> \<open>Art_Prelude\<close>: word types, byte memory, lemmas on masks.
  \<^item> \<open>Bit_Utils\<close> (\<open>base/bit_utils.h\<close>): counting, rounding, rotating and reversing bits.
  \<^item> \<open>Leb128\<close> (\<open>leb128.h\<close>): every encoder and decoder.  The locale \<open>leb_codec\<close> is the contract of an encoding in groups of seven bits;
    both codecs interpret it.  Round trips of values and of sequences, updates in place, and the checked decoders.
  \<^item> \<open>Modified_Utf8\<close> (\<open>utf.cc\<close>, \<open>utf-inl.h\<close>, \<open>utf.h\<close>): conversion, counting, hashing and comparison, which is
    by UTF-16 code units and not, as its name says, by code points.
  \<^item> \<open>Lock_Word\<close> (\<open>lock_word.h\<close>): the formats of the lock word.
  \<^item> \<open>Monitors\<close> (\<open>monitor.cc\<close>): the operations of a monitor as functions on its fields, and the step relation \<open>mstep\<close>, in which each
    critical section of each thread is one step; computing the hash code of an object, deflation and the bits of the collector are steps
    too.  \<open>Monitor_Invariant\<close> has the invariant of all reachable states by rule induction;
    \<open>Monitor_Progress\<close> that no step fails a check and no wakeup is lost; \<open>Monitor_Properties\<close> the properties.
  \<^item> \<open>Dex_Instruction_List\<close>, \<open>Dex_Instruction\<close> (\<open>dex_instruction_list.h\<close>, \<open>dex_instruction-inl.h\<close>): the table of the 256 opcodes and every
    accessor of an operand.
  \<^item> \<open>Shadow_Frame\<close> (\<open>shadow_frame.h\<close>, \<open>thread.cc\<close>): registers and the visit by a moving collector.  The locale \<open>vreg_access\<close> is the contract
    of a register kind; int, float, reference, long and double registers interpret it.
  \<^item> \<open>Interpreter_State\<close>, \<open>Interpreter_Ops\<close>, \<open>Interpreter_Switch\<close> (\<open>interpreter_switch_impl.cc\<close>, \<open>interpreter_common.h\<close>,
    \<open>interpreter_common.cc\<close>, \<open>common_dex_operations.h\<close>, \<open>safe_math.h\<close>, \<open>lock_count_data.h\<close>): the macros, the operations and the cases of the
    switch, as a table from opcodes to handlers.  \<open>ExecuteSwitchImpl\<close> is the loop over \<open>step\<close>.
  \<^item> \<open>Interpreter_Invariant\<close>: the locale \<open>frame_contract\<close> walks once through all handlers for any predicate of frames; its interpretation
    \<open>shape\<close> gives that a run keeps the frame well formed, and how far an instruction moves on.
  \<^item> \<open>Interpreter_Arithmetic\<close>, \<open>Interpreter_Flow\<close>, \<open>Interpreter_Arrays\<close>, \<open>Interpreter_Float\<close>, \<open>Interpreter_Calls\<close>: what the instructions
    compute, against the Java language.  \<open>Interpreter_Calls\<close> has the specifications of a call (\<open>call_spec\<close>: the checked parameters, the frame
    of the callee, the new string of a constructor) and of structured locking (\<open>lock_spec\<close>: a multiset of held locks that follow their
    objects), and that the code refines them whatever the services do.
  \<^item> \<open>Code_Item\<close> (\<open>dex_file.h\<close>, \<open>dex_file.cc\<close>): code items, try items and the catch handler iterator.
  \<^item> \<open>Dex_File_Verifier\<close> (\<open>dex_file_verifier.cc\<close>): the checks of a code item and what an accepted one has.
  \<^item> \<open>Catch_Handlers\<close> (\<open>art_method.cc\<close>): which handler an exception goes to.
  \<^item> \<open>Method_Verifier\<close>, \<open>Verifier_Progress\<close> (\<open>method_verifier.cc\<close>, \<open>instruction_flags.h\<close>): every check before the data flow analysis, and
    that it returns.
  \<^item> \<open>Verified_Execution\<close>, \<open>Verified_Registers\<close>: the verifiers and the interpreter together.  A run of verified code stays on its
    instructions until it goes on from the end of the code or from a table of data, which the static checks allow, and the instructions that cannot throw find their registers in the frame.

  \<^bold>\<open>Loops.\<close>  A loop with a bound is recursion over the bound or \<open>function\<close> with a termination proof.  The interpreter loop, the walk of a
  try block and the walk over the instructions are \<open>partial_function (option)\<close>, so that a loop that does not end is \<open>None\<close>:
  \<open>Verifier_Progress\<close> proves that the walks of the verifier end.  \<open>run\<close>, the interpreter loop with a bound on its turns, serves only to
  evaluate examples; the examples need at most three turns.

  \<^bold>\<open>Bounds.\<close>  The lock count of a monitor is below \<open>2 ^ 31\<close>, where the code aborts.  A dex file is smaller than 4 GiB and has at most 65535
  types, as its header says.

  \<^bold>\<open>Not modelled.\<close>  The data flow analysis of the method verifier (\<open>VerifyCodeFlow\<close>, register types and lines) is a parameter of
  \<open>Verify\<close>: it needs the class hierarchy of the class linker.  Hence nothing is shown of the types of registers, and a run may in
  principle reach the end of the code or the data of a switch; the theorems about runs say so.  The dex file verifier is modelled for code
  items only.  The class linker, the heap and its collectors, JNI, the debugger, JVMTI, images and oat files are services or absent:
  their state is shared with the operating system or with generated code.  The compiler (\<open>compiler\<close>) and its back ends, the JIT, the assembly
  interpreter (\<open>interpreter/mterp\<close>) and the entry points are about machine code of several architectures, for which there is no model here.
  The command line tools (\<open>dex2oat\<close>, \<open>dexdump\<close>, \<open>oatdump\<close>, \<open>profman\<close> and others) read and print files.  Timed waits and interrupts are nondeterministic
  wake-ups; logging, tracing, memory fences and messages of exceptions have no effect on the modelled state and are left out.
  Several theorems about single instructions are for a run without listeners for dex pc events, and the one about exceptions takes the
  resolution of handler classes to be pure; their hypotheses say so.
\<close>

end
